(* ===== verification/Prelude.thy ===== *)
theory Prelude
  imports Main "HOL-Library.Word" "HOL-Library.Monad_Syntax"
begin

unbundle bit_operations_syntax

text \<open>
  The prelude of the development: the machine integers of the C sources, the layout of the
  C bit-field structs, the memory-mapped bus of the MicroBlaze target, busy-wait loops, and
  the block operations \<open>memcpy\<close> and \<open>memset\<close> on a byte-addressed memory.
  Nothing here is specific to one driver.
\<close>

section \<open>Machine integers\<close>

type_synonym u8 = "8 word"
type_synonym u16 = "16 word"
type_synonym u32 = "32 word"
type_synonym u64 = "64 word"

named_theorems layout_simps \<open>offset and width of the register fields the drivers access\<close>
named_theorems bus_simps \<open>effect of the bus primitives on the state fields\<close>
named_theorems wf_intros \<open>preservation of the component invariants\<close>

section \<open>Bit-field structs\<close>

text \<open>
  The drivers describe device registers as unions of a word and a struct of bit-fields. On the
  targets (GCC, little endian) the fields are allocated from the least significant bit
  upwards in declaration order, so such a struct is the list of its field names and widths.
\<close>

type_synonym layout = "(string \<times> nat) list"

fun fld_off :: "layout \<Rightarrow> string \<Rightarrow> nat" where
  "fld_off [] f = 0"
| "fld_off ((g, w) # L) f = (if f = g then 0 else w + fld_off L f)"

fun fld_width :: "layout \<Rightarrow> string \<Rightarrow> nat" where
  "fld_width [] f = 0"
| "fld_width ((g, w) # L) f = (if f = g then w else fld_width L f)"

definition fld_get :: "layout \<Rightarrow> string \<Rightarrow> 'a::len word \<Rightarrow> 'a word" where
  "fld_get L f r = take_bit (fld_width L f) (drop_bit (fld_off L f) r)"

definition fld_set :: "layout \<Rightarrow> string \<Rightarrow> 'a::len word \<Rightarrow> 'a word \<Rightarrow> 'a word" where
  "fld_set L f v r =
     (r AND NOT (push_bit (fld_off L f) (mask (fld_width L f))))
       OR push_bit (fld_off L f) (take_bit (fld_width L f) v)"

text \<open>A one-bit field read as a condition, and a \<open>bool\<close> stored into a field.\<close>

definition fld_on :: "layout \<Rightarrow> string \<Rightarrow> 'a::len word \<Rightarrow> bool" where
  "fld_on L f r \<longleftrightarrow> fld_get L f r \<noteq> 0"

definition layout_wf :: "nat \<Rightarrow> layout \<Rightarrow> bool" where
  "layout_wf n L \<longleftrightarrow> distinct (map fst L) \<and> list_all (\<lambda>(f, w). 0 < w) L
     \<and> sum_list (map snd L) = n"

section \<open>The bus\<close>

text \<open>
  A device register is accessed by volatile loads and stores. What a load returns is decided
  by the hardware, which has seen every bus event so far: the hardware is a function \<open>hw\<close>
  from the history of the bus (latest event first) and the address to the value read. Every
  load and store extends the history, so a register may change from one load to the next.
  Cache maintenance and the effects of calls into the kernel, which is not part of this
  repository (raised signals, the signal mask, published key events, console and journal
  output), and the packets handed to the network stack are events of the same history, so their order relative to the register accesses
  is part of the model.
\<close>

datatype signal = SIGINT | SIGBUS

datatype bus_event =
    Rd u32 u32
  | Wr u32 u32
  | L2Flush u32 u32
  | L2Inval u32 u32
  | L1Inval u32 u32
  | Raise signal
  | PubKey u8 u8
  | SigMask bool "signal set"
  | SigPending "signal set"
  | Out string "u32 list"
  | Jentry string
  | NetInput "u8 list"

type_synonym history = "bus_event list"
type_synonym hw = "history \<Rightarrow> u32 \<Rightarrow> u32"

text \<open>What the kernel reports as pending signals (\<open>_kernel_sigpending\<close>) depends on what it has
  seen so far in the same way.\<close>

type_synonym kern = "history \<Rightarrow> signal set"

record machine =
  bus :: history
  mem :: "u32 \<Rightarrow> u8"

definition emit :: "bus_event \<Rightarrow> 'a machine_scheme \<Rightarrow> 'a machine_scheme" where
  "emit e m = m\<lparr>bus := e # bus m\<rparr>"

definition ld32 :: "hw \<Rightarrow> u32 \<Rightarrow> 'a machine_scheme \<Rightarrow> u32 \<times> 'a machine_scheme" where
  "ld32 hw a m = (hw (bus m) a, emit (Rd a (hw (bus m) a)) m)"

definition st32 :: "u32 \<Rightarrow> u32 \<Rightarrow> 'a machine_scheme \<Rightarrow> 'a machine_scheme" where
  "st32 a v m = emit (Wr a v) m"

text \<open>The keys published to the kernel, in order.\<close>

fun pub_keys :: "history \<Rightarrow> (u8 \<times> u8) list" where
  "pub_keys [] = []"
| "pub_keys (PubKey c k # t) = pub_keys t @ [(c, k)]"
| "pub_keys (_ # t) = pub_keys t"

text \<open>Whether a signal has been raised since it was last unblocked. The kernel keeps a raised
  signal pending until then.\<close>

fun raised :: "signal \<Rightarrow> history \<Rightarrow> bool" where
  "raised g [] = False"
| "raised g (Raise g' # t) = (g = g' \<or> raised g t)"
| "raised g (SigMask False S # t) = (g \<notin> S \<and> raised g t)"
| "raised g (_ # t) = raised g t"

definition kern_ok :: "kern \<Rightarrow> bool" where
  "kern_ok kern \<longleftrightarrow> (\<forall>g t. raised g t \<longrightarrow> g \<in> kern t)"

text \<open>Reading a bit-field of a register loads the register; assigning one loads it, replaces
  the field and stores it back.\<close>

definition ld_fld ::
    "hw \<Rightarrow> layout \<Rightarrow> string \<Rightarrow> u32 \<Rightarrow> 'a machine_scheme \<Rightarrow> u32 \<times> 'a machine_scheme" where
  "ld_fld hw L f a m = (let (v, m) = ld32 hw a m in (fld_get L f v, m))"

definition st_fld ::
    "hw \<Rightarrow> layout \<Rightarrow> string \<Rightarrow> u32 \<Rightarrow> u32 \<Rightarrow> 'a machine_scheme \<Rightarrow> 'a machine_scheme" where
  "st_fld hw L f v a m = (let (r, m) = ld32 hw a m in st32 a (fld_set L f v r) m)"

text \<open>
  A busy-wait loop \<open>while (!stop(reg)) { }\<close> loads the register until the value loaded satisfies
  \<open>stop\<close>. It may run forever: then its value is \<open>None\<close>.
\<close>

partial_function (option) poll :: "hw \<Rightarrow> u32 \<Rightarrow> (u32 \<Rightarrow> bool) \<Rightarrow> history \<Rightarrow> history option" where
  "poll hw a stop t =
     (if stop (hw t a) then Some (Rd a (hw t a) # t) else poll hw a stop (Rd a (hw t a) # t))"

definition await ::
    "hw \<Rightarrow> u32 \<Rightarrow> (u32 \<Rightarrow> bool) \<Rightarrow> 'a machine_scheme \<Rightarrow> 'a machine_scheme option" where
  "await hw a stop m = map_option (\<lambda>t. m\<lparr>bus := t\<rparr>) (poll hw a stop (bus m))"

text \<open>The history after \<open>n\<close> further loads of one register, and the device property a
  busy-wait relies on: some later load satisfies \<open>stop\<close>.\<close>

fun spun :: "hw \<Rightarrow> u32 \<Rightarrow> nat \<Rightarrow> history \<Rightarrow> history" where
  "spun hw a 0 t = t"
| "spun hw a (Suc n) t = spun hw a n (Rd a (hw t a) # t)"

definition responds :: "hw \<Rightarrow> u32 \<Rightarrow> (u32 \<Rightarrow> bool) \<Rightarrow> bool" where
  "responds hw a stop \<longleftrightarrow> (\<forall>t. \<exists>n. stop (hw (spun hw a n t) a))"

section \<open>Blocks of memory\<close>

text \<open>\<open>memcpy\<close> and \<open>memset\<close> on addresses that wrap at 32 bits, as the pointers do.\<close>

definition memcpy :: "u32 \<Rightarrow> u32 \<Rightarrow> u32 \<Rightarrow> (u32 \<Rightarrow> u8) \<Rightarrow> u32 \<Rightarrow> u8" where
  "memcpy dst src n M = (\<lambda>a. if a - dst < n then M (src + (a - dst)) else M a)"

definition memset :: "u32 \<Rightarrow> u8 \<Rightarrow> u32 \<Rightarrow> (u32 \<Rightarrow> u8) \<Rightarrow> u32 \<Rightarrow> u8" where
  "memset dst v n M = (\<lambda>a. if a - dst < n then v else M a)"

text \<open>The \<open>n\<close> bytes from an address on, and a device storing a block of bytes there.\<close>

definition bytes_at :: "(u32 \<Rightarrow> u8) \<Rightarrow> u32 \<Rightarrow> nat \<Rightarrow> u8 list" where
  "bytes_at M a n = map (\<lambda>i. M (a + of_nat i)) [0..<n]"

definition lay_bytes :: "u32 \<Rightarrow> u8 list \<Rightarrow> (u32 \<Rightarrow> u8) \<Rightarrow> u32 \<Rightarrow> u8" where
  "lay_bytes a f M = (\<lambda>x. if unat (x - a) < length f then f ! unat (x - a) else M x)"

section \<open>Lemmas on words\<close>

lemma word_bit_eq_iff: "a = b \<longleftrightarrow> (\<forall>i < LENGTH('a). bit a i = bit b i)" for a b :: "'a::len word"
  by (auto intro: bit_word_eqI)

lemma unat_ucast_up: "LENGTH('a) \<le> LENGTH('b) \<Longrightarrow> unat (ucast (a :: 'a::len word) :: 'b::len word) = unat a"
  by (simp add: unsigned_ucast_eq unsigned_take_bit_eq take_bit_nat_eq_self_iff
      order.strict_trans2 [OF unsigned_less])

lemma ucast_scast_u8 [simp]: "ucast (scast (c :: u8) :: u32) = c"
  by (rule bit_word_eqI) (auto simp: bit_ucast_iff bit_signed_iff min_def intro!: arg_cong [where f = "bit c"])

lemma unat_u8_less: "unat (i :: u8) < 256"
  by (rule unsigned_less [where 'b = 8, simplified])

lemma unat_u32_less: "unat (i :: u32) < 4294967296"
  by (rule unsigned_less [where 'b = 32, simplified])

lemma unat_of_nat_u32: "n \<le> unat (l :: u32) \<Longrightarrow> unat (of_nat n :: u32) = n"
  using unat_u32_less [of l] by (simp add: unat_of_nat)

section \<open>Lemmas on bit-field structs\<close>

lemma fld_off_bound:
  "f \<in> fst ` set L \<Longrightarrow> fld_off L f + fld_width L f \<le> sum_list (map snd L)"
  by (induction L f rule: fld_off.induct) auto

lemma fld_off_beyond_head:
  "f \<noteq> g \<Longrightarrow> w \<le> fld_off ((g, w) # L) f"
  by simp

lemma fld_disjoint:
  "distinct (map fst L) \<Longrightarrow> f \<in> fst ` set L \<Longrightarrow> g \<in> fst ` set L \<Longrightarrow> f \<noteq> g \<Longrightarrow>
     fld_off L f + fld_width L f \<le> fld_off L g \<or> fld_off L g + fld_width L g \<le> fld_off L f"
  by (induction L f rule: fld_off.induct) auto

lemma bit_fld_get:
  "bit (fld_get L f (r :: 'a::len word)) i \<longleftrightarrow> i < fld_width L f \<and> bit r (fld_off L f + i)"
  by (simp add: fld_get_def bit_simps)

lemma bit_fld_set:
  "bit (fld_set L f v (r :: 'a::len word)) i \<longleftrightarrow> i < LENGTH('a) \<and>
     (if fld_off L f \<le> i \<and> i < fld_off L f + fld_width L f
      then bit v (i - fld_off L f) else bit r i)"
  by (auto simp: fld_set_def bit_simps dest: bit_imp_le_length)

lemma fld_on_bit:
  "fld_width L f = 1 \<Longrightarrow> fld_on L f (r :: 'a::len word) \<longleftrightarrow> bit r (fld_off L f)"
  by (simp add: fld_on_def fld_get_def take_bit_eq_0_iff drop_bit_eq_div bit_iff_odd
      take_bit_Suc even_drop_bit_iff_not_bit odd_iff_mod_2_eq_one)

text \<open>
  The contract of a register struct: its fields are distinct, non-empty and fill the \<open>n\<close> bits
  of the register. From it follow the laws every driver relies on when it builds a register
  value field by field.
\<close>

locale reg_layout =
  fixes n :: nat and L :: layout
  assumes wf: "layout_wf n L"
begin

lemma names_distinct: "distinct (map fst L)"
  using wf by (simp add: layout_wf_def)

lemma field_in_reg: "f \<in> fst ` set L \<Longrightarrow> fld_off L f + fld_width L f \<le> n"
  using wf fld_off_bound [of f L] by (simp add: layout_wf_def)

lemma get_set:
  assumes "f \<in> fst ` set L" and "n \<le> LENGTH('a::len)"
  shows "fld_get L f (fld_set L f v (r :: 'a word)) = take_bit (fld_width L f) v"
proof (rule bit_word_eqI)
  fix i
  assume "i < LENGTH('a)"
  from assms field_in_reg have "fld_off L f + fld_width L f \<le> LENGTH('a)"
    by fastforce
  then show "bit (fld_get L f (fld_set L f v r)) i = bit (take_bit (fld_width L f) v) i"
    by (auto simp: bit_fld_get bit_fld_set bit_take_bit_iff)
qed

lemma get_set_other:
  assumes "f \<in> fst ` set L" and "g \<in> fst ` set L" and "f \<noteq> g"
  shows "fld_get L g (fld_set L f v (r :: 'a::len word)) = fld_get L g r"
proof (rule bit_word_eqI)
  fix i
  assume "i < LENGTH('a)"
  from fld_disjoint [OF names_distinct assms]
  show "bit (fld_get L g (fld_set L f v r)) i = bit (fld_get L g r) i"
    by (auto simp: bit_fld_get bit_fld_set dest: bit_imp_le_length)
qed

lemma set_set:
  "fld_set L f v (fld_set L f u (r :: 'a::len word)) = fld_set L f v r"
  by (rule bit_word_eqI) (simp add: bit_fld_set)

end

section \<open>Lemmas on the bus\<close>

lemma bus_emit [bus_simps]: "bus (emit e m) = e # bus m"
  by (simp add: emit_def)

lemma mem_emit [bus_simps]: "mem (emit e m) = mem m"
  by (simp add: emit_def)

lemma poll_now: "stop (hw t a) \<Longrightarrow> poll hw a stop t = Some (Rd a (hw t a) # t)"
  by (simp add: poll.simps)

lemma poll_later:
  "\<not> stop (hw t a) \<Longrightarrow> poll hw a stop t = poll hw a stop (Rd a (hw t a) # t)"
  by (subst poll.simps) simp

text \<open>The loop ends exactly when some later load satisfies the condition.\<close>

lemma poll_spun_returns: "stop (hw (spun hw a n t) a) \<Longrightarrow> \<exists>t'. poll hw a stop t = Some t'"
proof (induction n arbitrary: t)
  case 0
  then show ?case by (simp add: poll_now)
next
  case (Suc n)
  then show ?case
    by (cases "stop (hw t a)") (auto simp: poll_now poll_later)
qed

lemma poll_result:
  assumes "poll hw a stop t = Some t'"
  shows "\<exists>n. stop (hw (spun hw a n t) a) \<and> t' = spun hw a (Suc n) t"
proof (rule poll.raw_induct [where P = "\<lambda>hw a stop t t'.
    \<exists>n. stop (hw (spun hw a n t) a) \<and> t' = spun hw a (Suc n) t", OF _ assms])
  fix f :: "hw \<Rightarrow> u32 \<Rightarrow> (u32 \<Rightarrow> bool) \<Rightarrow> history \<Rightarrow> history option"
  fix hw a stop t t'
  assume IH: "\<And>hw a stop t t'. f hw a stop t = Some t' \<Longrightarrow>
      \<exists>n. stop (hw (spun hw a n t) a) \<and> t' = spun hw a (Suc n) t"
    and eq: "(if stop (hw t a) then Some (Rd a (hw t a) # t)
      else f hw a stop (Rd a (hw t a) # t)) = Some t'"
  show "\<exists>n. stop (hw (spun hw a n t) a) \<and> t' = spun hw a (Suc n) t"
  proof (cases "stop (hw t a)")
    case True
    with eq show ?thesis by (intro exI [of _ 0]) simp
  next
    case False
    with eq have "f hw a stop (Rd a (hw t a) # t) = Some t'" by simp
    from IH [OF this] obtain n where "stop (hw (spun hw a (Suc n) t) a)"
      and "t' = spun hw a (Suc (Suc n)) t" by auto
    then show ?thesis by blast
  qed
qed

lemma responds_poll: "responds hw a stop \<Longrightarrow> \<exists>t'. poll hw a stop t = Some t'"
  by (metis poll_spun_returns responds_def)

lemma responds_await: "responds hw a stop \<Longrightarrow> \<exists>m'. await hw a stop m = Some m'"
  using responds_poll [of hw a stop "bus m"] by (auto simp: await_def)

text \<open>A busy-wait only extends the history with loads of its register.\<close>

lemma spun_append: "\<exists>l. spun hw a n t = l @ t \<and> set l \<subseteq> range (Rd a)"
proof (induction n arbitrary: t)
  case (Suc n)
  from Suc [of "Rd a (hw t a) # t"] obtain l
    where l: "spun hw a n (Rd a (hw t a) # t) = l @ Rd a (hw t a) # t" and "set l \<subseteq> range (Rd a)"
    by blast
  then show ?case by (intro exI [of _ "l @ [Rd a (hw t a)]"]) simp
qed simp

lemma poll_append: "poll hw a stop t = Some t' \<Longrightarrow> \<exists>l. t' = l @ t \<and> set l \<subseteq> range (Rd a)"
  using poll_result spun_append by metis

lemma awaitD:
  assumes "await hw a stop m = Some m'"
  shows "\<exists>l. m' = m\<lparr>bus := l @ bus m\<rparr> \<and> set l \<subseteq> range (Rd a)"
  using assms poll_append [of hw a stop "bus m"] by (auto simp: await_def)

lemma spun_last: "spun hw a (Suc n) t = Rd a (hw (spun hw a n t) a) # spun hw a n t"
  by (induction n arbitrary: t) simp_all

text \<open>The last load of a busy-wait is the one that satisfied its condition.\<close>

lemma await_last:
  assumes "await hw a stop m = Some m'"
  shows "\<exists>l v. m' = m\<lparr>bus := Rd a v # l @ bus m\<rparr> \<and> stop v \<and> v = hw (l @ bus m) a
    \<and> set l \<subseteq> range (Rd a)"
proof -
  from assms obtain t where t: "poll hw a stop (bus m) = Some t" and m': "m' = m\<lparr>bus := t\<rparr>"
    by (auto simp: await_def)
  from poll_result [OF t] obtain n where n: "stop (hw (spun hw a n (bus m)) a)"
    and "t = Rd a (hw (spun hw a n (bus m)) a) # spun hw a n (bus m)"
    unfolding spun_last by blast
  moreover obtain l where "spun hw a n (bus m) = l @ bus m" "set l \<subseteq> range (Rd a)"
    using spun_append by blast
  ultimately show ?thesis using m' by auto
qed

section \<open>Lemmas on memory blocks\<close>

lemma memcpy_at:
  "i < n \<Longrightarrow> memcpy dst src n M (dst + i) = M (src + i)"
  by (simp add: memcpy_def)

lemma memcpy_outside: "\<not> a - dst < n \<Longrightarrow> memcpy dst src n M a = M a"
  by (simp add: memcpy_def)

lemma length_bytes_at [simp]: "length (bytes_at M a n) = n"
  by (simp add: bytes_at_def)

lemma bytes_at_cong:
  "(\<And>i. i < n \<Longrightarrow> M (a + of_nat i) = M' (b + of_nat i)) \<Longrightarrow> bytes_at M a n = bytes_at M' b n"
  by (simp add: bytes_at_def)

lemma bytes_at_lay: "length f \<le> 2 ^ 32 \<Longrightarrow> bytes_at (lay_bytes a f M) a (length f) = f"
  by (intro nth_equalityI) (auto simp: bytes_at_def lay_bytes_def unat_of_nat)

lemma bytes_at_memcpy: "n \<le> unat l \<Longrightarrow> bytes_at (memcpy d s l M) d n = bytes_at M s n"
  using unsigned_less [of l]
  by (intro bytes_at_cong memcpy_at) (simp add: word_less_nat_alt unat_of_nat)

lemma memset_at: "i < n \<Longrightarrow> memset dst v n M (dst + i) = v"
  by (simp add: memset_def)

lemma memset_outside: "\<not> a - dst < n \<Longrightarrow> memset dst v n M a = M a"
  by (simp add: memset_def)

end
