(* ===== verification/Ring.thy ===== *)
theory Ring
  imports Prelude
begin

text \<open>
  Rings with a reading and a writing index. Three drivers keep one: the receive rings of
  the two UART drivers and the receive queue of the ethernet DMA. All three drop the oldest
  entry when a new one arrives and the ring is full. This theory holds the arithmetic of the
  indices they share and, as the locale \<open>drop_oldest\<close>, the contract the drivers provide to
  the services that drain them.
\<close>

section \<open>Index arithmetic\<close>

text \<open>The successor of an index, written as the drivers write it: increment, then compare.\<close>

definition inc :: "nat \<Rightarrow> nat \<Rightarrow> nat" where
  "inc N i = (if i + 1 = N then 0 else i + 1)"

text \<open>The slots from the reading index \<open>c\<close> up to, not including, the writing index \<open>p\<close>.\<close>

definition span :: "nat \<Rightarrow> nat \<Rightarrow> nat \<Rightarrow> nat list" where
  "span N c p = map (\<lambda>i. (c + i) mod N) [0..<(p + N - c) mod N]"

text \<open>The entries of a ring that are still to be read, oldest first.\<close>

definition ring_content :: "'a list \<Rightarrow> nat \<Rightarrow> nat \<Rightarrow> 'a list" where
  "ring_content r c p = map ((!) r) (span (length r) c p)"

text \<open>What a bounded queue that drops its oldest entry holds after \<open>x\<close> arrives.\<close>

definition push_drop :: "nat \<Rightarrow> 'a list \<Rightarrow> 'a \<Rightarrow> 'a list" where
  "push_drop cap q x = (if length q < cap then q else tl q) @ [x]"

datatype 'a qop = Put 'a | Pop

text \<open>The abstract queue run over a sequence of arrivals and removals: what it holds, what has
  been removed and how many entries were dropped.\<close>

fun spec_run :: "nat \<Rightarrow> 'a qop list \<Rightarrow> 'a list \<times> 'a list \<times> nat \<Rightarrow> 'a list \<times> 'a list \<times> nat" where
  "spec_run cap [] z = z"
| "spec_run cap (Put x # ops) (q, out, lost) =
     spec_run cap ops (push_drop cap q x, out, if length q < cap then lost else Suc lost)"
| "spec_run cap (Pop # ops) (q, out, lost) =
     (case q of [] \<Rightarrow> spec_run cap ops (q, out, lost)
      | x # q' \<Rightarrow> spec_run cap ops (q', out @ [x], lost))"

text \<open>The same sequence run on an implementation, given by its emptiness test, its \<open>put\<close>, and the
  \<open>first\<close> and \<open>pop\<close> halves of its read: the final state and the entries read.\<close>

fun queue_run ::
    "('s \<Rightarrow> bool) \<Rightarrow> ('a \<Rightarrow> 's \<Rightarrow> 's) \<Rightarrow> ('s \<Rightarrow> 'a) \<Rightarrow> ('s \<Rightarrow> 's) \<Rightarrow>
      'a qop list \<Rightarrow> 's \<times> 'a list \<Rightarrow> 's \<times> 'a list" where
  "queue_run emp put first pop [] z = z"
| "queue_run emp put first pop (Put x # ops) (s, out) =
     queue_run emp put first pop ops (put x s, out)"
| "queue_run emp put first pop (Pop # ops) (s, out) =
     queue_run emp put first pop ops (if emp s then (s, out) else (pop s, out @ [first s]))"

section \<open>Lemmas on the indices\<close>

lemma inc_less: "i < N \<Longrightarrow> inc N i < N"
  by (simp add: inc_def)

lemma inc_mod: "i < N \<Longrightarrow> inc N i = (i + 1) mod N"
  by (simp add: inc_def)

lemma inc_inj: "i < N \<Longrightarrow> j < N \<Longrightarrow> inc N i = inc N j \<longleftrightarrow> i = j"
  by (auto simp: inc_def split: if_splits)

lemma inc_neq: "1 < N \<Longrightarrow> i < N \<Longrightarrow> inc N i \<noteq> i"
  by (auto simp: inc_def)

lemma diff_mod_eq:
  "c < N \<Longrightarrow> p < N \<Longrightarrow> (p + N - c) mod N = (if c \<le> p then p - c else p + N - c)" for c p N :: nat
  by (simp add: mod_if)

lemma length_span: "length (span N c p) = (p + N - c) mod N"
  by (simp add: span_def)

lemma span_same [simp]: "c < N \<Longrightarrow> span N c c = []"
  by (simp add: span_def)

lemma span_Nil_iff: "c < N \<Longrightarrow> p < N \<Longrightarrow> span N c p = [] \<longleftrightarrow> c = p"
  by (auto simp: span_def diff_mod_eq split: if_splits)

lemma span_pop:
  assumes "c < N" and "p < N" and "c \<noteq> p"
  shows "span N c p = c # span N (inc N c) p"
proof -
  have len: "(p + N - c) mod N = Suc ((p + N - inc N c) mod N)"
    using assms by (auto simp: diff_mod_eq inc_def)
  have "map (\<lambda>i. (c + i) mod N) [0..<Suc k] = c mod N # map (\<lambda>i. (inc N c + i) mod N) [0..<k]" for k
  proof -
    have "(c + Suc i) mod N = (inc N c + i) mod N" for i
    proof (cases "c + 1 = N")
      case True
      then have "c + Suc i = i + N" by simp
      then show ?thesis using True by (simp only: mod_add_self2) (simp add: inc_def)
    qed (simp add: inc_def)
    then show ?thesis
      by (simp add: upt_conv_Cons map_Suc_upt [symmetric] del: upt_Suc map_Suc_upt)
  qed
  then show ?thesis using assms(1) len by (simp add: span_def)
qed

lemma span_push:
  assumes "c < N" and "p < N" and "inc N p \<noteq> c"
  shows "span N c (inc N p) = span N c p @ [p]"
proof -
  have len: "(inc N p + N - c) mod N = Suc ((p + N - c) mod N)"
    using assms by (auto simp: diff_mod_eq inc_def split: if_splits)
  have "(c + (p + N - c) mod N) mod N = p"
    using assms by (auto simp: diff_mod_eq)
  then show ?thesis by (simp add: span_def len)
qed

lemma span_full_iff:
  "c < N \<Longrightarrow> p < N \<Longrightarrow> inc N p = c \<longleftrightarrow> length (span N c p) = N - 1"
  by (auto simp: length_span diff_mod_eq inc_def split: if_splits)

lemma length_span_less: "c < N \<Longrightarrow> length (span N c p) < N"
  by (simp add: length_span)

lemma span_bound: "c < N \<Longrightarrow> i \<in> set (span N c p) \<Longrightarrow> i < N"
  by (auto simp: span_def)

lemma span_writer_free:
  assumes "c < N" and "p < N"
  shows "p \<notin> set (span N c p)"
proof
  assume "p \<in> set (span N c p)"
  then obtain i where i: "i < (p + N - c) mod N" and p: "p = (c + i) mod N"
    by (auto simp: span_def)
  from assms i have lt: "i < (if c \<le> p then p - c else p + N - c)"
    by (simp add: diff_mod_eq)
  show False
  proof (cases "c + i < N")
    case True
    with p lt show False by (auto split: if_splits)
  next
    case False
    moreover from i assms(1) have "i < N" using mod_less_divisor [of N "p + N - c"] by linarith
    ultimately have "p = c + i - N" using p assms(1) by (simp add: mod_if)
    with False lt assms show False by (auto split: if_splits)
  qed
qed

lemma span_distinct: "c < N \<Longrightarrow> p < N \<Longrightarrow> distinct (span N c p)"
proof (induction "length (span N c p)" arbitrary: p)
  case 0
  then show ?case by simp
next
  case (Suc k)
  then have "c \<noteq> p" by auto
  define p' where "p' = (if p = 0 then N - 1 else p - 1)"
  have p': "p' < N" "inc N p' = p" using Suc.prems by (auto simp: p'_def inc_def)
  with \<open>c \<noteq> p\<close> Suc.prems have split: "span N c p = span N c p' @ [p']"
    using span_push [of c N p'] by auto
  with Suc.hyps(2) have "k = length (span N c p')" by simp
  from Suc.hyps(1) [OF this Suc.prems(1) p'(1)] show ?case
    using split span_writer_free [OF Suc.prems(1) p'(1)] by simp
qed

text \<open>The write to a full ring: both indices advance, the oldest slot leaves the span.\<close>

lemma span_push_full:
  assumes "c < N" and "p < N" and "1 < N" and "inc N p = c"
  shows "span N (inc N c) (inc N p) = tl (span N c p) @ [p]"
proof -
  have "p \<noteq> c" using assms inc_neq by metis
  then have "inc N p \<noteq> inc N c" using assms inc_inj by metis
  then have "span N (inc N c) (inc N p) = span N (inc N c) p @ [p]"
    using assms by (intro span_push) (auto simp: inc_less)
  then show ?thesis using span_pop [of c N p] \<open>p \<noteq> c\<close> assms by simp
qed

lemma map_span_update:
  assumes "c < N" and "p < N"
  shows "map ((!) (r[p := x])) (span N c p) = map ((!) r) (span N c p)"
  using span_writer_free [OF assms] by (intro map_cong refl nth_list_update_neq) auto

text \<open>A write to the ring is \<open>push_drop\<close> on its content, a read takes the first entry.\<close>

lemma ring_content_push:
  assumes "c < length r" and "p < length r" and "1 < length r"
  shows "ring_content (r[p := x]) (if inc (length r) p = c then inc (length r) c else c)
      (inc (length r) p) = push_drop (length r - 1) (ring_content r c p) x"
proof -
  let ?N = "length r"
  have upd: "map ((!) (r[p := x])) (span ?N c p) = ring_content r c p"
    using map_span_update [OF assms(1,2)] by (simp add: ring_content_def)
  have full: "inc ?N p = c \<longleftrightarrow> length (ring_content r c p) = ?N - 1"
    using span_full_iff [OF assms(1,2)] by (simp add: ring_content_def)
  show ?thesis
  proof (cases "inc ?N p = c")
    case True
    from span_push_full [OF assms True] have "ring_content (r[p := x]) (inc ?N c) (inc ?N p) =
        tl (map ((!) (r[p := x])) (span ?N c p)) @ [x]"
      using assms by (simp add: ring_content_def map_tl)
    with True upd full show ?thesis by (simp add: push_drop_def)
  next
    case False
    from span_push [OF assms(1,2) False]
    have "ring_content (r[p := x]) c (inc ?N p) = map ((!) (r[p := x])) (span ?N c p) @ [x]"
      using assms by (simp add: ring_content_def)
    moreover have "length (ring_content r c p) < ?N - 1"
      using False full length_span_less [OF assms(1), of p] by (simp add: ring_content_def)
    ultimately show ?thesis using False upd by (simp add: push_drop_def)
  qed
qed

lemma ring_content_pop:
  assumes "c < length r" and "p < length r" and "c \<noteq> p"
  shows "ring_content r c p = r ! c # ring_content r (inc (length r) c) p"
  using span_pop [OF assms] by (simp add: ring_content_def)

lemma ring_content_Nil:
  "c < length r \<Longrightarrow> p < length r \<Longrightarrow> ring_content r c p = [] \<longleftrightarrow> c = p"
  by (simp add: ring_content_def span_Nil_iff)

lemma ring_content_length: "c < length r \<Longrightarrow> length (ring_content r c p) \<le> length r - 1"
  using length_span_less [of c "length r" p] by (simp add: ring_content_def)

lemma unat_inc_u8:
  fixes i :: u8
  assumes "unat i < N" and "N < 256"
  shows "unat (if i + 1 = of_nat N then 0 else i + 1) = inc N (unat i)"
proof -
  have "unat (i + 1) = unat i + 1"
    using assms by (simp add: unat_word_ariths)
  moreover have "unat (of_nat N :: u8) = N"
    using assms by (simp add: unat_of_nat)
  ultimately have "i + 1 = of_nat N \<longleftrightarrow> unat i + 1 = N"
    by (metis word_unat_eq_iff)
  with \<open>unat (i + 1) = unat i + 1\<close> show ?thesis
    by (simp add: inc_def)
qed

section \<open>The contract\<close>

text \<open>
  A bounded queue that drops its oldest entry: \<open>content\<close> is what it holds, oldest first;
  \<open>put\<close> is what the interrupt handler does with a new entry, \<open>first\<close> and \<open>pop\<close> what the
  reader does. The entries the device delivers satisfy \<open>ok\<close>.
\<close>

locale bounded_queue =
  fixes cap :: nat
    and invar :: "'s \<Rightarrow> bool"
    and content :: "'s \<Rightarrow> 'a list"
    and ok :: "'a \<Rightarrow> bool"
    and emp :: "'s \<Rightarrow> bool"
    and put :: "'a \<Rightarrow> 's \<Rightarrow> 's"
    and first :: "'s \<Rightarrow> 'a"
    and pop :: "'s \<Rightarrow> 's"
  assumes cap_pos: "0 < cap"
    and len_content: "invar s \<Longrightarrow> length (content s) \<le> cap"
    and emp_content: "invar s \<Longrightarrow> emp s \<longleftrightarrow> content s = []"
    and content_put: "invar s \<Longrightarrow> ok x \<Longrightarrow> content (put x s) = push_drop cap (content s) x"
    and first_content: "invar s \<Longrightarrow> content s \<noteq> [] \<Longrightarrow> first s = hd (content s)"
    and content_pop: "invar s \<Longrightarrow> content s \<noteq> [] \<Longrightarrow> content (pop s) = tl (content s)"
    and invar_put: "invar s \<Longrightarrow> ok x \<Longrightarrow> invar (put x s)"
    and invar_pop: "invar s \<Longrightarrow> content s \<noteq> [] \<Longrightarrow> invar (pop s)"
begin

text \<open>Every interleaving of arrivals and removals simulates the abstract queue.\<close>

lemma run_simulates_ok:
  "invar s \<Longrightarrow> \<forall>x. Put x \<in> set ops \<longrightarrow> ok x \<Longrightarrow> queue_run emp put first pop ops (s, out) = (s', out') \<Longrightarrow>
     invar s' \<and> (\<exists>lost'. spec_run cap ops (content s, out, lost) = (content s', out', lost'))"
proof (induction ops arbitrary: s out lost)
  case Nil
  then show ?case by simp
next
  case (Cons op ops)
  note inv = Cons.prems(1)
  show ?case
  proof (cases op)
    case (Put x)
    with Cons.prems(2) have ok: "ok x" and oks: "\<forall>x. Put x \<in> set ops \<longrightarrow> ok x" by auto
    with Put Cons.IH [OF invar_put [OF inv ok] oks, of out] Cons.prems(3) show ?thesis
      by (simp add: content_put [OF inv ok])
  next
    case Pop
    from Cons.prems(2) have oks: "\<forall>x. Put x \<in> set ops \<longrightarrow> ok x" by auto
    show ?thesis
    proof (cases "content s")
      case Nil
      with Pop Cons.IH [OF inv oks, of out] Cons.prems(3) show ?thesis
        by (simp add: emp_content [OF inv])
    next
      case (Cons x q)
      then have ne: "content s \<noteq> []" by simp
      from Cons first_content [OF inv ne] content_pop [OF inv ne]
      have "first s = x" and "content (pop s) = q" by auto
      with Pop Cons Cons.IH [OF invar_pop [OF inv ne] oks, of "out @ [x]"] Cons.prems(3)
      show ?thesis by (simp add: emp_content [OF inv])
    qed
  qed
qed

end

text \<open>A queue of bytes accepts every entry.\<close>

locale drop_oldest = bounded_queue cap invar content "\<lambda>_. True" emp put first pop
  for cap :: nat
    and invar :: "'s \<Rightarrow> bool"
    and content :: "'s \<Rightarrow> 'a list"
    and emp :: "'s \<Rightarrow> bool"
    and put :: "'a \<Rightarrow> 's \<Rightarrow> 's"
    and first :: "'s \<Rightarrow> 'a"
    and pop :: "'s \<Rightarrow> 's"
begin

lemmas run_simulates = run_simulates_ok [simplified]

lemma invar_puts: "invar s \<Longrightarrow> invar (fold put xs s)"
  by (induction xs arbitrary: s) (auto intro: invar_put)

text \<open>A burst of arrivals leaves exactly the last \<open>cap\<close> entries of what was there and what came.\<close>

lemma content_puts:
  "invar s \<Longrightarrow> content (fold put xs s) =
     drop (length (content s) + length xs - cap) (content s @ xs)"
proof (induction xs arbitrary: s)
  case Nil
  then show ?case by (simp add: len_content)
next
  case (Cons x xs)
  have "content (fold put (x # xs) s) =
      drop (length (push_drop cap (content s) x) + length xs - cap)
        (push_drop cap (content s) x @ xs)"
    using Cons.IH [OF invar_put [OF Cons.prems TrueI]] content_put [OF Cons.prems TrueI] by simp
  also have "\<dots> = drop (length (content s) + length (x # xs) - cap) (content s @ x # xs)"
  proof (cases "length (content s) < cap")
    case True
    then show ?thesis by (simp add: push_drop_def)
  next
    case False
    with len_content [OF Cons.prems] cap_pos have full: "length (content s) = cap" by simp
    with cap_pos obtain y ys where "content s = y # ys" by (cases "content s") auto
    with full show ?thesis by (auto simp: push_drop_def)
  qed
  finally show ?case .
qed

lemma content_puts_fit:
  "invar s \<Longrightarrow> length (content s) + length xs \<le> cap \<Longrightarrow> content (fold put xs s) = content s @ xs"
  by (simp add: content_puts)

end

text \<open>What the abstract queue loses, delivers and holds accounts for every arrival.\<close>

fun arrivals :: "'a qop list \<Rightarrow> nat" where
  "arrivals [] = 0"
| "arrivals (Put x # ops) = Suc (arrivals ops)"
| "arrivals (Pop # ops) = arrivals ops"

lemma spec_run_conserves:
  "0 < cap \<Longrightarrow> spec_run cap ops (q, out, lost) = (q', out', lost') \<Longrightarrow>
     length q' + length out' + lost' = length q + length out + lost + arrivals ops"
  by (induction cap ops "(q, out, lost)" arbitrary: q out lost rule: spec_run.induct)
     (fastforce simp: push_drop_def split: list.splits if_splits)+

end
