(* ===== verification/Xintc.thy ===== *)
theory Xintc
  imports Prelude
begin

text \<open>
  The interrupt controller driver, \<open>src/arch/mb_le/sys/xintc.c\<close>. The driver has no static
  variables: its effect is the sequence of register accesses it makes.
\<close>

section \<open>Registers\<close>

definition xintc_mer :: layout where
  "xintc_mer = [(''me'', 1), (''hie'', 1), (''reserved2_31'', 29)]"

abbreviation XINTC_BASE :: u32 where "XINTC_BASE \<equiv> 0x41200000"

definition XINTC_isr :: u32 where "XINTC_isr = XINTC_BASE + 0x00"
definition XINTC_ier :: u32 where "XINTC_ier = XINTC_BASE + 0x08"
definition XINTC_iar :: u32 where "XINTC_iar = XINTC_BASE + 0x0c"
definition XINTC_sie :: u32 where "XINTC_sie = XINTC_BASE + 0x10"
definition XINTC_cie :: u32 where "XINTC_cie = XINTC_BASE + 0x14"
definition XINTC_mer :: u32 where "XINTC_mer = XINTC_BASE + 0x1c"
definition XINTC_imr :: u32 where "XINTC_imr = XINTC_BASE + 0x20"
definition XINTC_ivar :: "u8 \<Rightarrow> u32" where "XINTC_ivar irq = XINTC_BASE + 0x100 + 4 * ucast irq"

text \<open>\<open>XINTC_INT(nIrq)\<close>; the callers pass the constants 0, 3, 4, 6, 9, 10 and 11.\<close>

definition XINTC_INT :: "u8 \<Rightarrow> u32" where
  "XINTC_INT irq = push_bit (unat irq) 1"

section \<open>Operations\<close>

definition xintc_start :: "hw \<Rightarrow> 'a machine_scheme \<Rightarrow> 'a machine_scheme" where
  "xintc_start hw m =
     (let (isr, m) = ld32 hw XINTC_isr m;
          m = (if isr \<noteq> 0 then st32 XINTC_iar isr m else m);
          l_mer = fld_set xintc_mer ''hie'' 1 (fld_set xintc_mer ''me'' 1 0)
      in st32 XINTC_mer l_mer m)"

definition xintc_disableIRQ :: "hw \<Rightarrow> u8 \<Rightarrow> 'a machine_scheme \<Rightarrow> 'a machine_scheme option" where
  "xintc_disableIRQ hw irq m =
     (let m = st32 XINTC_cie (XINTC_INT irq) m
      in await hw XINTC_ier (\<lambda>v. v AND XINTC_INT irq = 0) m)"

definition xintc_enableIRQ ::
    "hw \<Rightarrow> u8 \<Rightarrow> u32 \<Rightarrow> 'a machine_scheme \<Rightarrow> 'a machine_scheme option" where
  "xintc_enableIRQ hw irq isr_addr m =
     (if isr_addr = 0 then Some m
      else
        let (imr, m) = ld32 hw XINTC_imr m;
            m = st32 XINTC_imr (imr OR XINTC_INT irq) m;
            m = st32 (XINTC_ivar irq) isr_addr m;
            m = st32 XINTC_sie (XINTC_INT irq) m
        in await hw XINTC_ier (\<lambda>v. v AND XINTC_INT irq \<noteq> 0) m)"

section \<open>The device\<close>

text \<open>
  Documented behaviour of the controller that the two busy-waits rely on: a store to the set
  (clear) enable register sets (clears) the bits stored in the enable register, and a load of
  the enable register returns it.
\<close>

fun ier_of :: "history \<Rightarrow> u32" where
  "ier_of [] = 0"
| "ier_of (Wr a v # t) =
     (if a = XINTC_sie then ier_of t OR v
      else if a = XINTC_cie then ier_of t AND NOT v else ier_of t)"
| "ier_of (_ # t) = ier_of t"

definition intc_hw :: "hw \<Rightarrow> bool" where
  "intc_hw hw \<longleftrightarrow> (\<forall>t. hw t XINTC_ier = ier_of t)"

section \<open>Lemmas\<close>

lemmas xintc_addr_defs = XINTC_isr_def XINTC_ier_def XINTC_iar_def XINTC_sie_def XINTC_cie_def
  XINTC_mer_def XINTC_imr_def

lemma xintc_addr_distinct [simp]:
  "XINTC_sie \<noteq> XINTC_cie" "XINTC_cie \<noteq> XINTC_sie" "XINTC_imr \<noteq> XINTC_sie" "XINTC_imr \<noteq> XINTC_cie"
  by (simp_all add: xintc_addr_defs)

lemma XINTC_ivar_distinct [simp]: "XINTC_ivar irq \<noteq> XINTC_sie" "XINTC_ivar irq \<noteq> XINTC_cie"
proof -
  have "unat (XINTC_ivar irq) = 0x41200100 + 4 * unat irq"
    using unat_u8_less [of irq] by (simp add: XINTC_ivar_def unat_word_ariths unat_ucast_up)
  then show "XINTC_ivar irq \<noteq> XINTC_sie" "XINTC_ivar irq \<noteq> XINTC_cie"
    by (auto simp: XINTC_sie_def XINTC_cie_def dest: arg_cong [where f = unat])
qed

lemma bit_XINTC_INT: "bit (XINTC_INT irq) i \<longleftrightarrow> i = unat irq \<and> i < 32"
  by (auto simp: XINTC_INT_def bit_simps)

lemma and_XINTC_INT: "unat irq < 32 \<Longrightarrow> v AND XINTC_INT irq = 0 \<longleftrightarrow> \<not> bit v (unat irq)"
  by (auto simp: word_bit_eq_iff bit_and_iff bit_XINTC_INT)

lemma XINTC_INT_nonzero: "unat irq < 32 \<Longrightarrow> XINTC_INT irq \<noteq> 0"
  by (auto simp: word_bit_eq_iff bit_XINTC_INT)

lemma xintc_disableIRQ_eq:
  assumes "intc_hw hw"
  shows "xintc_disableIRQ hw irq m =
    Some (m\<lparr>bus := Rd XINTC_ier (ier_of (bus m) AND NOT (XINTC_INT irq))
                     # Wr XINTC_cie (XINTC_INT irq) # bus m\<rparr>)"
proof -
  have "(ier_of (bus m) AND NOT (XINTC_INT irq)) AND XINTC_INT irq = 0"
    by (auto simp: word_bit_eq_iff bit_simps)
  then show ?thesis using assms
    by (simp add: xintc_disableIRQ_def st32_def emit_def await_def intc_hw_def poll_now)
qed

lemma xintc_enableIRQ_eq:
  assumes "intc_hw hw" and "unat irq < 32" and "isr \<noteq> 0"
  shows "xintc_enableIRQ hw irq isr m =
    Some (m\<lparr>bus := Rd XINTC_ier (ier_of (bus m) OR XINTC_INT irq)
       # Wr XINTC_sie (XINTC_INT irq) # Wr (XINTC_ivar irq) isr
       # Wr XINTC_imr (hw (bus m) XINTC_imr OR XINTC_INT irq)
       # Rd XINTC_imr (hw (bus m) XINTC_imr) # bus m\<rparr>)"
proof -
  have "(ier_of (bus m) OR XINTC_INT irq) AND XINTC_INT irq \<noteq> 0"
    using assms(2) by (simp add: XINTC_INT_nonzero)
  then show ?thesis using assms
    by (simp add: xintc_enableIRQ_def ld32_def st32_def emit_def await_def intc_hw_def poll_now)
qed

section \<open>Properties\<close>

text \<open>
  Enabling an interrupt line returns, and by then the handler address is in the vector
  register of the line and the line is in fast mode, both stored before the line was enabled;
  the line is enabled, and no other line has changed.
\<close>

theorem enableIRQ_installs:
  assumes "intc_hw hw" and "unat irq < 32" and "isr \<noteq> 0"
  shows "\<exists>m'. xintc_enableIRQ hw irq isr m = Some m'
    \<and> (\<exists>v. bus m' = [Rd XINTC_ier (ier_of (bus m')), Wr XINTC_sie (XINTC_INT irq),
          Wr (XINTC_ivar irq) isr, Wr XINTC_imr (v OR XINTC_INT irq), Rd XINTC_imr v] @ bus m)
    \<and> (\<forall>i < 32. bit (ier_of (bus m')) i \<longleftrightarrow> i = unat irq \<or> bit (ier_of (bus m)) i)"
  using xintc_enableIRQ_eq [OF assms, of m] by (auto simp: bit_or_iff bit_XINTC_INT)

theorem enableIRQ_installs_witness:
  "\<exists>m'. xintc_enableIRQ (\<lambda>t a. if a = XINTC_ier then ier_of t else 0) 6 0x500
       \<lparr>bus = [], mem = (\<lambda>_. 0)\<rparr> = Some m' \<and> bit (ier_of (bus m')) 6 \<and> \<not> bit (ier_of (bus m')) 0"
  using enableIRQ_installs [of "\<lambda>t a. if a = XINTC_ier then ier_of t else 0" 6 "0x500"
      "\<lparr>bus = [], mem = (\<lambda>_. 0)\<rparr>"]
  by (force simp: intc_hw_def)

interpretation mer: reg_layout 31 xintc_mer
  by unfold_locales (simp add: layout_wf_def xintc_mer_def)

end
