(* ===== verification/Xcache.thy ===== *)
theory Xcache
  imports Prelude
begin

text \<open>
  Data cache maintenance, \<open>src/arch/mb_le/sys/xcache.c\<close>. The range operations on the two
  cache levels are assembly routines; each is an event of the bus history.
\<close>

definition xdcache_flush :: "u32 \<Rightarrow> u32 \<Rightarrow> 'a machine_scheme \<Rightarrow> 'a machine_scheme" where
  "xdcache_flush a n m = (let m = emit (L2Flush a n) m in emit (L1Inval a n) m)"

definition xdcache_invalidate :: "u32 \<Rightarrow> u32 \<Rightarrow> 'a machine_scheme \<Rightarrow> 'a machine_scheme" where
  "xdcache_invalidate a n m = (let m = emit (L2Inval a n) m in emit (L1Inval a n) m)"

lemma bus_xdcache [bus_simps]:
  "bus (xdcache_flush a n m) = L1Inval a n # L2Flush a n # bus m"
  "bus (xdcache_invalidate a n m) = L1Inval a n # L2Inval a n # bus m"
  by (simp_all add: xdcache_flush_def xdcache_invalidate_def emit_def)

lemma mem_xdcache [bus_simps]:
  "mem (xdcache_flush a n m) = mem m" "mem (xdcache_invalidate a n m) = mem m"
  by (simp_all add: xdcache_flush_def xdcache_invalidate_def emit_def)

end
