(* ===== verification/Xdma.thy ===== *)
theory Xdma
  imports Ring Xintc Xcache
begin

text \<open>
  The DMA driver \<open>src/arch/mb_le/sys/xdma.c\<close>: the direct channel pair of the SD card, the
  cyclic scatter-gather channel of the sound blaster, and the ethernet transmit and receive
  channels, with their interrupt handlers. This theory holds the translation; the lemmas are
  in \<open>Xdma_Ring\<close>, \<open>Xdma_Rx\<close>, \<open>Xdma_Tx\<close> and \<open>Xdma_Io\<close>.

  Descriptors and data buffers lie in the memory the engines share with the processor. The
  descriptors occupy 0x80010000 to 0x8001057f and are accessed as descriptors only, so the
  model keeps them as a map from their address to a record, beside the bytes of the data
  buffers below 0x80010000. What an engine writes between two calls is a change of these two
  maps between the calls. A value \<open>None\<close> means that the call does not return normally: a
  busy-wait that never ends, or a remainder by zero.
\<close>

section \<open>Registers\<close>

definition xdmacr :: layout where
  "xdmacr = [(''rs'', 1), (''reserved1'', 1), (''reset'', 1), (''keyhole'', 1),
     (''cyclic_bd_enable'', 1), (''reserved5_11'', 7), (''ioc_irq_en'', 1), (''dly_irq_en'', 1),
     (''err_irq_en'', 1), (''reserved15'', 1), (''irq_thrshld'', 8), (''irq_delay'', 8)]"

definition xdmasr :: layout where
  "xdmasr = [(''halted'', 1), (''idle'', 1), (''reserved2'', 1), (''sg_incld'', 1),
     (''dma_int_err'', 1), (''dma_slv_err'', 1), (''dma_dec_err'', 1), (''reserved7'', 1),
     (''sg_int_err'', 1), (''sg_slv_err'', 1), (''sg_dec_err'', 1), (''reserved11'', 1),
     (''ioc_irq'', 1), (''dly_irq'', 1), (''err_irq'', 1), (''reserved15'', 1),
     (''irq_thrshld_sts'', 8), (''irq_delay_sts'', 8)]"

definition xdma_length :: layout where
  "xdma_length = [(''trans_len'', 26), (''reserved26_31'', 6)]"

definition xdma_sgctl :: layout where
  "xdma_sgctl = [(''sg_cache'', 4), (''reserved4_7'', 4), (''sg_user'', 4), (''reserved12_31'', 20)]"

definition desc_control :: layout where
  "desc_control = [(''buffer_len'', 26), (''tx_eof'', 1), (''tx_sof'', 1), (''reserved'', 4)]"

definition desc_status :: layout where
  "desc_status = [(''trans_len'', 26), (''reserved'', 2), (''dma_intErr'', 1),
     (''dma_intSlvErr'', 1), (''dma_decErr'', 1), (''cmplt'', 1)]"

text \<open>The scatter-gather descriptor, 64 bytes long.\<close>

record xsgdmadesc =
  bd_next :: u32
  bd_next_msb :: u32
  bd_buffer :: u32
  bd_buffer_msb :: u32
  bd_control :: u32
  bd_status :: u32
  bd_app :: "u32 list"

definition zero_desc :: xsgdmadesc where
  "zero_desc = \<lparr>bd_next = 0, bd_next_msb = 0, bd_buffer = 0, bd_buffer_msb = 0,
     bd_control = 0, bd_status = 0, bd_app = [0, 0, 0, 0, 0]\<rparr>"

abbreviation desc_size :: u32 where "desc_size \<equiv> 64"

text \<open>Channel register addresses: the direct channel and the scatter-gather channel have
  their control and status registers at the same offsets.\<close>

definition ch_cr :: "u32 \<Rightarrow> u32" where "ch_cr ch = ch + 0x00"
definition ch_sr :: "u32 \<Rightarrow> u32" where "ch_sr ch = ch + 0x04"
definition ch_currdesc :: "u32 \<Rightarrow> u32" where "ch_currdesc ch = ch + 0x08"
definition ch_taildesc :: "u32 \<Rightarrow> u32" where "ch_taildesc ch = ch + 0x10"
definition ch_buffer :: "u32 \<Rightarrow> u32" where "ch_buffer ch = ch + 0x18"
definition ch_length :: "u32 \<Rightarrow> u32" where "ch_length ch = ch + 0x28"

abbreviation XDMA0_MM2S :: u32 where "XDMA0_MM2S \<equiv> 0x41E00000"
abbreviation XDMA0_S2MM :: u32 where "XDMA0_S2MM \<equiv> 0x41E00030"
abbreviation XDMA1_MM2S :: u32 where "XDMA1_MM2S \<equiv> 0x41E10000"
abbreviation XDMA2_MM2S :: u32 where "XDMA2_MM2S \<equiv> 0x41E20000"
abbreviation XDMA2_S2MM :: u32 where "XDMA2_S2MM \<equiv> 0x41E20030"

abbreviation XDMA1_MM2S_IRQ :: u8 where "XDMA1_MM2S_IRQ \<equiv> 3"
abbreviation XDMA2_MM2S_IRQ :: u8 where "XDMA2_MM2S_IRQ \<equiv> 9"
abbreviation XDMA2_S2MM_IRQ :: u8 where "XDMA2_S2MM_IRQ \<equiv> 10"

abbreviation XDMA_DATA_WIDTH :: u32 where "XDMA_DATA_WIDTH \<equiv> 32"
abbreviation XDMA_DATA_ALIGN :: u32 where "XDMA_DATA_ALIGN \<equiv> 3"
abbreviation XDMA_BTT_MAX :: u32 where "XDMA_BTT_MAX \<equiv> 0x3fff"
abbreviation XDMA_IO_BUFFER_SIZE :: u32 where "XDMA_IO_BUFFER_SIZE \<equiv> 0x4000"

abbreviation XDMA1_MAX_BDS :: nat where "XDMA1_MAX_BDS \<equiv> 2"
abbreviation XDMA2_MAX_BDS :: nat where "XDMA2_MAX_BDS \<equiv> 10"

abbreviation XDMA0_IO_BUFFER :: u32 where "XDMA0_IO_BUFFER \<equiv> 0x80000000"
abbreviation XDMA1_IO_BUFFER :: u32 where "XDMA1_IO_BUFFER \<equiv> 0x80004000"
abbreviation XDMA2_S2MM_BUFFER :: u32 where "XDMA2_S2MM_BUFFER \<equiv> 0x80008000"
abbreviation XDMA2_MM2S_BUFFER :: u32 where "XDMA2_MM2S_BUFFER \<equiv> 0x8000c000"

abbreviation XDMA1_MM2S_BDRING :: u32 where "XDMA1_MM2S_BDRING \<equiv> 0x80010000"
abbreviation XDMA2_S2MM_BDRING :: u32 where "XDMA2_S2MM_BDRING \<equiv> 0x80010080"
abbreviation XDMA2_MM2S_BDRING :: u32 where "XDMA2_MM2S_BDRING \<equiv> 0x80010300"

section \<open>State\<close>

record xdma = machine +
  bds :: "u32 \<Rightarrow> xsgdmadesc"
  ethdma_txbuserr :: bool
  ethdma_rxbuserr :: bool
  sbdma_cmplt :: bool
  sbdma_buserr :: bool
  rxcount :: u32
  txcount :: u32
  lostcount :: u32
  eth_rxtail :: u8
  eth_rxhead :: u8
  eth_txtail :: u8
  eth_txpkts :: u8
  eth_txdepth :: u8

definition kernel_raise :: "signal \<Rightarrow> 'a machine_scheme \<Rightarrow> 'a machine_scheme" where
  "kernel_raise sg m = emit (Raise sg) m"

section \<open>Engine control\<close>

definition xsgdma_sgallowed :: "hw \<Rightarrow> u32 \<Rightarrow> 'a machine_scheme \<Rightarrow> bool \<times> 'a machine_scheme" where
  "xsgdma_sgallowed hw t_ch s =
     (let (sr, s) = ld32 hw (ch_sr t_ch) s;
          sgdmaIncl = fld_on xdmasr ''sg_incld'' sr;
          sgdmaIdle = (fld_on xdmasr ''halted'' sr \<or> fld_on xdmasr ''idle'' sr)
      in (sgdmaIncl \<and> sgdmaIdle, s))"

definition xsgdma_engreset :: "hw \<Rightarrow> u32 \<Rightarrow> 'a machine_scheme \<Rightarrow> 'a machine_scheme option" where
  "xsgdma_engreset hw t_ch s =
     (let s = st_fld hw xdmacr ''reset'' 1 (ch_cr t_ch) s
      in await hw (ch_cr t_ch) (\<lambda>v. \<not> fld_on xdmacr ''reset'' v) s)"

definition xsgdma_engstop :: "hw \<Rightarrow> u32 \<Rightarrow> 'a machine_scheme \<Rightarrow> 'a machine_scheme option" where
  "xsgdma_engstop hw t_ch s =
     (let xdma_cr = fld_set xdmacr ''rs'' 0 0;
          xdma_cr = fld_set xdmacr ''reset'' 1 xdma_cr;
          xdma_cr = fld_set xdmacr ''ioc_irq_en'' 0 xdma_cr;
          xdma_cr = fld_set xdmacr ''err_irq_en'' 0 xdma_cr;
          s = st32 (ch_cr t_ch) xdma_cr s
      in await hw (ch_sr t_ch) (fld_on xdmasr ''halted'') s)"

text \<open>The loop of \<open>xsgdma_ring\<close> over the remaining descriptors.\<close>

primrec xsgdma_ring_loop ::
    "nat \<Rightarrow> u32 \<Rightarrow> u32 \<Rightarrow> u32 \<Rightarrow> (u32 \<Rightarrow> xsgdmadesc) \<Rightarrow> (u32 \<Rightarrow> xsgdmadesc)" where
  "xsgdma_ring_loop 0 chunk bd_desc sa_addr B = B"
| "xsgdma_ring_loop (Suc n) chunk bd_desc sa_addr B =
     (let d = B bd_desc;
          c = fld_set desc_control ''tx_sof'' 1 (bd_control d);
          c = fld_set desc_control ''tx_eof'' 1 c;
          c = fld_set desc_control ''buffer_len'' chunk c;
          d = d\<lparr>bd_control := c, bd_next := bd_desc + desc_size, bd_buffer := sa_addr\<rparr>
      in xsgdma_ring_loop n chunk (bd_desc + desc_size) (sa_addr + chunk) (B(bd_desc := d)))"

definition xsgdma_ring ::
    "u32 \<Rightarrow> u32 \<Rightarrow> u32 \<Rightarrow> u32 \<Rightarrow> 'a xdma_scheme \<Rightarrow> u32 \<times> 'a xdma_scheme" where
  "xsgdma_ring head io_head len chunk s =
     (let bd_count = len div chunk;
          bd_memsize = bd_count * desc_size;
          B = (\<lambda>a. if a - head < bd_memsize then zero_desc else bds s a);
          B = xsgdma_ring_loop (unat bd_count) chunk head io_head B;
          bd_desc = head + bd_count * desc_size - desc_size;
          B = B(bd_desc := (B bd_desc)\<lparr>bd_next := head\<rparr>);
          s = xdcache_flush head bd_memsize (s\<lparr>bds := B\<rparr>)
      in (bd_count, s))"

definition xsgdma_seqTrans :: "u32 \<Rightarrow> u32 \<Rightarrow> u32 \<Rightarrow> 'a machine_scheme \<Rightarrow> 'a machine_scheme" where
  "xsgdma_seqTrans t_ch head tail s =
     (let sgdma_cr = fld_set xdmacr ''rs'' 1 0;
          sgdma_cr = fld_set xdmacr ''err_irq_en'' 1 sgdma_cr;
          sgdma_cr = fld_set xdmacr ''ioc_irq_en'' 1 sgdma_cr;
          s = st32 (ch_currdesc t_ch) head s;
          s = st32 (ch_cr t_ch) sgdma_cr s
      in st32 (ch_taildesc t_ch) tail s)"

definition xsgdma_cyclicTrans :: "u32 \<Rightarrow> u32 \<Rightarrow> 'a machine_scheme \<Rightarrow> 'a machine_scheme" where
  "xsgdma_cyclicTrans t_ch head s =
     (let sgdma_cr = fld_set xdmacr ''rs'' 1 0;
          sgdma_cr = fld_set xdmacr ''ioc_irq_en'' 1 sgdma_cr;
          sgdma_cr = fld_set xdmacr ''err_irq_en'' 1 sgdma_cr;
          sgdma_cr = fld_set xdmacr ''cyclic_bd_enable'' 1 sgdma_cr;
          s = st32 (ch_currdesc t_ch) head s;
          s = st32 (ch_cr t_ch) sgdma_cr s
      in st32 (ch_taildesc t_ch) 0x50 s)"

definition xdirectdma_trans ::
    "hw \<Rightarrow> u32 \<Rightarrow> u32 \<Rightarrow> u32 \<Rightarrow> 'a machine_scheme \<Rightarrow> u32 \<times> 'a machine_scheme" where
  "xdirectdma_trans hw t_ch mem_p len s =
     (if mem_p AND (XDMA_DATA_WIDTH - 1) \<noteq> 0 then (0, s)
      else
        let s = st32 (ch_buffer t_ch) mem_p s;
            s = st_fld hw xdmacr ''rs'' 1 (ch_cr t_ch) s;
            s = st_fld hw xdma_length ''trans_len'' len (ch_length t_ch) s
        in (mem_p, s))"

section \<open>Start\<close>

text \<open>The parameters are the link-time addresses of the three interrupt handlers.\<close>

definition xdma_start ::
    "hw \<Rightarrow> u32 \<Rightarrow> u32 \<Rightarrow> u32 \<Rightarrow> 'a xdma_scheme \<Rightarrow> 'a xdma_scheme option" where
  "xdma_start hw onsbdma_irq onethdma_txirq onethdma_rxirq s = do {
     let s = s\<lparr>eth_rxhead := 0, eth_rxtail := 0\<rparr>;
     let s = s\<lparr>rxcount := 0, txcount := 0, lostcount := 0\<rparr>;
     let s = s\<lparr>eth_txtail := 0, eth_txpkts := 0, eth_txdepth := 0\<rparr>;
     s \<leftarrow> xintc_disableIRQ hw XDMA1_MM2S_IRQ s;
     s \<leftarrow> xintc_disableIRQ hw XDMA2_MM2S_IRQ s;
     s \<leftarrow> xintc_disableIRQ hw XDMA2_S2MM_IRQ s;
     let s = st_fld hw xdmacr ''reset'' 1 (ch_cr XDMA0_MM2S) s;
     let s = st_fld hw xdmacr ''reset'' 1 (ch_cr XDMA0_S2MM) s;
     let s = st_fld hw xdmacr ''reset'' 1 (ch_cr XDMA1_MM2S) s;
     s \<leftarrow> await hw (ch_cr XDMA0_MM2S) (\<lambda>v. \<not> fld_on xdmacr ''reset'' v) s;
     s \<leftarrow> await hw (ch_cr XDMA0_S2MM) (\<lambda>v. \<not> fld_on xdmacr ''reset'' v) s;
     s \<leftarrow> await hw (ch_cr XDMA1_MM2S) (\<lambda>v. \<not> fld_on xdmacr ''reset'' v) s;
     s \<leftarrow> xintc_enableIRQ hw XDMA1_MM2S_IRQ onsbdma_irq s;
     s \<leftarrow> xintc_enableIRQ hw XDMA2_MM2S_IRQ onethdma_txirq s;
     xintc_enableIRQ hw XDMA2_S2MM_IRQ onethdma_rxirq s
   }"

section \<open>Ethernet counters\<close>

definition eth_rxcount :: "'a xdma_scheme \<Rightarrow> u32" where "eth_rxcount s = rxcount s"
definition eth_txcount :: "'a xdma_scheme \<Rightarrow> u32" where "eth_txcount s = txcount s"
definition eth_lostcount :: "'a xdma_scheme \<Rightarrow> u32" where "eth_lostcount s = lostcount s"
definition eth_rxqhead :: "'a xdma_scheme \<Rightarrow> u32" where "eth_rxqhead s = ucast (eth_rxhead s)"
definition eth_rxqtail :: "'a xdma_scheme \<Rightarrow> u32" where "eth_rxqtail s = ucast (eth_rxtail s)"
definition eth_txqhead :: "'a xdma_scheme \<Rightarrow> u32" where "eth_txqhead s = 0"
definition eth_txqtail :: "'a xdma_scheme \<Rightarrow> u32" where "eth_txqtail s = ucast (eth_txtail s)"

definition eth_rxqcount :: "'a xdma_scheme \<Rightarrow> u32" where
  "eth_rxqcount s =
     (let rxhead = ucast (eth_rxhead s); rxtail = ucast (eth_rxtail s)
      in (rxhead - rxtail + of_nat XDMA2_MAX_BDS) mod of_nat XDMA2_MAX_BDS)"

section \<open>Ethernet DMA\<close>

definition ethdma_trxstop :: "hw \<Rightarrow> 'a machine_scheme \<Rightarrow> 'a machine_scheme option" where
  "ethdma_trxstop hw s = xsgdma_engstop hw XDMA2_MM2S s"

definition ethdma_trxreset :: "hw \<Rightarrow> 'a machine_scheme \<Rightarrow> 'a machine_scheme option" where
  "ethdma_trxreset hw s = xsgdma_engreset hw XDMA2_MM2S s"

definition ethdma_txbuserrSignal :: "'a xdma_scheme \<Rightarrow> bool" where
  "ethdma_txbuserrSignal s = ethdma_txbuserr s"

definition ethdma_rxbuserrSignal :: "'a xdma_scheme \<Rightarrow> bool" where
  "ethdma_rxbuserrSignal s = ethdma_rxbuserr s"

definition ethdma_txsgflush :: "'a xdma_scheme \<Rightarrow> 'a xdma_scheme" where
  "ethdma_txsgflush s =
     (let tail = eth_txtail s
      in if tail = 0 \<or> tail = 0xFF then s
         else
           let s = s\<lparr>eth_txpkts := eth_txtail s\<rparr>;
               s = s\<lparr>eth_txtail := 0xFF\<rparr>;
               bd_head = XDMA2_MM2S_BDRING;
               bd_tail = XDMA2_MM2S_BDRING + desc_size * ucast (tail - 1)
           in xsgdma_seqTrans XDMA2_MM2S bd_head bd_tail s)"

text \<open>The status word of a descriptor handed back to the engine: five of its fields are cleared,
  in an order that does not matter.\<close>

definition clear_status :: "u32 \<Rightarrow> u32" where
  "clear_status st =
     (let st = fld_set desc_status ''cmplt'' 0 st;
          st = fld_set desc_status ''trans_len'' 0 st;
          st = fld_set desc_status ''dma_decErr'' 0 st;
          st = fld_set desc_status ''dma_intErr'' 0 st
      in fld_set desc_status ''dma_intSlvErr'' 0 st)"

definition ethdma_txsgenque ::
    "u32 \<Rightarrow> u32 \<Rightarrow> 'a xdma_scheme \<Rightarrow> u32 \<times> 'a xdma_scheme" where
  "ethdma_txsgenque mem_p mem_len s =
     (let tail = eth_txtail s
      in if tail = eth_txdepth s \<or> tail = 0xFF then (0, s)
         else
           let bd_desc = XDMA2_MM2S_BDRING + desc_size * ucast tail;
               s = xdcache_invalidate bd_desc desc_size s;
               io_buffer = bd_buffer (bds s bd_desc);
               next_iobuffer = bd_buffer (bds s (bd_next (bds s bd_desc)))
           in if io_buffer + mem_len \<ge> XDMA2_S2MM_BDRING \<or> next_iobuffer \<le> io_buffer + mem_len
              then (0, s)
              else
                let s = s\<lparr>mem := memcpy io_buffer mem_p mem_len (mem s)\<rparr>;
                    d = bds s bd_desc;
                    c = fld_set desc_control ''tx_sof'' 1 (bd_control d);
                    c = fld_set desc_control ''tx_eof'' 1 c;
                    c = fld_set desc_control ''buffer_len'' mem_len c;
                    d = d\<lparr>bd_status := clear_status (bd_status d), bd_control := c\<rparr>;
                    s = s\<lparr>bds := (bds s)(bd_desc := d)\<rparr>;
                    s = s\<lparr>eth_txtail := eth_txtail s + 1\<rparr>;
                    s = xdcache_flush io_buffer mem_len s;
                    s = xdcache_flush bd_desc desc_size s
                in (io_buffer, s))"

text \<open>The check of the two length arguments all three ring set-ups make: \<open>Some\<close> of whether they
  are accepted, \<open>None\<close> when the remainder by a zero \<open>io_buff\<close> is evaluated.\<close>

definition sg_args_ok :: "u32 \<Rightarrow> u32 \<Rightarrow> bool option" where
  "sg_args_ok alloc_len io_buff =
     (if io_buff AND XDMA_DATA_ALIGN \<noteq> 0 \<or> alloc_len > XDMA_IO_BUFFER_SIZE \<or> alloc_len < io_buff
      then Some False
      else if io_buff = 0 then None
      else Some (alloc_len mod io_buff = 0))"

definition ethdma_txsgnormal ::
    "hw \<Rightarrow> u32 \<Rightarrow> u32 \<Rightarrow> 'a xdma_scheme \<Rightarrow> (u32 \<times> 'a xdma_scheme) option" where
  "ethdma_txsgnormal hw alloc_len io_buff s = do {
     ok \<leftarrow> sg_args_ok alloc_len io_buff;
     if \<not> ok then Some (0, s)
     else
       let (allowed, s) = xsgdma_sgallowed hw XDMA2_MM2S s
       in if \<not> allowed then Some (0, s)
          else
            let (n, s) = xsgdma_ring XDMA2_MM2S_BDRING XDMA2_MM2S_BUFFER alloc_len io_buff s;
                s = s\<lparr>eth_txdepth := ucast n\<rparr>;
                s = s\<lparr>eth_txtail := 0\<rparr>;
                s = s\<lparr>ethdma_txbuserr := False\<rparr>
            in Some (XDMA2_MM2S_BUFFER, s)
   }"

text \<open>The result is the buffer address returned and, when a frame was taken, the length stored
  through \<open>trans_len\<close>.\<close>

definition ethdma_rxsgcmplt ::
    "u32 \<Rightarrow> u32 \<Rightarrow> 'a xdma_scheme \<Rightarrow> u32 \<times> u32 option \<times> 'a xdma_scheme" where
  "ethdma_rxsgcmplt mem_p mem_len s =
     (let head = eth_rxhead s; tail = eth_rxtail s
      in if head = tail then (0, None, s)
         else
           let bd_desc = XDMA2_S2MM_BDRING + desc_size * ucast tail;
               s = xdcache_invalidate bd_desc desc_size s;
               d = bds s bd_desc
           in if \<not> fld_on desc_status ''cmplt'' (bd_status d) then (0, None, s)
              else
                let bd_buf = bd_buffer d;
                    bd_translen = fld_get desc_status ''trans_len'' (bd_status d)
                in if bd_translen > mem_len then (0, None, s)
                   else
                     let s = s\<lparr>bds := (bds s)(bd_desc := d\<lparr>bd_status := clear_status (bd_status d)\<rparr>)\<rparr>;
                         s = xdcache_flush bd_desc desc_size s;
                         s = xdcache_invalidate bd_buf bd_translen s;
                         s = s\<lparr>mem := memcpy mem_p bd_buf bd_translen (mem s)\<rparr>;
                         next_tail = tail + 1;
                         next_tail = (if next_tail = of_nat XDMA2_MAX_BDS then 0 else next_tail);
                         s = s\<lparr>eth_rxtail := next_tail\<rparr>
                     in (bd_buf, Some bd_translen, s))"

definition ethdma_rxsgcyclic ::
    "hw \<Rightarrow> u32 \<Rightarrow> u32 \<Rightarrow> 'a xdma_scheme \<Rightarrow> (u32 \<times> 'a xdma_scheme) option" where
  "ethdma_rxsgcyclic hw alloc_len io_buff s = do {
     ok \<leftarrow> sg_args_ok alloc_len io_buff;
     if \<not> ok then Some (0, s)
     else
       let (allowed, s) = xsgdma_sgallowed hw XDMA2_S2MM s
       in if \<not> allowed then Some (0, s)
          else
            let s = s\<lparr>eth_rxhead := 0, eth_rxtail := 0\<rparr>;
                s = s\<lparr>ethdma_rxbuserr := False\<rparr>;
                (_, s) = xsgdma_ring XDMA2_S2MM_BDRING XDMA2_S2MM_BUFFER alloc_len io_buff s;
                s = xsgdma_cyclicTrans XDMA2_S2MM XDMA2_S2MM_BDRING s
            in Some (XDMA2_S2MM_BUFFER, s)
   }"

section \<open>Sound blaster DMA\<close>

definition sbdma_sgstop :: "hw \<Rightarrow> 'a machine_scheme \<Rightarrow> 'a machine_scheme option" where
  "sbdma_sgstop hw s = xsgdma_engstop hw XDMA1_MM2S s"

definition sbdma_sgbuserrSignal :: "'a xdma_scheme \<Rightarrow> bool" where
  "sbdma_sgbuserrSignal s = sbdma_buserr s"

definition sbdma_sgcmpltSignal :: "'a xdma_scheme \<Rightarrow> bool" where
  "sbdma_sgcmpltSignal s = sbdma_cmplt s"

text \<open>The search for a completed descriptor, following the next pointers.\<close>

primrec sbdma_find :: "nat \<Rightarrow> u32 \<Rightarrow> (u32 \<Rightarrow> xsgdmadesc) \<Rightarrow> u32 option" where
  "sbdma_find 0 bd_desc B = None"
| "sbdma_find (Suc n) bd_desc B =
     (if bd_desc = 0 then None
      else if fld_on desc_status ''cmplt'' (bd_status (B bd_desc)) then Some bd_desc
      else sbdma_find n (bd_next (B bd_desc)) B)"

definition sbdma_sgcmplt :: "u32 \<Rightarrow> 'a xdma_scheme \<Rightarrow> u32 \<times> 'a xdma_scheme" where
  "sbdma_sgcmplt len s =
     (let s = xdcache_invalidate XDMA1_MM2S_BDRING (desc_size * of_nat XDMA1_MAX_BDS) s
      in case sbdma_find XDMA1_MAX_BDS XDMA1_MM2S_BDRING (bds s) of
           None \<Rightarrow> (0, s)
         | Some bd_desc \<Rightarrow>
             let d = bds s bd_desc;
                 bd_buf = bd_buffer d;
                 bd_blen = fld_get desc_control ''buffer_len'' (bd_control d)
             in if bd_blen \<noteq> len then (0, s)
                else
                  let s = s\<lparr>bds := (bds s)(bd_desc := d\<lparr>bd_status := clear_status (bd_status d)\<rparr>)\<rparr>;
                      s = xdcache_flush bd_desc desc_size s;
                      s = s\<lparr>sbdma_cmplt := False\<rparr>
                  in (bd_buf, s))"

definition sbdma_sgcyclic ::
    "hw \<Rightarrow> u8 \<Rightarrow> u32 \<Rightarrow> u32 \<Rightarrow> 'a xdma_scheme \<Rightarrow> (u32 \<times> 'a xdma_scheme) option" where
  "sbdma_sgcyclic hw seed alloc_len io_buff s = do {
     ok \<leftarrow> sg_args_ok alloc_len io_buff;
     if \<not> ok then Some (0, s)
     else
       let (allowed, s) = xsgdma_sgallowed hw XDMA1_MM2S s
       in if \<not> allowed then Some (0, s)
          else do {
            let s = st_fld hw xdmacr ''reset'' 1 (ch_cr XDMA1_MM2S) s;
            s \<leftarrow> await hw (ch_cr XDMA1_MM2S) (\<lambda>v. \<not> fld_on xdmacr ''reset'' v) s;
            let s = s\<lparr>mem := memset XDMA1_IO_BUFFER seed alloc_len (mem s)\<rparr>;
            let s = xdcache_flush XDMA1_IO_BUFFER alloc_len s;
            let (_, s) = xsgdma_ring XDMA1_MM2S_BDRING XDMA1_IO_BUFFER alloc_len io_buff s;
            let s = s\<lparr>sbdma_cmplt := False\<rparr>;
            let s = s\<lparr>sbdma_buserr := False\<rparr>;
            let s = xsgdma_cyclicTrans XDMA1_MM2S XDMA1_MM2S_BDRING s;
            Some (XDMA1_IO_BUFFER, s)
          }
   }"

section \<open>SD card DMA\<close>

text \<open>Whether a transfer is ongoing: the channel is neither halted nor, on a second load, idle.\<close>

definition xdirect_busy :: "hw \<Rightarrow> u32 \<Rightarrow> 'a machine_scheme \<Rightarrow> bool \<times> 'a machine_scheme" where
  "xdirect_busy hw t_ch s =
     (let (halted, s) = ld_fld hw xdmasr ''halted'' (ch_sr t_ch) s
      in if halted \<noteq> 0 then (False, s)
         else let (idle, s) = ld_fld hw xdmasr ''idle'' (ch_sr t_ch) s in (idle = 0, s))"

definition sdcdma_wrt :: "hw \<Rightarrow> u32 \<Rightarrow> u32 \<Rightarrow> 'a machine_scheme \<Rightarrow> u32 \<times> 'a machine_scheme" where
  "sdcdma_wrt hw mem_p len s =
     (let (busy, s) = xdirect_busy hw XDMA0_MM2S s
      in if busy then (0, s)
         else if mem_p = 0 \<or> len = 0 \<or> len > XDMA_BTT_MAX then (0, s)
         else
           let s = xdcache_invalidate mem_p len s;
               s = s\<lparr>mem := memcpy XDMA0_IO_BUFFER mem_p len (mem s)\<rparr>;
               s = xdcache_flush XDMA0_IO_BUFFER len s
           in xdirectdma_trans hw XDMA0_MM2S XDMA0_IO_BUFFER len s)"

definition sdcdma_rdt :: "hw \<Rightarrow> u32 \<Rightarrow> 'a machine_scheme \<Rightarrow> u32 \<times> 'a machine_scheme" where
  "sdcdma_rdt hw len s =
     (let (busy, s) = xdirect_busy hw XDMA0_S2MM s
      in if busy then (0, s)
         else if len = 0 \<or> len > XDMA_BTT_MAX then (0, s)
         else xdirectdma_trans hw XDMA0_S2MM XDMA0_IO_BUFFER len s)"

section \<open>Interrupts\<close>

text \<open>\<open>ethdma_queue\<close> advances the producing index \<open>pq\<close>, and the consuming index \<open>cq\<close> when
  they would meet; the result is whether a packet was lost and the two new indices.\<close>

definition ethdma_queue :: "bool \<Rightarrow> u8 \<Rightarrow> u8 \<Rightarrow> bool \<times> u8 \<times> u8" where
  "ethdma_queue event pq cq =
     (if \<not> event then (False, pq, cq)
      else
        let cq_v = cq;
            next_q = pq + 1;
            next_q = (if next_q = of_nat XDMA2_MAX_BDS then 0 else next_q)
        in if next_q = cq_v
           then let cq_v = cq_v + 1; cq_v = (if cq_v = of_nat XDMA2_MAX_BDS then 0 else cq_v)
                in (True, next_q, cq_v)
           else (False, next_q, cq_v))"

definition xsgdma_ackirq :: "hw \<Rightarrow> u32 \<Rightarrow> 'a machine_scheme \<Rightarrow> u32 \<times> 'a machine_scheme" where
  "xsgdma_ackirq hw t_ch s =
     (let (sr, s) = ld32 hw (ch_sr t_ch) s; s = st32 (ch_sr t_ch) sr s in (sr, s))"

definition onsbdma_irq :: "hw \<Rightarrow> 'a xdma_scheme \<Rightarrow> 'a xdma_scheme" where
  "onsbdma_irq hw s =
     (let (sr, s) = xsgdma_ackirq hw XDMA1_MM2S s;
          ioe = fld_on xdmasr ''err_irq'' sr;
          ioc = fld_on xdmasr ''ioc_irq'' sr;
          s = s\<lparr>sbdma_cmplt := ioc\<rparr>;
          s = s\<lparr>sbdma_buserr := ioe\<rparr>
      in kernel_raise (if ioe then SIGBUS else SIGINT) s)"

definition onethdma_txirq :: "hw \<Rightarrow> 'a xdma_scheme \<Rightarrow> 'a xdma_scheme" where
  "onethdma_txirq hw s =
     (let (sr, s) = xsgdma_ackirq hw XDMA2_MM2S s;
          ioc = fld_on xdmasr ''ioc_irq'' sr;
          ioe = fld_on xdmasr ''err_irq'' sr;
          s = (if ioc
               then let s = s\<lparr>txcount := txcount s + ucast (eth_txpkts s)\<rparr>;
                        s = s\<lparr>eth_txtail := 0, eth_txpkts := 0\<rparr>
                    in st_fld hw xdmacr ''rs'' 0 (ch_cr XDMA2_MM2S) s
               else s);
          s = (if ioe then kernel_raise SIGBUS s else s)
      in s\<lparr>ethdma_txbuserr := ioe\<rparr>)"

definition onethdma_rxirq :: "hw \<Rightarrow> 'a xdma_scheme \<Rightarrow> 'a xdma_scheme" where
  "onethdma_rxirq hw s =
     (let (sr, s) = xsgdma_ackirq hw XDMA2_S2MM s;
          ioe = fld_on xdmasr ''err_irq'' sr;
          ioc = fld_on xdmasr ''ioc_irq'' sr;
          s = (if ioc then s\<lparr>rxcount := rxcount s + 1\<rparr> else s);
          s = (if ioe then kernel_raise SIGBUS s else s);
          (lost, h, t) = ethdma_queue ioc (eth_rxhead s) (eth_rxtail s);
          s = s\<lparr>eth_rxhead := h, eth_rxtail := t\<rparr>;
          s = (if lost then s\<lparr>lostcount := lostcount s + 1\<rparr> else s)
      in s\<lparr>ethdma_rxbuserr := ioe\<rparr>)"

section \<open>Register structs are well formed\<close>

interpretation cr: reg_layout 32 xdmacr
  by unfold_locales (simp add: layout_wf_def xdmacr_def)

interpretation sr: reg_layout 32 xdmasr
  by unfold_locales (simp add: layout_wf_def xdmasr_def)

interpretation len: reg_layout 32 xdma_length
  by unfold_locales (simp add: layout_wf_def xdma_length_def)

interpretation sgctl: reg_layout 32 xdma_sgctl
  by unfold_locales (simp add: layout_wf_def xdma_sgctl_def)

interpretation dcontrol: reg_layout 32 desc_control
  by unfold_locales (simp add: layout_wf_def desc_control_def)

interpretation dstatus: reg_layout 32 desc_status
  by unfold_locales (simp add: layout_wf_def desc_status_def)

end
