(* ===== verification/Xdma_Ring.thy ===== *)
theory Xdma_Ring
  imports Xdma
begin

text \<open>
  The descriptor rings \<open>xsgdma_ring\<close> builds: a cycle of descriptors over adjacent buffers of
  equal size.
\<close>

section \<open>Specification\<close>

text \<open>The address of descriptor \<open>i\<close> of the ring at \<open>head\<close>, and what the ring over the buffers
  from \<open>io_head\<close> on looks like.\<close>

definition bd_at :: "u32 \<Rightarrow> nat \<Rightarrow> u32" where
  "bd_at head i = head + desc_size * of_nat i"

definition ring_ctl :: "u32 \<Rightarrow> u32" where
  "ring_ctl chunk = fld_set desc_control ''buffer_len'' chunk
     (fld_set desc_control ''tx_eof'' 1 (fld_set desc_control ''tx_sof'' 1 0))"

definition bd_ring :: "(u32 \<Rightarrow> xsgdmadesc) \<Rightarrow> u32 \<Rightarrow> u32 \<Rightarrow> u32 \<Rightarrow> nat \<Rightarrow> bool" where
  "bd_ring B head io_head chunk n \<longleftrightarrow> (\<forall>i < n. B (bd_at head i) =
     zero_desc\<lparr>bd_next := bd_at head (Suc i mod n), bd_buffer := io_head + of_nat i * chunk,
       bd_control := ring_ctl chunk\<rparr>)"

section \<open>Lemmas\<close>

lemma bd_at_Suc: "bd_at (head + desc_size) i = bd_at head (Suc i)"
  by (simp add: bd_at_def algebra_simps)

lemma bd_at_0 [simp]: "bd_at head 0 = head"
  by (simp add: bd_at_def)

lemma unat_bd_off: "k < 2 ^ 26 \<Longrightarrow> unat (desc_size * of_nat k :: u32) = 64 * k"
  by (simp add: unat_word_ariths unat_of_nat)

lemma bd_at_inj:
  assumes "i < 2 ^ 26" and "j < 2 ^ 26"
  shows "bd_at head i = bd_at head j \<longleftrightarrow> i = j"
proof
  assume "bd_at head i = bd_at head j"
  then have "(desc_size * of_nat i :: u32) = desc_size * of_nat j" by (simp add: bd_at_def)
  then have "64 * i = 64 * j" using unat_bd_off [OF assms(1)] unat_bd_off [OF assms(2)] by metis
  then show "i = j" by simp
qed simp

lemma ring_loop_other:
  "(\<And>i. i < n \<Longrightarrow> a \<noteq> bd_at bd i) \<Longrightarrow> xsgdma_ring_loop n chunk bd sa B a = B a"
proof (induction n arbitrary: bd sa B)
  case (Suc n)
  then have "a \<noteq> bd" and "\<And>i. i < n \<Longrightarrow> a \<noteq> bd_at (bd + desc_size) i"
    by (metis bd_at_0 zero_less_Suc, metis bd_at_Suc Suc_less_eq)
  with Suc.IH show ?case by (simp add: Let_def)
qed simp

lemma ring_loop_at:
  "i < n \<Longrightarrow> n < 2 ^ 26 \<Longrightarrow> (\<And>i. i < n \<Longrightarrow> B (bd_at bd i) = zero_desc) \<Longrightarrow>
     xsgdma_ring_loop n chunk bd sa B (bd_at bd i) =
       zero_desc\<lparr>bd_next := bd_at bd (Suc i), bd_buffer := sa + of_nat i * chunk,
         bd_control := ring_ctl chunk\<rparr>"
proof (induction n arbitrary: i bd sa B)
  case (Suc n)
  let ?d = "zero_desc\<lparr>bd_control := ring_ctl chunk, bd_next := bd + desc_size, bd_buffer := sa\<rparr>"
  define B' where "B' = B(bd := ?d)"
  have z: "B bd = zero_desc" using Suc.prems(3) [of 0] by simp
  have step: "xsgdma_ring_loop (Suc n) chunk bd sa B =
      xsgdma_ring_loop n chunk (bd + desc_size) (sa + chunk) B'"
    by (simp add: B'_def Let_def z ring_ctl_def) (simp add: zero_desc_def)
  have neq: "bd_at bd (Suc j) \<noteq> bd" if "j < n" for j
    using bd_at_inj [of "Suc j" 0 bd] that Suc.prems(2) by simp
  show ?case
  proof (cases i)
    case 0
    have "xsgdma_ring_loop n chunk (bd + desc_size) (sa + chunk) B' bd = B' bd"
      using neq by (intro ring_loop_other) (metis bd_at_Suc)
    with 0 step show ?thesis by (simp add: bd_at_def B'_def)
  next
    case (Suc j)
    with Suc.prems have j: "j < n" by simp
    have "B' (bd_at (bd + desc_size) k) = zero_desc" if "k < n" for k
      using Suc.prems(3) [of "Suc k"] neq [OF that] that by (simp add: bd_at_Suc B'_def)
    with Suc.IH [OF j, of B' "bd + desc_size" "sa + chunk"] Suc.prems(2)
    have "xsgdma_ring_loop n chunk (bd + desc_size) (sa + chunk) B' (bd_at bd (Suc j)) =
        zero_desc\<lparr>bd_next := bd_at bd (Suc (Suc j)), bd_buffer := sa + chunk + of_nat j * chunk,
          bd_control := ring_ctl chunk\<rparr>"
      by (simp add: bd_at_Suc)
    moreover have "sa + chunk + of_nat j * chunk = sa + of_nat (Suc j) * chunk"
      by (simp add: algebra_simps)
    ultimately show ?thesis unfolding step Suc by (simp only:)
  qed
qed simp

text \<open>What the accepted length arguments give: a positive number of buffers that fill the
  allocated space.\<close>

lemma sg_args_okD:
  assumes "sg_args_ok alloc_len io_buff = Some True"
  shows "0 < unat io_buff" and "unat io_buff * (unat alloc_len div unat io_buff) = unat alloc_len"
    and "0 < unat alloc_len div unat io_buff" and "unat alloc_len div unat io_buff \<le> 4096"
    and "unat alloc_len \<le> 0x4000"
proof -
  from assms have al: "io_buff AND 3 = 0" and le: "alloc_len \<le> 0x4000" "io_buff \<le> alloc_len"
    and nz: "io_buff \<noteq> 0" and md: "alloc_len mod io_buff = 0"
    by (auto simp: sg_args_ok_def split: if_splits)
  show pos: "0 < unat io_buff" using nz by (simp add: unat_gt_0)
  from md have "unat alloc_len mod unat io_buff = 0" by (simp add: unat_mod [symmetric])
  then show "unat io_buff * (unat alloc_len div unat io_buff) = unat alloc_len" by auto
  show "unat alloc_len \<le> 0x4000" using le(1) by (simp add: word_le_nat_alt)
  moreover have "unat io_buff \<le> unat alloc_len" using le(2) by (simp add: word_le_nat_alt)
  ultimately show "0 < unat alloc_len div unat io_buff" using pos by (simp add: div_greater_zero_iff)
  have "io_buff AND 3 = take_bit 2 io_buff" by (simp add: take_bit_eq_mask mask_eq_exp_minus_1)
  with al have "unat (take_bit 2 io_buff) = 0" by simp
  then have "4 dvd unat io_buff"
    by (simp add: take_bit_eq_mod unat_mod mod_eq_0_iff_dvd)
  then have "4 \<le> unat io_buff" using pos by (auto dest: dvd_imp_le)
  then have "4 * (unat alloc_len div unat io_buff) \<le> unat alloc_len"
    using mult_le_mono1 [of 4 "unat io_buff" "unat alloc_len div unat io_buff"]
      times_div_less_eq_dividend [of "unat io_buff" "unat alloc_len"] by linarith
  then show "unat alloc_len div unat io_buff \<le> 4096"
    using \<open>unat alloc_len \<le> 0x4000\<close> by simp
qed

lemma zeroed_ring:
  assumes "n < 2 ^ 26" and "i < n"
  shows "bd_at head i - head < of_nat n * desc_size"
proof -
  have "unat (of_nat n * desc_size :: u32) = 64 * n"
    using unat_bd_off [OF assms(1)] by (simp add: mult.commute)
  with unat_bd_off [of i] assms show ?thesis by (simp add: bd_at_def word_less_nat_alt)
qed

lemma xsgdma_ring_bds:
  assumes ok: "sg_args_ok len chunk = Some True"
  defines "n \<equiv> unat len div unat chunk"
  shows "fst (xsgdma_ring head io_head len chunk s) = of_nat n"
    and "bd_ring (bds (snd (xsgdma_ring head io_head len chunk s))) head io_head chunk n"
    and "\<not> a - head < of_nat n * desc_size \<Longrightarrow>
      bds (snd (xsgdma_ring head io_head len chunk s)) a = bds s a"
proof -
  note nfacts = sg_args_okD [OF ok, folded n_def]
  have cnt: "len div chunk = of_nat n" and ucnt: "unat (len div chunk) = n"
    by (simp_all add: n_def unat_div [symmetric])
  then have un: "unat (of_nat n :: u32) = n" by simp
  from cnt show "fst (xsgdma_ring head io_head len chunk s) = of_nat n"
    by (simp add: xsgdma_ring_def Let_def)
  define B where "B = (\<lambda>a. if a - head < of_nat n * desc_size then zero_desc else bds s a)"
  define C where "C = xsgdma_ring_loop n chunk head io_head B"
  have last: "head + of_nat n * desc_size - desc_size = bd_at head (n - 1)"
    using nfacts(3) by (simp add: bd_at_def of_nat_diff algebra_simps)
  have res: "bds (snd (xsgdma_ring head io_head len chunk s)) =
      C(bd_at head (n - 1) := (C (bd_at head (n - 1)))\<lparr>bd_next := head\<rparr>)"
    by (simp add: xsgdma_ring_def Let_def cnt un last B_def C_def xdcache_flush_def emit_def)
  have small: "n < 2 ^ 26" using nfacts(4) by simp
  have at: "C (bd_at head i) = zero_desc\<lparr>bd_next := bd_at head (Suc i),
      bd_buffer := io_head + of_nat i * chunk, bd_control := ring_ctl chunk\<rparr>" if "i < n" for i
    unfolding C_def using that small zeroed_ring [OF small]
    by (intro ring_loop_at) (auto simp: B_def)
  show "bd_ring (bds (snd (xsgdma_ring head io_head len chunk s))) head io_head chunk n"
    unfolding bd_ring_def res
  proof (intro allI impI)
    fix i assume i: "i < n"
    show "(C(bd_at head (n - 1) := (C (bd_at head (n - 1)))\<lparr>bd_next := head\<rparr>)) (bd_at head i) =
      zero_desc\<lparr>bd_next := bd_at head (Suc i mod n), bd_buffer := io_head + of_nat i * chunk,
        bd_control := ring_ctl chunk\<rparr>"
    proof (cases "i = n - 1")
      case True
      with i at [OF i] show ?thesis by simp
    next
      case False
      with i have "Suc i < n" by simp
      with False i small bd_at_inj [of i "n - 1" head] at [OF i] show ?thesis by simp
    qed
  qed
  assume out: "\<not> a - head < of_nat n * desc_size"
  then have "a \<noteq> bd_at head i" if "i < n" for i using zeroed_ring [OF small that] by auto
  moreover from this nfacts(3) have "a \<noteq> bd_at head (n - 1)" by simp
  ultimately show "bds (snd (xsgdma_ring head io_head len chunk s)) a = bds s a"
    unfolding res using out by (simp add: C_def ring_loop_other B_def)
qed

lemma xsgdma_ring_frame:
  "snd (xsgdma_ring head io_head len chunk s) =
     s\<lparr>bds := bds (snd (xsgdma_ring head io_head len chunk s)),
       bus := L1Inval head (len div chunk * desc_size) # L2Flush head (len div chunk * desc_size)
         # bus s\<rparr>"
  by (simp add: xsgdma_ring_def Let_def xdcache_flush_def emit_def)

lemma desc_control_names [simp]:
  "fst ` set desc_control = {''buffer_len'', ''tx_eof'', ''tx_sof'', ''reserved''}"
  by (simp add: desc_control_def)

lemma desc_control_widths [layout_simps]:
  "fld_width desc_control ''buffer_len'' = 26" "fld_width desc_control ''tx_sof'' = 1"
  "fld_width desc_control ''tx_eof'' = 1"
  by (simp_all add: desc_control_def)

lemma ring_ctl_fields:
  "fld_get desc_control ''buffer_len'' (ring_ctl chunk) = take_bit 26 chunk"
  "fld_get desc_control ''tx_sof'' (ring_ctl chunk) = 1"
  "fld_get desc_control ''tx_eof'' (ring_ctl chunk) = 1"
  by (simp_all add: ring_ctl_def dcontrol.get_set dcontrol.get_set_other layout_simps)

section \<open>Properties\<close>

text \<open>
  C21: for accepted length arguments \<open>xsgdma_ring\<close> builds a cycle of \<open>len / chunk\<close> descriptors, at
  least one: descriptor \<open>i\<close> points to its successor, the last one to the first, its buffer is
  the \<open>i\<close>-th chunk of the buffer space, it is marked as a frame of its own and not completed.
  No other descriptor changes, and the ring is written back before the function returns.
\<close>

theorem xsgdma_ring_builds_cycle:
  assumes "sg_args_ok len chunk = Some True"
    and "xsgdma_ring head io_head len chunk s = (cnt, s')"
  shows "let n = unat len div unat chunk in
    0 < n \<and> cnt = of_nat n \<and> n * unat chunk = unat len
    \<and> (\<forall>i < n. let d = bds s' (bd_at head i) in
         bd_next d = bd_at head (Suc i mod n) \<and> bd_buffer d = io_head + of_nat i * chunk
         \<and> fld_get desc_control ''buffer_len'' (bd_control d) = chunk
         \<and> fld_on desc_control ''tx_sof'' (bd_control d)
         \<and> fld_on desc_control ''tx_eof'' (bd_control d) \<and> bd_status d = 0)
    \<and> (\<forall>a. \<not> a - head < of_nat n * desc_size \<longrightarrow> bds s' a = bds s a)
    \<and> (\<exists>t. bus s' = L1Inval head (of_nat n * desc_size) # L2Flush head (of_nat n * desc_size) # t)"
proof -
  let ?n = "unat len div unat chunk"
  note n = sg_args_okD [OF assms(1)]
  from assms(2) have s': "s' = snd (xsgdma_ring head io_head len chunk s)"
    and cnt: "cnt = fst (xsgdma_ring head io_head len chunk s)" by simp_all
  have ring: "bd_ring (bds s') head io_head chunk ?n"
    unfolding s' by (rule xsgdma_ring_bds(2) [OF assms(1)])
  have "unat chunk \<le> unat len" using n(2,3) by (metis dvd_imp_le dvd_triv_left mult_pos_pos n(1))
  with n(5) have "take_bit 26 chunk = chunk" 
    by (simp add: take_bit_eq_mod word_unat_eq_iff unat_mod)
  with ring have "\<forall>i < ?n. let d = bds s' (bd_at head i) in
         bd_next d = bd_at head (Suc i mod ?n) \<and> bd_buffer d = io_head + of_nat i * chunk
         \<and> fld_get desc_control ''buffer_len'' (bd_control d) = chunk
         \<and> fld_on desc_control ''tx_sof'' (bd_control d)
         \<and> fld_on desc_control ''tx_eof'' (bd_control d) \<and> bd_status d = 0"
    by (simp add: bd_ring_def ring_ctl_fields fld_on_def zero_desc_def Let_def)
  moreover have "len div chunk = of_nat ?n" by (simp add: unat_div [symmetric])
  then have "\<exists>t. bus s' = L1Inval head (of_nat ?n * desc_size)
      # L2Flush head (of_nat ?n * desc_size) # t"
    unfolding s' by (subst xsgdma_ring_frame) simp
  ultimately show ?thesis
    using n xsgdma_ring_bds(1) [OF assms(1), of head io_head s]
      xsgdma_ring_bds(3) [OF assms(1), of _ head io_head s]
    unfolding Let_def s' cnt by (simp add: mult.commute)
qed

definition xdma_boot :: xdma where
  "xdma_boot = \<lparr>bus = [], mem = (\<lambda>_. 0), bds = (\<lambda>_. zero_desc), ethdma_txbuserr = False,
     ethdma_rxbuserr = False, sbdma_cmplt = False, sbdma_buserr = False, rxcount = 0, txcount = 0,
     lostcount = 0, eth_rxtail = 0, eth_rxhead = 0, eth_txtail = 0, eth_txpkts = 0, eth_txdepth = 0\<rparr>"

theorem xsgdma_ring_builds_cycle_witness:
  "bd_next (bds (snd (xsgdma_ring XDMA2_MM2S_BDRING XDMA2_MM2S_BUFFER 15360 1536 xdma_boot))
     (bd_at XDMA2_MM2S_BDRING 9)) = XDMA2_MM2S_BDRING"
proof -
  have ok: "sg_args_ok 15360 1536 = Some True" by (simp add: sg_args_ok_def)
  let ?s = "snd (xsgdma_ring XDMA2_MM2S_BDRING XDMA2_MM2S_BUFFER 15360 1536 xdma_boot)"
  have "\<forall>i < 10. bd_next (bds ?s (bd_at XDMA2_MM2S_BDRING i)) = bd_at XDMA2_MM2S_BDRING (Suc i mod 10)"
    using xsgdma_ring_builds_cycle [OF ok, of XDMA2_MM2S_BDRING XDMA2_MM2S_BUFFER xdma_boot]
    by (auto simp: Let_def prod_eq_iff)
  from spec [OF this, of 9] show ?thesis by simp
qed

end
