(* ===== verification/Xdma_Rx.thy ===== *)
theory Xdma_Rx
  imports Xdma_Ring
begin

text \<open>
  The ethernet receive queue: the descriptors the receive engine has completed and the service
  has not yet taken, between \<open>eth_rxtail\<close> and \<open>eth_rxhead\<close>.
\<close>

section \<open>Specification\<close>

definition rx_inv :: "'a xdma_scheme \<Rightarrow> bool" where
  "rx_inv s \<longleftrightarrow> unat (eth_rxhead s) < XDMA2_MAX_BDS \<and> unat (eth_rxtail s) < XDMA2_MAX_BDS"

text \<open>The indices of the pending descriptors, oldest first.\<close>

definition rx_pending :: "'a xdma_scheme \<Rightarrow> nat list" where
  "rx_pending s = span XDMA2_MAX_BDS (unat (eth_rxtail s)) (unat (eth_rxhead s))"

abbreviation rx_bd :: "nat \<Rightarrow> u32" where
  "rx_bd i \<equiv> bd_at XDMA2_S2MM_BDRING i"

text \<open>What the receive engine does before it interrupts: it completes a descriptor.\<close>

definition dma_complete :: "u32 \<Rightarrow> u32 \<Rightarrow> (u32 \<Rightarrow> u8) \<Rightarrow> 'a xdma_scheme \<Rightarrow> 'a xdma_scheme" where
  "dma_complete bd st M s = s\<lparr>bds := (bds s)(bd := (bds s bd)\<lparr>bd_status := st\<rparr>), mem := M\<rparr>"

text \<open>
  The steps of the receive path: an interrupt, before which the engine has completed the
  descriptor at the head and written its data anywhere in memory; a call of
  \<open>_ethdma_rxsgcmplt\<close>, which takes a frame or not; a call of any other entry point of the
  ethernet transmit side. The number of frames taken is counted along.
\<close>

inductive rx_step :: "'a xdma_scheme \<times> nat \<Rightarrow> 'a xdma_scheme \<times> nat \<Rightarrow> bool" where
  irq: "rx_step (s, k) (onethdma_rxirq hw (dma_complete (rx_bd (unat (eth_rxhead s))) st M s), k)"
| took: "ethdma_rxsgcmplt p l s = (b, Some n, s') \<Longrightarrow> rx_step (s, k) (s', Suc k)"
| empty: "ethdma_rxsgcmplt p l s = (b, None, s') \<Longrightarrow> rx_step (s, k) (s', k)"
| enque: "rx_step (s, k) (snd (ethdma_txsgenque p l s), k)"
| flush: "rx_step (s, k) (ethdma_txsgflush s, k)"
| txirq: "rx_step (s, k) (onethdma_txirq hw s, k)"
| sbirq: "rx_step (s, k) (onsbdma_irq hw s, k)"

inductive rx_reach :: "'a xdma_scheme \<Rightarrow> 'a xdma_scheme \<times> nat \<Rightarrow> bool" for s0 where
  start: "rx_reach s0 (s0, 0)"
| step: "rx_reach s0 z \<Longrightarrow> rx_step z z' \<Longrightarrow> rx_reach s0 z'"

inductive_simps rx_step_simps: "rx_step (s, k) (s', k')"

section \<open>Lemmas\<close>

lemma unat_inc10:
  "unat (i :: u8) < 10 \<Longrightarrow> unat (if i + 1 = 10 then 0 else i + 1) = inc 10 (unat i)"
  using unat_inc_u8 [of i 10] by simp

lemma ethdma_queue_event:
  assumes "unat p < 10" and "unat c < 10" and "ethdma_queue True p c = (lost, p', c')"
  shows "unat p' = inc 10 (unat p)"
    and "unat c' = (if inc 10 (unat p) = unat c then inc 10 (unat c) else unat c)"
    and "lost \<longleftrightarrow> inc 10 (unat p) = unat c"
  using assms unat_inc10 [of p] unat_inc10 [of c]
  by (auto simp: ethdma_queue_def Let_def word_unat_eq_iff split: if_splits)

abbreviation rx_ioc :: "hw \<Rightarrow> 'a xdma_scheme \<Rightarrow> bool" where
  "rx_ioc hw s \<equiv> fld_on xdmasr ''ioc_irq'' (hw (bus s) (ch_sr XDMA2_S2MM))"

lemma rxirq_fields:
  assumes "ethdma_queue (rx_ioc hw s) (eth_rxhead s) (eth_rxtail s) = (lost, p', c')"
  shows "eth_rxhead (onethdma_rxirq hw s) = p'" "eth_rxtail (onethdma_rxirq hw s) = c'"
    and "rxcount (onethdma_rxirq hw s) = rxcount s + (if rx_ioc hw s then 1 else 0)"
    and "lostcount (onethdma_rxirq hw s) = lostcount s + (if lost then 1 else 0)"
    and "bds (onethdma_rxirq hw s) = bds s" "mem (onethdma_rxirq hw s) = mem s"
  using assms
  by (cases "rx_ioc hw s"; simp add: onethdma_rxirq_def xsgdma_ackirq_def ld32_def st32_def emit_def
      kernel_raise_def Let_def)+

lemma rxirq_quiet:
  "\<not> rx_ioc hw s \<Longrightarrow> eth_rxhead (onethdma_rxirq hw s) = eth_rxhead s
     \<and> eth_rxtail (onethdma_rxirq hw s) = eth_rxtail s
     \<and> rxcount (onethdma_rxirq hw s) = rxcount s \<and> lostcount (onethdma_rxirq hw s) = lostcount s"
  using rxirq_fields [of hw s False "eth_rxhead s" "eth_rxtail s"]
  by (simp add: ethdma_queue_def)

text \<open>A completion interrupt appends the head slot to the pending ones; when nine are pending
  already, the oldest is dropped and counted as lost.\<close>

lemma rxirq_event:
  assumes "rx_inv s" and "rx_ioc hw s"
  shows "rx_inv (onethdma_rxirq hw s)"
    and "rx_pending (onethdma_rxirq hw s) = push_drop 9 (rx_pending s) (unat (eth_rxhead s))"
    and "rxcount (onethdma_rxirq hw s) = rxcount s + 1"
    and "lostcount (onethdma_rxirq hw s) = lostcount s + (if length (rx_pending s) < 9 then 0 else 1)"
proof -
  obtain lost p' c' where q: "ethdma_queue True (eth_rxhead s) (eth_rxtail s) = (lost, p', c')"
    by (metis prod_cases3)
  let ?h = "unat (eth_rxhead s)" and ?t = "unat (eth_rxtail s)"
  from assms(1) have lt: "?h < 10" "?t < 10" by (auto simp: rx_inv_def)
  note qe = ethdma_queue_event [OF lt q]
  note f = rxirq_fields [of hw s lost p' c'] 
  have fq: "ethdma_queue (rx_ioc hw s) (eth_rxhead s) (eth_rxtail s) = (lost, p', c')"
    using q assms(2) by simp
  have full: "inc 10 ?h = ?t \<longleftrightarrow> length (rx_pending s) = 9"
    using span_full_iff [OF lt(2,1)] by (simp add: rx_pending_def)
  have le: "length (rx_pending s) \<le> 9"
    using length_span_less [OF lt(2), of ?h] by (simp add: rx_pending_def)
  show "rx_inv (onethdma_rxirq hw s)"
    using f(1,2) [OF fq] qe(1,2) lt by (simp add: rx_inv_def inc_less)
  show "rxcount (onethdma_rxirq hw s) = rxcount s + 1" using f(3) [OF fq] assms(2) by simp
  show "lostcount (onethdma_rxirq hw s) = lostcount s + (if length (rx_pending s) < 9 then 0 else 1)"
    using f(4) [OF fq] qe(3) full le by simp
  show "rx_pending (onethdma_rxirq hw s) = push_drop 9 (rx_pending s) ?h"
  proof (cases "inc 10 ?h = ?t")
    case True
    then have "span 10 (inc 10 ?t) (inc 10 ?h) = tl (span 10 ?t ?h) @ [?h]"
      using lt by (intro span_push_full) auto
    with True full qe f(1,2) [OF fq] show ?thesis by (simp add: rx_pending_def push_drop_def)
  next
    case False
    then have "span 10 ?t (inc 10 ?h) = span 10 ?t ?h @ [?h]"
      using lt by (intro span_push) auto
    with False full le qe f(1,2) [OF fq] show ?thesis by (simp add: rx_pending_def push_drop_def)
  qed
qed

lemma ucast_slot: "desc_size * ucast (t :: u8) = desc_size * (of_nat (unat t) :: u32)"
  by simp

lemma rx_bd_tail: "XDMA2_S2MM_BDRING + desc_size * ucast t = rx_bd (unat t)"
  by (simp add: bd_at_def)

lemma desc_status_names [simp]:
  "fst ` set desc_status =
     {''trans_len'', ''reserved'', ''dma_intErr'', ''dma_intSlvErr'', ''dma_decErr'', ''cmplt''}"
  by (simp add: desc_status_def)

lemma clear_status_fields:
  "\<not> fld_on desc_status ''cmplt'' (clear_status st)"
  "fld_get desc_status ''trans_len'' (clear_status st) = 0"
  by (simp_all add: clear_status_def Let_def fld_on_def dstatus.get_set dstatus.get_set_other)

text \<open>When a frame is taken, it is the oldest pending one.\<close>

lemma rxsgcmplt_took:
  assumes "rx_inv s" and "ethdma_rxsgcmplt p l s = (b, Some n, s')"
  shows "rx_pending s = unat (eth_rxtail s) # rx_pending s'" and "rx_inv s'"
    and "rxcount s' = rxcount s" "lostcount s' = lostcount s"
proof -
  let ?h = "unat (eth_rxhead s)" and ?t = "unat (eth_rxtail s)"
  from assms(1) have lt: "?h < 10" "?t < 10" by (auto simp: rx_inv_def)
  from assms(2) have ne: "eth_rxhead s \<noteq> eth_rxtail s"
    and new: "eth_rxhead s' = eth_rxhead s"
      "eth_rxtail s' = (if eth_rxtail s + 1 = 10 then 0 else eth_rxtail s + 1)"
      "rxcount s' = rxcount s" "lostcount s' = lostcount s"
    by (auto simp: ethdma_rxsgcmplt_def Let_def xdcache_flush_def xdcache_invalidate_def emit_def
        split: if_splits)
  from new(2) have t': "unat (eth_rxtail s') = inc 10 ?t" using unat_inc10 [OF lt(2)] by simp
  from ne have "?t \<noteq> ?h" by (auto simp: word_unat_eq_iff)
  then show "rx_pending s = ?t # rx_pending s'"
    using span_pop [OF lt(2,1)] t' new(1) by (simp add: rx_pending_def)
  show "rx_inv s'" using lt t' new(1) by (simp add: rx_inv_def inc_less)
  show "rxcount s' = rxcount s" "lostcount s' = lostcount s" using new by simp_all
qed

lemma rxsgcmplt_none:
  assumes "ethdma_rxsgcmplt p l s = (b, None, s')"
  shows "eth_rxhead s' = eth_rxhead s" "eth_rxtail s' = eth_rxtail s" "rxcount s' = rxcount s"
    "lostcount s' = lostcount s" "bds s' = bds s" "mem s' = mem s"
  using assms
  by (auto simp: ethdma_rxsgcmplt_def Let_def xdcache_flush_def xdcache_invalidate_def emit_def
        split: if_splits)

lemma tx_side_rx_frame [simp]:
  "eth_rxhead (snd (ethdma_txsgenque p l s)) = eth_rxhead s"
  "eth_rxtail (snd (ethdma_txsgenque p l s)) = eth_rxtail s"
  "rxcount (snd (ethdma_txsgenque p l s)) = rxcount s"
  "lostcount (snd (ethdma_txsgenque p l s)) = lostcount s"
  "eth_rxhead (ethdma_txsgflush s) = eth_rxhead s" "eth_rxtail (ethdma_txsgflush s) = eth_rxtail s"
  "rxcount (ethdma_txsgflush s) = rxcount s" "lostcount (ethdma_txsgflush s) = lostcount s"
  "eth_rxhead (onethdma_txirq hw s) = eth_rxhead s" "eth_rxtail (onethdma_txirq hw s) = eth_rxtail s"
  "rxcount (onethdma_txirq hw s) = rxcount s" "lostcount (onethdma_txirq hw s) = lostcount s"
  "eth_rxhead (onsbdma_irq hw s) = eth_rxhead s" "eth_rxtail (onsbdma_irq hw s) = eth_rxtail s"
  "rxcount (onsbdma_irq hw s) = rxcount s" "lostcount (onsbdma_irq hw s) = lostcount s"
  by (simp_all add: ethdma_txsgenque_def ethdma_txsgflush_def onethdma_txirq_def onsbdma_irq_def
      xsgdma_ackirq_def xsgdma_seqTrans_def xdcache_flush_def xdcache_invalidate_def emit_def
      ld32_def st32_def st_fld_def kernel_raise_def Let_def)

lemma dma_complete_frame [simp]:
  "eth_rxhead (dma_complete bd st M s) = eth_rxhead s"
  "eth_rxtail (dma_complete bd st M s) = eth_rxtail s"
  "rxcount (dma_complete bd st M s) = rxcount s" "lostcount (dma_complete bd st M s) = lostcount s"
  "rx_inv (dma_complete bd st M s) = rx_inv s" "rx_pending (dma_complete bd st M s) = rx_pending s"
  "bus (dma_complete bd st M s) = bus s"
  by (simp_all add: dma_complete_def rx_inv_def rx_pending_def)

text \<open>The invariant of the receive path: both indices in range, and every frame counted as
  received is taken, lost or pending.\<close>

definition rx_account :: "'a xdma_scheme \<times> nat \<Rightarrow> bool" where
  "rx_account z \<longleftrightarrow> rx_inv (fst z) \<and>
     rxcount (fst z) = of_nat (snd z) + lostcount (fst z) + of_nat (length (rx_pending (fst z)))"

lemma rx_account_frame:
  "eth_rxhead s' = eth_rxhead s \<Longrightarrow> eth_rxtail s' = eth_rxtail s \<Longrightarrow> rxcount s' = rxcount s \<Longrightarrow>
     lostcount s' = lostcount s \<Longrightarrow> rx_account (s', k) = rx_account (s, k)"
  by (simp add: rx_account_def rx_inv_def rx_pending_def)

lemma rx_pending_length: "rx_inv s \<Longrightarrow> length (rx_pending s) \<le> 9"
  using length_span_less [of "unat (eth_rxtail s)" 10 "unat (eth_rxhead s)"]
  by (simp add: rx_inv_def rx_pending_def)

lemma rx_account_irq:
  assumes "rx_account (s, k)"
  shows "rx_account (onethdma_rxirq hw s, k)"
proof (cases "rx_ioc hw s")
  case True
  from assms have inv: "rx_inv s" by (simp add: rx_account_def)
  note ev = rxirq_event [of s hw, OF inv True]
  have "length (push_drop 9 (rx_pending s) x) = length (rx_pending s) + (if length (rx_pending s) < 9 then 1 else 0)" for x
    using rx_pending_length [OF inv] by (auto simp: push_drop_def)
  with ev assms show ?thesis by (auto simp: rx_account_def)
next
  case False
  from rxirq_quiet [of hw s, OF this] assms show ?thesis
    by (subst rx_account_frame [of _ s]) simp_all
qed

lemma rx_step_account: "rx_step z z' \<Longrightarrow> rx_account z \<Longrightarrow> rx_account z'"
proof (induction rule: rx_step.induct)
  case (irq s k hw st M)
  then show ?case by (intro rx_account_irq) (simp add: rx_account_def)
next
  case (took p l s b n s' k)
  then have inv: "rx_inv s" by (simp add: rx_account_def)
  from rxsgcmplt_took [OF inv took.hyps] took.prems show ?case by (simp add: rx_account_def)
next
  case (empty p l s b s' k)
  with rxsgcmplt_none [OF empty.hyps] show ?case by (subst rx_account_frame [of _ s]) simp_all
next
  case (enque s k p l)
  then show ?case by (subst rx_account_frame [of _ s]) simp_all
next
  case (flush s k)
  then show ?case by (subst rx_account_frame [of _ s]) simp_all
next
  case (txirq s k hw)
  then show ?case by (subst rx_account_frame [of _ s]) simp_all
next
  case (sbirq s k hw)
  then show ?case by (subst rx_account_frame [of _ s]) simp_all
qed

lemma rx_reach_account: "rx_reach s0 z \<Longrightarrow> rx_account (s0, 0) \<Longrightarrow> rx_account z"
  by (induction rule: rx_reach.induct) (auto intro: rx_step_account)

lemma unat_ring_distance:
  assumes "unat (h :: u8) < 10" "unat (t :: u8) < 10"
  shows "unat ((ucast h - ucast t + 10) mod 10 :: u32) = (unat h + 10 - unat t) mod 10"
proof -
  have le: "(ucast t :: u32) \<le> ucast h + 10"
    using assms by (simp add: word_le_nat_alt unat_word_ariths unat_ucast_up)
  have "(ucast h - ucast t + 10) mod 10 = ((ucast h + 10) - ucast t) mod (10 :: u32)"
    by (simp add: algebra_simps)
  moreover have "unat ((ucast h + 10) - ucast t :: u32) = unat h + 10 - unat t"
    using assms by (simp only: unat_sub [OF le]) (simp add: unat_word_ariths unat_ucast_up)
  ultimately show ?thesis by (simp only: unat_mod) simp
qed

lemma rxqcount_length:
  assumes "rx_inv s"
  shows "eth_rxqcount s = of_nat (length (rx_pending s))"
proof -
  from assms have lt: "unat (eth_rxhead s) < 10" "unat (eth_rxtail s) < 10"
    by (auto simp: rx_inv_def)
  have "unat (eth_rxqcount s) = length (rx_pending s)"
    using unat_ring_distance [OF lt] lt
    by (simp add: eth_rxqcount_def Let_def rx_pending_def length_span)
  then show ?thesis by (metis of_nat_unat ucast_id)
qed

text \<open>The busy-waits of the start only touch the bus.\<close>

lemma await_bus: "await hw a st m = Some m' \<Longrightarrow> \<exists>t. m' = m\<lparr>bus := t\<rparr>"
  by (auto simp: await_def)

lemma xintc_bus:
  "xintc_disableIRQ hw irq m = Some m' \<Longrightarrow> \<exists>t. m' = m\<lparr>bus := t\<rparr>"
  "xintc_enableIRQ hw irq isr m = Some m' \<Longrightarrow> \<exists>t. m' = m\<lparr>bus := t\<rparr>"
  by (auto simp: xintc_disableIRQ_def xintc_enableIRQ_def st32_def ld32_def emit_def await_def
      split: if_splits intro: exI [of _ "bus m"])

lemma st_fld_bus: "\<exists>t. st_fld hw L f v a m = m\<lparr>bus := t\<rparr>"
  by (auto simp: st_fld_def st32_def ld32_def emit_def)

lemma xdma_start_fields:
  assumes "xdma_start hw f g h s0 = Some s"
  shows "eth_rxhead s = 0 \<and> eth_rxtail s = 0 \<and> rxcount s = 0 \<and> lostcount s = 0
    \<and> eth_txtail s = 0 \<and> eth_txpkts s = 0 \<and> eth_txdepth s = 0 \<and> txcount s = 0
    \<and> bds s = bds s0 \<and> mem s = mem s0"
  using assms
  by (auto simp: xdma_start_def Let_def bind_eq_Some_conv st_fld_def st32_def ld32_def emit_def
      dest!: xintc_bus await_bus)

section \<open>Properties\<close>


text \<open>A board whose engines leave reset at once and always report a completion.\<close>

definition ready_hw :: hw where
  "ready_hw t a = (if a = XINTC_ier then ier_of t else if a = ch_sr XDMA2_S2MM then 0x1000 else 0)"

lemma ready_hw_intc: "intc_hw ready_hw"
  by (simp add: intc_hw_def ready_hw_def)

lemma ready_hw_cr: "ready_hw t (ch_cr XDMA0_MM2S) = 0" "ready_hw t (ch_cr XDMA0_S2MM) = 0"
    "ready_hw t (ch_cr XDMA1_MM2S) = 0"
  by (simp_all add: ready_hw_def XINTC_ier_def ch_cr_def ch_sr_def)

lemma ready_start: "\<exists>s. xdma_start ready_hw 1 2 3 xdma_boot = Some s"
  by (simp add: xdma_start_def Let_def xintc_disableIRQ_eq [OF ready_hw_intc]
      xintc_enableIRQ_eq [OF ready_hw_intc] await_def poll_now ready_hw_cr fld_on_def fld_get_def)


end
