(* ===== verification/Xdma_Frames.thy ===== *)
theory Xdma_Frames
  imports Xdma_Rx
begin

text \<open>
  The receive path end to end: the frames the engine stores are delivered by
  \<open>_ethdma_rxsgcmplt\<close> in order and unchanged, as by a queue of nine frames that drops the
  oldest. The descriptors and the buffers of the ring are those \<open>xsgdma_ring\<close> sets up.
\<close>

section \<open>Specification\<close>

text \<open>The documented behaviour of the engine on a received frame: it writes the frame to the
  buffer of the descriptor at the head of the ring, marks the descriptor completed with
  the length of the frame, and interrupts.\<close>

definition done_status :: "nat \<Rightarrow> u32" where
  "done_status n = fld_set desc_status ''cmplt'' 1 (fld_set desc_status ''trans_len'' (of_nat n) 0)"

definition rx_arrive :: "hw \<Rightarrow> u8 list \<Rightarrow> 'a xdma_scheme \<Rightarrow> 'a xdma_scheme" where
  "rx_arrive hw f s =
     (let bd = rx_bd (unat (eth_rxhead s))
      in onethdma_rxirq hw (dma_complete bd (done_status (length f))
           (lay_bytes (bd_buffer (bds s bd)) f (mem s)) s))"

text \<open>The frame in a descriptor, and the frames pending.\<close>

definition rx_frame :: "'a xdma_scheme \<Rightarrow> nat \<Rightarrow> u8 list" where
  "rx_frame s i =
     (let d = bds s (rx_bd i)
      in bytes_at (mem s) (bd_buffer d) (unat (fld_get desc_status ''trans_len'' (bd_status d))))"

definition rx_frames :: "'a xdma_scheme \<Rightarrow> u8 list list" where
  "rx_frames s = map (rx_frame s) (rx_pending s)"

text \<open>The state after the ring is set up: every descriptor has its own chunk of the buffer
  space, and every pending descriptor is completed with a frame that fits.\<close>

definition rx_ready :: "u32 \<Rightarrow> 'a xdma_scheme \<Rightarrow> bool" where
  "rx_ready chunk s \<longleftrightarrow> rx_inv s \<and> 10 * unat chunk \<le> 0x4000
     \<and> (\<forall>i < 10. bd_buffer (bds s (rx_bd i)) = XDMA2_S2MM_BUFFER + of_nat i * chunk)
     \<and> (\<forall>i \<in> set (rx_pending s). fld_on desc_status ''cmplt'' (bd_status (bds s (rx_bd i)))
          \<and> length (rx_frame s i) \<le> unat chunk)"

text \<open>The destination of the copy does not overlap the receive buffers.\<close>

definition outside_rx :: "u32 \<Rightarrow> u32 \<Rightarrow> bool" where
  "outside_rx p l \<longleftrightarrow> (\<forall>a. a - p < l \<longrightarrow> \<not> a - XDMA2_S2MM_BUFFER < 0x4000)"

text \<open>The reader of the ethernet service: one call with a fixed buffer, as its emptiness test, the
  bytes delivered and the state left.\<close>

definition rx_none :: "u32 \<Rightarrow> u32 \<Rightarrow> 'a xdma_scheme \<Rightarrow> bool" where
  "rx_none p l s \<longleftrightarrow> fst (snd (ethdma_rxsgcmplt p l s)) = None"

definition rx_first :: "u32 \<Rightarrow> u32 \<Rightarrow> 'a xdma_scheme \<Rightarrow> u8 list" where
  "rx_first p l s =
     (case ethdma_rxsgcmplt p l s of
        (b, None, s') \<Rightarrow> []
      | (b, Some n, s') \<Rightarrow> bytes_at (mem s') p (unat n))"

definition rx_rest :: "u32 \<Rightarrow> u32 \<Rightarrow> 'a xdma_scheme \<Rightarrow> 'a xdma_scheme" where
  "rx_rest p l s = snd (snd (ethdma_rxsgcmplt p l s))"

section \<open>Lemmas\<close>

lemma desc_status_widths [layout_simps]:
  "fld_width desc_status ''trans_len'' = 26" "fld_width desc_status ''cmplt'' = 1"
  by (simp_all add: desc_status_def)

lemma done_status_fields:
  "fld_on desc_status ''cmplt'' (done_status n)"
  "n < 2 ^ 26 \<Longrightarrow> unat (fld_get desc_status ''trans_len'' (done_status n)) = n"
  by (simp_all add: done_status_def fld_on_def dstatus.get_set dstatus.get_set_other layout_simps
      unat_of_nat unsigned_take_bit_eq take_bit_nat_eq_self)

text \<open>Two chunks of the buffer space do not overlap.\<close>

lemma chunk_end: "i < 10 \<Longrightarrow> 10 * c \<le> (0x4000 :: nat) \<Longrightarrow> i * c + c \<le> 0x4000"
  using mult_le_mono1 [OF Suc_leI, of i 10 c] unfolding mult_Suc by linarith

lemma unat_chunk:
  assumes "i < 10" "10 * unat c \<le> 0x4000" "k < unat c"
  shows "unat (of_nat i * c + of_nat k :: u32) = i * unat c + k"
    and "unat (of_nat i * c :: u32) = i * unat c"
  using chunk_end [OF assms(1,2)] assms(3)
  by (simp_all add: unat_word_ariths unat_of_nat mod_mult_left_eq mod_add_left_eq)

lemma chunk_apart:
  assumes "i < 10" "j < 10" "i \<noteq> j" "k < unat c" "10 * unat c \<le> 0x4000"
  shows "unat (b + of_nat i * c + of_nat k - (b + of_nat j * c) :: u32) \<ge> unat c"
proof -
  note ui = unat_chunk(1) [OF assms(1,5,4)] and uj = unat_chunk(2) [OF assms(2,5,4)]
  note le = chunk_end [OF assms(1,5)] chunk_end [OF assms(2,5)]
  have eq: "b + of_nat i * c + of_nat k - (b + of_nat j * c) = (of_nat i * c + of_nat k) - (of_nat j * c :: u32)"
    by simp
  have "i < j \<Longrightarrow> i * unat c + unat c \<le> j * unat c"
    using mult_le_mono1 [of "Suc i" j "unat c"] by simp
  moreover have "j < i \<Longrightarrow> j * unat c + unat c \<le> i * unat c"
    using mult_le_mono1 [of "Suc j" i "unat c"] by simp
  ultimately show ?thesis
    unfolding eq unat_sub_if' ui uj using assms(3,4) le
    by (cases i j rule: linorder_cases) simp_all
qed

lemma rx_pending_bound: "rx_inv s \<Longrightarrow> i \<in> set (rx_pending s) \<Longrightarrow> i < 10"
  by (auto simp: rx_pending_def rx_inv_def dest: span_bound [rotated])

lemma rx_bd_inj: "i < 10 \<Longrightarrow> j < 10 \<Longrightarrow> rx_bd i = rx_bd j \<longleftrightarrow> i = j"
  by (simp add: bd_at_inj)

lemma head_not_pending: "rx_inv s \<Longrightarrow> unat (eth_rxhead s) \<notin> set (rx_pending s)"
  by (auto simp: rx_pending_def rx_inv_def dest: span_writer_free [rotated])

lemma push_drop_map: "map g (push_drop n q x) = push_drop n (map g q) (g x)"
  by (simp add: push_drop_def map_tl)

lemma set_push_drop: "y \<in> set (push_drop n q x) \<Longrightarrow> y = x \<or> y \<in> set q"
  by (auto simp: push_drop_def dest: list.set_sel(2) split: if_splits) (metis list.set_sel(2) tl_Nil empty_iff list.set(1))

lemma rxirq_store: "bds (onethdma_rxirq hw s) = bds s" "mem (onethdma_rxirq hw s) = mem s"
  using rxirq_fields(5,6) [of hw s] by (metis prod_cases3)+

lemma rx_frame_cong:
  assumes "bds s' (rx_bd i) = bds s (rx_bd i)"
    and "\<And>k. k < length (rx_frame s i) \<Longrightarrow>
      mem s' (bd_buffer (bds s (rx_bd i)) + of_nat k) = mem s (bd_buffer (bds s (rx_bd i)) + of_nat k)"
  shows "rx_frame s' i = rx_frame s i"
  using assms by (auto simp: rx_frame_def Let_def intro: bytes_at_cong)

lemma rx_frame_after_dma:
  assumes "rx_ready chunk s" and "length f \<le> unat chunk" and "i < 10"
    and "i \<noteq> unat (eth_rxhead s) \<Longrightarrow> length (rx_frame s i) \<le> unat chunk"
  shows "rx_frame (rx_arrive hw f s) i = (if i = unat (eth_rxhead s) then f else rx_frame s i)"
proof -
  let ?h = "unat (eth_rxhead s)"
  let ?buf = "\<lambda>i. XDMA2_S2MM_BUFFER + of_nat i * chunk :: u32"
  from assms(1) have h: "?h < 10" and c: "10 * unat chunk \<le> 0x4000"
    and buf: "\<And>i. i < 10 \<Longrightarrow> bd_buffer (bds s (rx_bd i)) = ?buf i"
    by (auto simp: rx_ready_def rx_inv_def)
  have mem: "mem (rx_arrive hw f s) = lay_bytes (?buf ?h) f (mem s)"
    and bds: "bds (rx_arrive hw f s) = (bds s)(rx_bd ?h := (bds s (rx_bd ?h))\<lparr>bd_status := done_status (length f)\<rparr>)"
    using buf [OF h] by (simp_all add: rx_arrive_def Let_def rxirq_store dma_complete_def)
  show ?thesis
  proof (cases "i = ?h")
    case True
    then show ?thesis using assms(2) c buf [OF h]
      by (simp add: rx_frame_def mem bds done_status_fields bytes_at_lay)
  next
    case False
    have "rx_frame (rx_arrive hw f s) i = rx_frame s i"
    proof (rule rx_frame_cong)
      show "bds (rx_arrive hw f s) (rx_bd i) = bds s (rx_bd i)"
        using False assms(3) h rx_bd_inj [of i ?h] by (simp add: bds)
      fix k assume "k < length (rx_frame s i)"
      with assms(4) False have "k < unat chunk" by simp
      from chunk_apart [OF assms(3) h False this c, of XDMA2_S2MM_BUFFER] assms(2)
      show "mem (rx_arrive hw f s) (bd_buffer (bds s (rx_bd i)) + of_nat k)
          = mem s (bd_buffer (bds s (rx_bd i)) + of_nat k)"
        by (simp add: mem lay_bytes_def buf [OF assms(3)])
    qed
    with False show ?thesis by simp
  qed
qed

lemma rx_arrive_frames:
  assumes ready: "rx_ready chunk s" and len: "length f \<le> unat chunk"
    and ioc: "\<forall>t. fld_on xdmasr ''ioc_irq'' (hw t (ch_sr XDMA2_S2MM))"
  shows "rx_ready chunk (rx_arrive hw f s)"
    and "rx_frames (rx_arrive hw f s) = push_drop 9 (rx_frames s) f"
proof -
  let ?h = "unat (eth_rxhead s)" and ?s = "rx_arrive hw f s"
  let ?s1 = "dma_complete (rx_bd ?h) (done_status (length f))
      (lay_bytes (bd_buffer (bds s (rx_bd ?h))) f (mem s)) s"
  have inv: "rx_inv s" using ready by (simp add: rx_ready_def)
  have s: "?s = onethdma_rxirq hw ?s1" by (simp add: rx_arrive_def Let_def)
  from rxirq_event(1,2) [of ?s1 hw] inv ioc
  have inv': "rx_inv ?s" and pend: "rx_pending ?s = push_drop 9 (rx_pending s) ?h" by (simp_all add: s)
  have h: "?h < 10" using inv by (simp add: rx_inv_def)
  have short: "length (rx_frame s i) \<le> unat chunk" if "i \<in> set (rx_pending s)" for i
    using that ready by (simp add: rx_ready_def)
  have frame: "rx_frame ?s i = (if i = ?h then f else rx_frame s i)"
    if "i = ?h \<or> i \<in> set (rx_pending s)" for i
    using that short h rx_pending_bound [OF inv] by (intro rx_frame_after_dma [OF ready len]) auto
  have "map (rx_frame ?s) (rx_pending s) = rx_frames s"
    using frame head_not_pending [OF inv] by (auto simp: rx_frames_def)
  with frame [of ?h] show "rx_frames ?s = push_drop 9 (rx_frames s) f"
    by (simp only: rx_frames_def pend push_drop_map) simp
  have bds: "bds ?s = (bds s)(rx_bd ?h := (bds s (rx_bd ?h))\<lparr>bd_status := done_status (length f)\<rparr>)"
    by (simp add: s rxirq_store dma_complete_def)
  have "fld_on desc_status ''cmplt'' (bd_status (bds ?s (rx_bd i))) \<and> length (rx_frame ?s i) \<le> unat chunk"
    if "i \<in> set (rx_pending ?s)" for i
  proof -
    from that pend have i: "i = ?h \<or> i \<in> set (rx_pending s)" by (auto dest: set_push_drop)
    with frame [OF i] short len ready show ?thesis
      by (auto simp: bds done_status_fields rx_ready_def)
  qed
  with ready inv' show "rx_ready chunk ?s" by (auto simp: rx_ready_def bds)
qed

text \<open>Taking the oldest frame: it is copied to the destination, and the others stay.\<close>

lemma rxsgcmplt_eq:
  assumes "rx_ready chunk s" and "rx_frames s = f # fs" and "length f \<le> unat l"
  shows "\<exists>t. ethdma_rxsgcmplt p l s =
    (bd_buffer (bds s (rx_bd (unat (eth_rxtail s)))), Some (of_nat (length f)),
     s\<lparr>bds := (bds s)(rx_bd (unat (eth_rxtail s)) :=
         (bds s (rx_bd (unat (eth_rxtail s))))\<lparr>bd_status :=
            clear_status (bd_status (bds s (rx_bd (unat (eth_rxtail s)))))\<rparr>), bus := t,
       mem := memcpy p (bd_buffer (bds s (rx_bd (unat (eth_rxtail s))))) (of_nat (length f)) (mem s),
       eth_rxtail := (if eth_rxtail s + 1 = 10 then 0 else eth_rxtail s + 1)\<rparr>)"
proof -
  let ?h = "unat (eth_rxhead s)" and ?t = "unat (eth_rxtail s)"
  from assms(1) have lt: "?h < 10" "?t < 10" by (auto simp: rx_ready_def rx_inv_def)
  from assms(2) have "rx_pending s \<noteq> []" by (auto simp: rx_frames_def)
  then have ne: "?t \<noteq> ?h" using span_Nil_iff [OF lt(2,1)] by (simp add: rx_pending_def)
  then have pend: "rx_pending s = ?t # span 10 (inc 10 ?t) ?h"
    using span_pop [OF lt(2,1)] by (simp add: rx_pending_def)
  with assms(1) have cm: "fld_on desc_status ''cmplt'' (bd_status (bds s (rx_bd ?t)))"
    by (simp add: rx_ready_def)
  from pend assms(2) have f: "rx_frame s ?t = f" by (simp add: rx_frames_def)
  then have tl: "fld_get desc_status ''trans_len'' (bd_status (bds s (rx_bd ?t))) = of_nat (length f)"
    by (auto simp: rx_frame_def Let_def)
  have "\<not> l < of_nat (length f)"
    using assms(3) by (simp add: word_less_nat_alt unat_of_nat_u32)
  with ne cm tl show ?thesis
    unfolding ethdma_rxsgcmplt_def rx_bd_tail Let_def
    by (auto simp: xdcache_flush_def xdcache_invalidate_def emit_def)
qed

lemma rx_take_frame:
  assumes ready: "rx_ready chunk s" and fr: "rx_frames s = f # fs" and len: "length f \<le> unat l"
    and out: "outside_rx p l"
  shows "\<exists>b s'. ethdma_rxsgcmplt p l s = (b, Some (of_nat (length f)), s') \<and> rx_ready chunk s'
    \<and> bytes_at (mem s') p (length f) = f \<and> rx_frames s' = fs
    \<and> rxcount s' = rxcount s \<and> lostcount s' = lostcount s"
proof -
  let ?t = "unat (eth_rxtail s)"
  obtain t where eq: "ethdma_rxsgcmplt p l s =
    (bd_buffer (bds s (rx_bd ?t)), Some (of_nat (length f)),
     s\<lparr>bds := (bds s)(rx_bd ?t := (bds s (rx_bd ?t))\<lparr>bd_status :=
            clear_status (bd_status (bds s (rx_bd ?t)))\<rparr>), bus := t,
       mem := memcpy p (bd_buffer (bds s (rx_bd ?t))) (of_nat (length f)) (mem s),
       eth_rxtail := (if eth_rxtail s + 1 = 10 then 0 else eth_rxtail s + 1)\<rparr>)" (is "_ = (?b, _, ?s)")
    using rxsgcmplt_eq [OF ready fr len] by blast
  have inv: "rx_inv s" and c: "10 * unat chunk \<le> 0x4000" using ready by (simp_all add: rx_ready_def)
  note took = rxsgcmplt_took [OF inv eq]
  have lenf: "unat (of_nat (length f) :: u32) = length f"
    using len by (rule unat_of_nat_u32)
  have f: "rx_frame s ?t = f" and fs: "map (rx_frame s) (rx_pending ?s) = fs"
    using fr took(1) by (simp_all add: rx_frames_def)
  have "bytes_at (mem s) ?b (length f) = f"
    using f by (metis length_bytes_at rx_frame_def)
  then have copy: "bytes_at (mem ?s) p (length f) = f" by (simp add: bytes_at_memcpy lenf)
  have dist: "?t \<notin> set (rx_pending ?s)"
    using took(1) span_distinct [of ?t 10 "unat (eth_rxhead s)"] inv by (simp add: rx_pending_def rx_inv_def)
  have frame: "rx_frame ?s i = rx_frame s i \<and> bds ?s (rx_bd i) = bds s (rx_bd i)
      \<and> length (rx_frame s i) \<le> unat chunk \<and> fld_on desc_status ''cmplt'' (bd_status (bds s (rx_bd i)))"
    if "i \<in> set (rx_pending ?s)" for i
  proof -
    from that took(1) have pi: "i \<in> set (rx_pending s)" by simp
    then have i: "i < 10" using rx_pending_bound [OF inv] by simp
    from pi ready have short: "length (rx_frame s i) \<le> unat chunk"
      and cm: "fld_on desc_status ''cmplt'' (bd_status (bds s (rx_bd i)))" by (auto simp: rx_ready_def)
    have bd: "bds ?s (rx_bd i) = bds s (rx_bd i)"
      using dist that i rx_bd_inj [of i ?t] inv by (auto simp: rx_inv_def)
    have "rx_frame ?s i = rx_frame s i"
    proof (rule rx_frame_cong)
      show "bds ?s (rx_bd i) = bds s (rx_bd i)" by (rule bd)
      fix k assume "k < length (rx_frame s i)"
      with short have k: "k < unat chunk" by simp
      from unat_chunk(1) [OF i c k] chunk_end [OF i c] k have "(XDMA2_S2MM_BUFFER + of_nat i * chunk + of_nat k) - XDMA2_S2MM_BUFFER < 0x4000"
        by (simp add: word_less_nat_alt add.assoc)
      with out have "\<not> (XDMA2_S2MM_BUFFER + of_nat i * chunk + of_nat k) - p < l"
        unfolding outside_rx_def by blast
      then have "\<not> (XDMA2_S2MM_BUFFER + of_nat i * chunk + of_nat k) - p < of_nat (length f)"
        using len lenf by (simp add: word_less_nat_alt)
      moreover have "bd_buffer (bds s (rx_bd i)) = XDMA2_S2MM_BUFFER + of_nat i * chunk"
        using ready i by (simp add: rx_ready_def)
      ultimately show "mem ?s (bd_buffer (bds s (rx_bd i)) + of_nat k)
          = mem s (bd_buffer (bds s (rx_bd i)) + of_nat k)"
        by (simp add: memcpy_outside)
    qed
    with bd short cm show ?thesis by simp
  qed
  have "rx_ready chunk ?s"
    using took(2) c ready frame by (auto simp: rx_ready_def)
  moreover have "rx_frames ?s = fs" using frame fs by (auto simp: rx_frames_def)
  ultimately show ?thesis using eq copy took(3,4) by blast
qed

text \<open>The receive path implements the bounded queue of frames, for every reader buffer that can
  hold a chunk and lies outside the receive buffers, and every hardware that reports the
  completions.\<close>

definition rx_ioc_hw :: "hw \<Rightarrow> bool" where
  "rx_ioc_hw hw \<longleftrightarrow> (\<forall>t. fld_on xdmasr ''ioc_irq'' (hw t (ch_sr XDMA2_S2MM)))"

lemma rx_empty_none: "rx_inv s \<Longrightarrow> rx_frames s = [] \<Longrightarrow> ethdma_rxsgcmplt p l s = (0, None, s)"
  using span_Nil_iff [of "unat (eth_rxtail s)" 10 "unat (eth_rxhead s)"]
  by (simp add: rx_frames_def rx_pending_def rx_inv_def ethdma_rxsgcmplt_def word_unat_eq_iff)

lemma rx_take_ops:
  assumes "rx_ready chunk s" and "chunk \<le> l" and "outside_rx p l" and "rx_frames s \<noteq> []"
  shows "\<not> rx_none p l s" and "rx_first p l s = hd (rx_frames s)"
    and "rx_frames (rx_rest p l s) = tl (rx_frames s)" and "rx_ready chunk (rx_rest p l s)"
proof -
  from assms(4) obtain f fs where fr: "rx_frames s = f # fs" by (cases "rx_frames s") auto
  then have "f \<in> set (rx_frames s)" by simp
  with assms(1) have "length f \<le> unat chunk" by (auto simp: rx_frames_def rx_ready_def)
  with assms(2) have len: "length f \<le> unat l" by (simp add: word_le_nat_alt)
  from rx_take_frame [OF assms(1) fr len assms(3)] unat_of_nat_u32 [OF len] fr
  show "\<not> rx_none p l s" "rx_first p l s = hd (rx_frames s)"
    "rx_frames (rx_rest p l s) = tl (rx_frames s)" "rx_ready chunk (rx_rest p l s)"
    by (auto simp: rx_none_def rx_first_def rx_rest_def)
qed

text \<open>The parameters of the reader are part of the state the contract speaks of.\<close>

type_synonym 'a rx_env = "hw \<times> u32 \<times> u32 \<times> u32 \<times> 'a xdma_scheme"

fun rxq_inv :: "'a rx_env \<Rightarrow> bool" where
  "rxq_inv (hw, chunk, p, l, s) \<longleftrightarrow>
     rx_ready chunk s \<and> rx_ioc_hw hw \<and> 1536 \<le> chunk \<and> chunk \<le> l \<and> outside_rx p l"

fun rxq_frames :: "'a rx_env \<Rightarrow> u8 list list" where
  "rxq_frames (hw, chunk, p, l, s) = rx_frames s"

fun rxq_none :: "'a rx_env \<Rightarrow> bool" where
  "rxq_none (hw, chunk, p, l, s) = rx_none p l s"

fun rxq_put :: "u8 list \<Rightarrow> 'a rx_env \<Rightarrow> 'a rx_env" where
  "rxq_put f (hw, chunk, p, l, s) = (hw, chunk, p, l, rx_arrive hw f s)"

fun rxq_first :: "'a rx_env \<Rightarrow> u8 list" where
  "rxq_first (hw, chunk, p, l, s) = rx_first p l s"

fun rxq_rest :: "'a rx_env \<Rightarrow> 'a rx_env" where
  "rxq_rest (hw, chunk, p, l, s) = (hw, chunk, p, l, rx_rest p l s)"

interpretation ethrx: bounded_queue 9 rxq_inv rxq_frames "\<lambda>f. length f \<le> 1536"
  rxq_none rxq_put rxq_first rxq_rest
proof unfold_locales
  show "0 < (9 :: nat)" by simp
next
  fix z :: "'a rx_env" assume inv: "rxq_inv z"
  obtain hw chunk p l s where z: "z = (hw, chunk, p, l, s)" by (cases z)
  from inv have s: "rx_ready chunk s" "rx_ioc_hw hw" "1536 \<le> chunk" "chunk \<le> l" "outside_rx p l"
    by (auto simp: z)
  have rinv: "rx_inv s" using s(1) by (simp add: rx_ready_def)
  show "length (rxq_frames z) \<le> 9" using rx_pending_length [OF rinv] by (simp add: z rx_frames_def)
  show "rxq_none z \<longleftrightarrow> rxq_frames z = []"
    using rx_take_ops(1) [OF s(1,4,5)] rx_empty_none [OF rinv, of p l]
    by (cases "rx_frames s = []") (simp_all add: z rx_none_def)
  fix f :: "u8 list" assume "length f \<le> 1536"
  moreover have "1536 \<le> unat chunk" using s(3) by (simp add: word_le_nat_alt)
  ultimately have "length f \<le> unat chunk" by simp
  note arr = rx_arrive_frames [OF s(1) this, of hw]
  from arr s show "rxq_frames (rxq_put f z) = push_drop 9 (rxq_frames z) f" "rxq_inv (rxq_put f z)"
    by (simp_all add: z rx_ioc_hw_def)
next
  fix z :: "'a rx_env" assume inv: "rxq_inv z" and ne: "rxq_frames z \<noteq> []"
  obtain hw chunk p l s where z: "z = (hw, chunk, p, l, s)" by (cases z)
  from inv have s: "rx_ready chunk s" "rx_ioc_hw hw" "1536 \<le> chunk" "chunk \<le> l" "outside_rx p l"
    by (auto simp: z)
  from ne have "rx_frames s \<noteq> []" by (simp add: z)
  note take = rx_take_ops [OF s(1,4,5) this]
  from take s show "rxq_first z = hd (rxq_frames z)" "rxq_frames (rxq_rest z) = tl (rxq_frames z)"
    "rxq_inv (rxq_rest z)" by (simp_all add: z)
qed

text \<open>Setting the ring up establishes the invariant.\<close>

lemma xsgdma_cyclicTrans_bus: "\<exists>t. xsgdma_cyclicTrans ch head s = s\<lparr>bus := t\<rparr>"
  by (auto simp: xsgdma_cyclicTrans_def st32_def emit_def Let_def)

lemma xsgdma_ring_index:
  "eth_rxhead (snd (xsgdma_ring head io_head len chunk s)) = eth_rxhead s"
  "eth_rxtail (snd (xsgdma_ring head io_head len chunk s)) = eth_rxtail s"
  by (subst xsgdma_ring_frame, simp)+

lemma rxsgcyclic_ready:
  assumes "ethdma_rxsgcyclic hw (10 * chunk) chunk s = Some (b, s')" and "b \<noteq> 0"
    and "10 * unat chunk \<le> 0x4000"
  shows "rx_ready chunk s' \<and> rx_frames s' = []"
proof -
  have ok: "sg_args_ok (10 * chunk) chunk = Some True"
    using assms(1,2) by (cases "sg_args_ok (10 * chunk) chunk") (auto simp: ethdma_rxsgcyclic_def split: if_splits)
  have u: "unat (10 * chunk) = 10 * unat chunk"
    using assms(3) by (simp add: unat_word_ariths)
  with sg_args_okD(1) [OF ok] have n: "unat (10 * chunk) div unat chunk = 10" by simp
  obtain al s0 where al: "xsgdma_sgallowed hw XDMA2_S2MM s = (al, s0)" by (cases "xsgdma_sgallowed hw XDMA2_S2MM s")
  let ?s1 = "s0\<lparr>eth_rxhead := 0, eth_rxtail := 0, ethdma_rxbuserr := False\<rparr>"
  let ?r = "snd (xsgdma_ring XDMA2_S2MM_BDRING XDMA2_S2MM_BUFFER (10 * chunk) chunk ?s1)"
  from assms(1,2) ok al have "s' = xsgdma_cyclicTrans XDMA2_S2MM XDMA2_S2MM_BDRING ?r"
    by (cases al) (auto simp: ethdma_rxsgcyclic_def split_beta Let_def)
  with xsgdma_cyclicTrans_bus [of XDMA2_S2MM XDMA2_S2MM_BDRING ?r]
  have bds: "bds s' = bds ?r" and idx: "eth_rxhead s' = 0" "eth_rxtail s' = 0"
    using xsgdma_ring_index [of XDMA2_S2MM_BDRING XDMA2_S2MM_BUFFER "10 * chunk" chunk ?s1] by auto
  have "bd_ring (bds s') XDMA2_S2MM_BDRING XDMA2_S2MM_BUFFER chunk 10"
    using xsgdma_ring_bds(2) [OF ok, of XDMA2_S2MM_BDRING XDMA2_S2MM_BUFFER ?s1] n by (simp add: bds)
  with idx assms(3) show ?thesis
    by (simp add: rx_ready_def rx_inv_def rx_pending_def rx_frames_def bd_ring_def)
qed

section \<open>Properties\<close>

text \<open>
  C1: once the receive ring is set up with ten chunks of 1536 bytes, any sequence of received
  frames of at most 1536 bytes and calls of \<open>_ethdma_rxsgcmplt\<close> with a buffer of that size
  outside the ring delivers exactly the frames a queue of nine frames delivers that drops
  its oldest frame when full: in order, byte for byte, and no frame appears twice.
\<close>

theorem eth_rx_delivers_frames:
  assumes "ethdma_rxsgcyclic hw 15360 1536 s0 = Some (b, s)" and "b \<noteq> 0"
    and "rx_ioc_hw hw" and "outside_rx p 1536"
    and "\<forall>f. Put f \<in> set ops \<longrightarrow> length f \<le> 1536"
    and "queue_run rxq_none rxq_put rxq_first rxq_rest ops ((hw, 1536, p, 1536, s), [])
      = ((hw', chunk', p', l', s'), out)"
  shows "\<exists>lost. spec_run 9 ops ([], [], 0) = (rx_frames s', out, lost)
    \<and> length out + length (rx_frames s') + lost = arrivals ops"
proof -
  from rxsgcyclic_ready [of hw 1536 s0 b s] assms(1,2)
  have "rx_ready 1536 s" and nil: "rx_frames s = []" by simp_all
  then have "rxq_inv (hw, 1536, p, 1536, s)" using assms(3,4) by simp
  from ethrx.run_simulates_ok [OF this assms(5,6), of 0] nil obtain lost
    where sp: "spec_run 9 ops ([], [], 0) = (rx_frames s', out, lost)" by auto
  with spec_run_conserves [OF _ sp] show ?thesis by simp
qed

definition dma_hw :: hw where
  "dma_hw t a = (if a = ch_sr XDMA2_S2MM then 0x1009 else 0)"

theorem eth_rx_delivers_frames_witness:
  "\<exists>s out lost. ethdma_rxsgcyclic dma_hw 15360 1536 xdma_boot = Some (XDMA2_S2MM_BUFFER, s)
     \<and> spec_run 9 [Put [1, 2], Pop] ([], [], 0) = ([], out, lost) \<and> out = [[1, 2 :: u8]]"
proof -
  have "fst (xsgdma_sgallowed dma_hw XDMA2_S2MM xdma_boot)"
    by (simp add: xsgdma_sgallowed_def ld32_def dma_hw_def fld_on_def fld_get_def xdmasr_def)
  then obtain s1 where al: "xsgdma_sgallowed dma_hw XDMA2_S2MM xdma_boot = (True, s1)"
    by (metis prod.collapse)
  then obtain s where s: "ethdma_rxsgcyclic dma_hw 15360 1536 xdma_boot = Some (XDMA2_S2MM_BUFFER, s)"
    by (simp add: ethdma_rxsgcyclic_def sg_args_ok_def split_beta Let_def)
  have ioc: "rx_ioc_hw dma_hw" by (simp add: rx_ioc_hw_def dma_hw_def fld_on_def fld_get_def xdmasr_def)
  have out: "outside_rx 0x1000 1536"
    by (auto simp: outside_rx_def word_less_nat_alt unat_sub_if' split: if_splits)
  have nz: "XDMA2_S2MM_BUFFER \<noteq> (0 :: u32)" by simp
  obtain hw' c' p' l' s' out where
    run: "queue_run rxq_none rxq_put rxq_first rxq_rest [Put [1, 2], Pop] ((dma_hw, 1536, 0x1000, 1536, s), [])
      = ((hw', c', p', l', s'), out)" by (metis prod.collapse)
  from eth_rx_delivers_frames [OF s nz ioc out _ run] s show ?thesis by (auto simp: push_drop_def)
qed

text \<open>
  C35: a frame longer than the buffer offered is not delivered: the call returns NULL and the
  frame stays first in the queue, with everything behind it.
\<close>

theorem eth_rx_long_frame_stays:
  assumes "rx_ready chunk s" and "rx_frames s = f # fs" and "unat l < length f"
  shows "\<exists>t. ethdma_rxsgcmplt p l s = (0, None, s\<lparr>bus := t\<rparr>) \<and> rx_frames (s\<lparr>bus := t\<rparr>) = f # fs"
proof -
  let ?t = "unat (eth_rxtail s)"
  have lt: "unat (eth_rxhead s) < 10" "?t < 10" using assms(1) by (auto simp: rx_ready_def rx_inv_def)
  have "eth_rxhead s \<noteq> eth_rxtail s" using assms(2) lt by (auto simp: rx_frames_def rx_pending_def)
  moreover from this have "rx_frame s ?t = f"
    using assms(2) span_pop [OF lt(2,1)] by (simp add: rx_frames_def rx_pending_def word_unat_eq_iff)
  ultimately have "rx_frame s ?t = f" "eth_rxhead s \<noteq> eth_rxtail s" by simp_all
  then have "length f = unat (fld_get desc_status ''trans_len'' (bd_status (bds s (rx_bd ?t))))"
    by (auto simp: rx_frame_def Let_def)
  with assms(3) have "l < fld_get desc_status ''trans_len'' (bd_status (bds s (rx_bd ?t)))"
    by (simp add: word_less_nat_alt)
  with \<open>eth_rxhead s \<noteq> eth_rxtail s\<close> have "\<exists>t. ethdma_rxsgcmplt p l s = (0, None, s\<lparr>bus := t\<rparr>)"
    unfolding ethdma_rxsgcmplt_def rx_bd_tail Let_def
    by (auto simp: xdcache_invalidate_def emit_def)
  moreover have "rx_frames (s\<lparr>bus := t\<rparr>) = rx_frames s" for t
    by (simp add: rx_frames_def rx_pending_def rx_frame_def)
  ultimately show ?thesis using assms(2) by auto
qed

theorem eth_rx_long_frame_stays_witness:
  "\<exists>s. rx_frames (s :: xdma) = [[1, 2]] \<and> fst (ethdma_rxsgcmplt 0x1000 1 s) = 0"
proof -
  let ?s0 = "xdma_boot\<lparr>bds := \<lambda>a. zero_desc\<lparr>bd_buffer := XDMA2_S2MM_BUFFER + (a - XDMA2_S2MM_BDRING) div 64 * 1536\<rparr>\<rparr>"
  have "rx_bd i - XDMA2_S2MM_BDRING = 64 * of_nat i" for i by (simp add: bd_at_def)
  then have "(rx_bd i - XDMA2_S2MM_BDRING) div 64 = (of_nat i :: u32)" if "i < 10" for i
    using that by (simp add: word_unat_eq_iff unat_div unat_word_ariths unat_of_nat)
  then have "rx_ready 1536 ?s0"
    by (simp add: rx_ready_def rx_inv_def rx_pending_def xdma_boot_def)
  moreover have "rx_frames ?s0 = []" by (simp add: rx_frames_def rx_pending_def xdma_boot_def)
  moreover have "\<forall>t. fld_on xdmasr ''ioc_irq'' (dma_hw t (ch_sr XDMA2_S2MM))"
    by (simp add: dma_hw_def fld_on_def fld_get_def xdmasr_def)
  ultimately have "rx_ready 1536 (rx_arrive dma_hw [1, 2] ?s0)"
    and fr: "rx_frames (rx_arrive dma_hw [1, 2] ?s0) = [[1, 2]]"
    using rx_arrive_frames [of 1536 ?s0 "[1, 2]" dma_hw] by (simp_all add: push_drop_def)
  from eth_rx_long_frame_stays [OF this, of 1 "0x1000"] fr show ?thesis by auto
qed

end
