(* ===== verification/Xdma_Tx.thy ===== *)
theory Xdma_Tx
  imports Xdma_Frames
begin

text \<open>
  The ethernet transmit queue: \<open>_ethdma_txsgenque\<close> fills the descriptors of the ring from the
  first one on, \<open>_ethdma_txsgflush\<close> hands them to the engine and locks the queue, and the
  completion interrupt unlocks it empty.
\<close>

section \<open>Specification\<close>

abbreviation tx_bd :: "nat \<Rightarrow> u32" where
  "tx_bd i \<equiv> bd_at XDMA2_MM2S_BDRING i"

abbreviation tx_buf :: "u32 \<Rightarrow> nat \<Rightarrow> u32" where
  "tx_buf chunk i \<equiv> XDMA2_MM2S_BUFFER + of_nat i * chunk"

definition tx_locked :: "'a xdma_scheme \<Rightarrow> bool" where
  "tx_locked s \<longleftrightarrow> eth_txtail s = 0xFF"

text \<open>The ring as \<open>_ethdma_txsgnormal\<close> leaves it for ten chunks, the queue open with at most nine
  frames or locked with the number of frames handed over.\<close>

definition tx_ready :: "u32 \<Rightarrow> 'a xdma_scheme \<Rightarrow> bool" where
  "tx_ready chunk s \<longleftrightarrow> 0 < chunk \<and> 10 * unat chunk \<le> 0x4000 \<and> eth_txdepth s = 10
     \<and> (\<forall>i < 10. bd_buffer (bds s (tx_bd i)) = tx_buf chunk i
          \<and> bd_next (bds s (tx_bd i)) = tx_bd (Suc i mod 10))
     \<and> (if tx_locked s then 0 < unat (eth_txpkts s) \<and> unat (eth_txpkts s) \<le> 9
        else unat (eth_txtail s) \<le> 9)"

text \<open>The number of frames in the ring, the frame in a descriptor as the engine reads it, and the
  frames in the ring.\<close>

definition tx_count :: "'a xdma_scheme \<Rightarrow> nat" where
  "tx_count s = unat (if tx_locked s then eth_txpkts s else eth_txtail s)"

definition tx_frame :: "'a xdma_scheme \<Rightarrow> nat \<Rightarrow> u8 list" where
  "tx_frame s i =
     (let d = bds s (tx_bd i)
      in bytes_at (mem s) (bd_buffer d) (unat (fld_get desc_control ''buffer_len'' (bd_control d))))"

definition tx_frames :: "'a xdma_scheme \<Rightarrow> u8 list list" where
  "tx_frames s = map (tx_frame s) [0..<tx_count s]"

text \<open>The queued frames keep to their chunks.\<close>

definition tx_inv :: "u32 \<Rightarrow> 'a xdma_scheme \<Rightarrow> bool" where
  "tx_inv chunk s \<longleftrightarrow> tx_ready chunk s \<and> (\<forall>f \<in> set (tx_frames s). length f < unat chunk)"

text \<open>
  The steps of the transmit path: the two calls, and the completion interrupt, which the
  engine raises only for the transfer it was given. The frames accepted so far are
  recorded along.
\<close>

inductive tx_step :: "'a xdma_scheme \<times> nat \<Rightarrow> 'a xdma_scheme \<times> nat \<Rightarrow> bool" where
  enque: "unat l < 2 ^ 16 \<Longrightarrow> ethdma_txsgenque p l s = (b, s') \<Longrightarrow>
     tx_step (s, n) (s', if b = 0 then n else Suc n)"
| flush: "tx_step (s, n) (ethdma_txsgflush s, n)"
| irq: "tx_locked s \<Longrightarrow> tx_step (s, n) (onethdma_txirq hw s, n)"

inductive tx_reach :: "'a xdma_scheme \<Rightarrow> 'a xdma_scheme \<times> nat \<Rightarrow> bool" for s0 where
  start: "tx_reach s0 (s0, 0)"
| step: "tx_reach s0 z \<Longrightarrow> tx_step z z' \<Longrightarrow> tx_reach s0 z'"

section \<open>Lemmas\<close>

lemma tx_bd_tail: "XDMA2_MM2S_BDRING + desc_size * ucast t = tx_bd (unat t)"
  by (simp add: bd_at_def)

lemma tx_bd_inj: "i < 10 \<Longrightarrow> j < 10 \<Longrightarrow> tx_bd i = tx_bd j \<longleftrightarrow> i = j"
  by (simp add: bd_at_inj)

lemma unat_tx_buf: "i < 10 \<Longrightarrow> 10 * unat c \<le> 0x4000 \<Longrightarrow> 0 < c \<Longrightarrow>
    unat (tx_buf c i) = 0x8000c000 + i * unat c"
  using unat_chunk(2) [of i c 0] chunk_end [of i "unat c"]
  by (simp add: unat_word_ariths word_less_nat_alt)

text \<open>The test \<open>_ethdma_txsgenque\<close> makes on the length, in terms of the slot: the frame must be
  shorter than a chunk, and the last slot, whose successor is the first, takes none.\<close>

lemma tx_fits:
  assumes "i < 10" "10 * unat c \<le> 0x4000" "0 < c" "unat l < 2 ^ 16"
  shows "(tx_buf c i + l \<ge> XDMA2_S2MM_BDRING \<or> tx_buf c (Suc i mod 10) \<le> tx_buf c i + l)
    \<longleftrightarrow> \<not> (i < 9 \<and> l < c)"
proof -
  have u: "unat (tx_buf c i + l) = 0x8000c000 + i * unat c + unat l"
    using unat_tx_buf [OF assms(1-3)] chunk_end [OF assms(1,2)] assms(4)
    by (simp add: unat_word_ariths)
  show ?thesis
  proof (cases "i = 9")
    case True
    then show ?thesis using u by (simp add: word_le_nat_alt)
  next
    case False
    with assms(1) have i: "Suc i < 10" by simp
    have "unat (tx_buf c (Suc i mod 10)) = 0x8000c000 + i * unat c + unat c"
      using unat_tx_buf [OF i assms(2,3)] i by simp
    then show ?thesis
      using False assms(1) u chunk_end [OF i assms(2)]
      by (auto simp: word_le_nat_alt word_less_nat_alt)
  qed
qed

lemma enque_refused:
  assumes "tx_ready c s" "unat l < 2 ^ 16" "tx_locked s \<or> tx_count s = 9 \<or> \<not> l < c"
  shows "\<exists>t. ethdma_txsgenque p l s = (0, s\<lparr>bus := t\<rparr>)"
proof (cases "tx_locked s")
  case True
  then have "ethdma_txsgenque p l s = (0, s\<lparr>bus := bus s\<rparr>)"
    by (simp add: ethdma_txsgenque_def tx_locked_def Let_def)
  then show ?thesis by blast
next
  case False
  let ?i = "unat (eth_txtail s)"
  from False assms(1) have i: "?i < 10" by (simp add: tx_ready_def)
  have "\<not> (?i < 9 \<and> l < c)" using False assms(3) by (auto simp: tx_count_def)
  then have "tx_buf c ?i + l \<ge> XDMA2_S2MM_BDRING \<or> tx_buf c (Suc ?i mod 10) \<le> tx_buf c ?i + l"
    using tx_fits [OF i, of c l] assms(1,2) by (simp add: tx_ready_def)
  then show ?thesis
    using assms(1) i False unfolding ethdma_txsgenque_def tx_bd_tail Let_def
    by (auto simp: tx_ready_def tx_locked_def xdcache_invalidate_def emit_def)
qed

abbreviation enq_desc :: "u32 \<Rightarrow> xsgdmadesc \<Rightarrow> xsgdmadesc" where
  "enq_desc l d \<equiv> d\<lparr>bd_status := clear_status (bd_status d),
     bd_control := fld_set desc_control ''buffer_len'' l (fld_set desc_control ''tx_eof'' 1
       (fld_set desc_control ''tx_sof'' 1 (bd_control d)))\<rparr>"

lemma enque_accepted:
  assumes "tx_ready c s" "\<not> tx_locked s" "tx_count s < 9" "l < c"
  shows "\<exists>t. ethdma_txsgenque p l s = (tx_buf c (tx_count s),
    s\<lparr>mem := memcpy (tx_buf c (tx_count s)) p l (mem s),
      bds := (bds s)(tx_bd (tx_count s) := enq_desc l (bds s (tx_bd (tx_count s)))),
      eth_txtail := eth_txtail s + 1, bus := t\<rparr>)"
proof -
  have i: "tx_count s = unat (eth_txtail s)" using assms(2) by (simp add: tx_count_def)
  have c: "10 * unat c \<le> 0x4000" "0 < c" "eth_txdepth s = 10"
    and bd: "\<And>i. i < 10 \<Longrightarrow> bd_buffer (bds s (tx_bd i)) = tx_buf c i \<and> bd_next (bds s (tx_bd i)) = tx_bd (Suc i mod 10)"
    using assms(1) by (auto simp: tx_ready_def)
  have l: "unat l < 2 ^ 16" using assms(4) c(1) by (simp add: word_less_nat_alt)
  have fits: "\<not> (tx_buf c (tx_count s) + l \<ge> XDMA2_S2MM_BDRING
      \<or> tx_buf c (Suc (tx_count s) mod 10) \<le> tx_buf c (tx_count s) + l)"
    using tx_fits [OF _ c(1,2) l, of "tx_count s"] assms(3,4) by simp
  have nd: "\<not> (eth_txtail s = eth_txdepth s \<or> eth_txtail s = 0xFF)"
    using assms(3) i c(3) by auto
  show ?thesis
    using assms(3) nd fits bd [of "tx_count s"] bd [of "Suc (tx_count s) mod 10"]
    unfolding ethdma_txsgenque_def tx_bd_tail Let_def i [symmetric]
    by (simp add: xdcache_invalidate_def xdcache_flush_def emit_def) (rule exI, rule refl)
qed

lemma enq_desc_fields:
  "fld_get desc_control ''buffer_len'' (bd_control (enq_desc l d)) = take_bit 26 l"
  "fld_on desc_control ''tx_sof'' (bd_control (enq_desc l d))"
  "fld_on desc_control ''tx_eof'' (bd_control (enq_desc l d))"
  "\<not> fld_on desc_status ''cmplt'' (bd_status (enq_desc l d))"
  by (simp_all add: dcontrol.get_set dcontrol.get_set_other layout_simps fld_on_def
      clear_status_fields(1) [unfolded fld_on_def])

text \<open>The frame accepted is appended, and no frame in the ring changes.\<close>

lemma enque_appends:
  assumes inv: "tx_inv c s" and open_q: "\<not> tx_locked s" and room: "tx_count s < 9" and len: "l < c"
    and enq: "ethdma_txsgenque p l s = (b, s')"
  shows "b \<noteq> 0" "tx_inv c s'" "\<not> tx_locked s'" "tx_frames s' = tx_frames s @ [bytes_at (mem s) p (unat l)]"
    "txcount s' = txcount s"
proof -
  let ?n = "tx_count s"
  have rdy: "tx_ready c s" and short: "\<And>i. i < ?n \<Longrightarrow> length (tx_frame s i) < unat c"
    using inv by (auto simp: tx_inv_def tx_frames_def)
  then have c: "10 * unat c \<le> 0x4000" "0 < c" by (auto simp: tx_ready_def)
  from enque_accepted [OF rdy open_q room len, of p] enq obtain t where b: "b = tx_buf c ?n"
    and s': "s' = s\<lparr>mem := memcpy (tx_buf c ?n) p l (mem s),
      bds := (bds s)(tx_bd ?n := enq_desc l (bds s (tx_bd ?n))),
      eth_txtail := eth_txtail s + 1, bus := t\<rparr>" by auto
  from unat_tx_buf [of ?n c] c room show "b \<noteq> 0" unfolding b by (auto simp del: of_nat_0)
  have tail: "unat (eth_txtail s') = Suc ?n"
    using room open_q by (simp add: s' tx_count_def unat_word_ariths)
  with room show nl: "\<not> tx_locked s'" by (auto simp: tx_locked_def)
  have n': "tx_count s' = Suc ?n" using tail nl by (simp add: tx_count_def)
  have old: "tx_frame s' i = tx_frame s i" if "i < ?n" for i
  proof -
    from that room have i: "i < 10" "?n < 10" "i \<noteq> ?n" by auto
    have bd: "bds s' (tx_bd i) = bds s (tx_bd i)" using i tx_bd_inj [of i ?n] by (simp add: s')
    have buf: "bd_buffer (bds s (tx_bd i)) = tx_buf c i" using rdy i(1) by (simp add: tx_ready_def)
    have "mem s' (tx_buf c i + of_nat k) = mem s (tx_buf c i + of_nat k)"
      if "k < length (tx_frame s i)" for k
    proof -
      from that short [OF \<open>i < ?n\<close>] have "k < unat c" by simp
      from chunk_apart [OF i this c(1), of XDMA2_MM2S_BUFFER] len
      show ?thesis by (simp add: s' memcpy_outside word_less_nat_alt)
    qed
    then show ?thesis using bd buf by (auto simp: tx_frame_def Let_def intro: bytes_at_cong)
  qed
  have "take_bit 26 l = l"
    using len c(1) by (simp add: word_unat_eq_iff unsigned_take_bit_eq take_bit_nat_eq_self word_less_nat_alt)
  moreover have "bd_buffer (bds s (tx_bd ?n)) = tx_buf c ?n" using rdy room by (simp add: tx_ready_def)
  ultimately have new: "tx_frame s' ?n = bytes_at (mem s) p (unat l)"
    unfolding tx_frame_def Let_def by (simp add: s' enq_desc_fields(1) [simplified] bytes_at_memcpy)
  show fr: "tx_frames s' = tx_frames s @ [bytes_at (mem s) p (unat l)]"
    using old new by (simp add: tx_frames_def n')
  have "tx_bd i = tx_bd ?n \<longleftrightarrow> i = ?n" if "i < 10" for i using tx_bd_inj [of i ?n] that room by simp
  then have "tx_ready c s'"
    using rdy nl tail room open_q unfolding tx_ready_def by (auto simp: s' tx_locked_def)
  with inv fr len show "tx_inv c s'" by (auto simp: tx_inv_def word_less_nat_alt)
  show "txcount s' = txcount s" by (simp add: s')
qed

lemma tx_bus_frame [simp]:
  "tx_locked (s\<lparr>bus := t\<rparr>) = tx_locked s" "tx_count (s\<lparr>bus := t\<rparr>) = tx_count s"
  "tx_frames (s\<lparr>bus := t\<rparr>) = tx_frames s" "tx_inv c (s\<lparr>bus := t\<rparr>) = tx_inv c s"
  by (simp_all add: tx_inv_def tx_ready_def tx_frames_def tx_locked_def tx_count_def tx_frame_def)

definition seq_cr :: u32 where
  "seq_cr = fld_set xdmacr ''ioc_irq_en'' 1 (fld_set xdmacr ''err_irq_en'' 1 (fld_set xdmacr ''rs'' 1 0))"

lemma seq_cr_fields:
  "fld_on xdmacr ''rs'' seq_cr" "fld_on xdmacr ''ioc_irq_en'' seq_cr"
  "fld_on xdmacr ''err_irq_en'' seq_cr" "\<not> fld_on xdmacr ''cyclic_bd_enable'' seq_cr"
  "\<not> fld_on xdmacr ''reset'' seq_cr"
  by (simp_all add: seq_cr_def xdmacr_def fld_on_def fld_get_def fld_set_def mask_numeral)

lemma flush_idle: "tx_locked s \<or> tx_count s = 0 \<Longrightarrow> ethdma_txsgflush s = s"
  by (auto simp: ethdma_txsgflush_def tx_locked_def tx_count_def Let_def unat_eq_0 split: if_splits)

lemma flush_starts:
  assumes "\<not> tx_locked s" "0 < tx_count s"
  shows "ethdma_txsgflush s = s\<lparr>eth_txpkts := eth_txtail s, eth_txtail := 0xFF,
    bus := [Wr (ch_taildesc XDMA2_MM2S) (tx_bd (tx_count s - 1)), Wr (ch_cr XDMA2_MM2S) seq_cr,
      Wr (ch_currdesc XDMA2_MM2S) (tx_bd 0)] @ bus s\<rparr>"
proof -
  have nz: "eth_txtail s \<noteq> 0" "eth_txtail s \<noteq> 0xFF" using assms by (auto simp: tx_count_def tx_locked_def)
  then have "unat (eth_txtail s - 1) = tx_count s - 1"
    using assms(1) by (simp add: tx_count_def unat_minus_one)
  with nz show ?thesis
    unfolding ethdma_txsgflush_def tx_bd_tail Let_def
    by (simp add: xsgdma_seqTrans_def st32_def emit_def seq_cr_def Let_def)
qed

lemma flush_keeps:
  assumes "tx_inv c s"
  shows "tx_inv c (ethdma_txsgflush s)" "tx_frames (ethdma_txsgflush s) = tx_frames s"
    "txcount (ethdma_txsgflush s) = txcount s" "tx_count s > 0 \<Longrightarrow> tx_locked (ethdma_txsgflush s)"
proof -
  have "tx_inv c (ethdma_txsgflush s) \<and> tx_frames (ethdma_txsgflush s) = tx_frames s
      \<and> txcount (ethdma_txsgflush s) = txcount s \<and> (tx_count s > 0 \<longrightarrow> tx_locked (ethdma_txsgflush s))"
  proof (cases "tx_locked s \<or> tx_count s = 0")
    case True
    with assms flush_idle [OF True] show ?thesis by auto
  next
    case False
    then have eq: "ethdma_txsgflush s = s\<lparr>eth_txpkts := eth_txtail s, eth_txtail := 0xFF,
        bus := [Wr (ch_taildesc XDMA2_MM2S) (tx_bd (tx_count s - 1)), Wr (ch_cr XDMA2_MM2S) seq_cr,
          Wr (ch_currdesc XDMA2_MM2S) (tx_bd 0)] @ bus s\<rparr>" (is "_ = ?s")
      by (intro flush_starts) simp_all
    have "tx_count ?s = tx_count s" "tx_locked ?s" using False by (simp_all add: tx_count_def tx_locked_def)
    moreover have "tx_frame ?s i = tx_frame s i" for i by (simp add: tx_frame_def)
    moreover from this \<open>tx_count ?s = tx_count s\<close> have "tx_frames ?s = tx_frames s" by (simp add: tx_frames_def)
    ultimately show ?thesis
      using assms False unfolding eq by (auto simp: tx_inv_def tx_ready_def tx_count_def)
  qed
  then show "tx_inv c (ethdma_txsgflush s)" "tx_frames (ethdma_txsgflush s) = tx_frames s"
    "txcount (ethdma_txsgflush s) = txcount s" "tx_count s > 0 \<Longrightarrow> tx_locked (ethdma_txsgflush s)" by auto
qed

abbreviation tx_ioc :: "hw \<Rightarrow> 'a xdma_scheme \<Rightarrow> bool" where
  "tx_ioc hw s \<equiv> fld_on xdmasr ''ioc_irq'' (hw (bus s) (ch_sr XDMA2_MM2S))"

lemma txirq_eq:
  "\<exists>t e. onethdma_txirq hw s = (if tx_ioc hw s
     then s\<lparr>txcount := txcount s + ucast (eth_txpkts s), eth_txtail := 0, eth_txpkts := 0,
            bus := t, ethdma_txbuserr := e\<rparr>
     else s\<lparr>bus := t, ethdma_txbuserr := e\<rparr>)"
proof (cases "tx_ioc hw s")
  case True
  then show ?thesis
    by (cases "fld_on xdmasr ''err_irq'' (hw (bus s) (ch_sr XDMA2_MM2S))"; simp add: onethdma_txirq_def
        xsgdma_ackirq_def st_fld_def ld32_def st32_def emit_def kernel_raise_def Let_def) (intro exI, rule refl)+
next
  case False
  then show ?thesis
    by (cases "fld_on xdmasr ''err_irq'' (hw (bus s) (ch_sr XDMA2_MM2S))"; simp add: onethdma_txirq_def
        xsgdma_ackirq_def st_fld_def ld32_def st32_def emit_def kernel_raise_def Let_def) (intro exI, rule refl)+
qed

lemma txirq_completes:
  assumes "tx_inv c s" "tx_locked s"
  shows "tx_inv c (onethdma_txirq hw s)"
    "txcount (onethdma_txirq hw s) + of_nat (length (tx_frames (onethdma_txirq hw s)))
      = txcount s + of_nat (length (tx_frames s))"
    "tx_ioc hw s \<Longrightarrow> \<not> tx_locked (onethdma_txirq hw s) \<and> tx_frames (onethdma_txirq hw s) = []
      \<and> txcount (onethdma_txirq hw s) = txcount s + of_nat (length (tx_frames s))"
proof -
  obtain t e where eq: "onethdma_txirq hw s = (if tx_ioc hw s
     then s\<lparr>txcount := txcount s + ucast (eth_txpkts s), eth_txtail := 0, eth_txpkts := 0,
            bus := t, ethdma_txbuserr := e\<rparr>
     else s\<lparr>bus := t, ethdma_txbuserr := e\<rparr>)" using txirq_eq by blast
  have len: "length (tx_frames s) = unat (eth_txpkts s)" using assms(2) by (simp add: tx_frames_def tx_count_def)
  have keep: "tx_inv c (s\<lparr>bus := t, ethdma_txbuserr := e\<rparr>) = tx_inv c s"
    "tx_frames (s\<lparr>bus := t, ethdma_txbuserr := e\<rparr>) = tx_frames s"
    by (simp_all add: tx_inv_def tx_ready_def tx_frames_def tx_locked_def tx_count_def tx_frame_def)
  have "tx_inv c (onethdma_txirq hw s) \<and> (tx_ioc hw s \<longrightarrow> \<not> tx_locked (onethdma_txirq hw s)
      \<and> tx_frames (onethdma_txirq hw s) = [] \<and> txcount (onethdma_txirq hw s) = txcount s + of_nat (length (tx_frames s)))
      \<and> (\<not> tx_ioc hw s \<longrightarrow> tx_frames (onethdma_txirq hw s) = tx_frames s \<and> txcount (onethdma_txirq hw s) = txcount s)"
  proof (cases "tx_ioc hw s")
    case True
    then show ?thesis using assms len unfolding eq
      by (simp add: tx_inv_def tx_ready_def tx_frames_def tx_locked_def tx_count_def)
  next
    case False
    then show ?thesis using assms keep unfolding eq by simp
  qed
  then show "tx_inv c (onethdma_txirq hw s)"
    "txcount (onethdma_txirq hw s) + of_nat (length (tx_frames (onethdma_txirq hw s)))
      = txcount s + of_nat (length (tx_frames s))"
    "tx_ioc hw s \<Longrightarrow> \<not> tx_locked (onethdma_txirq hw s) \<and> tx_frames (onethdma_txirq hw s) = []
      \<and> txcount (onethdma_txirq hw s) = txcount s + of_nat (length (tx_frames s))"
    by (cases "tx_ioc hw s"; simp)+
qed

text \<open>The account of the transmit path: every frame accepted is in the ring or counted as sent.\<close>

definition tx_account :: "u32 \<Rightarrow> 'a xdma_scheme \<times> nat \<Rightarrow> bool" where
  "tx_account c z \<longleftrightarrow> tx_inv c (fst z)
     \<and> of_nat (snd z) = txcount (fst z) + of_nat (length (tx_frames (fst z)))"

lemma enque_cases:
  assumes "tx_inv c s" "unat l < 2 ^ 16" "ethdma_txsgenque p l s = (b, s')"
  shows "tx_inv c s' \<and> txcount s' = txcount s \<and> tx_locked s' = tx_locked s
    \<and> (if \<not> tx_locked s \<and> length (tx_frames s) < 9 \<and> l < c
       then b \<noteq> 0 \<and> tx_frames s' = tx_frames s @ [bytes_at (mem s) p (unat l)]
       else b = 0 \<and> tx_frames s' = tx_frames s \<and> mem s' = mem s \<and> bds s' = bds s)"
proof (cases "\<not> tx_locked s \<and> tx_count s < 9 \<and> l < c")
  case True
  then show ?thesis using enque_appends [OF assms(1) _ _ _ assms(3)] by (simp add: tx_frames_def)
next
  case False
  from assms(1) have rdy: "tx_ready c s" by (simp add: tx_inv_def)
  then have "tx_count s \<le> 9" by (auto simp: tx_ready_def tx_count_def split: if_splits)
  with False have "tx_locked s \<or> tx_count s = 9 \<or> \<not> l < c" by auto
  from enque_refused [OF rdy assms(2) this, of p] assms(1,3) False show ?thesis
    by (auto simp: tx_frames_def [of s])
qed

lemma tx_step_account: "tx_step z z' \<Longrightarrow> tx_account c z \<Longrightarrow> tx_account c z'"
proof (induction rule: tx_step.induct)
  case (enque l p s b s' n)
  then show ?case using enque_cases [of c s l p b s'] by (auto simp: tx_account_def split: if_splits)
next
  case (flush s n)
  then show ?case using flush_keeps [of c s] by (simp add: tx_account_def)
next
  case (irq s n hw)
  then show ?case using txirq_completes [of c s hw] by (simp add: tx_account_def)
qed

lemma tx_reach_account: "tx_reach s0 z \<Longrightarrow> tx_account c (s0, 0) \<Longrightarrow> tx_account c z"
  by (induction rule: tx_reach.induct) (auto intro: tx_step_account)

text \<open>Setting the ring up opens an empty queue.\<close>

lemma xsgdma_ring_fields:
  "eth_txpkts (snd (xsgdma_ring head io_head len chunk s)) = eth_txpkts s"
  "txcount (snd (xsgdma_ring head io_head len chunk s)) = txcount s"
  by (subst xsgdma_ring_frame, simp)+

lemma txsgnormal_ready:
  assumes "ethdma_txsgnormal hw 15360 1536 s = Some (b, s')" and "b \<noteq> 0"
  shows "tx_inv 1536 s' \<and> tx_frames s' = [] \<and> txcount s' = txcount s"
proof -
  have ok: "sg_args_ok 15360 1536 = Some True" by (simp add: sg_args_ok_def)
  obtain al s0 where al: "xsgdma_sgallowed hw XDMA2_MM2S s = (al, s0)" by (cases "xsgdma_sgallowed hw XDMA2_MM2S s")
  then have s0: "eth_txpkts s0 = eth_txpkts s" "txcount s0 = txcount s"
    by (auto simp: xsgdma_sgallowed_def ld32_def emit_def Let_def)
  let ?r = "xsgdma_ring XDMA2_MM2S_BDRING XDMA2_MM2S_BUFFER 15360 1536 s0"
  from assms(1,2) ok al have s': "s' = (snd ?r)\<lparr>eth_txdepth := ucast (fst ?r), eth_txtail := 0, ethdma_txbuserr := False\<rparr>"
    by (cases al) (auto simp: ethdma_txsgnormal_def split_beta Let_def)
  have "fst ?r = 10" using xsgdma_ring_bds(1) [OF ok, of XDMA2_MM2S_BDRING XDMA2_MM2S_BUFFER s0] by simp
  moreover have "bd_ring (bds (snd ?r)) XDMA2_MM2S_BDRING XDMA2_MM2S_BUFFER 1536 10"
    using xsgdma_ring_bds(2) [OF ok, of XDMA2_MM2S_BDRING XDMA2_MM2S_BUFFER s0] by simp
  ultimately show ?thesis using s0
    by (simp add: s' tx_inv_def tx_ready_def tx_locked_def tx_frames_def tx_count_def bd_ring_def
        xsgdma_ring_fields)
qed

section \<open>Properties\<close>


text \<open>
  C22: \<open>_ethdma_txsgflush\<close> hands a non-empty open queue to the engine: it stores the address of the
  first descriptor, then the control word that runs the channel with both interrupts, and
  last the address of the last filled descriptor, and locks the queue; the frames stay as
  they are. On an empty or locked queue it does nothing.
\<close>

theorem eth_tx_flush_spec:
  assumes "tx_inv c s"
  shows "if \<not> tx_locked s \<and> tx_frames s \<noteq> []
    then \<exists>v. bus (ethdma_txsgflush s) =
           [Wr (ch_taildesc XDMA2_MM2S) (tx_bd (length (tx_frames s) - 1)), Wr (ch_cr XDMA2_MM2S) v,
            Wr (ch_currdesc XDMA2_MM2S) (tx_bd 0)] @ bus s
         \<and> fld_on xdmacr ''rs'' v \<and> fld_on xdmacr ''ioc_irq_en'' v \<and> fld_on xdmacr ''err_irq_en'' v
         \<and> \<not> fld_on xdmacr ''reset'' v \<and> \<not> fld_on xdmacr ''cyclic_bd_enable'' v
         \<and> tx_locked (ethdma_txsgflush s) \<and> tx_frames (ethdma_txsgflush s) = tx_frames s
         \<and> tx_inv c (ethdma_txsgflush s)
    else ethdma_txsgflush s = s"
  using assms flush_idle [of s] flush_starts [of s] flush_keeps [OF assms] seq_cr_fields
  by (auto simp: tx_frames_def)


definition tx_hw :: hw where
  "tx_hw t a = (if a = ch_sr XDMA2_MM2S then 0x1009 else 0)"

lemma tx_boot: "\<exists>s. ethdma_txsgnormal tx_hw 15360 1536 xdma_boot = Some (XDMA2_MM2S_BUFFER, s)"
proof -
  have "fst (xsgdma_sgallowed tx_hw XDMA2_MM2S xdma_boot)"
    by (simp add: xsgdma_sgallowed_def ld32_def tx_hw_def fld_on_def fld_get_def xdmasr_def)
  then obtain s1 where "xsgdma_sgallowed tx_hw XDMA2_MM2S xdma_boot = (True, s1)"
    by (metis prod.collapse)
  then show ?thesis by (simp add: ethdma_txsgnormal_def sg_args_ok_def split_beta Let_def)
qed

lemma tx_boot_inv: "\<exists>s. tx_inv 1536 (s :: xdma) \<and> tx_frames s = []"
  using tx_boot txsgnormal_ready [of tx_hw xdma_boot XDMA2_MM2S_BUFFER]
  by (auto simp: xdma_boot_def)


theorem eth_tx_flush_spec_witness:
  "\<exists>s :: xdma. tx_inv 1536 s \<and> length (tx_frames s) = 1 \<and> tx_locked (ethdma_txsgflush s)"
proof -
  obtain s :: xdma where s: "tx_inv 1536 s" "tx_frames s = []" using tx_boot_inv by blast
  then have open_q: "\<not> tx_locked s" by (auto simp: tx_frames_def tx_count_def tx_inv_def tx_ready_def)
  obtain b s' where "ethdma_txsgenque 0x1000 64 s = (b, s')" by (metis prod.collapse)
  with s open_q have "tx_inv 1536 s'" "length (tx_frames s') = 1" "\<not> tx_locked s'"
    using enque_cases [of 1536 s 64 "0x1000" b s'] by simp_all
  moreover from this have "tx_frames s' \<noteq> []" by auto
  ultimately show ?thesis using eth_tx_flush_spec [of 1536 s'] by (intro exI [of _ s']) auto
qed


end
