(* ===== verification/Xdma_Io.thy ===== *)
theory Xdma_Io
  imports Xdma_Tx
begin

text \<open>
  The direct channel pair of the SD card, the double buffer of the sound blaster, and the start
  of the driver.
\<close>

section \<open>Lemmas\<close>

lemma xdma0_addr: "ch_buffer XDMA0_MM2S = 0x41E00018" "ch_cr XDMA0_MM2S = 0x41E00000"
    "ch_length XDMA0_MM2S = 0x41E00028" "ch_sr XDMA0_MM2S = 0x41E00004"
  by (simp_all add: ch_buffer_def ch_cr_def ch_length_def ch_sr_def)

lemma aligned_buffer: "XDMA0_IO_BUFFER AND (XDMA_DATA_WIDTH - 1) = (0 :: u32)"
  by simp

lemma btt_field: "len \<le> XDMA_BTT_MAX \<Longrightarrow> take_bit 26 len = (len :: u32)"
  by (simp add: word_unat_eq_iff unsigned_take_bit_eq take_bit_nat_eq_self word_le_nat_alt)

lemma xdma_length_width [layout_simps]: "fld_width xdma_length ''trans_len'' = 26"
  and xdma_length_names [simp]: "fst ` set xdma_length = {''trans_len'', ''reserved26_31''}"
  by (simp_all add: xdma_length_def)

lemma xdmacr_rs: "''rs'' \<in> fst ` set xdmacr" "fld_width xdmacr ''rs'' = 1"
  by (simp_all add: xdmacr_def)

lemma xdirect_busy_bus: "\<exists>t. xdirect_busy hw ch s = (fst (xdirect_busy hw ch s), s\<lparr>bus := t @ bus s\<rparr>)
    \<and> set t \<subseteq> range (Rd (ch_sr ch))"
  by (simp add: xdirect_busy_def ld_fld_def ld32_def emit_def Let_def)
    (metis append_Cons append_Nil empty_subsetI insert_subset list.simps(15) list.set(1) rangeI)

section \<open>Properties\<close>

text \<open>
  A write transfer to the SD card that is accepted stages exactly the \<open>len\<close> bytes in the I/O
  buffer and touches no other byte; they are written back from the caches before the channel is
  programmed, and the transfer length, the register whose store starts the transfer, is
  stored last. It is refused, with memory unchanged, when the channel is busy, the
  pointer is NULL, or the length is zero or above the channel's limit.
\<close>

theorem sdcdma_wrt_stages:
  assumes "sdcdma_wrt hw p len s = (b, s')"
  shows "if fst (xdirect_busy hw XDMA0_MM2S s) \<or> p = 0 \<or> len = 0 \<or> len > XDMA_BTT_MAX
    then b = 0 \<and> mem s' = mem s \<and> (\<forall>a v. Wr a v \<notin> set (take (length (bus s') - length (bus s)) (bus s')))
    else b = XDMA0_IO_BUFFER
      \<and> bytes_at (mem s') XDMA0_IO_BUFFER (unat len) = bytes_at (mem s) p (unat len)
      \<and> (\<forall>a. \<not> a - XDMA0_IO_BUFFER < len \<longrightarrow> mem s' a = mem s a)
      \<and> (\<exists>v w t x y. bus s' = [Wr (ch_length XDMA0_MM2S) v, Rd (ch_length XDMA0_MM2S) w,
            Wr (ch_cr XDMA0_MM2S) x, Rd (ch_cr XDMA0_MM2S) y, Wr (ch_buffer XDMA0_MM2S) XDMA0_IO_BUFFER,
            L1Inval XDMA0_IO_BUFFER len, L2Flush XDMA0_IO_BUFFER len] @ t
          \<and> fld_get xdma_length ''trans_len'' v = len \<and> fld_on xdmacr ''rs'' x)"
proof -
  obtain t where bz: "xdirect_busy hw XDMA0_MM2S s = (fst (xdirect_busy hw XDMA0_MM2S s), s\<lparr>bus := t @ bus s\<rparr>)"
    and t: "set t \<subseteq> range (Rd (ch_sr XDMA0_MM2S))" using xdirect_busy_bus by blast
  show ?thesis
  proof (cases "fst (xdirect_busy hw XDMA0_MM2S s) \<or> p = 0 \<or> len = 0 \<or> len > XDMA_BTT_MAX")
    case True
    then have "sdcdma_wrt hw p len s = (0, s\<lparr>bus := t @ bus s\<rparr>)"
      unfolding sdcdma_wrt_def by (subst bz) (simp only: prod.case Let_def if_True simp_thms, auto)
    with assms have "b = 0" and "s' = s\<lparr>bus := t @ bus s\<rparr>" by simp_all
    with t have "b = 0 \<and> mem s' = mem s
        \<and> (\<forall>a v. Wr a v \<notin> set (take (length (bus s') - length (bus s)) (bus s')))" by auto
    with True show ?thesis by (simp only: if_True simp_thms)
  next
    case False
    let ?s1 = "s\<lparr>bus := t @ bus s\<rparr>"
    let ?s2 = "(xdcache_invalidate p len ?s1)\<lparr>mem := memcpy XDMA0_IO_BUFFER p len (mem s)\<rparr>"
    have e: "sdcdma_wrt hw p len s =
        xdirectdma_trans hw XDMA0_MM2S XDMA0_IO_BUFFER len (xdcache_flush XDMA0_IO_BUFFER len ?s2)"
      unfolding sdcdma_wrt_def using False by (subst bz) (simp add: Let_def mem_xdcache)
    have rs: "fld_on xdmacr ''rs'' (fld_set xdmacr ''rs'' 1 (r :: u32))" for r
      by (simp add: fld_on_def cr.get_set xdmacr_rs)
    have ln: "fld_get xdma_length ''trans_len'' (fld_set xdma_length ''trans_len'' len (r :: u32)) = len" for r
      using False btt_field [of len] by (simp add: len.get_set layout_simps not_less)
    from e assms have b: "b = XDMA0_IO_BUFFER" and m: "mem s' = memcpy XDMA0_IO_BUFFER p len (mem s)"
      by (auto simp: xdirectdma_trans_def st_fld_def ld32_def st32_def emit_def Let_def mem_xdcache)
    from e assms have "\<exists>v w t x y. bus s' = [Wr (ch_length XDMA0_MM2S) v, Rd (ch_length XDMA0_MM2S) w,
            Wr (ch_cr XDMA0_MM2S) x, Rd (ch_cr XDMA0_MM2S) y, Wr (ch_buffer XDMA0_MM2S) XDMA0_IO_BUFFER,
            L1Inval XDMA0_IO_BUFFER len, L2Flush XDMA0_IO_BUFFER len] @ t
          \<and> fld_get xdma_length ''trans_len'' v = len \<and> fld_on xdmacr ''rs'' x"
      by (simp add: xdirectdma_trans_def st_fld_def ld32_def st32_def emit_def Let_def bus_xdcache)
        (blast intro: rs ln)
    moreover have "bytes_at (mem s') XDMA0_IO_BUFFER (unat len) = bytes_at (mem s) p (unat len)"
      unfolding m by (rule bytes_at_memcpy) simp
    moreover have "\<forall>a. \<not> a - XDMA0_IO_BUFFER < len \<longrightarrow> mem s' a = mem s a"
      unfolding m by (auto simp: memcpy_outside)
    ultimately show ?thesis using b False by (simp only: if_False simp_thms)
  qed
qed

theorem sdcdma_wrt_stages_witness:
  "bytes_at (mem (snd (sdcdma_wrt (\<lambda>_ _. 1) 0x1000 512 \<lparr>bus = [], mem = (\<lambda>a. ucast a)\<rparr>))) XDMA0_IO_BUFFER 3
     = [0, 1, 2]"
proof -
  let ?s = "\<lparr>bus = [], mem = (\<lambda>a. ucast a)\<rparr> :: machine"
  obtain b s' where e: "sdcdma_wrt (\<lambda>_ _. 1) 0x1000 512 ?s = (b, s')" by (metis prod.collapse)
  have "\<not> fst (xdirect_busy (\<lambda>_ _. 1) XDMA0_MM2S ?s)"
    by (simp add: xdirect_busy_def ld_fld_def ld32_def xdmasr_def fld_get_def)
  with sdcdma_wrt_stages [OF e]
  have "bytes_at (mem s') XDMA0_IO_BUFFER 512 = bytes_at (\<lambda>a. ucast a) 0x1000 512" by simp
  then have "take 3 (bytes_at (mem s') XDMA0_IO_BUFFER 512) = take 3 (bytes_at (\<lambda>a. ucast a) 0x1000 512)" by simp
  then have "bytes_at (mem s') XDMA0_IO_BUFFER 3 = bytes_at (\<lambda>a. ucast a) 0x1000 3"
    by (simp add: bytes_at_def take_map)
  with e show ?thesis by (simp add: bytes_at_def upt_rec)
qed

lemma disableIRQ_returns: "intc_hw hw \<Longrightarrow> \<exists>m'. xintc_disableIRQ hw irq m = Some m'"
  using xintc_disableIRQ_eq [of hw irq m] by simp

lemma enableIRQ_sets:
  assumes "intc_hw hw" "isr \<noteq> 0" "unat irq < 32"
  shows "\<exists>m'. xintc_enableIRQ hw irq isr m = Some m' \<and> ier_of (bus m') = ier_of (bus m) OR XINTC_INT irq"
  using xintc_enableIRQ_eq [OF assms(1,3,2), of m] by simp

abbreviation out_of_reset :: "hw \<Rightarrow> u32 \<Rightarrow> bool" where
  "out_of_reset hw ch \<equiv> responds hw (ch_cr ch) (\<lambda>v. \<not> fld_on xdmacr ''reset'' v)"

lemma xdma_start_ok:
  assumes "intc_hw hw" and "out_of_reset hw XDMA0_MM2S" and "out_of_reset hw XDMA0_S2MM"
    and "out_of_reset hw XDMA1_MM2S" and "f \<noteq> 0" "g \<noteq> 0" "h \<noteq> 0"
  shows "\<exists>s'. xdma_start hw f g h s = Some s' \<and> eth_rxqcount s' = 0 \<and> eth_rxcount s' = 0
    \<and> eth_lostcount s' = 0 \<and> eth_txcount s' = 0 \<and> tx_count s' = 0 \<and> bds s' = bds s \<and> mem s' = mem s
    \<and> (\<forall>irq \<in> {XDMA1_MM2S_IRQ, XDMA2_MM2S_IRQ, XDMA2_S2MM_IRQ}. bit (ier_of (bus s')) (unat irq))"
proof -
  let ?rdy = "\<lambda>v :: u32. \<not> fld_on xdmacr ''reset'' v"
  let ?s0 = "s\<lparr>eth_rxhead := 0, eth_rxtail := 0, rxcount := 0, txcount := 0, lostcount := 0,
      eth_txtail := 0, eth_txpkts := 0, eth_txdepth := 0\<rparr>"
  obtain s1 where 1: "xintc_disableIRQ hw XDMA1_MM2S_IRQ ?s0 = Some s1"
    using disableIRQ_returns [OF assms(1)] ..
  obtain s2 where 2: "xintc_disableIRQ hw XDMA2_MM2S_IRQ s1 = Some s2"
    using disableIRQ_returns [OF assms(1)] ..
  obtain s3 where 3: "xintc_disableIRQ hw XDMA2_S2MM_IRQ s2 = Some s3"
    using disableIRQ_returns [OF assms(1)] ..
  let ?s4 = "st_fld hw xdmacr ''reset'' 1 (ch_cr XDMA1_MM2S) (st_fld hw xdmacr ''reset'' 1 (ch_cr XDMA0_S2MM)
      (st_fld hw xdmacr ''reset'' 1 (ch_cr XDMA0_MM2S) s3))"
  obtain s5 where 5: "await hw (ch_cr XDMA0_MM2S) ?rdy ?s4 = Some s5" using responds_await [OF assms(2)] ..
  obtain s6 where 6: "await hw (ch_cr XDMA0_S2MM) ?rdy s5 = Some s6" using responds_await [OF assms(3)] ..
  obtain s7 where 7: "await hw (ch_cr XDMA1_MM2S) ?rdy s6 = Some s7" using responds_await [OF assms(4)] ..
  obtain s8 where 8: "xintc_enableIRQ hw XDMA1_MM2S_IRQ f s7 = Some s8"
    and i8: "ier_of (bus s8) = ier_of (bus s7) OR XINTC_INT XDMA1_MM2S_IRQ"
    using enableIRQ_sets [OF assms(1,5), of XDMA1_MM2S_IRQ s7] by auto
  obtain s9 where 9: "xintc_enableIRQ hw XDMA2_MM2S_IRQ g s8 = Some s9"
    and i9: "ier_of (bus s9) = ier_of (bus s8) OR XINTC_INT XDMA2_MM2S_IRQ"
    using enableIRQ_sets [OF assms(1,6), of XDMA2_MM2S_IRQ s8] by auto
  obtain s' where 10: "xintc_enableIRQ hw XDMA2_S2MM_IRQ h s9 = Some s'"
    and i10: "ier_of (bus s') = ier_of (bus s9) OR XINTC_INT XDMA2_S2MM_IRQ"
    using enableIRQ_sets [OF assms(1,7), of XDMA2_S2MM_IRQ s9] by auto
  have run: "xdma_start hw f g h s = Some s'"
    unfolding xdma_start_def Let_def 1 2 3 5 6 7 8 9 10 bind.bind_lunit ..
  have "bit (ier_of (bus s')) 3 \<and> bit (ier_of (bus s')) 9 \<and> bit (ier_of (bus s')) 10"
    unfolding i10 i9 i8 bit_or_iff bit_XINTC_INT by simp
  moreover have "eth_rxqcount s' = 0 \<and> eth_rxcount s' = 0 \<and> eth_lostcount s' = 0 \<and> eth_txcount s' = 0
      \<and> tx_count s' = 0 \<and> bds s' = bds s \<and> mem s' = mem s"
    using xdma_start_fields [OF run]
    by (simp add: eth_rxqcount_def eth_rxcount_def eth_lostcount_def eth_txcount_def tx_count_def tx_locked_def)
  ultimately show ?thesis using run by simp
qed

text \<open>
  The start of the driver returns, provided the interrupt controller behaves as documented and
  the three reset bits are eventually cleared; it leaves every counter and queue index
  zero, the descriptors and the memory as they were, and the three DMA lines enabled.
\<close>

theorem xdma_start_returns:
  assumes "intc_hw hw" and "out_of_reset hw XDMA0_MM2S" and "out_of_reset hw XDMA0_S2MM"
    and "out_of_reset hw XDMA1_MM2S" and "f \<noteq> 0" "g \<noteq> 0" "h \<noteq> 0"
  shows "\<exists>s'. xdma_start hw f g h s = Some s' \<and> eth_rxqcount s' = 0 \<and> eth_rxcount s' = 0
    \<and> eth_lostcount s' = 0 \<and> eth_txcount s' = 0 \<and> tx_count s' = 0 \<and> bds s' = bds s \<and> mem s' = mem s
    \<and> (\<forall>irq \<in> {XDMA1_MM2S_IRQ, XDMA2_MM2S_IRQ, XDMA2_S2MM_IRQ}. bit (ier_of (bus s')) (unat irq))"
  using assms by (rule xdma_start_ok)

theorem xdma_start_returns_witness:
  "\<exists>s'. xdma_start ready_hw 0x500 0x600 0x700 xdma_boot = Some s' \<and> bit (ier_of (bus s')) 9"
proof -
  have rdy: "out_of_reset ready_hw XDMA0_MM2S" "out_of_reset ready_hw XDMA0_S2MM" "out_of_reset ready_hw XDMA1_MM2S"
    by (simp_all add: responds_def ready_hw_cr fld_on_def fld_get_def)
  from xdma_start_returns [OF ready_hw_intc rdy, of "0x500" "0x600" "0x700" xdma_boot] show ?thesis by auto
qed

end
