(* ===== verification/Xtemac_Phy.thy ===== *)
theory Xtemac_Phy
  imports Xdma_Io
begin

text \<open>
  The PHY half of the ethernet driver, \<open>src/arch/mb_le/sys/xtemac_phy.c\<close>: the registers of the
  LAN8720A behind the MDIO port, the two register accesses, reset, link detection and the
  interrupt. A value \<open>None\<close> means that a busy-wait never ends.
\<close>

section \<open>Data\<close>

datatype phy_speed = SPEED_10MBPS | SPEED_100MBPS

datatype phy_duplex = LINK_HALF_DUPLEX | LINK_FULL_DUPLEX

record phylink =
  speed :: phy_speed
  link :: phy_duplex

abbreviation LAN8720_10M_HALF :: u16 where "LAN8720_10M_HALF \<equiv> 1"
abbreviation LAN8720_10M_FULL :: u16 where "LAN8720_10M_FULL \<equiv> 5"
abbreviation LAN8720_100M_HALF :: u16 where "LAN8720_100M_HALF \<equiv> 2"
abbreviation LAN8720_100M_FULL :: u16 where "LAN8720_100M_FULL \<equiv> 6"

section \<open>PHY registers\<close>

definition phy_bmcr :: layout where
  "phy_bmcr = [(''reserved0_7'', 8), (''duplex_mode'', 1), (''restart_auto_neg'', 1),
     (''isolate'', 1), (''power_down'', 1), (''autoneg_enable'', 1), (''speed_select'', 1),
     (''loopback'', 1), (''reset'', 1)]"

definition phy_bmsr :: layout where
  "phy_bmsr = [(''ext_avail'', 1), (''jabber_detect'', 1), (''link_satus'', 1),
     (''autoneg_avail'', 1), (''remote_fault'', 1), (''autoneg_cmplt'', 1), (''reserved6_7'', 2),
     (''ext_status'', 1), (''t2_half_duplex'', 1), (''t2_full_duplex'', 1), (''t10_half_duplex'', 1),
     (''t10_full_duplex'', 1), (''tx_half_duplex'', 1), (''tx_full_duplex'', 1), (''t4_ability'', 1)]"

definition phyid2 :: layout where
  "phyid2 = [(''revision'', 4), (''model'', 6), (''oui_bits'', 6)]"

definition lan8720a_mcrsr :: layout where
  "lan8720a_mcrsr = [(''reserved0'', 1), (''energy_on'', 1), (''reserved2_5'', 4), (''altint'', 1),
     (''reserved7_8'', 2), (''far_loopback'', 1), (''reserved10_12'', 3), (''edpwrdown'', 1),
     (''reserved14_15'', 2)]"

definition lan8720a_sm :: layout where
  "lan8720a_sm = [(''phyad'', 5), (''mode'', 3), (''reserved8_13'', 6), (''reserved14'', 1),
     (''reserved15'', 1)]"

definition lan8720a_isr :: layout where
  "lan8720a_isr = [(''reserved0'', 1), (''autoneg_page_rx'', 1), (''par_detect_fault'', 1),
     (''autoneg_lp_ack'', 1), (''linkdown'', 1), (''remote_fault'', 1), (''autoneg_cmplt'', 1),
     (''energyon'', 1), (''reserved8_15'', 8)]"

definition lan8720a_imr :: layout where
  "lan8720a_imr = [(''reserved0'', 1), (''autoneg_page_rx_en'', 1), (''par_detect_fault_irq_en'', 1),
     (''autoneg_lpack_irq_en'', 1), (''linkdown_irq_en'', 1), (''remote_fault_irq_en'', 1),
     (''autoneg_irq_en'', 1), (''energyon_irq_en'', 1), (''reserved8_15'', 8)]"

definition lan8720a_scsr :: layout where
  "lan8720a_scsr = [(''reserved0_1'', 2), (''hcd_speed'', 3), (''reserved5_14'', 10),
     (''autoneg_done'', 1)]"

section \<open>MDIO registers\<close>

definition xtemac_mdio_setup :: layout where
  "xtemac_mdio_setup = [(''clock_divide'', 6), (''mdio_enable'', 1), (''reserved7_31'', 25)]"

definition xtemac_mdio_control :: layout where
  "xtemac_mdio_control = [(''reserved0_6'', 7), (''mdio_ready'', 1), (''reserved8_10'', 3),
     (''initiate'', 1), (''reserved12_13'', 2), (''op'', 2), (''phy_reg_addr'', 5),
     (''reserved21_23'', 3), (''phy_addr'', 5), (''reserved29_31'', 3)]"

definition xtemac_mdio_wdata :: layout where
  "xtemac_mdio_wdata = [(''wdata'', 16), (''reserved16_31'', 16)]"

definition xtemac_mdio_rdata :: layout where
  "xtemac_mdio_rdata = [(''rdata'', 16), (''mdio_ready'', 1), (''reserved17_31'', 15)]"

definition xtemac_mdio_irq :: layout where
  "xtemac_mdio_irq = [(''mdioc_irq'', 1), (''tx_ptp_irq'', 1), (''rx_ptp_irq'', 1),
     (''tmr_ptp_irq'', 1), (''reserved'', 28)]"

abbreviation XTEMAC_BASE :: u32 where "XTEMAC_BASE \<equiv> 0x44A60000"

definition MDIO_stp :: u32 where "MDIO_stp = XTEMAC_BASE + 0x500"
definition MDIO_cr :: u32 where "MDIO_cr = XTEMAC_BASE + 0x504"
definition MDIO_wdr :: u32 where "MDIO_wdr = XTEMAC_BASE + 0x508"
definition MDIO_rdr :: u32 where "MDIO_rdr = XTEMAC_BASE + 0x50C"
definition MDIO_IC_isr :: u32 where "MDIO_IC_isr = XTEMAC_BASE + 0x600"
definition MDIO_IC_icr :: u32 where "MDIO_IC_icr = XTEMAC_BASE + 0x630"

abbreviation XTEMAC_PHY_IRQ :: u8 where "XTEMAC_PHY_IRQ \<equiv> 11"
abbreviation XTEMAC_MDIO_WRITE :: u32 where "XTEMAC_MDIO_WRITE \<equiv> 1"
abbreviation XTEMAC_MDIO_READ :: u32 where "XTEMAC_MDIO_READ \<equiv> 2"
abbreviation XTEMAC_MDIO_PHY_ADDR :: u32 where "XTEMAC_MDIO_PHY_ADDR \<equiv> 1"
abbreviation XTEMAC_MDIO_CLOCK_DIV :: u32 where "XTEMAC_MDIO_CLOCK_DIV \<equiv> 0x14"
abbreviation XTEMAC_MDIO_PHY_BMCR :: u8 where "XTEMAC_MDIO_PHY_BMCR \<equiv> 0"
abbreviation XTEMAC_MDIO_PHY_BMSR :: u8 where "XTEMAC_MDIO_PHY_BMSR \<equiv> 1"
abbreviation XTEMAC_MDIO_PHY_ID1 :: u8 where "XTEMAC_MDIO_PHY_ID1 \<equiv> 2"
abbreviation XTEMAC_MDIO_PHY_ID2 :: u8 where "XTEMAC_MDIO_PHY_ID2 \<equiv> 3"
abbreviation XTEMAC_MDIO_LAN8720A_ISR :: u8 where "XTEMAC_MDIO_LAN8720A_ISR \<equiv> 29"
abbreviation XTEMAC_MDIO_LAN8720A_IMR :: u8 where "XTEMAC_MDIO_LAN8720A_IMR \<equiv> 30"
abbreviation XTEMAC_MDIO_LAN8720A_SCSR :: u8 where "XTEMAC_MDIO_LAN8720A_SCSR \<equiv> 31"

section \<open>Operations\<close>

record temac = xdma +
  link_sig :: bool

definition mdio_command :: "u32 \<Rightarrow> u8 \<Rightarrow> u32" where
  "mdio_command op_code addr =
     (let mdio_cr = fld_set xtemac_mdio_control ''initiate'' 1 0;
          mdio_cr = fld_set xtemac_mdio_control ''op'' op_code mdio_cr;
          mdio_cr = fld_set xtemac_mdio_control ''phy_reg_addr'' (ucast addr) mdio_cr
      in fld_set xtemac_mdio_control ''phy_addr'' XTEMAC_MDIO_PHY_ADDR mdio_cr)"

text \<open>The result is the value stored through \<open>regv\<close> when \<open>true\<close> is returned, \<open>None\<close> inside when
  \<open>false\<close> is.\<close>

definition read_phyReg ::
    "hw \<Rightarrow> u8 \<Rightarrow> 'a machine_scheme \<Rightarrow> (u16 option \<times> 'a machine_scheme) option" where
  "read_phyReg hw addr s =
     (let (ready, s) = ld_fld hw xtemac_mdio_rdata ''mdio_ready'' MDIO_rdr s
      in if ready = 0 then Some (None, s)
         else do {
           let s = st_fld hw xtemac_mdio_irq ''mdioc_irq'' 1 MDIO_IC_icr s;
           s \<leftarrow> await hw MDIO_IC_isr (\<lambda>v. \<not> fld_on xtemac_mdio_irq ''mdioc_irq'' v) s;
           let s = st32 MDIO_cr (mdio_command XTEMAC_MDIO_READ addr) s;
           s \<leftarrow> await hw MDIO_IC_isr (fld_on xtemac_mdio_irq ''mdioc_irq'') s;
           let (v, s) = ld_fld hw xtemac_mdio_rdata ''rdata'' MDIO_rdr s;
           Some (Some (ucast v), s)
         })"

definition write_phyReg ::
    "hw \<Rightarrow> u8 \<Rightarrow> u16 \<Rightarrow> 'a machine_scheme \<Rightarrow> (bool \<times> 'a machine_scheme) option" where
  "write_phyReg hw addr regv s =
     (let (ready, s) = ld_fld hw xtemac_mdio_control ''mdio_ready'' MDIO_cr s
      in if ready = 0 then Some (False, s)
         else do {
           let s = st_fld hw xtemac_mdio_irq ''mdioc_irq'' 1 MDIO_IC_icr s;
           s \<leftarrow> await hw MDIO_IC_isr (\<lambda>v. \<not> fld_on xtemac_mdio_irq ''mdioc_irq'' v) s;
           let s = st_fld hw xtemac_mdio_wdata ''wdata'' (ucast regv) MDIO_wdr s;
           let s = st32 MDIO_cr (mdio_command XTEMAC_MDIO_WRITE addr) s;
           s \<leftarrow> await hw MDIO_IC_isr (fld_on xtemac_mdio_irq ''mdioc_irq'') s;
           Some (True, s)
         })"

text \<open>A read into a variable: the variable keeps its value when the read fails.\<close>

definition read_phyInto ::
    "hw \<Rightarrow> u8 \<Rightarrow> u16 \<Rightarrow> 'a machine_scheme \<Rightarrow> (u16 \<times> 'a machine_scheme) option" where
  "read_phyInto hw addr phy s = do {
     (v, s) \<leftarrow> read_phyReg hw addr s;
     Some (case v of Some x \<Rightarrow> x | None \<Rightarrow> phy, s)
   }"

partial_function (option) phyReset_loop ::
    "hw \<Rightarrow> u16 \<Rightarrow> 'a machine_scheme \<Rightarrow> 'a machine_scheme option" where
  "phyReset_loop hw phy s = do {
     (phy, s) \<leftarrow> read_phyInto hw XTEMAC_MDIO_PHY_BMCR phy s;
     if fld_on phy_bmcr ''reset'' phy then phyReset_loop hw phy s else Some s
   }"

definition xtemac_phyReset :: "hw \<Rightarrow> 'a machine_scheme \<Rightarrow> 'a machine_scheme option" where
  "xtemac_phyReset hw s = do {
     let phy = fld_set phy_bmcr ''reset'' 1 0;
     (_, s) \<leftarrow> write_phyReg hw XTEMAC_MDIO_PHY_BMCR phy s;
     phyReset_loop hw phy s
   }"

text \<open>The parameter is the link-time address of the interrupt handler.\<close>

definition xtemac_phy :: "hw \<Rightarrow> u32 \<Rightarrow> 'a temac_scheme \<Rightarrow> 'a temac_scheme option" where
  "xtemac_phy hw on_phyIRQ s = do {
     let s = s\<lparr>link_sig := False\<rparr>;
     let mdio_setup = fld_set xtemac_mdio_setup ''mdio_enable'' 1 0;
     let mdio_setup = fld_set xtemac_mdio_setup ''clock_divide'' XTEMAC_MDIO_CLOCK_DIV mdio_setup;
     let s = st32 MDIO_stp mdio_setup s;
     s \<leftarrow> xtemac_phyReset hw s;
     let phy = fld_set phy_bmcr ''autoneg_enable'' 1 0;
     (_, s) \<leftarrow> write_phyReg hw XTEMAC_MDIO_PHY_BMCR phy s;
     s \<leftarrow> xintc_disableIRQ hw XTEMAC_PHY_IRQ s;
     s \<leftarrow> xintc_enableIRQ hw XTEMAC_PHY_IRQ on_phyIRQ s;
     let phy = fld_set lan8720a_imr ''autoneg_irq_en'' 1 0;
     let phy = fld_set lan8720a_imr ''linkdown_irq_en'' 1 phy;
     (_, s) \<leftarrow> write_phyReg hw XTEMAC_MDIO_LAN8720A_IMR phy s;
     Some s
   }"

definition xtemac_phylinkSignal :: "'a temac_scheme \<Rightarrow> bool" where
  "xtemac_phylinkSignal s = link_sig s"

text \<open>\<open>lk\<close> is what the pointer points to, \<open>None\<close> for a NULL pointer; the result holds its new
  value.\<close>

definition xtemac_phylink ::
    "hw \<Rightarrow> phylink option \<Rightarrow> 'a temac_scheme \<Rightarrow> (bool \<times> phylink option \<times> 'a temac_scheme) option" where
  "xtemac_phylink hw lk_p s =
     (case lk_p of
        None \<Rightarrow> Some (False, None, s)
      | Some lk \<Rightarrow> do {
          let linksig = link_sig s;
          let s = (if linksig then s\<lparr>link_sig := False\<rparr> else s);
          (phy, s) \<leftarrow> read_phyInto hw XTEMAC_MDIO_PHY_BMSR 0 s;
          let linkstatus = (fld_on phy_bmsr ''link_satus'' phy \<and> fld_on phy_bmsr ''autoneg_cmplt'' phy);
          if \<not> linkstatus then Some (linkstatus, Some lk, s)
          else do {
            (phy, s) \<leftarrow> read_phyInto hw XTEMAC_MDIO_LAN8720A_SCSR phy s;
            let hcd = fld_get lan8720a_scsr ''hcd_speed'' phy;
            let lk = (if hcd = LAN8720_10M_FULL \<or> hcd = LAN8720_100M_FULL
                      then lk\<lparr>link := LINK_FULL_DUPLEX,
                              speed := (if hcd = LAN8720_10M_FULL then SPEED_10MBPS else SPEED_100MBPS)\<rparr>
                      else if hcd = LAN8720_10M_HALF \<or> hcd = LAN8720_100M_HALF
                      then lk\<lparr>link := LINK_HALF_DUPLEX,
                              speed := (if hcd = LAN8720_10M_HALF then SPEED_10MBPS else SPEED_100MBPS)\<rparr>
                      else lk);
            Some (linkstatus, Some lk, s)
          }
        })"

text \<open>The shift of the 16-bit identifier happens in a 32-bit \<open>int\<close>.\<close>

definition xtemac_phyid :: "hw \<Rightarrow> 'a machine_scheme \<Rightarrow> (u32 \<times> 'a machine_scheme) option" where
  "xtemac_phyid hw s =
     (let (ready, s) = ld_fld hw xtemac_mdio_rdata ''mdio_ready'' MDIO_rdr s
      in if ready = 0 then Some (0, s)
         else do {
           (id1, s) \<leftarrow> read_phyReg hw XTEMAC_MDIO_PHY_ID1 s;
           (id2, s) \<leftarrow> read_phyReg hw XTEMAC_MDIO_PHY_ID2 s;
           Some (case (id1, id2) of
                   (Some a, Some b) \<Rightarrow> push_bit 16 (ucast a) OR ucast b
                 | _ \<Rightarrow> 0, s)
         })"

text \<open>The variable \<open>phy\<close> of the handler is not initialised: \<open>junk\<close> is what it holds.\<close>

definition on_phyIRQ :: "hw \<Rightarrow> u16 \<Rightarrow> 'a temac_scheme \<Rightarrow> 'a temac_scheme option" where
  "on_phyIRQ hw junk s = do {
     (phy, s) \<leftarrow> read_phyInto hw XTEMAC_MDIO_LAN8720A_ISR junk s;
     let s = s\<lparr>link_sig := (fld_on lan8720a_isr ''linkdown'' phy \<or> fld_on lan8720a_isr ''autoneg_cmplt'' phy)\<rparr>;
     Some (kernel_raise SIGINT s)
   }"

section \<open>The device\<close>

text \<open>
  Documented behaviour of the MDIO port. A store to the control register with the initiate bit
  starts an operation on a register of a PHY; its completion sets the completion flag,
  which a store to the acknowledge register clears; both take effect after finitely many
  loads of the status register. The port is ready for a new operation between
  operations. When the completion flag has just been loaded set after a read operation,
  the data register holds the value of the register read. \<open>phy\<close> gives the contents of
  the PHY registers, which may change over time.
\<close>

datatype mdio_op = MdioRead u32 u32 | MdioWrite u32 u32 u32

fun mdio_ioc :: "history \<Rightarrow> bool" where
  "mdio_ioc [] = False"
| "mdio_ioc (Wr a v # t) =
     (if a = MDIO_cr \<and> fld_on xtemac_mdio_control ''initiate'' v then True
      else if a = MDIO_IC_icr \<and> fld_on xtemac_mdio_irq ''mdioc_irq'' v then False
      else mdio_ioc t)"
| "mdio_ioc (_ # t) = mdio_ioc t"

fun mdio_wdr :: "history \<Rightarrow> u32" where
  "mdio_wdr [] = 0"
| "mdio_wdr (Wr a v # t) = (if a = MDIO_wdr then fld_get xtemac_mdio_wdata ''wdata'' v else mdio_wdr t)"
| "mdio_wdr (_ # t) = mdio_wdr t"

text \<open>The operations started so far, latest first.\<close>

fun mdio_ops :: "history \<Rightarrow> mdio_op list" where
  "mdio_ops [] = []"
| "mdio_ops (Wr a v # t) =
     (if a = MDIO_cr \<and> fld_on xtemac_mdio_control ''initiate'' v
      then (let p = fld_get xtemac_mdio_control ''phy_addr'' v;
                r = fld_get xtemac_mdio_control ''phy_reg_addr'' v;
                op_code = fld_get xtemac_mdio_control ''op'' v
            in if op_code = 2 then MdioRead p r # mdio_ops t
               else if op_code = 1 then MdioWrite p r (mdio_wdr t) # mdio_ops t
               else mdio_ops t)
      else mdio_ops t)"
| "mdio_ops (_ # t) = mdio_ops t"

definition mdio_hw :: "hw \<Rightarrow> (history \<Rightarrow> u32 \<Rightarrow> u16) \<Rightarrow> bool" where
  "mdio_hw hw phy \<longleftrightarrow> (\<forall>t.
     fld_on xtemac_mdio_rdata ''mdio_ready'' (hw t MDIO_rdr)
     \<and> fld_on xtemac_mdio_control ''mdio_ready'' (hw t MDIO_cr)
     \<and> (\<exists>n. fld_on xtemac_mdio_irq ''mdioc_irq'' (hw (spun hw MDIO_IC_isr n t) MDIO_IC_isr) = mdio_ioc t)
     \<and> (\<forall>v r ops. fld_on xtemac_mdio_irq ''mdioc_irq'' v \<longrightarrow> mdio_ops t = MdioRead 1 r # ops \<longrightarrow>
          fld_get xtemac_mdio_rdata ''rdata'' (hw (Rd MDIO_IC_isr v # t) MDIO_rdr)
            = ucast (phy (Rd MDIO_IC_isr v # t) r)))"

text \<open>The reset bit of the basic control register clears itself: it is clear once the register has
  been read often enough since it was written.\<close>

definition bmcr_polls :: "history \<Rightarrow> nat" where
  "bmcr_polls t = length (takeWhile (\<lambda>x. x = MdioRead 1 0) (mdio_ops t))"

definition phy_resets :: "nat \<Rightarrow> (history \<Rightarrow> u32 \<Rightarrow> u16) \<Rightarrow> bool" where
  "phy_resets N phy \<longleftrightarrow> (\<forall>t. N \<le> bmcr_polls t \<longrightarrow> \<not> fld_on phy_bmcr ''reset'' (phy t 0))"

section \<open>Register structs are well formed\<close>

interpretation bmcr: reg_layout 16 phy_bmcr
  by unfold_locales (simp add: layout_wf_def phy_bmcr_def)

interpretation bmsr: reg_layout 16 phy_bmsr
  by unfold_locales (simp add: layout_wf_def phy_bmsr_def)

interpretation id2: reg_layout 16 phyid2
  by unfold_locales (simp add: layout_wf_def phyid2_def)

interpretation mcrsr: reg_layout 16 lan8720a_mcrsr
  by unfold_locales (simp add: layout_wf_def lan8720a_mcrsr_def)

interpretation smr: reg_layout 16 lan8720a_sm
  by unfold_locales (simp add: layout_wf_def lan8720a_sm_def)

interpretation phy_isr: reg_layout 16 lan8720a_isr
  by unfold_locales (simp add: layout_wf_def lan8720a_isr_def)

interpretation phy_imr: reg_layout 16 lan8720a_imr
  by unfold_locales (simp add: layout_wf_def lan8720a_imr_def)

interpretation scsr: reg_layout 16 lan8720a_scsr
  by unfold_locales (simp add: layout_wf_def lan8720a_scsr_def)

interpretation mdio_setup: reg_layout 32 xtemac_mdio_setup
  by unfold_locales (simp add: layout_wf_def xtemac_mdio_setup_def)

interpretation mdio_control: reg_layout 32 xtemac_mdio_control
  by unfold_locales (simp add: layout_wf_def xtemac_mdio_control_def)

interpretation mdio_wdata: reg_layout 32 xtemac_mdio_wdata
  by unfold_locales (simp add: layout_wf_def xtemac_mdio_wdata_def)

interpretation mdio_rdata: reg_layout 32 xtemac_mdio_rdata
  by unfold_locales (simp add: layout_wf_def xtemac_mdio_rdata_def)

interpretation mdio_irq: reg_layout 32 xtemac_mdio_irq
  by unfold_locales (simp add: layout_wf_def xtemac_mdio_irq_def)

section \<open>Lemmas\<close>

lemmas mdio_addr_defs = MDIO_stp_def MDIO_cr_def MDIO_wdr_def MDIO_rdr_def MDIO_IC_isr_def
  MDIO_IC_icr_def

lemma mdio_addr_distinct [simp]:
  "MDIO_cr \<noteq> MDIO_IC_icr" "MDIO_IC_icr \<noteq> MDIO_cr" "MDIO_wdr \<noteq> MDIO_cr" "MDIO_cr \<noteq> MDIO_wdr"
  "MDIO_wdr \<noteq> MDIO_IC_icr" "MDIO_IC_icr \<noteq> MDIO_wdr" "MDIO_stp \<noteq> MDIO_cr" "MDIO_stp \<noteq> MDIO_wdr"
  "MDIO_cr \<noteq> XINTC_sie" "MDIO_cr \<noteq> XINTC_cie" "MDIO_wdr \<noteq> XINTC_sie" "MDIO_wdr \<noteq> XINTC_cie"
  "MDIO_IC_icr \<noteq> XINTC_sie" "MDIO_IC_icr \<noteq> XINTC_cie" "MDIO_stp \<noteq> XINTC_sie" "MDIO_stp \<noteq> XINTC_cie"
  "XINTC_sie \<noteq> MDIO_cr" "XINTC_cie \<noteq> MDIO_cr" "XINTC_imr \<noteq> MDIO_cr" "XINTC_sie \<noteq> MDIO_wdr"
  "XINTC_cie \<noteq> MDIO_wdr" "XINTC_imr \<noteq> MDIO_wdr"
  by (simp_all add: mdio_addr_defs xintc_addr_defs)

lemma mdio_control_fields [simp]:
  "fst ` set xtemac_mdio_control = {''reserved0_6'', ''mdio_ready'', ''reserved8_10'', ''initiate'',
     ''reserved12_13'', ''op'', ''phy_reg_addr'', ''reserved21_23'', ''phy_addr'', ''reserved29_31''}"
  by (simp add: xtemac_mdio_control_def)

lemma mdio_widths [layout_simps]:
  "fld_width xtemac_mdio_control ''initiate'' = 1" "fld_width xtemac_mdio_control ''op'' = 2"
  "fld_width xtemac_mdio_control ''phy_reg_addr'' = 5" "fld_width xtemac_mdio_control ''phy_addr'' = 5"
  "fld_width xtemac_mdio_wdata ''wdata'' = 16" "fld_width xtemac_mdio_irq ''mdioc_irq'' = 1"
  by (simp_all add: xtemac_mdio_control_def xtemac_mdio_wdata_def xtemac_mdio_irq_def)

lemma mdio_field_in:
  "''mdioc_irq'' \<in> fst ` set xtemac_mdio_irq" "''wdata'' \<in> fst ` set xtemac_mdio_wdata"
  by (simp_all add: xtemac_mdio_irq_def xtemac_mdio_wdata_def)

lemma mdio_irq_set: "fld_on xtemac_mdio_irq ''mdioc_irq'' (fld_set xtemac_mdio_irq ''mdioc_irq'' 1 (r :: u32))"
  by (simp add: fld_on_def mdio_irq.get_set mdio_field_in layout_simps)

lemma mdio_command_fields:
  "fld_on xtemac_mdio_control ''initiate'' (mdio_command c a)"
  "fld_get xtemac_mdio_control ''op'' (mdio_command c a) = take_bit 2 c"
  "fld_get xtemac_mdio_control ''phy_reg_addr'' (mdio_command c a) = take_bit 5 (ucast a)"
  "fld_get xtemac_mdio_control ''phy_addr'' (mdio_command c a) = 1"
  by (simp_all add: mdio_command_def fld_on_def Let_def mdio_control.get_set mdio_control.get_set_other
      layout_simps)

lemma reg_addr_fits: "unat (a :: u8) < 32 \<Longrightarrow> take_bit 5 (ucast a) = (ucast a :: u32)"
  by (simp add: word_unat_eq_iff unsigned_take_bit_eq unat_ucast_up take_bit_nat_eq_self)

lemma reads_keep:
  "set l \<subseteq> range (Rd a) \<Longrightarrow> mdio_ops (l @ t) = mdio_ops t \<and> mdio_ioc (l @ t) = mdio_ioc t
     \<and> mdio_wdr (l @ t) = mdio_wdr t \<and> ier_of (l @ t) = ier_of t"
  by (induction l) auto

text \<open>Both waits on the completion flag end, and with the flag as the port has it.\<close>

lemma mdio_await:
  assumes "mdio_hw hw phy"
    and "stop = (if mdio_ioc (bus s) then fld_on xtemac_mdio_irq ''mdioc_irq''
                 else (\<lambda>v. \<not> fld_on xtemac_mdio_irq ''mdioc_irq'' v))"
  shows "\<exists>l v. await hw MDIO_IC_isr stop s = Some (s\<lparr>bus := Rd MDIO_IC_isr v # l @ bus s\<rparr>)
    \<and> stop v \<and> set l \<subseteq> range (Rd MDIO_IC_isr)"
proof -
  from assms(1) obtain n where
    "fld_on xtemac_mdio_irq ''mdioc_irq'' (hw (spun hw MDIO_IC_isr n (bus s)) MDIO_IC_isr) = mdio_ioc (bus s)"
    unfolding mdio_hw_def by blast
  then have "stop (hw (spun hw MDIO_IC_isr n (bus s)) MDIO_IC_isr)" by (simp add: assms(2))
  with poll_spun_returns [of stop hw MDIO_IC_isr n "bus s"] obtain s' where "await hw MDIO_IC_isr stop s = Some s'"
    by (auto simp: await_def)
  with await_last [OF this] show ?thesis by blast
qed

lemma mdio_ready:
  assumes "mdio_hw hw phy"
  shows "fld_get xtemac_mdio_rdata ''mdio_ready'' (hw t MDIO_rdr) \<noteq> 0"
    and "fld_get xtemac_mdio_control ''mdio_ready'' (hw t MDIO_cr) \<noteq> 0"
  using assms by (auto simp: mdio_hw_def fld_on_def)

abbreviation mdio_done :: "u32 \<Rightarrow> bool" where
  "mdio_done \<equiv> fld_on xtemac_mdio_irq ''mdioc_irq''"

lemma mdio_clear:
  assumes "mdio_hw hw phy"
  shows "\<exists>t. await hw MDIO_IC_isr (\<lambda>v. \<not> mdio_done v)
      (st_fld hw xtemac_mdio_irq ''mdioc_irq'' 1 MDIO_IC_icr s) = Some (s\<lparr>bus := t\<rparr>)
    \<and> mdio_ops t = mdio_ops (bus s) \<and> ier_of t = ier_of (bus s)"
proof -
  let ?s = "st_fld hw xtemac_mdio_irq ''mdioc_irq'' 1 MDIO_IC_icr s"
  have b: "mdio_ops (bus ?s) = mdio_ops (bus s)" "\<not> mdio_ioc (bus ?s)" "ier_of (bus ?s) = ier_of (bus s)"
    and s: "?s\<lparr>bus := T\<rparr> = s\<lparr>bus := T\<rparr>" for T
    by (simp_all add: st_fld_def ld32_def st32_def emit_def Let_def mdio_irq_set)
  from mdio_await [OF assms, of "\<lambda>v. \<not> mdio_done v" ?s] b(2) obtain l v
    where "await hw MDIO_IC_isr (\<lambda>v. \<not> mdio_done v) ?s = Some (?s\<lparr>bus := Rd MDIO_IC_isr v # l @ bus ?s\<rparr>)"
      and l: "set l \<subseteq> range (Rd MDIO_IC_isr)" by auto
  with reads_keep [OF l, of "bus ?s"] b show ?thesis
    by (intro exI [of _ "Rd MDIO_IC_isr v # l @ bus ?s"]) (simp add: s)
qed

lemma mdio_complete:
  assumes "mdio_hw hw phy" and "mdio_ioc (bus s)"
  shows "\<exists>t v. await hw MDIO_IC_isr mdio_done s = Some (s\<lparr>bus := Rd MDIO_IC_isr v # t\<rparr>) \<and> mdio_done v
    \<and> mdio_ops t = mdio_ops (bus s) \<and> ier_of t = ier_of (bus s)"
proof -
  from mdio_await [OF assms(1), of mdio_done s] assms(2) obtain l v
    where "await hw MDIO_IC_isr mdio_done s = Some (s\<lparr>bus := Rd MDIO_IC_isr v # l @ bus s\<rparr>)"
      and "mdio_done v" and l: "set l \<subseteq> range (Rd MDIO_IC_isr)" by auto
  with reads_keep [OF l, of "bus s"] show ?thesis by blast
qed

lemma ucast_u16_u32 [simp]: "ucast (ucast (x :: u16) :: u32) = x"
  by (rule bit_word_eqI) (simp add: bit_ucast_iff)

lemma take_bit_u16: "take_bit 16 (ucast (x :: u16)) = (ucast x :: u32)"
  by (rule bit_word_eqI) (auto simp: bit_take_bit_iff bit_ucast_iff dest: bit_imp_le_length)

text \<open>A read returns the value the register has when the operation completes, and is the only
  operation started.\<close>

lemma read_phyReg_ok:
  assumes "mdio_hw hw phy" and "unat addr < 32"
  shows "\<exists>t x. read_phyReg hw addr s = Some (Some (phy t (ucast addr)), s\<lparr>bus := Rd MDIO_rdr x # t\<rparr>)
    \<and> mdio_ops t = MdioRead 1 (ucast addr) # mdio_ops (bus s) \<and> ier_of t = ier_of (bus s)"
proof -
  let ?s1 = "emit (Rd MDIO_rdr (hw (bus s) MDIO_rdr)) s"
  obtain t1 where a1: "await hw MDIO_IC_isr (\<lambda>v. \<not> mdio_done v)
      (st_fld hw xtemac_mdio_irq ''mdioc_irq'' 1 MDIO_IC_icr ?s1) = Some (s\<lparr>bus := t1\<rparr>)"
    and t1: "mdio_ops t1 = mdio_ops (bus s)" "ier_of t1 = ier_of (bus s)"
    using mdio_clear [OF assms(1), of ?s1] by (auto simp: emit_def)
  let ?s3 = "s\<lparr>bus := Wr MDIO_cr (mdio_command XTEMAC_MDIO_READ addr) # t1\<rparr>"
  have b3: "mdio_ops (bus ?s3) = MdioRead 1 (ucast addr) # mdio_ops (bus s)" "mdio_ioc (bus ?s3)"
    "ier_of (bus ?s3) = ier_of (bus s)"
    using t1 assms(2) by (simp_all add: mdio_command_fields reg_addr_fits Let_def)
  from mdio_complete [OF assms(1) b3(2)] obtain t v
    where a2: "await hw MDIO_IC_isr mdio_done ?s3 = Some (?s3\<lparr>bus := Rd MDIO_IC_isr v # t\<rparr>)" and v: "mdio_done v"
      and t: "mdio_ops t = mdio_ops (bus ?s3)" "ier_of t = ier_of (bus ?s3)" by blast
  let ?t = "Rd MDIO_IC_isr v # t"
  have "fld_get xtemac_mdio_rdata ''rdata'' (hw ?t MDIO_rdr) = ucast (phy ?t (ucast addr))"
    using assms(1) v t(1) b3(1) unfolding mdio_hw_def by simp
  then have "read_phyReg hw addr s = Some (Some (phy ?t (ucast addr)), s\<lparr>bus := Rd MDIO_rdr (hw ?t MDIO_rdr) # ?t\<rparr>)"
    using mdio_ready(1) [OF assms(1)] a1 a2
    by (simp add: read_phyReg_def ld_fld_def ld32_def Let_def st32_def emit_def)
  with t b3 show ?thesis by (intro exI [of _ ?t] exI [of _ "hw ?t MDIO_rdr"]) simp
qed

text \<open>A write is the only operation started, with the value given.\<close>

lemma write_phyReg_ok:
  assumes "mdio_hw hw phy" and "unat addr < 32"
  shows "\<exists>t. write_phyReg hw addr regv s = Some (True, s\<lparr>bus := t\<rparr>)
    \<and> mdio_ops t = MdioWrite 1 (ucast addr) (ucast regv) # mdio_ops (bus s) \<and> ier_of t = ier_of (bus s)"
proof -
  let ?s1 = "emit (Rd MDIO_cr (hw (bus s) MDIO_cr)) s"
  obtain t1 where a1: "await hw MDIO_IC_isr (\<lambda>v. \<not> mdio_done v)
      (st_fld hw xtemac_mdio_irq ''mdioc_irq'' 1 MDIO_IC_icr ?s1) = Some (s\<lparr>bus := t1\<rparr>)"
    and t1: "mdio_ops t1 = mdio_ops (bus s)" "ier_of t1 = ier_of (bus s)"
    using mdio_clear [OF assms(1), of ?s1] by (auto simp: emit_def)
  let ?s3 = "st32 MDIO_cr (mdio_command XTEMAC_MDIO_WRITE addr)
      (st_fld hw xtemac_mdio_wdata ''wdata'' (ucast regv) MDIO_wdr (s\<lparr>bus := t1\<rparr>))"
  have b3: "mdio_ops (bus ?s3) = MdioWrite 1 (ucast addr) (ucast regv) # mdio_ops (bus s)" "mdio_ioc (bus ?s3)"
    "ier_of (bus ?s3) = ier_of (bus s)" and s3: "?s3\<lparr>bus := T\<rparr> = s\<lparr>bus := T\<rparr>" for T
    using t1 assms(2) by (simp_all add: st_fld_def ld32_def st32_def emit_def mdio_command_fields reg_addr_fits
        Let_def mdio_wdata.get_set mdio_field_in layout_simps take_bit_u16)
  from mdio_complete [OF assms(1) b3(2)] obtain t v
    where a2: "await hw MDIO_IC_isr mdio_done ?s3 = Some (?s3\<lparr>bus := Rd MDIO_IC_isr v # t\<rparr>)"
      and t: "mdio_ops t = mdio_ops (bus ?s3)" "ier_of t = ier_of (bus ?s3)" by blast
  have "write_phyReg hw addr regv s = Some (True, s\<lparr>bus := Rd MDIO_IC_isr v # t\<rparr>)"
    using mdio_ready(2) [OF assms(1)] a1 a2 s3
    by (simp add: write_phyReg_def ld_fld_def ld32_def Let_def)
  with t b3 show ?thesis by (intro exI [of _ "Rd MDIO_IC_isr v # t"]) simp
qed

lemma read_phyInto_ok:
  assumes "mdio_hw hw phy" and "unat addr < 32"
  shows "\<exists>t x. read_phyInto hw addr p s = Some (phy t (ucast addr), s\<lparr>bus := Rd MDIO_rdr x # t\<rparr>)
    \<and> mdio_ops t = MdioRead 1 (ucast addr) # mdio_ops (bus s) \<and> ier_of t = ier_of (bus s)"
proof -
  obtain t x where "read_phyReg hw addr s = Some (Some (phy t (ucast addr)), s\<lparr>bus := Rd MDIO_rdr x # t\<rparr>)"
    and "mdio_ops t = MdioRead 1 (ucast addr) # mdio_ops (bus s)" "ier_of t = ier_of (bus s)"
    using read_phyReg_ok [OF assms, of s] by blast
  then show ?thesis by (intro exI [of _ t] exI [of _ x]) (simp add: read_phyInto_def)
qed

text \<open>The reset loop ends.\<close>

lemma phyReset_loop_ends:
  assumes "mdio_hw hw phy" and "phy_resets N phy"
  shows "\<exists>t k. phyReset_loop hw p s = Some (s\<lparr>bus := t\<rparr>) \<and> 0 < k
    \<and> mdio_ops t = replicate k (MdioRead 1 0) @ mdio_ops (bus s) \<and> ier_of t = ier_of (bus s)"
proof (induction "N - bmcr_polls (bus s)" arbitrary: p s rule: less_induct)
  case less
  obtain t x where rd: "read_phyInto hw XTEMAC_MDIO_PHY_BMCR p s = Some (phy t 0, s\<lparr>bus := Rd MDIO_rdr x # t\<rparr>)"
    and ops: "mdio_ops t = MdioRead 1 0 # mdio_ops (bus s)" and ier: "ier_of t = ier_of (bus s)"
    using read_phyInto_ok [OF assms(1), of XTEMAC_MDIO_PHY_BMCR p s] by auto
  let ?s = "s\<lparr>bus := Rd MDIO_rdr x # t\<rparr>"
  have polls: "bmcr_polls t = Suc (bmcr_polls (bus s))" "bmcr_polls (bus ?s) = Suc (bmcr_polls (bus s))"
    by (simp_all add: bmcr_polls_def ops)
  show ?case
  proof (cases "fld_on phy_bmcr ''reset'' (phy t 0)")
    case True
    then have "bmcr_polls t < N" using assms(2) by (auto simp: phy_resets_def not_le [symmetric])
    then have "N - bmcr_polls (bus ?s) < N - bmcr_polls (bus s)" using polls by simp
    from less [OF this, of "phy t 0"] obtain t' k where "phyReset_loop hw (phy t 0) ?s = Some (s\<lparr>bus := t'\<rparr>)"
      and k: "0 < k" "mdio_ops t' = replicate k (MdioRead 1 0) @ mdio_ops (bus ?s)" "ier_of t' = ier_of (bus ?s)"
      by auto
    with rd True have "phyReset_loop hw p s = Some (s\<lparr>bus := t'\<rparr>)" by (subst phyReset_loop.simps) simp
    moreover have "mdio_ops t' = replicate (Suc k) (MdioRead 1 0) @ mdio_ops (bus s)"
      using k(2) ops by (simp add: replicate_app_Cons_same)
    ultimately show ?thesis using k ier by (intro exI [of _ t'] exI [of _ "Suc k"]) simp
  next
    case False
    with rd have "phyReset_loop hw p s = Some ?s" by (subst phyReset_loop.simps) simp
    with ops ier show ?thesis by (intro exI [of _ "Rd MDIO_rdr x # t"] exI [of _ 1]) simp
  qed
qed

lemma phyReset_ok:
  assumes "mdio_hw hw phy" and "phy_resets N phy"
  shows "\<exists>t k. xtemac_phyReset hw s = Some (s\<lparr>bus := t\<rparr>) \<and> 0 < k
    \<and> mdio_ops t = replicate k (MdioRead 1 0) @ MdioWrite 1 0 0x8000 # mdio_ops (bus s) \<and> ier_of t = ier_of (bus s)"
proof -
  have reset: "fld_set phy_bmcr ''reset'' 1 0 = (0x8000 :: u16)"
    by (simp add: fld_set_def phy_bmcr_def mask_numeral)
  obtain t where w: "write_phyReg hw XTEMAC_MDIO_PHY_BMCR 0x8000 s = Some (True, s\<lparr>bus := t\<rparr>)"
    and t: "mdio_ops t = MdioWrite 1 0 0x8000 # mdio_ops (bus s)" "ier_of t = ier_of (bus s)"
    using write_phyReg_ok [OF assms(1), of XTEMAC_MDIO_PHY_BMCR "0x8000" s] by auto
  from phyReset_loop_ends [OF assms, of "0x8000" "s\<lparr>bus := t\<rparr>"] w t show ?thesis
    by (auto simp: xtemac_phyReset_def reset Let_def)
qed

lemma ivar_mdio [simp]: "XINTC_ivar XTEMAC_PHY_IRQ \<noteq> MDIO_cr" "XINTC_ivar XTEMAC_PHY_IRQ \<noteq> MDIO_wdr"
  by (simp_all add: XINTC_ivar_def mdio_addr_defs)

lemma phy_irq_enabled:
  assumes "intc_hw hw" and "isr \<noteq> 0"
  shows "\<exists>t. (xintc_disableIRQ hw XTEMAC_PHY_IRQ s \<bind> xintc_enableIRQ hw XTEMAC_PHY_IRQ isr) = Some (s\<lparr>bus := t\<rparr>)
    \<and> mdio_ops t = mdio_ops (bus s) \<and> bit (ier_of t) 11"
proof -
  let ?d = "s\<lparr>bus := Rd XINTC_ier (ier_of (bus s) AND NOT (XINTC_INT XTEMAC_PHY_IRQ))
      # Wr XINTC_cie (XINTC_INT XTEMAC_PHY_IRQ) # bus s\<rparr>"
  have "xintc_disableIRQ hw XTEMAC_PHY_IRQ s = Some ?d" by (rule xintc_disableIRQ_eq [OF assms(1)])
  with xintc_enableIRQ_eq [OF assms(1) _ assms(2), of XTEMAC_PHY_IRQ ?d] show ?thesis
    by (simp add: bit_or_iff bit_XINTC_INT)
      (intro exI conjI, rule refl, simp_all add: bit_or_iff bit_XINTC_INT)
qed

lemma link_sig_off: "\<not> link_sig s \<Longrightarrow> s\<lparr>link_sig := False\<rparr> = s"
  by (rule temac.equality) simp_all

text \<open>What the speed indication means, as the data sheet has it.\<close>

definition lan8720_link :: "u16 \<Rightarrow> phylink option" where
  "lan8720_link code = map_of
     [(1, \<lparr>speed = SPEED_10MBPS, link = LINK_HALF_DUPLEX\<rparr>),
      (5, \<lparr>speed = SPEED_10MBPS, link = LINK_FULL_DUPLEX\<rparr>),
      (2, \<lparr>speed = SPEED_100MBPS, link = LINK_HALF_DUPLEX\<rparr>),
      (6, \<lparr>speed = SPEED_100MBPS, link = LINK_FULL_DUPLEX\<rparr>)] code"

lemma phylink_ok:
  assumes "mdio_hw hw phy"
  shows "\<exists>t1 t2 t. let up = (fld_on phy_bmsr ''link_satus'' (phy t1 1) \<and> fld_on phy_bmsr ''autoneg_cmplt'' (phy t1 1));
                 code = fld_get lan8720a_scsr ''hcd_speed'' (phy t2 31)
        in xtemac_phylink hw (Some lk) s =
             Some (up, Some (if up then (case lan8720_link code of Some l \<Rightarrow> l | None \<Rightarrow> lk) else lk),
                   s\<lparr>link_sig := False, bus := t\<rparr>)"
proof -
  let ?s = "s\<lparr>link_sig := False\<rparr>"
  have sig: "(if link_sig s then ?s else s) = ?s" using link_sig_off [of s] by simp
  obtain t1 x1 where 1: "read_phyInto hw XTEMAC_MDIO_PHY_BMSR 0 ?s = Some (phy t1 1, ?s\<lparr>bus := Rd MDIO_rdr x1 # t1\<rparr>)"
    using read_phyInto_ok [OF assms, of XTEMAC_MDIO_PHY_BMSR 0 ?s] by auto
  obtain t2 x2 where 2: "read_phyInto hw XTEMAC_MDIO_LAN8720A_SCSR (phy t1 1) (?s\<lparr>bus := Rd MDIO_rdr x1 # t1\<rparr>)
      = Some (phy t2 31, ?s\<lparr>bus := Rd MDIO_rdr x2 # t2\<rparr>)"
    using read_phyInto_ok [OF assms, of XTEMAC_MDIO_LAN8720A_SCSR "phy t1 1" "?s\<lparr>bus := Rd MDIO_rdr x1 # t1\<rparr>"] by auto
  let ?up = "fld_on phy_bmsr ''link_satus'' (phy t1 1) \<and> fld_on phy_bmsr ''autoneg_cmplt'' (phy t1 1)"
  show ?thesis
  proof (cases ?up)
    case True
    then show ?thesis using 1 2
      by (intro exI [of _ t1] exI [of _ t2] exI [of _ "Rd MDIO_rdr x2 # t2"])
        (simp_all add: xtemac_phylink_def sig Let_def lan8720_link_def)
  next
    case False
    then show ?thesis using 1
      by (intro exI [of _ t1] exI [of _ t2] exI [of _ "Rd MDIO_rdr x1 # t1"])
        (auto simp: xtemac_phylink_def sig Let_def)
  qed
qed

section \<open>Properties\<close>

lemma phy_start_ok:
  assumes "intc_hw hw" and "mdio_hw hw phy" and "phy_resets N phy" and "isr \<noteq> 0"
  shows "\<exists>t k. xtemac_phy hw isr s = Some (s\<lparr>link_sig := False, bus := t\<rparr>) \<and> 0 < k
    \<and> mdio_ops t = MdioWrite 1 30 0x50 # MdioWrite 1 0 0x1000 # replicate k (MdioRead 1 0)
        @ MdioWrite 1 0 0x8000 # mdio_ops (bus s)
    \<and> bit (ier_of t) 11"
proof -
  have vals: "fld_set phy_bmcr ''autoneg_enable'' 1 0 = (0x1000 :: u16)"
    "fld_set lan8720a_imr ''linkdown_irq_en'' 1 (fld_set lan8720a_imr ''autoneg_irq_en'' 1 0) = (0x50 :: u16)"
    by (simp_all add: fld_set_def phy_bmcr_def lan8720a_imr_def mask_numeral)
  let ?m = "fld_set xtemac_mdio_setup ''clock_divide'' XTEMAC_MDIO_CLOCK_DIV (fld_set xtemac_mdio_setup ''mdio_enable'' 1 0)"
  let ?s1 = "st32 MDIO_stp ?m (s\<lparr>link_sig := False\<rparr>)"
  have s1: "mdio_ops (bus ?s1) = mdio_ops (bus s)" "?s1\<lparr>bus := T\<rparr> = s\<lparr>link_sig := False, bus := T\<rparr>" for T
    by (simp_all add: st32_def emit_def)
  obtain t2 k where r: "xtemac_phyReset hw ?s1 = Some (s\<lparr>link_sig := False, bus := t2\<rparr>)" "0 < k"
    and o2: "mdio_ops t2 = replicate k (MdioRead 1 0) @ MdioWrite 1 0 0x8000 # mdio_ops (bus s)"
    using phyReset_ok [OF assms(2,3), of ?s1] s1 by auto
  let ?s2 = "s\<lparr>link_sig := False, bus := t2\<rparr>"
  obtain t3 where w3: "write_phyReg hw XTEMAC_MDIO_PHY_BMCR 0x1000 ?s2 = Some (True, s\<lparr>link_sig := False, bus := t3\<rparr>)"
    and o3: "mdio_ops t3 = MdioWrite 1 0 0x1000 # mdio_ops t2"
    using write_phyReg_ok [OF assms(2), of XTEMAC_MDIO_PHY_BMCR "0x1000" ?s2] by auto
  obtain t5 where i5: "(xintc_disableIRQ hw XTEMAC_PHY_IRQ (s\<lparr>link_sig := False, bus := t3\<rparr>)
        \<bind> xintc_enableIRQ hw XTEMAC_PHY_IRQ isr) = Some (s\<lparr>link_sig := False, bus := t5\<rparr>)"
    and o5: "mdio_ops t5 = mdio_ops t3" and e5: "bit (ier_of t5) 11"
    using phy_irq_enabled [OF assms(1,4), of "s\<lparr>link_sig := False, bus := t3\<rparr>"] by auto
  obtain t6 where w6: "write_phyReg hw XTEMAC_MDIO_LAN8720A_IMR 0x50 (s\<lparr>link_sig := False, bus := t5\<rparr>)
        = Some (True, s\<lparr>link_sig := False, bus := t6\<rparr>)"
    and o6: "mdio_ops t6 = MdioWrite 1 30 0x50 # mdio_ops t5" "ier_of t6 = ier_of t5"
    using write_phyReg_ok [OF assms(2), of XTEMAC_MDIO_LAN8720A_IMR "0x50" "s\<lparr>link_sig := False, bus := t5\<rparr>"] by auto
  have "xtemac_phy hw isr s = Some (s\<lparr>link_sig := False, bus := t6\<rparr>)"
    using r(1) w3 i5 w6 by (auto simp: xtemac_phy_def vals Let_def bind_eq_Some_conv)
  with r(2) o2 o3 o5 o6 e5 show ?thesis by auto
qed

text \<open>
  Bringing the PHY up returns, and the PHY sees exactly this: a software reset, reads of the
  control register until the reset is over, auto-negotiation enabled, and, only after the
  interrupt line of the PHY is enabled, its link-down and auto-negotiation interrupts
  unmasked.
\<close>

theorem phy_start_sequence:
  assumes "intc_hw hw" and "mdio_hw hw phy" and "phy_resets N phy" and "isr \<noteq> 0"
  shows "\<exists>t k. xtemac_phy hw isr s = Some (s\<lparr>link_sig := False, bus := t\<rparr>) \<and> 0 < k
    \<and> mdio_ops t = MdioWrite 1 30 0x50 # MdioWrite 1 0 0x1000 # replicate k (MdioRead 1 0)
        @ MdioWrite 1 0 0x8000 # mdio_ops (bus s)
    \<and> bit (ier_of t) 11"
  using assms by (rule phy_start_ok)

text \<open>
  Asking for the link returns and acknowledges the link signal. The link is up exactly when the
  status register reads link and completed auto-negotiation; then speed and duplex mode are
  those of the speed indication the PHY reports, and the caller's values stay when it
  reports a code that is not in the data sheet. A NULL pointer is answered with false.
\<close>

theorem phylink_decodes:
  assumes "mdio_hw hw phy"
  shows "xtemac_phylink hw None s = Some (False, None, s)
    \<and> (\<exists>t1 t2 t. let up = (fld_on phy_bmsr ''link_satus'' (phy t1 1) \<and> fld_on phy_bmsr ''autoneg_cmplt'' (phy t1 1));
                 code = fld_get lan8720a_scsr ''hcd_speed'' (phy t2 31)
        in xtemac_phylink hw (Some lk) s =
             Some (up, Some (if up then (case lan8720_link code of Some l \<Rightarrow> l | None \<Rightarrow> lk) else lk),
                   s\<lparr>link_sig := False, bus := t\<rparr>))"
  using phylink_ok [OF assms, of lk s] by (simp add: xtemac_phylink_def)

text \<open>A board with a LAN8720A that reports a 100 Mbit full-duplex link, and halted ethernet DMA channels.\<close>

definition lan_regs :: "u32 \<Rightarrow> u16" where
  "lan_regs r = (if r = 1 then 0x24 else if r = 31 then 0x18 else if r = 29 then 0x40 else 0)"

definition lan_hw :: hw where
  "lan_hw t a =
     (if a = XINTC_ier then ier_of t
      else if a = MDIO_cr then 0x80
      else if a = MDIO_rdr
      then 0x10000 OR (case mdio_ops t of MdioRead p r # _ \<Rightarrow> ucast (lan_regs r) | _ \<Rightarrow> 0)
      else if a = MDIO_IC_isr then (if mdio_ioc t then 1 else 0)
      else if a = ch_sr XDMA2_MM2S \<or> a = ch_sr XDMA2_S2MM then 0x1009
      else 0)"

lemma lan_hw_ok: "intc_hw lan_hw" "mdio_hw lan_hw (\<lambda>t. lan_regs)" "phy_resets 0 (\<lambda>t. lan_regs)"
proof -
  show "intc_hw lan_hw" by (simp add: intc_hw_def lan_hw_def)
  show "phy_resets 0 (\<lambda>t. lan_regs)" by (simp add: phy_resets_def lan_regs_def fld_on_def fld_get_def)
  have rdr: "lan_hw t MDIO_rdr = 0x10000 OR (case mdio_ops t of MdioRead p r # _ \<Rightarrow> ucast (lan_regs r) | _ \<Rightarrow> 0)" for t
    by (simp add: lan_hw_def mdio_addr_defs xintc_addr_defs)
  have "bit (lan_hw t MDIO_rdr) 16" for t
    by (simp add: rdr bit_or_iff)
  then have "fld_on xtemac_mdio_rdata ''mdio_ready'' (lan_hw t MDIO_rdr)" for t
    by (subst fld_on_bit) (simp_all add: xtemac_mdio_rdata_def)
  moreover have "fld_on xtemac_mdio_control ''mdio_ready'' (lan_hw t MDIO_cr)" for t
    by (simp add: lan_hw_def mdio_addr_defs xintc_addr_defs fld_on_def fld_get_def xtemac_mdio_control_def)
  moreover have "fld_on xtemac_mdio_irq ''mdioc_irq'' (lan_hw (spun lan_hw MDIO_IC_isr 0 t) MDIO_IC_isr) = mdio_ioc t" for t
    by (simp add: lan_hw_def mdio_addr_defs xintc_addr_defs fld_on_def fld_get_def xtemac_mdio_irq_def)
  moreover have "fld_get xtemac_mdio_rdata ''rdata'' (lan_hw (Rd MDIO_IC_isr v # t) MDIO_rdr) = ucast (lan_regs r)"
    if "mdio_ops t = MdioRead 1 r # ops" for v t r ops
    using that by (simp add: rdr fld_get_def xtemac_mdio_rdata_def take_bit_u16)
  ultimately show "mdio_hw lan_hw (\<lambda>t. lan_regs)" unfolding mdio_hw_def by blast
qed

definition temac_boot :: temac where
  "temac_boot = xdma.extend xdma_boot \<lparr>link_sig = True\<rparr>"

theorem phy_start_sequence_witness:
  "\<exists>t k. xtemac_phy lan_hw 0x500 temac_boot = Some (temac_boot\<lparr>link_sig := False, bus := t\<rparr>)
     \<and> hd (mdio_ops t) = MdioWrite 1 30 0x50"
  using phy_start_sequence [OF lan_hw_ok, of "0x500" temac_boot] by force

theorem phylink_decodes_witness:
  "\<exists>t. xtemac_phylink lan_hw (Some \<lparr>speed = SPEED_10MBPS, link = LINK_HALF_DUPLEX\<rparr>) temac_boot =
     Some (True, Some \<lparr>speed = SPEED_100MBPS, link = LINK_FULL_DUPLEX\<rparr>, temac_boot\<lparr>link_sig := False, bus := t\<rparr>)"
  using phylink_decodes [OF lan_hw_ok(2), of temac_boot "\<lparr>speed = SPEED_10MBPS, link = LINK_HALF_DUPLEX\<rparr>"]
  by (simp add: Let_def lan_regs_def fld_on_def fld_get_def phy_bmsr_def lan8720a_scsr_def lan8720_link_def)

end
