(* ===== verification/Xtemac.thy ===== *)
theory Xtemac
  imports Xtemac_Phy
begin

text \<open>
  The ethernet MAC driver, \<open>src/arch/mb_le/sys/xtemac.c\<close>: MAC address, transceiver configuration,
  start and recovery, on top of the PHY driver and the ethernet DMA channels.
\<close>

section \<open>Registers\<close>

definition xtemac_rx_cfg_w1 :: layout where
  "xtemac_rx_cfg_w1 = [(''pause_mac_addr_high'', 16), (''reserved16_23'', 8), (''ctrl_len_chk_dis'', 1),
     (''len_type_chk_dis'', 1), (''half_duplex'', 1), (''vlan_enable'', 1), (''receiver_enable'', 1),
     (''inband_fcs_enable'', 1), (''jumbo_frame_enable'', 1), (''reset'', 1)]"

definition xtemac_tx_cfg :: layout where
  "xtemac_tx_cfg = [(''reserved0_24'', 25), (''ifg_adjust_enable'', 1), (''half_duplex'', 1),
     (''vlan_enable'', 1), (''transmit_enable'', 1), (''inband_fcs_enable'', 1),
     (''jumbo_frame_enable'', 1), (''reset'', 1)]"

definition xtemac_flow_ctl_cfg :: layout where
  "xtemac_flow_ctl_cfg = [(''rx_pfc_p0_en'', 1), (''rx_pfc_p1_en'', 1), (''rx_pfc_p2_en'', 1),
     (''rx_pfc_p3_en'', 1), (''rx_pfc_p4_en'', 1), (''rx_pfc_p5_en'', 1), (''rx_pfc_p6_en'', 1),
     (''rx_pfc_p7_en'', 1), (''tx_pfc_p0_en'', 1), (''tx_pfc_p1_en'', 1), (''tx_pfc_p2_en'', 1),
     (''tx_pfc_p3_en'', 1), (''tx_pfc_p4_en'', 1), (''tx_pfc_p5_en'', 1), (''tx_pfc_p6_en'', 1),
     (''tx_pfc_p7_en'', 1), (''reserved16_19'', 4), (''tx_auto_xon'', 1), (''reserved21_24'', 4),
     (''rx_pfc_enable'', 1), (''tx_pfc_enable'', 1), (''reserved27_28'', 2),
     (''flow_ctrl_rx_enable'', 1), (''flow_ctrl_tx_enable'', 1), (''reserved31'', 1)]"

definition xtemac_speed_cfg :: layout where
  "xtemac_speed_cfg = [(''reserved0_29'', 30), (''mac_speed'', 2)]"

definition xtemac_rx_max_frame_cfg :: layout where
  "xtemac_rx_max_frame_cfg = [(''rx_max_frame_len'', 15), (''reserved15'', 1), (''rx_max_frame_en'', 1),
     (''reserved17_31'', 15)]"

definition xtemac_tx_max_frame_cfg :: layout where
  "xtemac_tx_max_frame_cfg = [(''tx_max_frame_len'', 15), (''reserved15'', 1), (''tx_max_frame_en'', 1),
     (''reserved17_31'', 15)]"

definition xtemac_per_priority_quanta_refresh :: layout where
  "xtemac_per_priority_quanta_refresh = [(''pause_quanta'', 16), (''pause_refresh'', 16)]"

definition xtemac_legacy_pause_refresh :: layout where
  "xtemac_legacy_pause_refresh = [(''reserved0_15'', 16), (''pause_refresh'', 16)]"

definition xtemac_id :: layout where
  "xtemac_id = [(''patch_level'', 8), (''reserved8_15'', 8), (''minor_rev'', 8), (''major_rev'', 8)]"

definition xtemac_ability :: layout where
  "xtemac_ability = [(''speed_10m_capable'', 1), (''speed_100m_capable'', 1), (''speed_1g_capable'', 1),
     (''speed_2_5g_capable'', 1), (''reserved4_7'', 4), (''stats_counters_avail'', 1),
     (''half_duplex_capable'', 1), (''frame_filter_avail'', 1), (''reserved11_15'', 5),
     (''pfc_support'', 1), (''reserved17_31'', 15)]"

definition xtemac_uaw0 :: layout where
  "xtemac_uaw0 = [(''byte0'', 8), (''byte1'', 8), (''byte2'', 8), (''byte3'', 8)]"

definition xtemac_uaw1 :: layout where
  "xtemac_uaw1 = [(''byte4'', 8), (''byte5'', 8), (''reserved0'', 8), (''reserved1'', 8)]"

definition TEMAC_rx_cfg_w1 :: u32 where "TEMAC_rx_cfg_w1 = XTEMAC_BASE + 0x404"
definition TEMAC_tx_cfg :: u32 where "TEMAC_tx_cfg = XTEMAC_BASE + 0x408"
definition TEMAC_speed_cfg :: u32 where "TEMAC_speed_cfg = XTEMAC_BASE + 0x410"
definition TEMAC_rx_maxFrame_cfg :: u32 where "TEMAC_rx_maxFrame_cfg = XTEMAC_BASE + 0x414"
definition TEMAC_tx_maxFrame_cfg :: u32 where "TEMAC_tx_maxFrame_cfg = XTEMAC_BASE + 0x418"
definition TEMAC_uaw0 :: u32 where "TEMAC_uaw0 = XTEMAC_BASE + 0x700"
definition TEMAC_uaw1 :: u32 where "TEMAC_uaw1 = XTEMAC_BASE + 0x704"

abbreviation XTEMAC_MTU :: u32 where "XTEMAC_MTU \<equiv> 1536"
abbreviation XTEMAC_MTUS_BUFFER :: u32 where "XTEMAC_MTUS_BUFFER \<equiv> XTEMAC_MTU * 10"
abbreviation XTEMAC_MAC_ADDRLEN :: u32 where "XTEMAC_MAC_ADDRLEN \<equiv> 6"

definition XTEMAC_DEF_MACADDR :: "u8 list" where
  "XTEMAC_DEF_MACADDR = [0x02, 0x1A, 0x11, 0x00, 0x7C, 0x55]"

datatype xtemac_speed = XTEMAC_10MBPS_SPEED | XTEMAC_100MPBS_SPEED | XTEMAC_1GBPS_SPEED

primrec xtemac_speed_code :: "xtemac_speed \<Rightarrow> u32" where
  "xtemac_speed_code XTEMAC_10MBPS_SPEED = 0"
| "xtemac_speed_code XTEMAC_100MPBS_SPEED = 1"
| "xtemac_speed_code XTEMAC_1GBPS_SPEED = 2"

section \<open>Operations\<close>

definition xtemac_trxreset :: "hw \<Rightarrow> 'a machine_scheme \<Rightarrow> 'a machine_scheme option" where
  "xtemac_trxreset hw s = do {
     let s = st_fld hw xtemac_rx_cfg_w1 ''reset'' 1 TEMAC_rx_cfg_w1 s;
     s \<leftarrow> await hw TEMAC_rx_cfg_w1 (\<lambda>v. \<not> fld_on xtemac_rx_cfg_w1 ''reset'' v) s;
     let s = st_fld hw xtemac_tx_cfg ''reset'' 1 TEMAC_tx_cfg s;
     await hw TEMAC_tx_cfg (\<lambda>v. \<not> fld_on xtemac_tx_cfg ''reset'' v) s
   }"

text \<open>The 64-bit MAC register is stored and loaded as two words, low word first.\<close>

definition xtemac_setmac :: "u8 list \<Rightarrow> 'a machine_scheme \<Rightarrow> 'a machine_scheme" where
  "xtemac_setmac setmac s =
     (let uaw0 = fld_set xtemac_uaw0 ''byte0'' (ucast (setmac ! 5)) 0;
          uaw0 = fld_set xtemac_uaw0 ''byte1'' (ucast (setmac ! 4)) uaw0;
          uaw0 = fld_set xtemac_uaw0 ''byte2'' (ucast (setmac ! 3)) uaw0;
          uaw0 = fld_set xtemac_uaw0 ''byte3'' (ucast (setmac ! 2)) uaw0;
          uaw1 = fld_set xtemac_uaw1 ''byte4'' (ucast (setmac ! 1)) 0;
          uaw1 = fld_set xtemac_uaw1 ''byte5'' (ucast (setmac ! 0)) uaw1;
          s = st32 TEMAC_uaw0 uaw0 s
      in st32 TEMAC_uaw1 uaw1 s)"

text \<open>The bytes stored through the pointer \<open>dst_mac\<close>.\<close>

definition xtemac_mac :: "hw \<Rightarrow> u32 \<Rightarrow> u32 \<Rightarrow> 'a machine_scheme \<Rightarrow> 'a machine_scheme" where
  "xtemac_mac hw dst_mac len s =
     (if len > XTEMAC_MAC_ADDRLEN then s
      else
        let (uaw0, s) = ld32 hw TEMAC_uaw0 s;
            (uaw1, s) = ld32 hw TEMAC_uaw1 s;
            M = mem s;
            M = M(dst_mac := ucast (fld_get xtemac_uaw1 ''byte5'' uaw1));
            M = M(dst_mac + 1 := ucast (fld_get xtemac_uaw1 ''byte4'' uaw1));
            M = M(dst_mac + 2 := ucast (fld_get xtemac_uaw0 ''byte3'' uaw0));
            M = M(dst_mac + 3 := ucast (fld_get xtemac_uaw0 ''byte2'' uaw0));
            M = M(dst_mac + 4 := ucast (fld_get xtemac_uaw0 ''byte1'' uaw0));
            M = M(dst_mac + 5 := ucast (fld_get xtemac_uaw0 ''byte0'' uaw0))
        in s\<lparr>mem := M\<rparr>)"

definition xtemac_trxdisable :: "hw \<Rightarrow> 'a machine_scheme \<Rightarrow> 'a machine_scheme" where
  "xtemac_trxdisable hw s =
     (let s = st_fld hw xtemac_tx_cfg ''transmit_enable'' 0 TEMAC_tx_cfg s
      in st_fld hw xtemac_rx_cfg_w1 ''receiver_enable'' 0 TEMAC_rx_cfg_w1 s)"

text \<open>The variable \<open>phy\<close> is not initialised before the link is read: \<open>junk\<close> is what it holds.\<close>

definition xtemac_trxenable ::
    "hw \<Rightarrow> phylink \<Rightarrow> 'a temac_scheme \<Rightarrow> 'a temac_scheme option" where
  "xtemac_trxenable hw junk s = do {
     (up, phy_p, s) \<leftarrow> xtemac_phylink hw (Some junk) s;
     let phy = the phy_p;
     if \<not> up then Some s
     else
       let rx = fld_set xtemac_rx_cfg_w1 ''vlan_enable'' 1 0;
           rx = fld_set xtemac_rx_cfg_w1 ''receiver_enable'' 1 rx;
           rx = fld_set xtemac_rx_cfg_w1 ''ctrl_len_chk_dis'' 1 rx;
           rx = fld_set xtemac_rx_cfg_w1 ''len_type_chk_dis'' 1 rx;
           rx = fld_set xtemac_rx_cfg_w1 ''inband_fcs_enable'' 0 rx;
           rx = fld_set xtemac_rx_cfg_w1 ''jumbo_frame_enable'' 0 rx;
           tx = fld_set xtemac_tx_cfg ''vlan_enable'' 1 0;
           tx = fld_set xtemac_tx_cfg ''transmit_enable'' 1 tx;
           tx = fld_set xtemac_tx_cfg ''inband_fcs_enable'' 0 tx;
           tx = fld_set xtemac_tx_cfg ''jumbo_frame_enable'' 0 tx;
           phy_halfdup = (if link phy = LINK_HALF_DUPLEX then 1 else 0);
           rx = fld_set xtemac_rx_cfg_w1 ''half_duplex'' phy_halfdup rx;
           tx = fld_set xtemac_tx_cfg ''half_duplex'' phy_halfdup tx;
           rx_frameCfg = fld_set xtemac_rx_max_frame_cfg ''rx_max_frame_en'' 1 0;
           rx_frameCfg = fld_set xtemac_rx_max_frame_cfg ''rx_max_frame_len'' XTEMAC_MTU rx_frameCfg;
           tx_frameCfg = fld_set xtemac_tx_max_frame_cfg ''tx_max_frame_en'' 1 0;
           tx_frameCfg = fld_set xtemac_tx_max_frame_cfg ''tx_max_frame_len'' XTEMAC_MTU tx_frameCfg;
           mac_cfg = fld_set xtemac_speed_cfg ''mac_speed''
             (xtemac_speed_code (if speed phy = SPEED_10MBPS then XTEMAC_10MBPS_SPEED else XTEMAC_100MPBS_SPEED)) 0;
           s = st32 TEMAC_speed_cfg mac_cfg s;
           s = st32 TEMAC_tx_maxFrame_cfg tx_frameCfg s;
           s = st32 TEMAC_rx_maxFrame_cfg rx_frameCfg s;
           s = st32 TEMAC_tx_cfg tx s;
           s = st32 TEMAC_rx_cfg_w1 rx s
       in Some s
   }"

definition xtemac_start :: "hw \<Rightarrow> u32 \<Rightarrow> 'a temac_scheme \<Rightarrow> 'a temac_scheme option" where
  "xtemac_start hw isr_addr s = do {
     s \<leftarrow> xtemac_phy hw isr_addr s;
     s \<leftarrow> xtemac_trxreset hw s;
     let s = xtemac_setmac XTEMAC_DEF_MACADDR s;
     (_, s) \<leftarrow> ethdma_txsgnormal hw XTEMAC_MTUS_BUFFER XTEMAC_MTU s;
     (_, s) \<leftarrow> ethdma_rxsgcyclic hw XTEMAC_MTUS_BUFFER XTEMAC_MTU s;
     Some s
   }"

definition xtemac_recover :: "hw \<Rightarrow> phylink \<Rightarrow> 'a temac_scheme \<Rightarrow> 'a temac_scheme option" where
  "xtemac_recover hw junk s = do {
     let s = xtemac_trxdisable hw s;
     s \<leftarrow> ethdma_trxstop hw s;
     s \<leftarrow> ethdma_trxreset hw s;
     s \<leftarrow> xtemac_trxreset hw s;
     (_, s) \<leftarrow> ethdma_txsgnormal hw XTEMAC_MTUS_BUFFER XTEMAC_MTU s;
     (_, s) \<leftarrow> ethdma_rxsgcyclic hw XTEMAC_MTUS_BUFFER XTEMAC_MTU s;
     xtemac_trxenable hw junk s
   }"

section \<open>The device\<close>

text \<open>A load of a MAC address register returns what was last stored there.\<close>

fun last_wr :: "u32 \<Rightarrow> history \<Rightarrow> u32" where
  "last_wr a [] = 0"
| "last_wr a (Wr b v # t) = (if b = a then v else last_wr a t)"
| "last_wr a (_ # t) = last_wr a t"

definition mac_hw :: "hw \<Rightarrow> bool" where
  "mac_hw hw \<longleftrightarrow> (\<forall>t. hw t TEMAC_uaw0 = last_wr TEMAC_uaw0 t \<and> hw t TEMAC_uaw1 = last_wr TEMAC_uaw1 t)"

text \<open>
  Documented behaviour of the ethernet DMA engine: a channel runs from a store of its run bit on
  until the bit is cleared; a reset through either channel stops both; a channel that
  does not run is halted; the engine includes scatter gather, and a reset bit is
  eventually cleared.
\<close>

fun ch_runs :: "u32 \<Rightarrow> history \<Rightarrow> bool" where
  "ch_runs ch [] = False"
| "ch_runs ch (Wr a v # t) =
     (if a = ch_cr XDMA2_MM2S \<or> a = ch_cr XDMA2_S2MM
      then if fld_on xdmacr ''reset'' v then False
           else if a = ch_cr ch then fld_on xdmacr ''rs'' v else ch_runs ch t
      else ch_runs ch t)"
| "ch_runs ch (_ # t) = ch_runs ch t"

definition ethdma_hw :: "hw \<Rightarrow> bool" where
  "ethdma_hw hw \<longleftrightarrow> (\<forall>t. \<forall>ch \<in> {XDMA2_MM2S, XDMA2_S2MM}.
      \<not> ch_runs ch t \<longrightarrow> fld_on xdmasr ''sg_incld'' (hw t (ch_sr ch)) \<and> fld_on xdmasr ''halted'' (hw t (ch_sr ch)))
    \<and> responds hw (ch_cr XDMA2_MM2S) (\<lambda>v. \<not> fld_on xdmacr ''reset'' v)"

definition temac_hw :: "hw \<Rightarrow> bool" where
  "temac_hw hw \<longleftrightarrow> responds hw TEMAC_rx_cfg_w1 (\<lambda>v. \<not> fld_on xtemac_rx_cfg_w1 ''reset'' v)
     \<and> responds hw TEMAC_tx_cfg (\<lambda>v. \<not> fld_on xtemac_tx_cfg ''reset'' v)"

section \<open>Register structs are well formed\<close>

interpretation rx_cfg_w1: reg_layout 32 xtemac_rx_cfg_w1
  by unfold_locales (simp add: layout_wf_def xtemac_rx_cfg_w1_def)

interpretation tx_cfg: reg_layout 32 xtemac_tx_cfg
  by unfold_locales (simp add: layout_wf_def xtemac_tx_cfg_def)

interpretation flow_ctl: reg_layout 32 xtemac_flow_ctl_cfg
  by unfold_locales (simp add: layout_wf_def xtemac_flow_ctl_cfg_def)

interpretation speed_cfg: reg_layout 32 xtemac_speed_cfg
  by unfold_locales (simp add: layout_wf_def xtemac_speed_cfg_def)

interpretation rx_maxFrame: reg_layout 32 xtemac_rx_max_frame_cfg
  by unfold_locales (simp add: layout_wf_def xtemac_rx_max_frame_cfg_def)

interpretation tx_maxFrame: reg_layout 32 xtemac_tx_max_frame_cfg
  by unfold_locales (simp add: layout_wf_def xtemac_tx_max_frame_cfg_def)

interpretation pr_quanta: reg_layout 32 xtemac_per_priority_quanta_refresh
  by unfold_locales (simp add: layout_wf_def xtemac_per_priority_quanta_refresh_def)

interpretation legacy_prfsh: reg_layout 32 xtemac_legacy_pause_refresh
  by unfold_locales (simp add: layout_wf_def xtemac_legacy_pause_refresh_def)

interpretation temac_id: reg_layout 32 xtemac_id
  by unfold_locales (simp add: layout_wf_def xtemac_id_def)

interpretation ability: reg_layout 32 xtemac_ability
  by unfold_locales (simp add: layout_wf_def xtemac_ability_def)

interpretation uaw0: reg_layout 32 xtemac_uaw0
  by unfold_locales (simp add: layout_wf_def xtemac_uaw0_def)

interpretation uaw1: reg_layout 32 xtemac_uaw1
  by unfold_locales (simp add: layout_wf_def xtemac_uaw1_def)

section \<open>Lemmas\<close>

lemmas temac_addr_defs = TEMAC_rx_cfg_w1_def TEMAC_tx_cfg_def TEMAC_speed_cfg_def
  TEMAC_rx_maxFrame_cfg_def TEMAC_tx_maxFrame_cfg_def TEMAC_uaw0_def TEMAC_uaw1_def

lemma temac_addr_distinct [simp]:
  "TEMAC_uaw0 \<noteq> TEMAC_uaw1" "TEMAC_uaw1 \<noteq> TEMAC_uaw0"
  "TEMAC_rx_cfg_w1 \<noteq> ch_cr XDMA2_MM2S" "TEMAC_rx_cfg_w1 \<noteq> ch_cr XDMA2_S2MM"
  "TEMAC_tx_cfg \<noteq> ch_cr XDMA2_MM2S" "TEMAC_tx_cfg \<noteq> ch_cr XDMA2_S2MM"
  "TEMAC_uaw0 \<noteq> ch_cr XDMA2_MM2S" "TEMAC_uaw0 \<noteq> ch_cr XDMA2_S2MM"
  "TEMAC_uaw1 \<noteq> ch_cr XDMA2_MM2S" "TEMAC_uaw1 \<noteq> ch_cr XDMA2_S2MM"
  by (simp_all add: temac_addr_defs ch_cr_def)

lemma uaw_names [simp]:
  "fst ` set xtemac_uaw0 = {''byte0'', ''byte1'', ''byte2'', ''byte3''}"
  "fst ` set xtemac_uaw1 = {''byte4'', ''byte5'', ''reserved0'', ''reserved1''}"
  by (simp_all add: xtemac_uaw0_def xtemac_uaw1_def)

lemma uaw_widths [layout_simps]:
  "fld_width xtemac_uaw0 ''byte0'' = 8" "fld_width xtemac_uaw0 ''byte1'' = 8"
  "fld_width xtemac_uaw0 ''byte2'' = 8" "fld_width xtemac_uaw0 ''byte3'' = 8"
  "fld_width xtemac_uaw1 ''byte4'' = 8" "fld_width xtemac_uaw1 ''byte5'' = 8"
  by (simp_all add: xtemac_uaw0_def xtemac_uaw1_def)

lemma ucast_byte: "ucast (take_bit 8 (ucast (x :: u8) :: u32)) = x"
  by (rule bit_word_eqI) (simp add: bit_ucast_iff bit_take_bit_iff)

lemma length6: "length m = 6 \<Longrightarrow> m = [m ! 0, m ! 1, m ! 2, m ! 3, m ! 4, m ! 5]"
  by (intro nth_equalityI) (auto simp: less_Suc_eq numeral_eq_Suc nth_Cons')

lemma small_offsets_distinct [simp]:
  "(d :: u32) + 1 \<noteq> d" "d + 2 \<noteq> d" "d + 3 \<noteq> d" "d + 4 \<noteq> d" "d + 5 \<noteq> d"
  by simp_all

text \<open>The six bytes stored, whatever length was passed.\<close>

lemma xtemac_mac_bytes:
  assumes "len \<le> XTEMAC_MAC_ADDRLEN"
  shows "bytes_at (mem (xtemac_mac hw dst len s)) dst 6 =
    (let u0 = hw (bus s) TEMAC_uaw0; u1 = hw (Rd TEMAC_uaw0 u0 # bus s) TEMAC_uaw1
     in map ucast [fld_get xtemac_uaw1 ''byte5'' u1, fld_get xtemac_uaw1 ''byte4'' u1,
          fld_get xtemac_uaw0 ''byte3'' u0, fld_get xtemac_uaw0 ''byte2'' u0,
          fld_get xtemac_uaw0 ''byte1'' u0, fld_get xtemac_uaw0 ''byte0'' u0])"
  using leD [OF assms] by (simp add: xtemac_mac_def ld32_def emit_def bytes_at_def Let_def upt_rec)

lemma cfg_names [simp]:
  "fst ` set xtemac_rx_cfg_w1 = {''pause_mac_addr_high'', ''reserved16_23'', ''ctrl_len_chk_dis'',
     ''len_type_chk_dis'', ''half_duplex'', ''vlan_enable'', ''receiver_enable'', ''inband_fcs_enable'',
     ''jumbo_frame_enable'', ''reset''}"
  "fst ` set xtemac_tx_cfg = {''reserved0_24'', ''ifg_adjust_enable'', ''half_duplex'', ''vlan_enable'',
     ''transmit_enable'', ''inband_fcs_enable'', ''jumbo_frame_enable'', ''reset''}"
  by (simp_all add: xtemac_rx_cfg_w1_def xtemac_tx_cfg_def)

lemma cfg_widths [layout_simps]:
  "fld_width xtemac_rx_cfg_w1 ''half_duplex'' = 1" "fld_width xtemac_rx_cfg_w1 ''receiver_enable'' = 1"
  "fld_width xtemac_tx_cfg ''half_duplex'' = 1" "fld_width xtemac_tx_cfg ''transmit_enable'' = 1"
  by (simp_all add: xtemac_rx_cfg_w1_def xtemac_tx_cfg_def)

text \<open>The configuration \<open>_xtemac_trxenable\<close> stores for a link.\<close>

definition trx_words :: "phylink \<Rightarrow> bus_event list" where
  "trx_words phy =
     (let hd = (if link phy = LINK_HALF_DUPLEX then 1 else 0)
      in [Wr TEMAC_rx_cfg_w1 (fld_set xtemac_rx_cfg_w1 ''half_duplex'' hd 0x1B000000),
          Wr TEMAC_tx_cfg (fld_set xtemac_tx_cfg ''half_duplex'' hd 0x18000000),
          Wr TEMAC_rx_maxFrame_cfg 0x10600, Wr TEMAC_tx_maxFrame_cfg 0x10600,
          Wr TEMAC_speed_cfg (if speed phy = SPEED_10MBPS then 0 else 0x40000000)])"

lemma trx_constants:
  "fld_set xtemac_rx_cfg_w1 ''jumbo_frame_enable'' 0 (fld_set xtemac_rx_cfg_w1 ''inband_fcs_enable'' 0
     (fld_set xtemac_rx_cfg_w1 ''len_type_chk_dis'' 1 (fld_set xtemac_rx_cfg_w1 ''ctrl_len_chk_dis'' 1
       (fld_set xtemac_rx_cfg_w1 ''receiver_enable'' 1 (fld_set xtemac_rx_cfg_w1 ''vlan_enable'' 1 0)))))
     = (0x1B000000 :: u32)"
  "fld_set xtemac_tx_cfg ''jumbo_frame_enable'' 0 (fld_set xtemac_tx_cfg ''inband_fcs_enable'' 0
     (fld_set xtemac_tx_cfg ''transmit_enable'' 1 (fld_set xtemac_tx_cfg ''vlan_enable'' 1 0)))
     = (0x18000000 :: u32)"
  "fld_set xtemac_rx_max_frame_cfg ''rx_max_frame_len'' XTEMAC_MTU
     (fld_set xtemac_rx_max_frame_cfg ''rx_max_frame_en'' 1 0) = 0x10600"
  "fld_set xtemac_tx_max_frame_cfg ''tx_max_frame_len'' XTEMAC_MTU
     (fld_set xtemac_tx_max_frame_cfg ''tx_max_frame_en'' 1 0) = 0x10600"
  "fld_set xtemac_speed_cfg ''mac_speed'' 0 0 = (0 :: u32)"
  "fld_set xtemac_speed_cfg ''mac_speed'' 1 0 = (0x40000000 :: u32)"
  by (simp_all add: fld_set_def xtemac_rx_cfg_w1_def xtemac_tx_cfg_def xtemac_rx_max_frame_cfg_def
      xtemac_tx_max_frame_cfg_def xtemac_speed_cfg_def mask_numeral)

lemma trx_base_fields:
  "fld_get xtemac_rx_cfg_w1 ''receiver_enable'' (0x1B000000 :: u32) = 1"
  "fld_get xtemac_tx_cfg ''transmit_enable'' (0x18000000 :: u32) = 1"
  "fld_get xtemac_rx_cfg_w1 ''reset'' (0x1B000000 :: u32) = 0"
  "fld_get xtemac_tx_cfg ''reset'' (0x18000000 :: u32) = 0"
  by (simp_all add: fld_get_def xtemac_rx_cfg_w1_def xtemac_tx_cfg_def)

lemma trx_words_fields:
  "\<exists>rx tx. trx_words lk = [Wr TEMAC_rx_cfg_w1 rx, Wr TEMAC_tx_cfg tx, Wr TEMAC_rx_maxFrame_cfg 0x10600,
       Wr TEMAC_tx_maxFrame_cfg 0x10600, Wr TEMAC_speed_cfg (push_bit 30 (if speed lk = SPEED_10MBPS then 0 else 1))]
     \<and> fld_on xtemac_rx_cfg_w1 ''receiver_enable'' rx \<and> fld_on xtemac_tx_cfg ''transmit_enable'' tx
     \<and> \<not> fld_on xtemac_rx_cfg_w1 ''reset'' rx \<and> \<not> fld_on xtemac_tx_cfg ''reset'' tx
     \<and> fld_on xtemac_rx_cfg_w1 ''half_duplex'' rx = (link lk = LINK_HALF_DUPLEX)
     \<and> fld_on xtemac_tx_cfg ''half_duplex'' tx = (link lk = LINK_HALF_DUPLEX)"
  unfolding trx_words_def Let_def
  by (intro exI [of _ "fld_set xtemac_rx_cfg_w1 ''half_duplex'' (if link lk = LINK_HALF_DUPLEX then 1 else 0) 0x1B000000"]
        exI [of _ "fld_set xtemac_tx_cfg ''half_duplex'' (if link lk = LINK_HALF_DUPLEX then 1 else 0) 0x18000000"])
     (cases "speed lk"; cases "link lk"; simp add: fld_on_def rx_cfg_w1.get_set rx_cfg_w1.get_set_other
       tx_cfg.get_set tx_cfg.get_set_other layout_simps trx_base_fields)

lemma trxenable_ok:
  assumes "mdio_hw hw phy"
  shows "\<exists>t1 t2 t. let up = (fld_on phy_bmsr ''link_satus'' (phy t1 1) \<and> fld_on phy_bmsr ''autoneg_cmplt'' (phy t1 1));
      lk = (case lan8720_link (fld_get lan8720a_scsr ''hcd_speed'' (phy t2 31)) of Some l \<Rightarrow> l | None \<Rightarrow> junk)
    in xtemac_trxenable hw junk s =
         Some (s\<lparr>link_sig := False, bus := (if up then trx_words lk else []) @ t\<rparr>)"
proof -
  obtain t1 t2 t up lk where
    up: "up = (fld_on phy_bmsr ''link_satus'' (phy t1 1) \<and> fld_on phy_bmsr ''autoneg_cmplt'' (phy t1 1))"
    and lk: "lk = (case lan8720_link (fld_get lan8720a_scsr ''hcd_speed'' (phy t2 31)) of Some l \<Rightarrow> l | None \<Rightarrow> junk)"
    and pl: "xtemac_phylink hw (Some junk) s = Some (up, Some (if up then lk else junk), s\<lparr>link_sig := False, bus := t\<rparr>)"
    using phylink_ok [OF assms, of junk s] unfolding Let_def by blast
  have "xtemac_trxenable hw junk s = Some (s\<lparr>link_sig := False, bus := (if up then trx_words lk else []) @ t\<rparr>)"
    by (cases up; cases "speed lk = SPEED_10MBPS";
        simp add: xtemac_trxenable_def pl Let_def trx_constants trx_words_def st32_def emit_def)
  then show ?thesis unfolding Let_def up lk by blast
qed

lemma ch_runs_reads: "set l \<subseteq> range (Rd a) \<Longrightarrow> ch_runs ch (l @ t) = ch_runs ch t"
  by (induction l) auto

lemma await_keeps_runs:
  assumes "responds hw a stop"
  shows "\<exists>t. await hw a stop s = Some (s\<lparr>bus := t\<rparr>) \<and> ch_runs ch t = ch_runs ch (bus s)
    \<and> ch_runs ch' t = ch_runs ch' (bus s)"
proof -
  obtain s' where aw: "await hw a stop s = Some s'" using responds_await [OF assms] by blast
  from awaitD [OF aw] obtain l where "s' = s\<lparr>bus := l @ bus s\<rparr>" "set l \<subseteq> range (Rd a)" by blast
  with aw ch_runs_reads show ?thesis by blast
qed

abbreviation eth_idle :: "history \<Rightarrow> bool" where
  "eth_idle t \<equiv> \<not> ch_runs XDMA2_MM2S t \<and> \<not> ch_runs XDMA2_S2MM t"

lemma st_fld_runs:
  "a \<noteq> ch_cr XDMA2_MM2S \<Longrightarrow> a \<noteq> ch_cr XDMA2_S2MM \<Longrightarrow>
     ch_runs ch (bus (st_fld hw L f v a s)) = ch_runs ch (bus s)"
  by (simp add: st_fld_def ld32_def st32_def emit_def)

lemma trxreset_ok:
  assumes "temac_hw hw"
  shows "\<exists>t. xtemac_trxreset hw s = Some (s\<lparr>bus := t\<rparr>) \<and> (eth_idle (bus s) \<longrightarrow> eth_idle t)"
proof -
  let ?s1 = "st_fld hw xtemac_rx_cfg_w1 ''reset'' 1 TEMAC_rx_cfg_w1 s"
  obtain t1 where 1: "await hw TEMAC_rx_cfg_w1 (\<lambda>v. \<not> fld_on xtemac_rx_cfg_w1 ''reset'' v) ?s1 = Some (?s1\<lparr>bus := t1\<rparr>)"
    and r1: "ch_runs XDMA2_MM2S t1 = ch_runs XDMA2_MM2S (bus ?s1)" "ch_runs XDMA2_S2MM t1 = ch_runs XDMA2_S2MM (bus ?s1)"
    using await_keeps_runs assms unfolding temac_hw_def by blast
  let ?s2 = "st_fld hw xtemac_tx_cfg ''reset'' 1 TEMAC_tx_cfg (?s1\<lparr>bus := t1\<rparr>)"
  obtain t2 where 2: "await hw TEMAC_tx_cfg (\<lambda>v. \<not> fld_on xtemac_tx_cfg ''reset'' v) ?s2 = Some (?s2\<lparr>bus := t2\<rparr>)"
    and r2: "ch_runs XDMA2_MM2S t2 = ch_runs XDMA2_MM2S (bus ?s2)" "ch_runs XDMA2_S2MM t2 = ch_runs XDMA2_S2MM (bus ?s2)"
    using await_keeps_runs assms unfolding temac_hw_def by blast
  have "?s2\<lparr>bus := t2\<rparr> = s\<lparr>bus := t2\<rparr>" by (simp add: st_fld_def ld32_def st32_def emit_def)
  moreover have "xtemac_trxreset hw s = Some (?s2\<lparr>bus := t2\<rparr>)"
    unfolding xtemac_trxreset_def Let_def 1 bind.bind_lunit 2 ..
  ultimately show ?thesis using r1 r2 by (auto simp: st_fld_runs)
qed

text \<open>With both channels halted the two ring set-ups succeed.\<close>

lemma sgallowed_idle:
  assumes "ethdma_hw hw" and "ch \<in> {XDMA2_MM2S, XDMA2_S2MM}" and "\<not> ch_runs ch (bus s)"
  shows "xsgdma_sgallowed hw ch s = (True, s\<lparr>bus := Rd (ch_sr ch) (hw (bus s) (ch_sr ch)) # bus s\<rparr>)"
  using assms by (auto simp: ethdma_hw_def xsgdma_sgallowed_def ld32_def emit_def Let_def)

lemma rx_ring_misses_tx: "i < 10 \<Longrightarrow> \<not> tx_bd i - XDMA2_S2MM_BDRING < 640"
  by (simp add: bd_at_def word_less_nat_alt unat_word_ariths unat_of_nat)

lemma tx_ring_set:
  assumes "ethdma_hw hw" and "\<not> ch_runs XDMA2_MM2S (bus s)"
  shows "\<exists>s'. ethdma_txsgnormal hw XTEMAC_MTUS_BUFFER XTEMAC_MTU s = Some (XDMA2_MM2S_BUFFER, s')
    \<and> tx_inv 1536 s' \<and> tx_frames s' = [] \<and> \<not> tx_locked s' \<and> mem s' = mem s
    \<and> \<not> ethdma_txbuserr s' \<and> (\<forall>ch. ch_runs ch (bus s') = ch_runs ch (bus s))"
proof -
  let ?s0 = "s\<lparr>bus := Rd (ch_sr XDMA2_MM2S) (hw (bus s) (ch_sr XDMA2_MM2S)) # bus s\<rparr>"
  let ?r = "xsgdma_ring XDMA2_MM2S_BDRING XDMA2_MM2S_BUFFER 15360 1536 ?s0"
  let ?s' = "(snd ?r)\<lparr>eth_txdepth := ucast (fst ?r), eth_txtail := 0, ethdma_txbuserr := False\<rparr>"
  have run: "ethdma_txsgnormal hw 15360 1536 s = Some (XDMA2_MM2S_BUFFER, ?s')"
    using sgallowed_idle [OF assms(1) _ assms(2)]
    by (simp add: ethdma_txsgnormal_def sg_args_ok_def split_beta Let_def)
  have "mem (snd ?r) = mem s" "\<forall>ch. ch_runs ch (bus (snd ?r)) = ch_runs ch (bus s)"
    by (subst xsgdma_ring_frame, simp)+
  with run txsgnormal_ready [OF run] show ?thesis
    by (intro exI [of _ ?s']) (simp add: tx_locked_def)
qed

lemma rx_ring_set:
  assumes "ethdma_hw hw" and "\<not> ch_runs XDMA2_S2MM (bus s)"
  shows "\<exists>s'. ethdma_rxsgcyclic hw XTEMAC_MTUS_BUFFER XTEMAC_MTU s = Some (XDMA2_S2MM_BUFFER, s')
    \<and> rx_ready 1536 s' \<and> rx_frames s' = [] \<and> mem s' = mem s
    \<and> \<not> ethdma_rxbuserr s' \<and> ethdma_txbuserr s' = ethdma_txbuserr s
    \<and> (tx_inv 1536 s \<and> tx_frames s = [] \<and> \<not> tx_locked s \<longrightarrow>
       tx_inv 1536 s' \<and> tx_frames s' = [] \<and> \<not> tx_locked s')"
proof -
  let ?s0 = "s\<lparr>bus := Rd (ch_sr XDMA2_S2MM) (hw (bus s) (ch_sr XDMA2_S2MM)) # bus s,
      eth_rxhead := 0, eth_rxtail := 0, ethdma_rxbuserr := False\<rparr>"
  let ?r = "snd (xsgdma_ring XDMA2_S2MM_BDRING XDMA2_S2MM_BUFFER 15360 1536 ?s0)"
  obtain t where cyc: "xsgdma_cyclicTrans XDMA2_S2MM XDMA2_S2MM_BDRING ?r = ?r\<lparr>bus := t\<rparr>"
    using xsgdma_cyclicTrans_bus by blast
  let ?s' = "?r\<lparr>bus := t\<rparr>"
  have run: "ethdma_rxsgcyclic hw 15360 1536 s = Some (XDMA2_S2MM_BUFFER, ?s')"
    using sgallowed_idle [OF assms(1) _ assms(2)] cyc
    by (simp add: ethdma_rxsgcyclic_def sg_args_ok_def split_beta Let_def)
  have keep: "mem ?r = mem s" "\<not> ethdma_rxbuserr ?r" "ethdma_txbuserr ?r = ethdma_txbuserr s" "eth_txtail ?r = eth_txtail s" "eth_txpkts ?r = eth_txpkts s" "eth_txdepth ?r = eth_txdepth s"
    by (subst xsgdma_ring_frame, simp)+
  have ok: "sg_args_ok 15360 1536 = Some True" by (simp add: sg_args_ok_def)
  have bds: "bds ?r (tx_bd i) = bds s (tx_bd i)" if "i < 10" for i
    using xsgdma_ring_bds(3) [OF ok, of "tx_bd i" XDMA2_S2MM_BDRING XDMA2_S2MM_BUFFER ?s0] rx_ring_misses_tx [OF that]
    by simp
  have "tx_inv 1536 ?s' \<and> tx_frames ?s' = [] \<and> \<not> tx_locked ?s'"
    if "tx_inv 1536 s" "tx_frames s = []" "\<not> tx_locked s"
    using that keep bds by (simp add: tx_inv_def tx_ready_def tx_locked_def tx_frames_def tx_count_def)
  with run rxsgcyclic_ready [of hw 1536 s XDMA2_S2MM_BUFFER ?s'] keep show ?thesis
    by (intro exI [of _ ?s']) simp
qed

text \<open>Stopping and resetting the transmit channel halts the engine.\<close>

lemma reset_stops: "fld_on xdmacr ''reset'' v \<Longrightarrow> eth_idle (Wr (ch_cr XDMA2_MM2S) v # t)"
  by simp

lemma xdmacr_reset: "''reset'' \<in> fst ` set xdmacr" "fld_width xdmacr ''reset'' = 1"
  by (simp_all add: xdmacr_def)

lemma trxstop_ok:
  assumes "ethdma_hw hw"
  shows "\<exists>t. ethdma_trxstop hw s = Some (s\<lparr>bus := t\<rparr>) \<and> eth_idle t"
proof -
  let ?v = "fld_set xdmacr ''err_irq_en'' 0 (fld_set xdmacr ''ioc_irq_en'' 0
      (fld_set xdmacr ''reset'' 1 (fld_set xdmacr ''rs'' 0 (0 :: u32))))"
  let ?t = "Wr (ch_cr XDMA2_MM2S) ?v # bus s"
  have "fld_on xdmacr ''reset'' ?v" by (simp add: fld_on_def fld_get_def fld_set_def xdmacr_def mask_numeral)
  then have idle: "eth_idle ?t" by (rule reset_stops)
  then have "fld_on xdmasr ''halted'' (hw ?t (ch_sr XDMA2_MM2S))"
    using assms unfolding ethdma_hw_def by blast
  then have "ethdma_trxstop hw s = Some (s\<lparr>bus := Rd (ch_sr XDMA2_MM2S) (hw ?t (ch_sr XDMA2_MM2S)) # ?t\<rparr>)"
    by (simp add: ethdma_trxstop_def xsgdma_engstop_def Let_def st32_def emit_def await_def poll_now)
  with idle show ?thesis by (intro exI) (rule conjI, assumption, simp)
qed

lemma trxreset_dma_ok:
  assumes "ethdma_hw hw"
  shows "\<exists>t. ethdma_trxreset hw s = Some (s\<lparr>bus := t\<rparr>) \<and> eth_idle t"
proof -
  let ?s = "st_fld hw xdmacr ''reset'' 1 (ch_cr XDMA2_MM2S) s"
  have "fld_on xdmacr ''reset'' (fld_set xdmacr ''reset'' 1 (r :: u32))" for r
    by (simp add: fld_on_def cr.get_set xdmacr_reset)
  then have "eth_idle (bus ?s)" by (simp add: st_fld_def ld32_def st32_def emit_def)
  moreover obtain t where "await hw (ch_cr XDMA2_MM2S) (\<lambda>v. \<not> fld_on xdmacr ''reset'' v) ?s = Some (?s\<lparr>bus := t\<rparr>)"
    and "ch_runs XDMA2_MM2S t = ch_runs XDMA2_MM2S (bus ?s)" "ch_runs XDMA2_S2MM t = ch_runs XDMA2_S2MM (bus ?s)"
    using await_keeps_runs assms unfolding ethdma_hw_def by blast
  moreover have "?s\<lparr>bus := t\<rparr> = s\<lparr>bus := t\<rparr>" for t by (simp add: st_fld_def ld32_def st32_def emit_def)
  ultimately show ?thesis by (auto simp: ethdma_trxreset_def xsgdma_engreset_def Let_def)
qed

text \<open>Recovery stops and resets both sides before it sets the rings up again.\<close>

lemma recover_ok:
  assumes "mdio_hw hw phy" and "ethdma_hw hw" and "temac_hw hw"
  shows "\<exists>s'. xtemac_recover hw junk s = Some s' \<and> rx_ready 1536 s' \<and> rx_frames s' = []
    \<and> tx_inv 1536 s' \<and> tx_frames s' = [] \<and> \<not> tx_locked s' \<and> mem s' = mem s \<and> \<not> link_sig s'
    \<and> \<not> ethdma_rxbuserr s' \<and> \<not> ethdma_txbuserr s'"
proof -
  let ?s1 = "xtemac_trxdisable hw s"
  have m1: "mem ?s1 = mem s" by (simp add: xtemac_trxdisable_def st_fld_def ld32_def st32_def emit_def Let_def)
  obtain t2 where 2: "ethdma_trxstop hw ?s1 = Some (?s1\<lparr>bus := t2\<rparr>)" using trxstop_ok [OF assms(2)] by blast
  obtain t3 where 3: "ethdma_trxreset hw (?s1\<lparr>bus := t2\<rparr>) = Some (?s1\<lparr>bus := t3\<rparr>)" and i3: "eth_idle t3"
    using trxreset_dma_ok [OF assms(2), of "?s1\<lparr>bus := t2\<rparr>"] by auto
  obtain t4 where 4: "xtemac_trxreset hw (?s1\<lparr>bus := t3\<rparr>) = Some (?s1\<lparr>bus := t4\<rparr>)" and i4: "eth_idle t4"
    using trxreset_ok [OF assms(3), of "?s1\<lparr>bus := t3\<rparr>"] i3 by auto
  obtain s5 where 5: "ethdma_txsgnormal hw XTEMAC_MTUS_BUFFER XTEMAC_MTU (?s1\<lparr>bus := t4\<rparr>) = Some (XDMA2_MM2S_BUFFER, s5)"
    and tx: "tx_inv 1536 s5" "tx_frames s5 = []" "\<not> tx_locked s5" "mem s5 = mem s" "\<not> ethdma_txbuserr s5" "\<not> ch_runs XDMA2_S2MM (bus s5)"
    using tx_ring_set [OF assms(2), of "?s1\<lparr>bus := t4\<rparr>"] i4 m1 by auto
  obtain s6 where 6: "ethdma_rxsgcyclic hw XTEMAC_MTUS_BUFFER XTEMAC_MTU s5 = Some (XDMA2_S2MM_BUFFER, s6)"
    and rx: "rx_ready 1536 s6" "rx_frames s6 = []" "tx_inv 1536 s6" "tx_frames s6 = []" "\<not> tx_locked s6" "mem s6 = mem s"
      "\<not> ethdma_rxbuserr s6" "\<not> ethdma_txbuserr s6"
    using rx_ring_set [OF assms(2) tx(6)] tx by auto
  obtain t7 where 7: "xtemac_trxenable hw junk s6 = Some (s6\<lparr>link_sig := False, bus := t7\<rparr>)"
    using trxenable_ok [OF assms(1), of junk s6] unfolding Let_def by blast
  have "xtemac_recover hw junk s = Some (s6\<lparr>link_sig := False, bus := t7\<rparr>)"
    unfolding xtemac_recover_def Let_def 2 bind.bind_lunit 3 4 5 6 7 prod.case ..
  with rx show ?thesis
    by (simp add: rx_ready_def rx_inv_def rx_frames_def rx_pending_def rx_frame_def
        tx_inv_def tx_ready_def tx_frames_def tx_locked_def tx_count_def tx_frame_def)
qed

section \<open>Properties\<close>

text \<open>
  The MAC address set is the MAC address read back: after \<open>xtemac_setmac\<close> with six bytes,
  \<open>_xtemac_mac\<close> stores these bytes, in order, and no byte outside the six. Called with a
  length above six it stores nothing; a length below six does not keep it from
  storing all six.
\<close>

theorem mac_address_roundtrip:
  assumes "mac_hw hw" and "length m = 6"
  shows "(len \<le> 6 \<longrightarrow>
      bytes_at (mem (xtemac_mac hw dst len (xtemac_setmac m s))) dst 6 = m
      \<and> (\<forall>a. \<not> a - dst < 6 \<longrightarrow> mem (xtemac_mac hw dst len (xtemac_setmac m s)) a = mem s a))
    \<and> (\<not> len \<le> 6 \<longrightarrow> mem (xtemac_mac hw dst len (xtemac_setmac m s)) = mem s)"
proof -
  let ?s = "xtemac_setmac m s"
  have m: "mem ?s = mem s" by (simp add: xtemac_setmac_def st32_def emit_def Let_def)
  have "bytes_at (mem (xtemac_mac hw dst len ?s)) dst 6 = m" if "len \<le> 6"
  proof -
    have "bytes_at (mem (xtemac_mac hw dst len ?s)) dst 6 = [m ! 0, m ! 1, m ! 2, m ! 3, m ! 4, m ! 5]"
      using assms(1) that
      by (simp add: xtemac_mac_bytes mac_hw_def xtemac_setmac_def st32_def emit_def Let_def
          uaw0.get_set uaw0.get_set_other uaw1.get_set uaw1.get_set_other layout_simps ucast_byte)
    then show ?thesis using length6 [OF assms(2)] by simp
  qed
  moreover have "mem (xtemac_mac hw dst len ?s) a = mem s a" if "\<not> a - dst < 6" for a
  proof -
    have "a \<noteq> dst" "a \<noteq> dst + 1" "a \<noteq> dst + 2" "a \<noteq> dst + 3" "a \<noteq> dst + 4" "a \<noteq> dst + 5"
      using that by (auto simp: word_less_nat_alt)
    then show ?thesis by (simp add: xtemac_mac_def ld32_def emit_def m Let_def)
  qed
  ultimately show ?thesis by (auto simp: xtemac_mac_def m)
qed

theorem mac_address_roundtrip_witness:
  "bytes_at (mem (xtemac_mac (\<lambda>t a. last_wr a t) 0x1000 6
     (xtemac_setmac XTEMAC_DEF_MACADDR \<lparr>bus = [], mem = (\<lambda>_. 0)\<rparr>))) 0x1000 6 = [0x02, 0x1A, 0x11, 0x00, 0x7C, 0x55]"
  using mac_address_roundtrip [of "\<lambda>t a. last_wr a t" XTEMAC_DEF_MACADDR 6 "0x1000" "\<lparr>bus = [], mem = (\<lambda>_. 0)\<rparr>"]
  by (simp add: mac_hw_def XTEMAC_DEF_MACADDR_def)

text \<open>
  Enabling the transceiver returns. With the link down no MAC register is stored. With the link
  up the MAC is set to the speed and duplex mode of the link, both directions agreeing, for
  frames of up to 1536 bytes, and the receiver is enabled by the very last store.
\<close>

theorem trxenable_configures:
  assumes "mdio_hw hw phy"
  shows "\<exists>t1 t2 t s'. xtemac_trxenable hw junk s = Some s' \<and> s' = s\<lparr>link_sig := False, bus := bus s'\<rparr>
    \<and> (let up = (fld_on phy_bmsr ''link_satus'' (phy t1 1) \<and> fld_on phy_bmsr ''autoneg_cmplt'' (phy t1 1));
           lk = (case lan8720_link (fld_get lan8720a_scsr ''hcd_speed'' (phy t2 31)) of Some l \<Rightarrow> l | None \<Rightarrow> junk)
       in if \<not> up then bus s' = t
          else \<exists>rx tx. bus s' = [Wr TEMAC_rx_cfg_w1 rx, Wr TEMAC_tx_cfg tx, Wr TEMAC_rx_maxFrame_cfg 0x10600,
                   Wr TEMAC_tx_maxFrame_cfg 0x10600,
                   Wr TEMAC_speed_cfg (push_bit 30 (if speed lk = SPEED_10MBPS then 0 else 1))] @ t
             \<and> fld_on xtemac_rx_cfg_w1 ''receiver_enable'' rx \<and> fld_on xtemac_tx_cfg ''transmit_enable'' tx
             \<and> \<not> fld_on xtemac_rx_cfg_w1 ''reset'' rx \<and> \<not> fld_on xtemac_tx_cfg ''reset'' tx
             \<and> fld_on xtemac_rx_cfg_w1 ''half_duplex'' rx = (link lk = LINK_HALF_DUPLEX)
             \<and> fld_on xtemac_tx_cfg ''half_duplex'' tx = (link lk = LINK_HALF_DUPLEX))"
proof -
  obtain t1 t2 t up lk where
    up: "up = (fld_on phy_bmsr ''link_satus'' (phy t1 1) \<and> fld_on phy_bmsr ''autoneg_cmplt'' (phy t1 1))"
    and lk: "lk = (case lan8720_link (fld_get lan8720a_scsr ''hcd_speed'' (phy t2 31)) of Some l \<Rightarrow> l | None \<Rightarrow> junk)"
    and en: "xtemac_trxenable hw junk s = Some (s\<lparr>link_sig := False, bus := (if up then trx_words lk else []) @ t\<rparr>)"
    using trxenable_ok [OF assms, of junk s] unfolding Let_def by blast
  let ?s = "s\<lparr>link_sig := False, bus := (if up then trx_words lk else []) @ t\<rparr>"
  have "xtemac_trxenable hw junk s = Some ?s \<and> ?s = s\<lparr>link_sig := False, bus := bus ?s\<rparr>
    \<and> (if \<not> up then bus ?s = t
       else \<exists>rx tx. bus ?s = [Wr TEMAC_rx_cfg_w1 rx, Wr TEMAC_tx_cfg tx, Wr TEMAC_rx_maxFrame_cfg 0x10600,
                   Wr TEMAC_tx_maxFrame_cfg 0x10600,
                   Wr TEMAC_speed_cfg (push_bit 30 (if speed lk = SPEED_10MBPS then 0 else 1))] @ t
             \<and> fld_on xtemac_rx_cfg_w1 ''receiver_enable'' rx \<and> fld_on xtemac_tx_cfg ''transmit_enable'' tx
             \<and> \<not> fld_on xtemac_rx_cfg_w1 ''reset'' rx \<and> \<not> fld_on xtemac_tx_cfg ''reset'' tx
             \<and> fld_on xtemac_rx_cfg_w1 ''half_duplex'' rx = (link lk = LINK_HALF_DUPLEX)
             \<and> fld_on xtemac_tx_cfg ''half_duplex'' tx = (link lk = LINK_HALF_DUPLEX))"
    using en trx_words_fields [of lk] by (cases up) auto
  then show ?thesis unfolding Let_def up lk by blast
qed

theorem trxenable_configures_witness:
  "\<exists>rx s'. xtemac_trxenable lan_hw \<lparr>speed = SPEED_10MBPS, link = LINK_HALF_DUPLEX\<rparr> temac_boot = Some s'
     \<and> hd (bus s') = Wr TEMAC_rx_cfg_w1 rx \<and> fld_on xtemac_rx_cfg_w1 ''receiver_enable'' rx
     \<and> \<not> fld_on xtemac_rx_cfg_w1 ''half_duplex'' rx"
proof -
  have "fld_on phy_bmsr ''link_satus'' (lan_regs 1) \<and> fld_on phy_bmsr ''autoneg_cmplt'' (lan_regs 1)"
    by (simp add: lan_regs_def fld_on_def fld_get_def phy_bmsr_def)
  moreover have "lan8720_link (fld_get lan8720a_scsr ''hcd_speed'' (lan_regs 31)) = Some \<lparr>speed = SPEED_100MBPS, link = LINK_FULL_DUPLEX\<rparr>"
    by (simp add: lan_regs_def fld_get_def lan8720a_scsr_def lan8720_link_def)
  ultimately show ?thesis
    using trxenable_configures [OF lan_hw_ok(2), of "\<lparr>speed = SPEED_10MBPS, link = LINK_HALF_DUPLEX\<rparr>" temac_boot]
    by (auto simp: Let_def)
qed

text \<open>
  C11: recovery after a DMA error returns, whatever state the queues were in and whether or not the
  engine was running: the receive ring is set up empty, the transmit queue is open and
  empty, the error flags are clear, and no other memory has changed.
\<close>

theorem recover_restores_queues:
  assumes "mdio_hw hw phy" and "ethdma_hw hw" and "temac_hw hw"
  shows "\<exists>s'. xtemac_recover hw junk s = Some s' \<and> rx_ready 1536 s' \<and> rx_frames s' = []
    \<and> tx_inv 1536 s' \<and> tx_frames s' = [] \<and> \<not> tx_locked s' \<and> mem s' = mem s \<and> \<not> link_sig s'
    \<and> \<not> ethdma_rxbuserr s' \<and> \<not> ethdma_txbuserr s'"
  using assms by (rule recover_ok)

lemma lan_hw_eth: "ethdma_hw lan_hw" "temac_hw lan_hw"
proof -
  have sr: "lan_hw t (ch_sr XDMA2_MM2S) = 0x1009" "lan_hw t (ch_sr XDMA2_S2MM) = 0x1009" for t
    by (simp_all add: lan_hw_def mdio_addr_defs xintc_addr_defs ch_sr_def)
  have cr: "lan_hw t (ch_cr XDMA2_MM2S) = 0" "lan_hw t TEMAC_rx_cfg_w1 = 0" "lan_hw t TEMAC_tx_cfg = 0" for t
    by (simp_all add: lan_hw_def mdio_addr_defs xintc_addr_defs temac_addr_defs ch_sr_def ch_cr_def)
  show "ethdma_hw lan_hw"
    by (simp add: ethdma_hw_def sr responds_def cr fld_on_def fld_get_def xdmasr_def)
  show "temac_hw lan_hw" by (simp add: temac_hw_def responds_def cr fld_on_def fld_get_def)
qed

theorem recover_restores_queues_witness:
  "\<exists>s'. xtemac_recover lan_hw \<lparr>speed = SPEED_10MBPS, link = LINK_HALF_DUPLEX\<rparr> (temac_boot\<lparr>eth_txtail := 0xFF\<rparr>) = Some s'
     \<and> rx_ready 1536 s' \<and> \<not> tx_locked s'"
  using recover_restores_queues [OF lan_hw_ok(2) lan_hw_eth, of "\<lparr>speed = SPEED_10MBPS, link = LINK_HALF_DUPLEX\<rparr>"
      "temac_boot\<lparr>eth_txtail := 0xFF\<rparr>"] by blast

end
