(* ===== verification/Eth_Service.thy ===== *)
theory Eth_Service
  imports Xtemac "HOL-Library.Sublist"
begin

text \<open>
  The ethernet service with its commands (\<open>arch/mb_le/services/eth_service.c\<close>) and the network
  device (\<open>arch/mb_le/netdev.c\<close>): the glue between the lwIP network stack and the MAC, PHY and
  DMA drivers. lwIP is not part of this repository: its functions are the fields of the record
  \<open>lwip_api\<close>, an argument of every definition that calls it.
\<close>

section \<open>State\<close>

datatype ethcon_status = ETH_LINKUP | ETH_LINKDOWN

datatype err_t = ERR_OK | ERR_IF | ERR_OTHER int

datatype netif_hook = NO_HOOK | ETHARP_OUTPUT | LWIP_ETHOUTPUT

text \<open>The fields of \<open>struct netif\<close> this repository stores, less \<open>hwaddr\<close>, which is filled
  through a pointer.\<close>

record netif =
  nif_name :: string
  nif_hwaddr_len :: u8
  nif_mtu :: u16
  nif_flags :: u8
  nif_output :: netif_hook
  nif_linkoutput :: netif_hook

record 'n eth = temac +
  stack :: 'n
  phylk :: phylink
  link_reg :: ethcon_status
  ethif :: netif

text \<open>
  What is called of lwIP, on the whole state, since lwIP calls back into \<open>lwip_ethOutput\<close>. A
  pbuf is its address, 0 for NULL. \<open>netif_default\<close> is whether a default interface exists; the
  queries are about that interface.
\<close>

record 's lwip_api =
  netif_default :: "'s \<Rightarrow> bool"
  netif_is_up :: "'s \<Rightarrow> bool"
  netif_is_link_up :: "'s \<Rightarrow> bool"
  pbuf_alloc :: "u16 \<Rightarrow> 's \<Rightarrow> u32 \<times> 's"
  pbuf_take :: "u32 \<Rightarrow> u8 list \<Rightarrow> 's \<Rightarrow> 's"
  netif_input :: "u32 \<Rightarrow> 's \<Rightarrow> err_t \<times> 's"
  pbuf_free :: "u32 \<Rightarrow> 's \<Rightarrow> 's"
  sys_check_timeouts :: "'s \<Rightarrow> 's"
  netif_set_link_up :: "'s \<Rightarrow> 's"
  netif_set_link_down :: "'s \<Rightarrow> 's"
  dhcp_supplied_address :: "'s \<Rightarrow> bool"
  netif_dhcp_data :: "'s \<Rightarrow> bool"
  netif_ip4_addr :: "'s \<Rightarrow> u32"
  netif_ip4_gw :: "'s \<Rightarrow> u32"
  netif_ip4_netmask :: "'s \<Rightarrow> u32"
  dhcp_start :: "'s \<Rightarrow> 's"
  lwip_init :: "'s \<Rightarrow> 's"
  netif_add :: "u32 \<Rightarrow> u32 \<Rightarrow> u32 \<Rightarrow> ('s \<Rightarrow> err_t \<times> 's) \<Rightarrow> 's \<Rightarrow> 's"
  netif_set_default :: "'s \<Rightarrow> 's"
  netif_set_up :: "'s \<Rightarrow> 's"
  NETIF_FLAG_BROADCAST :: u8
  NETIF_FLAG_ETHARP :: u8
  NETIF_FLAG_IGMP :: u8

section \<open>The network device\<close>

text \<open>A packet is a chain of pbufs, each with its payload and length.\<close>

fun lwip_ethOutput :: "(u32 \<times> u16) list \<Rightarrow> ('n, 'a) eth_scheme \<Rightarrow> err_t \<times> ('n, 'a) eth_scheme" where
  "lwip_ethOutput [] s = (ERR_OK, s)"
| "lwip_ethOutput ((payload, len) # q) s =
     (let (b, s) = ethdma_txsgenque payload (ucast len) s
      in if b = 0 then (ERR_IF, s) else lwip_ethOutput q s)"

text \<open>\<open>hwaddr\<close> is the address of the field of that name in the interface.\<close>

definition lwip_ethifInit ::
    "hw \<Rightarrow> ('n, 'a) eth_scheme lwip_api \<Rightarrow> u32 \<Rightarrow> ('n, 'a) eth_scheme \<Rightarrow> err_t \<times> ('n, 'a) eth_scheme" where
  "lwip_ethifInit hw lw hwaddr s =
     (let s = s\<lparr>ethif := (ethif s)\<lparr>nif_name := ''e0''\<rparr>\<rparr>;
          s = s\<lparr>ethif := (ethif s)\<lparr>nif_hwaddr_len := 6\<rparr>\<rparr>;
          s = xtemac_mac hw hwaddr (ucast (nif_hwaddr_len (ethif s))) s;
          s = s\<lparr>ethif := (ethif s)\<lparr>nif_mtu := 1536\<rparr>\<rparr>;
          s = s\<lparr>ethif := (ethif s)\<lparr>nif_flags := nif_flags (ethif s) OR
            (NETIF_FLAG_BROADCAST lw OR NETIF_FLAG_ETHARP lw OR NETIF_FLAG_IGMP lw)\<rparr>\<rparr>;
          s = s\<lparr>ethif := (ethif s)\<lparr>nif_output := ETHARP_OUTPUT\<rparr>\<rparr>;
          s = s\<lparr>ethif := (ethif s)\<lparr>nif_linkoutput := LWIP_ETHOUTPUT\<rparr>\<rparr>
      in (ERR_OK, s))"

definition netdev_if ::
    "hw \<Rightarrow> ('n, 'a) eth_scheme lwip_api \<Rightarrow> u32 \<Rightarrow> ('n, 'a) eth_scheme \<Rightarrow> ('n, 'a) eth_scheme" where
  "netdev_if hw lw hwaddr s =
     (let s = lwip_init lw s;
          gw = 0; ipaddr = 0; netmask = 0;
          s = netif_add lw ipaddr netmask gw (lwip_ethifInit hw lw hwaddr) s;
          s = netif_set_default lw s
      in netif_set_up lw s)"

section \<open>The service\<close>

text \<open>
  Frames are read into the buffer \<open>rxp\<close> on the stack. The flags collect whether a pbuf could not be
  allocated and whether lwIP refused a packet; the packet handed to lwIP is recorded in the
  history.
\<close>

fun ethInput_loop ::
    "('n, 'a) eth_scheme lwip_api \<Rightarrow> u32 \<Rightarrow> nat \<Rightarrow> bool \<Rightarrow> bool \<Rightarrow> ('n, 'a) eth_scheme \<Rightarrow>
       bool \<times> bool \<times> ('n, 'a) eth_scheme" where
  "ethInput_loop lw rxp 0 lwipAlloc_error lwipInput_error s = (lwipAlloc_error, lwipInput_error, s)"
| "ethInput_loop lw rxp (Suc rx_qcount) lwipAlloc_error lwipInput_error s =
     (let (b, len_p, s) = ethdma_rxsgcmplt rxp XTEMAC_MTU s
      in if b = 0 then (lwipAlloc_error, lwipInput_error, s)
         else
           let rx_len = the len_p;
               (p, s) = pbuf_alloc lw (ucast rx_len) s
           in if p = 0 then ethInput_loop lw rxp rx_qcount True lwipInput_error s
              else
                let packet = bytes_at (mem s) rxp (unat rx_len);
                    s = pbuf_take lw p packet s;
                    (err, s) = netif_input lw p (emit (NetInput packet) s)
                in if err \<noteq> ERR_OK then ethInput_loop lw rxp rx_qcount lwipAlloc_error True (pbuf_free lw p s)
                   else ethInput_loop lw rxp rx_qcount lwipAlloc_error lwipInput_error s)"

definition lwip_ethInput ::
    "('n, 'a) eth_scheme lwip_api \<Rightarrow> u32 \<Rightarrow> ('n, 'a) eth_scheme \<Rightarrow> ('n, 'a) eth_scheme" where
  "lwip_ethInput lw rxp s =
     (if \<not> netif_default lw s \<or> \<not> netif_is_up lw s \<or> \<not> netif_is_link_up lw s then s
      else
        let (lwipAlloc_error, lwipInput_error, s) =
              ethInput_loop lw rxp (unat (eth_rxqcount s)) False False s;
            s = (if lwipInput_error then emit (Jentry ''lwIP input packet processing error'') s else s)
        in if lwipAlloc_error
           then emit (Jentry ''lwIP cant allocate the buffer for input packet'') s else s)"

definition eth_linkup ::
    "hw \<Rightarrow> phylink \<Rightarrow> ('n, 'a) eth_scheme lwip_api \<Rightarrow> ('n, 'a) eth_scheme \<Rightarrow> ('n, 'a) eth_scheme option" where
  "eth_linkup hw junk lw s = do {
     s \<leftarrow> xtemac_trxenable hw junk s;
     Some (if netif_default lw s then netif_set_link_up lw s else s)
   }"

definition eth_linkdown ::
    "hw \<Rightarrow> ('n, 'a) eth_scheme lwip_api \<Rightarrow> ('n, 'a) eth_scheme \<Rightarrow> ('n, 'a) eth_scheme" where
  "eth_linkdown hw lw s =
     (let s = xtemac_trxdisable hw s
      in if netif_default lw s then netif_set_link_down lw s else s)"

text \<open>The two reactions of the service to a signal of the driver.\<close>

definition eth_link_event ::
    "hw \<Rightarrow> phylink \<Rightarrow> ('n, 'a) eth_scheme lwip_api \<Rightarrow> ('n, 'a) eth_scheme \<Rightarrow> ('n, 'a) eth_scheme option" where
  "eth_link_event hw junk lw s = do {
     (up, lk_p, s) \<leftarrow> xtemac_phylink hw (Some (phylk s)) s;
     let s = s\<lparr>phylk := the lk_p\<rparr>;
     let s = s\<lparr>link_reg := (if up then ETH_LINKUP else ETH_LINKDOWN)\<rparr>;
     case link_reg s of
       ETH_LINKUP \<Rightarrow> eth_linkup hw junk lw s
     | ETH_LINKDOWN \<Rightarrow> Some (eth_linkdown hw lw s)
   }"

definition eth_signals ::
    "hw \<Rightarrow> phylink \<Rightarrow> ('n, 'a) eth_scheme lwip_api \<Rightarrow> signal set \<Rightarrow> ('n, 'a) eth_scheme \<Rightarrow>
       ('n, 'a) eth_scheme option" where
  "eth_signals hw junk lw sgls s = do {
     let eth_sgl = (xtemac_phylinkSignal s \<or> (ethdma_txbuserrSignal s \<or> ethdma_rxbuserrSignal s));
     s \<leftarrow> (if eth_sgl \<and> xtemac_phylinkSignal s then eth_link_event hw junk lw s else Some s);
     s \<leftarrow> (if eth_sgl \<and> (ethdma_rxbuserrSignal s \<or> ethdma_txbuserrSignal s)
           then xtemac_recover hw junk (emit (Jentry ''eth DMA internal error!'') s)
           else Some s);
     Some (if eth_sgl then emit (SigMask False sgls) s else s)
   }"

definition eth_service ::
    "hw \<Rightarrow> kern \<Rightarrow> phylink \<Rightarrow> ('n, 'a) eth_scheme lwip_api \<Rightarrow> u32 \<Rightarrow> ('n, 'a) eth_scheme \<Rightarrow>
       ('n, 'a) eth_scheme option" where
  "eth_service hw kern junk lw rxp s =
     (let s = lwip_ethInput lw rxp s;
          s = sys_check_timeouts lw s;
          s = ethdma_txsgflush s;
          s = emit (SigMask True {SIGINT, SIGBUS}) s;
          sgls = kern (bus s);
          s = emit (SigPending sgls) s
      in if SIGINT \<notin> sgls \<and> SIGBUS \<notin> sgls then Some s
         else eth_signals hw junk lw sgls s)"

section \<open>The commands\<close>

text \<open>An address printed through \<open>ipaddr_ntoa\<close> stands for its text.\<close>

definition dhcp_m :: "('n, 'a) eth_scheme lwip_api \<Rightarrow> ('n, 'a) eth_scheme \<Rightarrow> int \<times> ('n, 'a) eth_scheme" where
  "dhcp_m lw s =
     (if \<not> netif_default lw s then (- 1, emit (Out ''no default net interface exist\<newline>'' []) s)
      else if \<not> netif_is_link_up lw s then (0, emit (Out ''default net interface link is down\<newline>'' []) s)
      else if dhcp_supplied_address lw s then
        let s = emit (Out ''IP: %s\<newline>'' [netif_ip4_addr lw s]) s;
            s = emit (Out ''Gateway: %s\<newline>'' [netif_ip4_gw lw s]) s;
            s = emit (Out ''Netmask: %s\<newline>'' [netif_ip4_netmask lw s]) s
        in (0, s)
      else if netif_dhcp_data lw s then (0, emit (Out ''dhcp in progress or no response\<newline>'' []) s)
      else (0, dhcp_start lw (emit (Out ''acquire ip address from dhcp\<newline>'' []) s)))"

text \<open>\<open>m_addr\<close> is the array on the stack.\<close>

definition ethmac_m :: "hw \<Rightarrow> u32 \<Rightarrow> 'a machine_scheme \<Rightarrow> int \<times> 'a machine_scheme" where
  "ethmac_m hw m_addr s =
     (let s = xtemac_mac hw m_addr 6 s
      in (0, emit (Out ''MAC address: %02x:%02x:%02x:%02x:%02x:%02x\<newline>''
               (map ucast (bytes_at (mem s) m_addr 6))) s))"

definition ethstat_m :: "'a xdma_scheme \<Rightarrow> int \<times> 'a xdma_scheme" where
  "ethstat_m s =
     (let rx_c = eth_rxcount s; tx_c = eth_txcount s; lost_c = eth_lostcount s;
          rx_qhead = eth_rxqhead s; rx_qtail = eth_rxqtail s;
          tx_qhead = eth_txqhead s; tx_qtail = eth_txqtail s
      in if rx_c = 0 then (0, emit (Out ''no ethernet frames received\<newline>'' []) s)
         else
           let s = emit (Out ''ethernet stat\<newline>'' []) s;
               s = emit (Out ''rx queue: %d head, %d tail\<newline>'' [rx_qhead, rx_qtail]) s;
               s = emit (Out ''tx queue: %d head, %d tail\<newline>'' [tx_qhead, tx_qtail]) s;
               s = emit (Out ''packet: %d received, %d transmitted, %d lost\<newline>'' [rx_c, tx_c, lost_c]) s
           in (0, s))"

definition ethlink_m :: "('n, 'a) eth_scheme \<Rightarrow> int \<times> ('n, 'a) eth_scheme" where
  "ethlink_m s =
     (case link_reg s of
        ETH_LINKUP \<Rightarrow>
          let s = emit (Out ''link up\<newline>'' []) s;
              s = emit (Out (''speed: '' @ (if speed (phylk s) = SPEED_10MBPS then ''10 Mbps'' else ''100 Mbps'')
                    @ ''\<newline>'') []) s;
              s = emit (Out (''duplex: '' @ (if link (phylk s) = LINK_HALF_DUPLEX then ''half'' else ''full'')
                    @ ''\<newline>'') []) s
          in (0, s)
      | ETH_LINKDOWN \<Rightarrow> (0, emit (Out ''cable not plugged or link down\<newline>'' []) s))"

definition ethphy_m :: "hw \<Rightarrow> 'a machine_scheme \<Rightarrow> (int \<times> 'a machine_scheme) option" where
  "ethphy_m hw s = do {
     (phy_id, s) \<leftarrow> xtemac_phyid hw s;
     if phy_id = 0 then Some (- 1, emit (Out ''eth PHY not detected.\<newline>'' []) s)
     else
       let phyid_hi = ucast (drop_bit 16 phy_id) :: u16;
           phyid_low = ucast (phy_id AND 0xFFFF) :: u16;
           s = emit (Out ''eth PHY detected\<newline>'' []) s;
           s = emit (Out ''PHYid %04x:%04x\<newline>'' [ucast phyid_hi, ucast phyid_low]) s
       in Some (0, s)
   }"

section \<open>What lwIP does to the drivers\<close>

text \<open>
  Documented behaviour of lwIP: it keeps to its own state and memory and reaches the device
  only through the output hook of the interface. Its memory is neither the DMA buffers nor
  the buffer of the service.
\<close>

definition lwip_guard :: "u32 \<Rightarrow> u32 \<Rightarrow> bool" where
  "lwip_guard rxp a \<longleftrightarrow> a - XDMA2_S2MM_BUFFER < 0x4000 \<or> a - XDMA2_MM2S_BUFFER < 0x4000 \<or> a - rxp < XTEMAC_MTU"

inductive lwip_acts :: "u32 \<Rightarrow> ('n, 'a) eth_scheme \<Rightarrow> ('n, 'a) eth_scheme \<Rightarrow> bool" for rxp s where
  none: "lwip_acts rxp s s"
| own: "lwip_acts rxp s s' \<Longrightarrow> (\<And>a. lwip_guard rxp a \<Longrightarrow> M a = mem s' a) \<Longrightarrow>
    lwip_acts rxp s (s'\<lparr>mem := M, stack := n\<rparr>)"
| out: "lwip_acts rxp s s' \<Longrightarrow> lwip_acts rxp s (snd (lwip_ethOutput q s'))"

definition lwip_ok :: "u32 \<Rightarrow> ('n, 'a) eth_scheme lwip_api \<Rightarrow> bool" where
  "lwip_ok rxp lw \<longleftrightarrow> (\<forall>s. (\<forall>l. lwip_acts rxp s (snd (pbuf_alloc lw l s)))
     \<and> (\<forall>p d. lwip_acts rxp s (pbuf_take lw p d s)) \<and> (\<forall>p. lwip_acts rxp s (snd (netif_input lw p s)))
     \<and> (\<forall>p. lwip_acts rxp s (pbuf_free lw p s)) \<and> lwip_acts rxp s (sys_check_timeouts lw s)
     \<and> lwip_acts rxp s (netif_set_link_up lw s) \<and> lwip_acts rxp s (netif_set_link_down lw s))"

text \<open>The packets handed to lwIP, in order.\<close>

fun net_inputs :: "history \<Rightarrow> u8 list list" where
  "net_inputs [] = []"
| "net_inputs (NetInput f # t) = net_inputs t @ [f]"
| "net_inputs (_ # t) = net_inputs t"

definition outside_tx :: "u32 \<Rightarrow> bool" where
  "outside_tx rxp \<longleftrightarrow> (\<forall>a. a - rxp < XTEMAC_MTU \<longrightarrow> \<not> a - XDMA2_MM2S_BUFFER < 0x4000)"

definition eth_inv :: "('n, 'a) eth_scheme \<Rightarrow> bool" where
  "eth_inv s \<longleftrightarrow> rx_ready 1536 s \<and> tx_inv 1536 s"

text \<open>What a call that does not receive keeps: the pending frames, the packets handed over and the
  buffer of the service.\<close>

definition eth_keeps :: "u32 \<Rightarrow> ('n, 'a) eth_scheme \<Rightarrow> ('n, 'a) eth_scheme \<Rightarrow> bool" where
  "eth_keeps rxp s s' \<longleftrightarrow> (eth_inv s \<longrightarrow> eth_inv s' \<and> rx_frames s' = rx_frames s
     \<and> net_inputs (bus s') = net_inputs (bus s) \<and> (\<forall>a. a - rxp < XTEMAC_MTU \<longrightarrow> mem s' a = mem s a))"

text \<open>What every call of the service before it polls the signals keeps.\<close>

definition sig_keeps :: "('n, 'a) eth_scheme \<Rightarrow> ('n, 'a) eth_scheme \<Rightarrow> bool" where
  "sig_keeps s s' \<longleftrightarrow> ethdma_rxbuserr s' = ethdma_rxbuserr s \<and> ethdma_txbuserr s' = ethdma_txbuserr s
     \<and> link_sig s' = link_sig s \<and> link_reg s' = link_reg s \<and> (\<forall>g. raised g (bus s) \<longrightarrow> raised g (bus s'))"

section \<open>Lemmas\<close>

lemma eth_keeps_trans: "eth_keeps rxp s s' \<Longrightarrow> eth_keeps rxp s' s'' \<Longrightarrow> eth_keeps rxp s s''"
  by (auto simp: eth_keeps_def)

lemma sig_keeps_trans: "sig_keeps s s' \<Longrightarrow> sig_keeps s' s'' \<Longrightarrow> sig_keeps s s''"
  by (auto simp: sig_keeps_def)

lemma sig_keeps_refl [simp]: "sig_keeps s s"
  by (simp add: sig_keeps_def)

lemma bds_apart: "i < 10 \<Longrightarrow> j < 10 \<Longrightarrow> rx_bd i \<noteq> tx_bd j"
proof -
  assume "i < 10" "j < 10"
  then have "rx_bd i - XDMA2_S2MM_BDRING < 640"
    by (simp add: bd_at_def word_less_nat_alt unat_of_nat unat_word_ariths)
  with rx_ring_misses_tx [OF \<open>j < 10\<close>] show ?thesis by metis
qed

lemma rx_chunk_inside:
  assumes "i < 10" "k < 1536"
  shows "XDMA2_S2MM_BUFFER + of_nat i * 1536 + of_nat k - XDMA2_S2MM_BUFFER < (0x4000 :: u32)"
  using unat_chunk(1) [of i 1536 k] assms by (simp add: word_less_nat_alt add.assoc)

lemma tx_chunk_inside:
  assumes "i < 9" "a - tx_buf 1536 i < l" "l < 1536"
  shows "a - XDMA2_MM2S_BUFFER < (0x4000 :: u32)"
proof -
  define d where "d = a - tx_buf 1536 i"
  have a: "a - XDMA2_MM2S_BUFFER = of_nat i * 1536 + d" by (simp add: d_def)
  have "unat d < 1536" using assms(2,3) by (simp add: d_def word_less_nat_alt)
  moreover have "unat (of_nat i * 1536 :: u32) = i * 1536"
    using unat_chunk(2) [of i 1536 0] assms(1) by simp
  ultimately show ?thesis unfolding a using assms(1)
    by (simp add: word_less_nat_alt unat_word_ariths)
qed

text \<open>The receive queue depends on its indices, its descriptors and its buffers only.\<close>

lemma rx_ready_cong:
  assumes "rx_ready 1536 s" and "eth_rxhead s' = eth_rxhead s" "eth_rxtail s' = eth_rxtail s"
    and "\<And>i. i < 10 \<Longrightarrow> bds s' (rx_bd i) = bds s (rx_bd i)"
    and "\<And>a. a - XDMA2_S2MM_BUFFER < 0x4000 \<Longrightarrow> mem s' a = mem s a"
  shows "rx_ready 1536 s' \<and> rx_frames s' = rx_frames s"
proof -
  have pend: "rx_pending s' = rx_pending s" by (simp add: rx_pending_def assms(2,3))
  have inv: "rx_inv s" "rx_inv s'" using assms(1-3) by (simp_all add: rx_ready_def rx_inv_def)
  have frame: "rx_frame s' i = rx_frame s i" if "i \<in> set (rx_pending s)" for i
  proof (rule rx_frame_cong)
    from that have i: "i < 10" by (rule rx_pending_bound [OF inv(1)])
    then show "bds s' (rx_bd i) = bds s (rx_bd i)" by (rule assms(4))
    fix k assume "k < length (rx_frame s i)"
    with assms(1) that have "k < 1536" by (auto simp: rx_ready_def)
    from assms(5) [OF rx_chunk_inside [OF i this]] assms(1) i
    show "mem s' (bd_buffer (bds s (rx_bd i)) + of_nat k) = mem s (bd_buffer (bds s (rx_bd i)) + of_nat k)"
      by (simp add: rx_ready_def)
  qed
  with assms(1,4) inv rx_pending_bound [OF inv(1)] show ?thesis
    by (auto simp: rx_ready_def rx_frames_def pend)
qed

lemma tx_inv_cong:
  assumes "tx_inv c s" "eth_txtail s' = eth_txtail s" "eth_txpkts s' = eth_txpkts s" "eth_txdepth s' = eth_txdepth s"
    and "\<And>i. i < 10 \<Longrightarrow> bds s' (tx_bd i) = bds s (tx_bd i)"
  shows "tx_inv c s'"
proof -
  have lk: "tx_locked s' = tx_locked s" "tx_count s' = tx_count s"
    using assms(2,3) by (simp_all add: tx_locked_def tx_count_def)
  have "tx_count s \<le> 9" using assms(1) by (auto simp: tx_inv_def tx_ready_def tx_count_def split: if_splits)
  then have "length (tx_frame s' i) = length (tx_frame s i)" if "i < tx_count s" for i
    using that assms(5) by (simp add: tx_frame_def Let_def)
  with assms lk show ?thesis by (auto simp: tx_inv_def tx_ready_def tx_frames_def)
qed

lemma enque_bus:
  assumes "ethdma_txsgenque p l s = (b, s')"
  shows "net_inputs (bus s') = net_inputs (bus s)" "sig_keeps s s'" "eth_rxhead s' = eth_rxhead s" "eth_rxtail s' = eth_rxtail s"
  using assms by (auto simp: ethdma_txsgenque_def Let_def xdcache_flush_def xdcache_invalidate_def emit_def
      sig_keeps_def split: if_splits)

lemma enque_keeps:
  assumes out: "outside_tx rxp" and l: "unat l < 2 ^ 16" and enq: "ethdma_txsgenque p l s = (b, s')"
  shows "eth_keeps rxp s s'"
proof -
  have "eth_inv s' \<and> rx_frames s' = rx_frames s \<and> (\<forall>a. a - rxp < XTEMAC_MTU \<longrightarrow> mem s' a = mem s a)" if inv: "eth_inv s"
  proof (cases "\<not> tx_locked s \<and> tx_count s < 9 \<and> l < 1536")
    case True
    from inv have rdy: "tx_ready 1536 s" and tx: "tx_inv 1536 s" and rx: "rx_ready 1536 s"
      by (auto simp: eth_inv_def tx_inv_def)
    from enque_accepted [OF rdy, of l p] enq True obtain t where
      s': "s' = s\<lparr>mem := memcpy (tx_buf 1536 (tx_count s)) p l (mem s),
        bds := (bds s)(tx_bd (tx_count s) := enq_desc l (bds s (tx_bd (tx_count s)))),
        eth_txtail := eth_txtail s + 1, bus := t\<rparr>" by auto
    have mem: "mem s' a = mem s a" if "\<not> a - XDMA2_MM2S_BUFFER < 0x4000" for a
    proof -
      have "\<not> a - tx_buf 1536 (tx_count s) < l" using that tx_chunk_inside [of "tx_count s" a l] True by blast
      then show ?thesis unfolding s' by (simp add: memcpy_def)
    qed
    have "rx_ready 1536 s' \<and> rx_frames s' = rx_frames s"
    proof (rule rx_ready_cong [OF rx enque_bus(3,4) [OF enq]])
      show "bds s' (rx_bd i) = bds s (rx_bd i)" if "i < 10" for i
        using that True bds_apart [of i "tx_count s"] by (simp add: s')
      show "mem s' a = mem s a" if "a - XDMA2_S2MM_BUFFER < 0x4000" for a
        using that by (intro mem) (auto simp: word_less_nat_alt unat_sub_if' split: if_splits)
    qed
    moreover have "tx_inv 1536 s'" using enque_cases [OF tx l enq] by simp
    ultimately show ?thesis using out mem by (auto simp: eth_inv_def outside_tx_def)
  next
    case False
    from inv have tx: "tx_inv 1536 s" and rx: "rx_ready 1536 s" by (auto simp: eth_inv_def)
    have "length (tx_frames s) = tx_count s" by (simp add: tx_frames_def)
    with enque_cases [OF tx l enq] False have "mem s' = mem s" "bds s' = bds s" "tx_inv 1536 s'" by (auto split: if_splits)
    with rx_ready_cong [OF rx enque_bus(3,4) [OF enq]] show ?thesis by (auto simp: eth_inv_def)
  qed
  with enque_bus(1) [OF enq] show ?thesis by (simp add: eth_keeps_def)
qed

lemma ethOutput_keeps: "outside_tx rxp \<Longrightarrow> eth_keeps rxp s (snd (lwip_ethOutput q s)) \<and> sig_keeps s (snd (lwip_ethOutput q s))"
proof (induction q s rule: lwip_ethOutput.induct)
  case (1 s)
  then show ?case by (simp add: eth_keeps_def)
next
  case (2 payload len q s)
  obtain b s' where enq: "ethdma_txsgenque payload (ucast len) s = (b, s')" by fastforce
  have "unat (ucast len :: u32) < 2 ^ 16" using unsigned_less [of len] by (simp add: unat_ucast_up)
  note keeps = enque_keeps [OF "2.prems" this enq] enque_bus(2) [OF enq]
  from 2 enq keeps show ?case
    by (auto intro: eth_keeps_trans sig_keeps_trans)
qed

lemma own_keeps:
  assumes "\<And>a. lwip_guard rxp a \<Longrightarrow> M a = mem s a"
  shows "eth_keeps rxp s (s\<lparr>mem := M, stack := n\<rparr>)"
  using assms rx_ready_cong [of s "s\<lparr>mem := M, stack := n\<rparr>"] tx_inv_cong [of 1536 s "s\<lparr>mem := M, stack := n\<rparr>"]
  by (auto simp: eth_keeps_def eth_inv_def lwip_guard_def)

lemma lwip_acts_keeps:
  assumes "lwip_acts rxp s s'" "outside_tx rxp"
  shows "eth_keeps rxp s s'" "sig_keeps s s'"
  using assms
proof (induction rule: lwip_acts.induct)
  case none
  case 1 show ?case by (simp add: eth_keeps_def)
  case 2 show ?case by simp
next
  case (own s' M n)
  case 1 from own own_keeps [of rxp M s' n] 1 show ?case by (blast intro: eth_keeps_trans)
  case 2
  have "sig_keeps s' (s'\<lparr>mem := M, stack := n\<rparr>)" by (simp add: sig_keeps_def)
  with own 2 show ?case by (blast intro: sig_keeps_trans)
next
  case (out s' q)
  case 1 from out ethOutput_keeps [OF 1, of s' q] 1 show ?case by (blast intro: eth_keeps_trans)
  case 2 from out ethOutput_keeps [OF 2, of s' q] 2 show ?case by (blast intro: sig_keeps_trans)
qed

text \<open>Reading one frame.\<close>

lemma rxsgcmplt_bus:
  assumes "ethdma_rxsgcmplt p l s = (b, n, s')"
  shows "net_inputs (bus s') = net_inputs (bus s)" "sig_keeps s s'" "eth_txtail s' = eth_txtail s"
    "eth_txpkts s' = eth_txpkts s" "eth_txdepth s' = eth_txdepth s"
    "\<forall>a. a \<noteq> rx_bd (unat (eth_rxtail s)) \<longrightarrow> bds s' a = bds s a"
    "n \<noteq> None \<Longrightarrow> b = bd_buffer (bds s (rx_bd (unat (eth_rxtail s))))"
  using assms by (auto simp: ethdma_rxsgcmplt_def rx_bd_tail Let_def xdcache_flush_def xdcache_invalidate_def emit_def
      sig_keeps_def split: if_splits)

lemma rx_buffer_nonzero: "rx_ready 1536 s \<Longrightarrow> i < 10 \<Longrightarrow> bd_buffer (bds s (rx_bd i)) \<noteq> 0"
  by (auto simp: rx_ready_def word_unat_eq_iff unat_word_ariths unat_of_nat)

lemma read_frame:
  assumes inv: "eth_inv s" and fr: "rx_frames s = f # fs" and out: "outside_rx rxp XTEMAC_MTU"
  obtains b s' where "ethdma_rxsgcmplt rxp XTEMAC_MTU s = (b, Some (of_nat (length f)), s')" "b \<noteq> 0" "eth_inv s'"
    "rx_frames s' = fs" "bytes_at (mem s') rxp (length f) = f" "net_inputs (bus s') = net_inputs (bus s)" "length f \<le> 1536"
proof -
  have rx: "rx_ready 1536 s" and tx: "tx_inv 1536 s" using inv by (auto simp: eth_inv_def)
  from fr have "f \<in> set (rx_frames s)" by simp
  with rx have len: "length f \<le> unat (1536 :: u32)" by (auto simp: rx_frames_def rx_ready_def)
  have tl: "unat (eth_rxtail s) < 10" using rx by (simp add: rx_ready_def rx_inv_def)
  from rx_take_frame [OF rx fr len out] obtain b s' where
    eq: "ethdma_rxsgcmplt rxp XTEMAC_MTU s = (b, Some (of_nat (length f)), s')" and rx': "rx_ready 1536 s'"
    and copy: "bytes_at (mem s') rxp (length f) = f" "rx_frames s' = fs" by blast
  note bus = rxsgcmplt_bus [OF eq]
  have "tx_inv 1536 s'"
    using bus(6) bds_apart [OF tl] by (intro tx_inv_cong [OF tx bus(3-5)]) metis
  moreover have "b \<noteq> 0" using bus(7) rx_buffer_nonzero [OF rx tl] by simp
  ultimately show ?thesis using that [OF eq] rx' copy bus(1) len by (simp add: eth_inv_def)
qed

lemma lwip_okD:
  assumes "lwip_ok rxp lw"
  shows "lwip_acts rxp s (snd (pbuf_alloc lw l s))" "lwip_acts rxp s (pbuf_take lw p d s)"
    "lwip_acts rxp s (snd (netif_input lw p s))" "lwip_acts rxp s (pbuf_free lw p s)"
    "lwip_acts rxp s (sys_check_timeouts lw s)" "lwip_acts rxp s (netif_set_link_up lw s)"
    "lwip_acts rxp s (netif_set_link_down lw s)"
  using assms by (auto simp: lwip_ok_def)

lemma eth_keepsD:
  assumes "eth_keeps rxp s s'" "eth_inv s"
  shows "eth_inv s'" "rx_frames s' = rx_frames s" "net_inputs (bus s') = net_inputs (bus s)"
    "n \<le> 1536 \<Longrightarrow> bytes_at (mem s') rxp n = bytes_at (mem s) rxp n"
proof -
  show "eth_inv s'" "rx_frames s' = rx_frames s" "net_inputs (bus s') = net_inputs (bus s)"
    using assms by (auto simp: eth_keeps_def)
  have "mem s' (rxp + of_nat i) = mem s (rxp + of_nat i)" if "i < n" "n \<le> 1536" for i
    using assms that by (auto simp: eth_keeps_def word_less_nat_alt unat_of_nat)
  then show "n \<le> 1536 \<Longrightarrow> bytes_at (mem s') rxp n = bytes_at (mem s) rxp n" by (intro bytes_at_cong)
qed

text \<open>Handing a packet over, once its pbuf is there.\<close>

lemma emit_keeps:
  "eth_inv (emit e s) = eth_inv s" "rx_frames (emit e s) = rx_frames s"
  by (simp_all add: emit_def eth_inv_def rx_ready_def rx_inv_def rx_frames_def rx_pending_def rx_frame_def)

lemma hand_over:
  assumes ok: "lwip_ok rxp lw" and out: "outside_tx rxp" and inv: "eth_inv s"
    and inp: "netif_input lw p (emit (NetInput f) (pbuf_take lw p d s)) = (err, s')"
  shows "eth_inv s'" "rx_frames s' = rx_frames s" "net_inputs (bus s') = net_inputs (bus s) @ [f]"
    "eth_inv (pbuf_free lw p s')" "rx_frames (pbuf_free lw p s') = rx_frames s"
    "net_inputs (bus (pbuf_free lw p s')) = net_inputs (bus s) @ [f]"
proof -
  let ?s1 = "pbuf_take lw p d s"
  note k1 = eth_keepsD [OF lwip_acts_keeps(1) [OF lwip_okD(2) [OF ok, where p = p and d = d] out] inv]
  have inv2: "eth_inv (emit (NetInput f) ?s1)" using k1(1) by (simp add: emit_keeps)
  note k2 = eth_keepsD [OF lwip_acts_keeps(1) [OF lwip_okD(3) [OF ok, where p = p] out] inv2, unfolded inp snd_conv]
  from k1 k2 show "eth_inv s'" "rx_frames s' = rx_frames s" "net_inputs (bus s') = net_inputs (bus s) @ [f]"
    by (simp_all add: emit_keeps bus_emit)
  with eth_keepsD [OF lwip_acts_keeps(1) [OF lwip_okD(4) [OF ok, where p = p] out] k2(1)]
  show "eth_inv (pbuf_free lw p s')" "rx_frames (pbuf_free lw p s') = rx_frames s"
    "net_inputs (bus (pbuf_free lw p s')) = net_inputs (bus s) @ [f]" by simp_all
qed

lemma ethInput_loop_delivers:
  assumes "lwip_ok rxp lw" "outside_tx rxp" "outside_rx rxp XTEMAC_MTU" "eth_inv s"
    and "ethInput_loop lw rxp (length (rx_frames s)) ae ie s = (ae', ie', s')"
  shows "\<exists>fs. subseq fs (rx_frames s) \<and> net_inputs (bus s') = net_inputs (bus s) @ fs \<and> rx_frames s' = []
    \<and> eth_inv s' \<and> (\<not> ae' \<longrightarrow> fs = rx_frames s) \<and> (ae \<longrightarrow> ae') \<and> (ae' \<longrightarrow> ae \<or> (\<exists>l s. fst (pbuf_alloc lw l s) = 0))"
  using assms(4,5)
proof (induction "rx_frames s" arbitrary: s ae ie)
  case Nil
  then show ?case by auto
next
  case (Cons f fs)
  note fr = Cons.hyps(2) [symmetric]
  obtain b s1 where take: "ethdma_rxsgcmplt rxp XTEMAC_MTU s = (b, Some (of_nat (length f)), s1)" "b \<noteq> 0"
    and s1: "eth_inv s1" "rx_frames s1 = fs" "bytes_at (mem s1) rxp (length f) = f"
      "net_inputs (bus s1) = net_inputs (bus s)" "length f \<le> 1536"
    using read_frame [OF Cons.prems(1) fr assms(3)] by metis
  have u: "unat (of_nat (length f) :: u32) = length f" using s1(5) by (simp add: unat_of_nat)
  obtain p s2 where alloc: "pbuf_alloc lw (ucast (of_nat (length f) :: u32)) s1 = (p, s2)" by fastforce
  note k = eth_keepsD [OF lwip_acts_keeps(1) [OF lwip_okD(1) [OF assms(1),
        where l = "ucast (of_nat (length f) :: u32)"] assms(2)] s1(1), unfolded alloc snd_conv]
  have keep: "bytes_at (mem s2) rxp (length f) = f" using k(4) s1(3,5) by simp
  show ?case
  proof (cases "p = 0")
    case True
    with Cons.prems(2) fr take alloc have run: "ethInput_loop lw rxp (length (rx_frames s2)) True ie s2 = (ae', ie', s')"
      using k(2) s1(2) by simp
    from Cons.hyps(1) [OF _ k(1) run] k(2,3) s1 obtain gs where
      "subseq gs fs" "net_inputs (bus s') = net_inputs (bus s) @ gs" "rx_frames s' = []" "eth_inv s'" "ae'" by auto
    moreover have "fst (pbuf_alloc lw (ucast (of_nat (length f) :: u32)) s1) = 0" using alloc True by simp
    ultimately show ?thesis unfolding fr by (intro exI [of _ gs]) auto
  next
    case False
    obtain err s3 where inp: "netif_input lw p (emit (NetInput f) (pbuf_take lw p f s2)) = (err, s3)" by fastforce
    define s4 where "s4 = (if err \<noteq> ERR_OK then pbuf_free lw p s3 else s3)"
    note ho = hand_over [OF assms(1,2) k(1) inp]
    have s4: "eth_inv s4" "rx_frames s4 = fs" "net_inputs (bus s4) = net_inputs (bus s) @ [f]"
      using ho k(2,3) s1(2,4) by (auto simp: s4_def)
    from Cons.prems(2) fr take alloc False inp keep u
    have run: "ethInput_loop lw rxp (length (rx_frames s4)) ae (if err \<noteq> ERR_OK then True else ie) s4 = (ae', ie', s')"
      using s4(2) by (simp add: s4_def Let_def split: if_splits)
    from Cons.hyps(1) [OF _ s4(1) run] s4 obtain gs where
      "subseq gs fs" "net_inputs (bus s') = net_inputs (bus s) @ f # gs" "rx_frames s' = []" "eth_inv s'"
      "\<not> ae' \<longrightarrow> gs = fs" "ae \<longrightarrow> ae'" "ae' \<longrightarrow> ae \<or> (\<exists>l s. fst (pbuf_alloc lw l s) = 0)" by auto
    then show ?thesis unfolding fr by (intro exI [of _ "f # gs"]) auto
  qed
qed

text \<open>The part of the service before it polls the signals.\<close>

lemma lwip_sig:
  assumes "lwip_ok rxp lw" "outside_tx rxp"
  shows "sig_keeps s (snd (pbuf_alloc lw l s))" "sig_keeps s (pbuf_take lw p d s)"
    "sig_keeps s (snd (netif_input lw p s))" "sig_keeps s (pbuf_free lw p s)"
    "sig_keeps s (sys_check_timeouts lw s)" "sig_keeps s (netif_set_link_up lw s)"
    "sig_keeps s (netif_set_link_down lw s)"
  using lwip_okD [OF assms(1)] lwip_acts_keeps(2) [OF _ assms(2)] by blast+

lemma emit_sig: "(\<And>S. e \<noteq> SigMask False S) \<Longrightarrow> sig_keeps s (emit e s)"
proof (cases e)
  case (SigMask b S)
  then show "(\<And>S. e \<noteq> SigMask False S) \<Longrightarrow> sig_keeps s (emit e s)"
    by (cases b) (auto simp: sig_keeps_def emit_def)
qed (auto simp: sig_keeps_def emit_def)

lemma ethInput_loop_sig:
  assumes "lwip_ok rxp lw" "outside_tx rxp"
  shows "sig_keeps s (snd (snd (ethInput_loop lw rxp n ae ie s)))"
proof (induction n arbitrary: ae ie s)
  case (Suc n)
  obtain b len_p s1 where take: "ethdma_rxsgcmplt rxp XTEMAC_MTU s = (b, len_p, s1)" by (metis prod_cases3)
  obtain p s2 where alloc: "pbuf_alloc lw (ucast (the len_p)) s1 = (p, s2)" by fastforce
  define f where "f = bytes_at (mem s2) rxp (unat (the len_p))"
  obtain err s3 where inp: "netif_input lw p (emit (NetInput f) (pbuf_take lw p f s2)) = (err, s3)" by fastforce
  have s1: "sig_keeps s s1" by (rule rxsgcmplt_bus(2) [OF take])
  moreover have "sig_keeps s1 s2" using lwip_sig(1) [OF assms, of s1] alloc by (metis snd_conv)
  ultimately have s2: "sig_keeps s s2" by (rule sig_keeps_trans)
  have "sig_keeps s2 s3"
    using lwip_sig(2) [OF assms, of s2 p f] emit_sig [of "NetInput f" "pbuf_take lw p f s2"] lwip_sig(3) [OF assms] inp
    by (metis bus_event.distinct sig_keeps_trans snd_conv)
  then have s3: "sig_keeps s s3" using s2 by (rule sig_keeps_trans [rotated])
  then have s4: "sig_keeps s (pbuf_free lw p s3)" using lwip_sig(4) [OF assms] by (rule sig_keeps_trans)
  show ?case
    using sig_keeps_trans [OF s2 Suc.IH] sig_keeps_trans [OF s3 Suc.IH] sig_keeps_trans [OF s4 Suc.IH] s1
    by (simp add: take alloc inp f_def [symmetric] Let_def)
qed simp

lemma ethInput_sig:
  assumes "lwip_ok rxp lw" "outside_tx rxp"
  shows "sig_keeps s (lwip_ethInput lw rxp s)"
proof -
  obtain ae ie s1 where run: "ethInput_loop lw rxp (unat (eth_rxqcount s)) False False s = (ae, ie, s1)" by (metis prod_cases3)
  have "sig_keeps s s1" using ethInput_loop_sig [OF assms, of s] run by (metis snd_conv)
  then show ?thesis
    by (auto simp: lwip_ethInput_def run Let_def intro!: sig_keeps_trans [OF _ emit_sig])
qed

lemma flush_sig: "sig_keeps s (ethdma_txsgflush s)"
  by (auto simp: ethdma_txsgflush_def xsgdma_seqTrans_def st32_def emit_def sig_keeps_def Let_def)

lemma link_event_ok:
  assumes "lwip_ok rxp lw" "outside_tx rxp" and hw: "mdio_hw hw phy"
  shows "\<exists>s' t. eth_link_event hw junk lw s = Some s' \<and> link_reg s' = (if fld_on phy_bmsr ''link_satus'' (phy t 1)
      \<and> fld_on phy_bmsr ''autoneg_cmplt'' (phy t 1) then ETH_LINKUP else ETH_LINKDOWN)
    \<and> \<not> link_sig s' \<and> ethdma_rxbuserr s' = ethdma_rxbuserr s \<and> ethdma_txbuserr s' = ethdma_txbuserr s"
proof -
  obtain up t1 t2 lk where pl: "xtemac_phylink hw (Some (phylk s)) s = Some (up, Some lk, s\<lparr>link_sig := False, bus := t2\<rparr>)"
    and up: "up = (fld_on phy_bmsr ''link_satus'' (phy t1 1) \<and> fld_on phy_bmsr ''autoneg_cmplt'' (phy t1 1))"
    using phylink_ok [OF hw, of "phylk s" s] unfolding Let_def by blast
  let ?s = "s\<lparr>link_sig := False, bus := t2, phylk := lk, link_reg := (if up then ETH_LINKUP else ETH_LINKDOWN)\<rparr>"
  have "\<exists>s'. eth_link_event hw junk lw s = Some s' \<and> link_reg s' = (if up then ETH_LINKUP else ETH_LINKDOWN)
    \<and> \<not> link_sig s' \<and> ethdma_rxbuserr s' = ethdma_rxbuserr s \<and> ethdma_txbuserr s' = ethdma_txbuserr s"
  proof (cases up)
    case True
    obtain t3 where en: "xtemac_trxenable hw junk ?s = Some (?s\<lparr>link_sig := False, bus := t3\<rparr>)"
      using trxenable_ok [OF hw, of junk ?s] unfolding Let_def by blast
    let ?s3 = "?s\<lparr>link_sig := False, bus := t3\<rparr>"
    have "eth_link_event hw junk lw s = Some (if netif_default lw ?s3 then netif_set_link_up lw ?s3 else ?s3)"
      using True en by (simp add: eth_link_event_def eth_linkup_def pl Let_def)
    with lwip_sig(6) [OF assms(1,2), of ?s3] True show ?thesis by (simp add: sig_keeps_def)
  next
    case False
    let ?s3 = "xtemac_trxdisable hw ?s"
    have s3: "\<not> link_sig ?s3" "ethdma_rxbuserr ?s3 = ethdma_rxbuserr s" "ethdma_txbuserr ?s3 = ethdma_txbuserr s"
      "link_reg ?s3 = (if up then ETH_LINKUP else ETH_LINKDOWN)"
      by (simp_all add: xtemac_trxdisable_def st_fld_def ld32_def st32_def emit_def Let_def)
    have "eth_link_event hw junk lw s = Some (if netif_default lw ?s3 then netif_set_link_down lw ?s3 else ?s3)"
      using False by (simp add: eth_link_event_def eth_linkdown_def pl Let_def)
    with lwip_sig(7) [OF assms(1,2), of ?s3] False s3 show ?thesis by (simp add: sig_keeps_def)
  qed
  then show ?thesis unfolding up by blast
qed

text \<open>The reaction to the signals.\<close>

lemma signals_ok:
  assumes lw: "lwip_ok rxp lw" "outside_tx rxp" and hw: "mdio_hw hw phy" "ethdma_hw hw" "temac_hw hw"
    and sig: "link_sig s \<or> ethdma_rxbuserr s \<or> ethdma_txbuserr s"
  shows "\<exists>s' t. eth_signals hw junk lw sgls s = Some s' \<and> hd (bus s') = SigMask False sgls \<and> \<not> link_sig s'
    \<and> \<not> ethdma_rxbuserr s' \<and> \<not> ethdma_txbuserr s'
    \<and> (link_sig s \<and> \<not> ethdma_rxbuserr s \<and> \<not> ethdma_txbuserr s \<longrightarrow> link_reg s' = (if fld_on phy_bmsr ''link_satus'' (phy t 1)
      \<and> fld_on phy_bmsr ''autoneg_cmplt'' (phy t 1) then ETH_LINKUP else ETH_LINKDOWN))
    \<and> (ethdma_rxbuserr s \<or> ethdma_txbuserr s \<longrightarrow>
         eth_inv s' \<and> rx_frames s' = [] \<and> tx_frames s' = [] \<and> \<not> tx_locked s')"
proof -
  obtain s1 t where s1: "(if link_sig s then eth_link_event hw junk lw s else Some s) = Some s1" "\<not> link_sig s1"
    "ethdma_rxbuserr s1 = ethdma_rxbuserr s" "ethdma_txbuserr s1 = ethdma_txbuserr s"
    "link_sig s \<longrightarrow> link_reg s1 = (if fld_on phy_bmsr ''link_satus'' (phy t 1)
      \<and> fld_on phy_bmsr ''autoneg_cmplt'' (phy t 1) then ETH_LINKUP else ETH_LINKDOWN)"
    using link_event_ok [OF lw hw(1), of junk s] by (cases "link_sig s") auto
  let ?e = "Jentry ''eth DMA internal error!''"
  obtain s2 where rec: "xtemac_recover hw junk (emit ?e s1) = Some s2" and
    s2: "rx_ready 1536 s2" "rx_frames s2 = []" "tx_inv 1536 s2" "tx_frames s2 = []" "\<not> tx_locked s2"
      "\<not> link_sig s2" "\<not> ethdma_rxbuserr s2" "\<not> ethdma_txbuserr s2"
    using recover_ok [OF hw, of junk "emit ?e s1"] by blast
  have link: "(if (link_sig s \<or> ethdma_txbuserr s \<or> ethdma_rxbuserr s) \<and> link_sig s then eth_link_event hw junk lw s else Some s) = Some s1"
    using s1(1) by (cases "link_sig s") simp_all
  have eq: "eth_signals hw junk lw sgls s =
      Some (emit (SigMask False sgls) (if ethdma_rxbuserr s \<or> ethdma_txbuserr s then s2 else s1))"
    unfolding eth_signals_def Let_def xtemac_phylinkSignal_def ethdma_rxbuserrSignal_def ethdma_txbuserrSignal_def
      link bind.bind_lunit s1(3,4)
    using sig rec by auto
  show ?thesis
  proof (cases "ethdma_rxbuserr s \<or> ethdma_txbuserr s")
    case True
    then show ?thesis unfolding eq using s2
      by (intro exI [of _ "emit (SigMask False sgls) s2"]) (auto simp: eth_inv_def emit_def rx_ready_def rx_inv_def rx_frames_def rx_pending_def rx_frame_def)
  next
    case False
    then show ?thesis unfolding eq using s1 by (intro exI [of _ "emit (SigMask False sgls) s1"] exI [of _ t]) (auto simp: emit_def)
  qed
qed

text \<open>One run of the input handler.\<close>

lemma ethInput_ok:
  assumes "lwip_ok rxp lw" "outside_tx rxp" "outside_rx rxp XTEMAC_MTU" "eth_inv s"
    and "netif_default lw s" "netif_is_up lw s" "netif_is_link_up lw s"
  shows "\<exists>fs. net_inputs (bus (lwip_ethInput lw rxp s)) = net_inputs (bus s) @ fs \<and> subseq fs (rx_frames s)
    \<and> rx_frames (lwip_ethInput lw rxp s) = [] \<and> eth_inv (lwip_ethInput lw rxp s)
    \<and> (fs \<noteq> rx_frames s \<longrightarrow>
         hd (bus (lwip_ethInput lw rxp s)) = Jentry ''lwIP cant allocate the buffer for input packet'')
    \<and> ((\<forall>l z. fst (pbuf_alloc lw l z) \<noteq> 0) \<longrightarrow> fs = rx_frames s)"
proof -
  have inv: "rx_inv s" using assms(4) by (simp add: eth_inv_def rx_ready_def)
  have n: "unat (eth_rxqcount s) = length (rx_frames s)"
    using rxqcount_length [OF inv] rx_pending_length [OF inv] by (simp add: rx_frames_def unat_of_nat)
  obtain ae ie s1 where run: "ethInput_loop lw rxp (length (rx_frames s)) False False s = (ae, ie, s1)" by (metis prod_cases3)
  from ethInput_loop_delivers [OF assms(1-4) run] obtain fs where
    fs: "subseq fs (rx_frames s)" "net_inputs (bus s1) = net_inputs (bus s) @ fs" "rx_frames s1 = []" "eth_inv s1"
      "\<not> ae \<longrightarrow> fs = rx_frames s" "ae \<longrightarrow> (\<exists>l s. fst (pbuf_alloc lw l s) = 0)" by auto
  define s2 where "s2 = (if ie then emit (Jentry ''lwIP input packet processing error'') s1 else s1)"
  have "net_inputs (bus s2) = net_inputs (bus s1)" "rx_frames s2 = rx_frames s1" "eth_inv s2 = eth_inv s1"
    by (simp_all add: s2_def emit_keeps bus_emit)
  moreover have "lwip_ethInput lw rxp s =
      (if ae then emit (Jentry ''lwIP cant allocate the buffer for input packet'') s2 else s2)"
    using assms(5-7) by (simp add: lwip_ethInput_def n run s2_def)
  ultimately show ?thesis using fs by (intro exI [of _ fs]) (cases ae; auto simp: emit_keeps bus_emit)
qed

text \<open>Frames arriving between runs of the input handler. Each run empties the queue.\<close>

lemma arrive_inv:
  assumes "eth_inv s" "length f \<le> 1536" "rx_ioc_hw hw"
  shows "eth_inv (rx_arrive hw f s)" "rx_frames (rx_arrive hw f s) = push_drop 9 (rx_frames s) f"
proof -
  let ?bd = "rx_bd (unat (eth_rxhead s))"
  have rx: "rx_ready 1536 s" and tx: "tx_inv 1536 s" using assms(1) by (auto simp: eth_inv_def)
  then have h: "unat (eth_rxhead s) < 10" by (simp add: rx_ready_def rx_inv_def)
  have "eth_txtail (rx_arrive hw f s) = eth_txtail s" "eth_txpkts (rx_arrive hw f s) = eth_txpkts s"
    "eth_txdepth (rx_arrive hw f s) = eth_txdepth s"
    by (simp_all add: rx_arrive_def dma_complete_def onethdma_rxirq_def xsgdma_ackirq_def ld32_def st32_def emit_def
        kernel_raise_def Let_def split_beta)
  moreover have "bds (rx_arrive hw f s) = (bds s)(?bd := (bds s ?bd)\<lparr>bd_status := done_status (length f)\<rparr>)"
    by (simp add: rx_arrive_def Let_def rxirq_store dma_complete_def)
  ultimately have "tx_inv 1536 (rx_arrive hw f s)"
    using bds_apart [OF h] by (intro tx_inv_cong [OF tx]) (simp_all add: eq_commute)
  with rx_arrive_frames [OF rx _, of f hw] assms(2,3)
  show "eth_inv (rx_arrive hw f s)" "rx_frames (rx_arrive hw f s) = push_drop 9 (rx_frames s) f"
    by (simp_all add: eth_inv_def rx_ioc_hw_def)
qed

lemma arrive_inputs: "net_inputs (bus (rx_arrive hw f s)) = net_inputs (bus s)"
  by (simp add: rx_arrive_def dma_complete_def onethdma_rxirq_def xsgdma_ackirq_def ld32_def st32_def emit_def
      kernel_raise_def Let_def split_beta)

datatype eth_evt = Frame "u8 list" | Input

fun eth_evts ::
    "hw \<Rightarrow> ('n, 'a) eth_scheme lwip_api \<Rightarrow> u32 \<Rightarrow> eth_evt list \<Rightarrow> ('n, 'a) eth_scheme \<Rightarrow> ('n, 'a) eth_scheme" where
  "eth_evts hw lw rxp [] s = s"
| "eth_evts hw lw rxp (Frame f # es) s = eth_evts hw lw rxp es (rx_arrive hw f s)"
| "eth_evts hw lw rxp (Input # es) s = eth_evts hw lw rxp es (lwip_ethInput lw rxp s)"

text \<open>The same events on a queue of nine frames that drops its oldest, and the packets passed on.\<close>

fun net_queue :: "eth_evt list \<Rightarrow> u8 list list \<Rightarrow> u8 list list \<times> u8 list list" where
  "net_queue [] q = (q, [])"
| "net_queue (Frame f # es) q = net_queue es (push_drop 9 q f)"
| "net_queue (Input # es) q = (let (q', out) = net_queue es [] in (q', q @ out))"

definition lwip_ready :: "('n, 'a) eth_scheme lwip_api \<Rightarrow> bool" where
  "lwip_ready lw \<longleftrightarrow> (\<forall>s l. netif_default lw s \<and> netif_is_up lw s \<and> netif_is_link_up lw s \<and> fst (pbuf_alloc lw l s) \<noteq> 0)"

lemma ethInput_all:
  assumes "lwip_ok rxp lw" "outside_tx rxp" "outside_rx rxp XTEMAC_MTU" "lwip_ready lw" "eth_inv s"
  shows "net_inputs (bus (lwip_ethInput lw rxp s)) = net_inputs (bus s) @ rx_frames s"
    "rx_frames (lwip_ethInput lw rxp s) = []" "eth_inv (lwip_ethInput lw rxp s)"
proof -
  have up: "netif_default lw s" "netif_is_up lw s" "netif_is_link_up lw s" "\<forall>l z. fst (pbuf_alloc lw l z) \<noteq> 0"
    using assms(4) by (auto simp: lwip_ready_def)
  from ethInput_ok [OF assms(1-3,5) up(1-3)] up(4)
  show "net_inputs (bus (lwip_ethInput lw rxp s)) = net_inputs (bus s) @ rx_frames s"
    "rx_frames (lwip_ethInput lw rxp s) = []" "eth_inv (lwip_ethInput lw rxp s)" by auto
qed

lemma eth_evts_queue:
  assumes "lwip_ok rxp lw" "outside_tx rxp" "outside_rx rxp XTEMAC_MTU" "lwip_ready lw" "rx_ioc_hw hw" "eth_inv s"
    and "\<And>f. Frame f \<in> set es \<Longrightarrow> length f \<le> 1536" and "net_queue es (rx_frames s) = (q, out)"
  shows "rx_frames (eth_evts hw lw rxp es s) = q \<and> eth_inv (eth_evts hw lw rxp es s)
    \<and> net_inputs (bus (eth_evts hw lw rxp es s)) = net_inputs (bus s) @ out"
  using assms(6-8)
proof (induction es arbitrary: s q out)
  case (Cons e es)
  show ?case
  proof (cases e)
    case (Frame f)
    with arrive_inv [OF Cons.prems(1) _ assms(5), of f] Cons arrive_inputs [of hw f s] show ?thesis by simp
  next
    case Input
    obtain q' out' where q: "net_queue es [] = (q', out')" by fastforce
    note run = ethInput_all [OF assms(1-4) Cons.prems(1)]
    from Cons.IH [OF run(3)] Cons.prems(2,3) run(1,2) q Input show ?thesis by simp
  qed
qed simp

section \<open>Properties\<close>


text \<open>A stack that accepts every packet and sends none, and the state after a recovery.\<close>

definition idle_stack :: "('n, 'a) eth_scheme lwip_api" where
  "idle_stack = \<lparr>netif_default = (\<lambda>_. True), netif_is_up = (\<lambda>_. True), netif_is_link_up = (\<lambda>_. True),
     pbuf_alloc = (\<lambda>l s. (1, s)), pbuf_take = (\<lambda>p d s. s), netif_input = (\<lambda>p s. (ERR_OK, s)), pbuf_free = (\<lambda>p s. s),
     sys_check_timeouts = (\<lambda>s. s), netif_set_link_up = (\<lambda>s. s), netif_set_link_down = (\<lambda>s. s),
     dhcp_supplied_address = (\<lambda>_. False), netif_dhcp_data = (\<lambda>_. False), netif_ip4_addr = (\<lambda>_. 0),
     netif_ip4_gw = (\<lambda>_. 0), netif_ip4_netmask = (\<lambda>_. 0), dhcp_start = (\<lambda>s. s), lwip_init = (\<lambda>s. s),
     netif_add = (\<lambda>a m g i s. snd (i s)), netif_set_default = (\<lambda>s. s), netif_set_up = (\<lambda>s. s),
     NETIF_FLAG_BROADCAST = 2, NETIF_FLAG_ETHARP = 8, NETIF_FLAG_IGMP = 32\<rparr>"

lemma idle_stack_ok: "lwip_ok rxp idle_stack"
  by (simp add: lwip_ok_def idle_stack_def lwip_acts.none)

definition eth_boot :: "unit eth" where
  "eth_boot = temac.extend temac_boot (eth.fields () \<lparr>speed = SPEED_10MBPS, link = LINK_HALF_DUPLEX\<rparr> ETH_LINKDOWN
     \<lparr>nif_name = [], nif_hwaddr_len = 0, nif_mtu = 0, nif_flags = 0, nif_output = NO_HOOK, nif_linkoutput = NO_HOOK\<rparr>)"

lemma eth_ready: "\<exists>s :: unit eth. eth_inv s \<and> rx_frames s = []"
  using recover_ok [OF lan_hw_ok(2) lan_hw_eth, of undefined eth_boot] by (auto simp: eth_inv_def)

lemma buffer_apart: "outside_tx 0x1000" "outside_rx 0x1000 XTEMAC_MTU"
  by (auto simp: outside_rx_def outside_tx_def word_less_nat_alt unat_sub_if' split: if_splits)




end
