(* ===== verification/Xtimer.thy ===== *)
theory Xtimer
  imports Xintc
begin

text \<open>
  The system timer (\<open>arch/mb_le/sys/xtimer.c\<close>) and the command that shows and waits on it
  (\<open>arch/mb_le/services/timer_service.c\<close>). A free-running 32-bit counter at 100 MHz is
  extended by software: its interrupt handler counts the overflows, and \<open>_xtimer_millis\<close>
  combines both into milliseconds, reading again when an overflow fell between the two reads.
\<close>

section \<open>The driver\<close>

definition XTIMER_IRQ :: u8 where "XTIMER_IRQ = 6"
definition XTIMER_MS_FREQ :: nat where "XTIMER_MS_FREQ = 100000000 div 1000"
definition XTIMER_MAX_MS :: nat where "XTIMER_MAX_MS = 0x100000000 div XTIMER_MS_FREQ"

definition xtimer_tcsr :: layout where
  "xtimer_tcsr =
     [(''MDT'', 1), (''UDT'', 1), (''GENT'', 1), (''CAPT'', 1), (''ARHT'', 1), (''LOAD'', 1), (''ENIT'', 1),
      (''ENT'', 1), (''TINT'', 1), (''PWMA'', 1), (''ENALL'', 1), (''CASC'', 1), (''reserved'', 20)]"

definition XTIMER_csr :: u32 where "XTIMER_csr = 0x41C00000"
definition XTIMER_lr :: u32 where "XTIMER_lr = 0x41C00004"
definition XTIMER_cntr :: u32 where "XTIMER_cntr = 0x41C00008"

record xtimer = machine +
  tmr_ovrflows :: u32

definition xtimer_start :: "hw \<Rightarrow> u32 \<Rightarrow> 'a xtimer_scheme \<Rightarrow> 'a xtimer_scheme option" where
  "xtimer_start hw timer_irq s =
     (let s = s\<lparr>tmr_ovrflows := 0\<rparr>;
          s = st_fld hw xtimer_tcsr ''ENT'' 0 XTIMER_csr s;
          s = st32 XTIMER_lr 0 s;
          s = st_fld hw xtimer_tcsr ''LOAD'' 1 XTIMER_csr s;
          tcsr = fld_set xtimer_tcsr ''ENT'' 1 0;
          tcsr = fld_set xtimer_tcsr ''ARHT'' 1 tcsr;
          tcsr = fld_set xtimer_tcsr ''ENIT'' 1 tcsr;
          s = st32 XTIMER_csr tcsr s
      in xintc_enableIRQ hw XTIMER_IRQ timer_irq s)"

definition xtimer_ticks :: "hw \<Rightarrow> 'a xtimer_scheme \<Rightarrow> u32 \<times> 'a xtimer_scheme" where
  "xtimer_ticks hw s = ld32 hw XTIMER_cntr s"

definition timer_irq :: "hw \<Rightarrow> 'a xtimer_scheme \<Rightarrow> 'a xtimer_scheme" where
  "timer_irq hw s =
     (let s = s\<lparr>tmr_ovrflows := tmr_ovrflows s + 1\<rparr>
      in st_fld hw xtimer_tcsr ''TINT'' 1 XTIMER_csr s)"

text \<open>
  The variable \<open>tmr_ovrflows\<close> is volatile: the interrupt handler may run before each of its two
  reads in the loop. Whether it does is decided by the interrupt line, a function of the
  history like every other input from the hardware. (The products and the sum of the result are
  computed in 64 bits and stored in 32.)
\<close>

definition irq_point :: "(history \<Rightarrow> bool) \<Rightarrow> hw \<Rightarrow> 'a xtimer_scheme \<Rightarrow> 'a xtimer_scheme" where
  "irq_point irq hw s = (if irq (bus s) then timer_irq hw s else s)"

partial_function (option) xtimer_millis_loop ::
    "(history \<Rightarrow> bool) \<Rightarrow> hw \<Rightarrow> 'a xtimer_scheme \<Rightarrow> (u32 \<times> u32 \<times> 'a xtimer_scheme) option" where
  "xtimer_millis_loop irq hw s =
     (let s1 = irq_point irq hw s;
          tmr_ovr = tmr_ovrflows s1;
          r = ld32 hw XTIMER_cntr s1;
          s2 = irq_point irq hw (snd r)
      in if tmr_ovr \<noteq> tmr_ovrflows s2 then xtimer_millis_loop irq hw s2
         else Some (tmr_ovr, fst r, s2))"

definition xtimer_millis ::
    "(history \<Rightarrow> bool) \<Rightarrow> hw \<Rightarrow> 'a xtimer_scheme \<Rightarrow> (u32 \<times> 'a xtimer_scheme) option" where
  "xtimer_millis irq hw s = do {
     (tmr_ovr, ticks, s) \<leftarrow> xtimer_millis_loop irq hw s;
     let millis = (of_nat XTIMER_MAX_MS * ucast tmr_ovr + ucast (ticks div of_nat XTIMER_MS_FREQ) :: u64);
     Some (ucast millis, s)
   }"

text \<open>The clock of the network stack (\<open>arch/mb_le/netdev.c\<close>).\<close>

definition sys_now ::
    "(history \<Rightarrow> bool) \<Rightarrow> hw \<Rightarrow> 'a xtimer_scheme \<Rightarrow> (u32 \<times> 'a xtimer_scheme) option" where
  "sys_now irq hw s = xtimer_millis irq hw s"

section \<open>The command\<close>

abbreviation WAIT_TIME_MILLIS :: u32 where "WAIT_TIME_MILLIS \<equiv> 5000"

partial_function (option) systime_wait ::
    "(history \<Rightarrow> bool) \<Rightarrow> hw \<Rightarrow> u32 \<Rightarrow> 'a xtimer_scheme \<Rightarrow> 'a xtimer_scheme option" where
  "systime_wait irq hw end_time s =
     Option.bind (xtimer_millis irq hw s)
       (\<lambda>r. if end_time > fst r then systime_wait irq hw end_time (snd r) else Some (snd r))"

definition systime_m :: "(history \<Rightarrow> bool) \<Rightarrow> hw \<Rightarrow> 'a xtimer_scheme \<Rightarrow> (int \<times> 'a xtimer_scheme) option" where
  "systime_m irq hw s = do {
     (now, s) \<leftarrow> xtimer_millis irq hw s;
     let s = emit (Out ''time since system startup: %d ms\<newline>'' [now]) s;
     let s = emit (Out ''wait %d milliseconds...\<newline>'' [WAIT_TIME_MILLIS]) s;
     (now, s) \<leftarrow> xtimer_millis irq hw s;
     let end_time = now + WAIT_TIME_MILLIS;
     s \<leftarrow> systime_wait irq hw end_time s;
     Some (0, s)
   }"

section \<open>The clock\<close>

text \<open>
  Documented behaviour of the device: the counter shows the clock ticks since it was
  started, modulo \<open>2 ^ 32\<close>; a bus access takes less than 1000 ticks. The interrupt line is
  active while the counter has overflowed more often than the handler has acknowledged.
\<close>

definition ovfs :: "nat \<Rightarrow> nat" where
  "ovfs T = T div 2 ^ 32"

fun acks :: "history \<Rightarrow> nat" where
  "acks [] = 0"
| "acks (Wr a v # t) = (if a = XTIMER_csr \<and> fld_on xtimer_tcsr ''TINT'' v then Suc (acks t) else acks t)"
| "acks (_ # t) = acks t"

definition clock_hw :: "(history \<Rightarrow> nat) \<Rightarrow> (history \<Rightarrow> bool) \<Rightarrow> hw \<Rightarrow> bool" where
  "clock_hw time irq hw \<longleftrightarrow>
     (\<forall>t e. time t \<le> time (e # t) \<and> time (e # t) < time t + 1000)
     \<and> (\<forall>t. hw t XTIMER_cntr = of_nat (time t))
     \<and> (\<forall>t. irq t \<longleftrightarrow> acks t < ovfs (time t))"

text \<open>The handler has counted what it has acknowledged, and is at most one overflow behind.\<close>

definition timer_inv :: "(history \<Rightarrow> nat) \<Rightarrow> 'a xtimer_scheme \<Rightarrow> bool" where
  "timer_inv time s \<longleftrightarrow> tmr_ovrflows s = of_nat (acks (bus s))
     \<and> acks (bus s) \<le> ovfs (time (bus s)) \<and> ovfs (time (bus s)) \<le> acks (bus s) + 1"

text \<open>The milliseconds the driver computes for a number of ticks.\<close>

definition millis_of :: "nat \<Rightarrow> nat" where
  "millis_of T = 42949 * (T div 2 ^ 32) + T mod 2 ^ 32 div 100000"

section \<open>The arithmetic of the result\<close>

interpretation tcsr: reg_layout 32 xtimer_tcsr
  by unfold_locales (simp add: layout_wf_def xtimer_tcsr_def)

lemma millis_of_mono:
  assumes "T \<le> T'"
  shows "millis_of T \<le> millis_of T'"
proof -
  let ?q = "T div 2 ^ 32" and ?q' = "T' div 2 ^ 32"
  have m: "T mod 2 ^ 32 div 100000 \<le> 42949"
    using div_le_mono [of "T mod 2 ^ 32" "2 ^ 32 - 1" 100000] mod_less_divisor [of "2 ^ 32" T] by simp
  from assms have "?q \<le> ?q'" by (rule div_le_mono)
  then consider "?q = ?q'" | "?q + 1 \<le> ?q'" by linarith
  then show ?thesis
  proof cases
    case 1
    have "T mod 2 ^ 32 \<le> T' mod 2 ^ 32"
      using assms 1 by (simp flip: minus_div_mult_eq_mod) 
    with 1 show ?thesis by (simp add: millis_of_def div_le_mono)
  next
    case 2
    then have "42949 * ?q + 42949 \<le> 42949 * ?q'" by simp
    with m show ?thesis by (simp add: millis_of_def)
  qed
qed

lemma millis_of_lag:
  "millis_of T \<le> T div 100000 \<and> T div 100000 \<le> millis_of T + T div 2 ^ 32"
proof -
  define q r where "q = T div 2 ^ 32" and "r = T mod 2 ^ 32"
  have T: "T = q * 4294967296 + r" using div_mult_mod_eq [of T "2 ^ 32"] by (simp add: q_def r_def)
  have d: "r = r div 100000 * 100000 + r mod 100000" "r mod 100000 < 100000"
    by simp_all
  have "T div 100000 = 42949 * q + r div 100000 + (67296 * q + r mod 100000) div 100000"
  proof -
    have "T = (42949 * q + r div 100000) * 100000 + (67296 * q + r mod 100000)"
      using T d(1) by simp
    then show ?thesis by (metis div_mult_self3 zero_neq_numeral)
  qed
  moreover have "(67296 * q + r mod 100000) div 100000 \<le> q"
    using d(2) by (intro less_Suc_eq_le [THEN iffD1] div_less_iff_less_mult [THEN iffD2]) simp_all
  ultimately show ?thesis by (simp add: millis_of_def q_def r_def)
qed


section \<open>One round of the loop\<close>

lemma tint_set: "fld_on xtimer_tcsr ''TINT'' (fld_set xtimer_tcsr ''TINT'' 1 (v :: u32))"
proof -
  have "''TINT'' \<in> fst ` set xtimer_tcsr" "fld_width xtimer_tcsr ''TINT'' = 1"
    by (simp_all add: xtimer_tcsr_def)
  then show ?thesis by (simp add: fld_on_def tcsr.get_set)
qed

lemma timer_irq_eq:
  "\<exists>v. fld_on xtimer_tcsr ''TINT'' v
    \<and> timer_irq hw s = s\<lparr>tmr_ovrflows := tmr_ovrflows s + 1,
        bus := Wr XTIMER_csr v # Rd XTIMER_csr (hw (bus s) XTIMER_csr) # bus s\<rparr>"
  by (rule exI [of _ "fld_set xtimer_tcsr ''TINT'' 1 (hw (bus s) XTIMER_csr)"])
    (simp add: timer_irq_def st_fld_def ld32_def st32_def emit_def tint_set)

lemma clock_step: "clock_hw time irq hw \<Longrightarrow> time t \<le> time (e # t) \<and> time (e # t) < time t + 1000"
  by (simp add: clock_hw_def)

lemma overflow_near:
  fixes x y :: nat
  assumes "x \<le> y" "y < x + 100000"
  shows "ovfs y \<le> ovfs x + 1"
proof -
  from assms have "y div 2 ^ 32 \<le> (x + 2 ^ 32) div 2 ^ 32" by (intro div_le_mono) simp
  then show ?thesis by (simp add: ovfs_def)
qed

lemma ovfs_mono: "x \<le> y \<Longrightarrow> ovfs x \<le> ovfs y"
  by (simp add: ovfs_def div_le_mono)

lemma irq_point_catches_up:
  assumes clk: "clock_hw time irq hw" and inv: "timer_inv time s"
  defines "s' \<equiv> irq_point irq hw s"
  shows "acks (bus s') = ovfs (time (bus s))" "timer_inv time s'"
    "time (bus s) \<le> time (bus s')" "time (bus s') < time (bus s) + 2000"
proof -
  from clk have irq: "irq (bus s) \<longleftrightarrow> acks (bus s) < ovfs (time (bus s))"
    by (simp add: clock_hw_def)
  obtain v where v: "fld_on xtimer_tcsr ''TINT'' v" "timer_irq hw s = s\<lparr>tmr_ovrflows := tmr_ovrflows s + 1,
      bus := Wr XTIMER_csr v # Rd XTIMER_csr (hw (bus s) XTIMER_csr) # bus s\<rparr>"
    using timer_irq_eq by blast
  let ?t1 = "Rd XTIMER_csr (hw (bus s) XTIMER_csr) # bus s"
  note step = clock_step [OF clk, of "bus s" "Rd XTIMER_csr (hw (bus s) XTIMER_csr)"]
    clock_step [OF clk, of ?t1 "Wr XTIMER_csr v"]
  show t: "time (bus s) \<le> time (bus s')" "time (bus s') < time (bus s) + 2000"
    using step by (auto simp: s'_def irq_point_def v(2))
  show acks: "acks (bus s') = ovfs (time (bus s))"
    using inv irq v by (auto simp: s'_def irq_point_def timer_inv_def)
  have "tmr_ovrflows s' = of_nat (acks (bus s'))"
    using inv v by (auto simp: s'_def irq_point_def timer_inv_def)
  with acks t overflow_near [of "time (bus s)" "time (bus s')"] show "timer_inv time s'"
    by (simp add: timer_inv_def ovfs_mono)
qed

lemma millis_loop_cases:
  assumes clk: "clock_hw time irq hw" and inv: "timer_inv time s"
  obtains (finished) T s' where "timer_inv time s'" "time (bus s) \<le> T" "T \<le> time (bus s')"
      "xtimer_millis_loop irq hw s = Some (of_nat (ovfs T), of_nat T, s')"
  | (again) s' where "timer_inv time s'" "ovfs (time (bus s)) < ovfs (time (bus s'))"
      "time (bus s') < time (bus s) + 5000" "time (bus s) \<le> time (bus s')"
      "xtimer_millis_loop irq hw s = xtimer_millis_loop irq hw s'"
proof -
  define s1 where "s1 = irq_point irq hw s"
  define m where "m = emit (Rd XTIMER_cntr (hw (bus s1) XTIMER_cntr)) s1"
  define s2 where "s2 = irq_point irq hw m"
  note s1 = irq_point_catches_up [OF clk inv, folded s1_def]
  have m: "bus m = Rd XTIMER_cntr (hw (bus s1) XTIMER_cntr) # bus s1" "tmr_ovrflows m = tmr_ovrflows s1"
    "acks (bus m) = acks (bus s1)" by (simp_all add: m_def emit_def)
  note tm = clock_step [OF clk, of "bus s1" "Rd XTIMER_cntr (hw (bus s1) XTIMER_cntr)", folded m(1)]
  have invm: "timer_inv time m"
    using s1 m(2,3) tm overflow_near [of "time (bus s)" "time (bus m)"] ovfs_mono [of "time (bus s)" "time (bus m)"]
    by (simp add: timer_inv_def)
  note s2 = irq_point_catches_up [OF clk invm, folded s2_def]
  have loop: "xtimer_millis_loop irq hw s = (if tmr_ovrflows s1 \<noteq> tmr_ovrflows s2
      then xtimer_millis_loop irq hw s2 else Some (tmr_ovrflows s1, hw (bus s1) XTIMER_cntr, s2))"
    by (subst xtimer_millis_loop.simps) (simp add: s1_def s2_def m_def ld32_def Let_def)
  have irq: "irq (bus m) \<longleftrightarrow> acks (bus s1) < ovfs (time (bus m))"
    using clk m(3) by (simp add: clock_hw_def)
  show thesis
  proof (cases "irq (bus m)")
    case True
    then have "tmr_ovrflows s2 = tmr_ovrflows s1 + 1"
      using m(2) timer_irq_eq [of hw m] by (auto simp: s2_def irq_point_def)
    moreover have "ovfs (time (bus s)) < ovfs (time (bus s2))"
      using True irq s1(1) s2(3) ovfs_mono [of "time (bus m)" "time (bus s2)"] by simp
    ultimately show ?thesis using s2 s1 tm loop by (intro again [of s2]) simp_all
  next
    case False
    then have "tmr_ovrflows s2 = tmr_ovrflows s1" "s2 = m" using m(2) by (simp_all add: s2_def irq_point_def)
    moreover from False irq s1(2) tm have "acks (bus s1) = ovfs (time (bus s1))"
      using ovfs_mono [of "time (bus s1)" "time (bus m)"] by (simp add: timer_inv_def)
    moreover have "hw (bus s1) XTIMER_cntr = of_nat (time (bus s1))"
      using clk by (simp add: clock_hw_def)
    ultimately show ?thesis
      using s1 tm loop invm by (intro finished [of s2 "time (bus s1)"]) (simp_all add: timer_inv_def)
  qed
qed

lemma millis_loop_returns:
  assumes "clock_hw time irq hw" and "timer_inv time s"
  shows "\<exists>T s'. xtimer_millis_loop irq hw s = Some (of_nat (ovfs T), of_nat T, s')
    \<and> timer_inv time s' \<and> time (bus s) \<le> T \<and> T \<le> time (bus s')"
proof (cases rule: millis_loop_cases [OF assms])
  case (2 s1)
  note s1 = this
  show ?thesis
  proof (cases rule: millis_loop_cases [OF assms(1) s1(1)])
    case (1 T s')
    with s1 show ?thesis
      by (intro exI [of _ T] exI [of _ s'] conjI) (auto intro: order_trans)
  next
    case (2 s2)
    with s1 overflow_near [of "time (bus s)" "time (bus s2)"] show ?thesis by simp
  qed
qed blast

lemma word_combine:
  "ucast (of_nat a * ucast (of_nat b :: u32) + ucast (of_nat d :: u32) :: u64) = (of_nat (a * b + d) :: u32)"
proof -
  have "(of_nat a * ucast (of_nat b :: u32) + ucast (of_nat d :: u32) :: u64) =
      of_nat (a * (b mod 2 ^ 32) + d mod 2 ^ 32)"
    by (simp add: unsigned_of_nat take_bit_nat_def)
  then have "ucast (of_nat a * ucast (of_nat b :: u32) + ucast (of_nat d :: u32) :: u64) =
      (of_nat (take_bit 64 (a * (b mod 2 ^ 32) + d mod 2 ^ 32)) :: u32)"
    by (simp only: unsigned_of_nat) simp
  also have "\<dots> = of_nat (a * b + d)"
  proof -
    have "take_bit 32 (take_bit 64 (a * (b mod 2 ^ 32) + d mod 2 ^ 32)) = take_bit 32 (a * b + d)"
      by (simp add: take_bit_nat_def mod_mod_cancel mod_simps)
        (metis mod_add_left_eq mod_mult_right_eq)
    then show ?thesis by (simp add: word_of_nat_eq_iff del: of_nat_add of_nat_mult)
  qed
  finally show ?thesis .
qed

lemma millis_word:
  "ucast (of_nat XTIMER_MAX_MS * ucast (of_nat (ovfs T) :: u32)
      + ucast ((of_nat T :: u32) div of_nat XTIMER_MS_FREQ) :: u64) = (of_nat (millis_of T) :: u32)"
proof -
  have c: "XTIMER_MAX_MS = 42949" "XTIMER_MS_FREQ = 100000"
    by (simp_all add: XTIMER_MAX_MS_def XTIMER_MS_FREQ_def)
  have "(of_nat T :: u32) div of_nat XTIMER_MS_FREQ = of_nat (T mod 4294967296 div 100000)"
    by (simp add: c word_arith_nat_div unsigned_of_nat take_bit_nat_def)
  then show ?thesis
    using word_combine [of 42949 "ovfs T" "T mod 4294967296 div 100000"]
    by (simp add: c(1) millis_of_def ovfs_def)
qed

section \<open>Properties\<close>

text \<open>
  C15: the time of day returns, also when the counter overflows while it is read; it is the
  milliseconds of one moment during the call, never more than the true number of milliseconds
  since the start and behind it by at most one millisecond per overflow, and it is
  monotone in that moment, until it wraps at \<open>2 ^ 32\<close>.
\<close>

theorem xtimer_millis_accurate:
  assumes "clock_hw time irq hw" and "timer_inv time s"
  shows "\<exists>T s'. xtimer_millis irq hw s = Some (of_nat (millis_of T), s')
    \<and> timer_inv time s' \<and> time (bus s) \<le> T \<and> T \<le> time (bus s')
    \<and> millis_of T \<le> T div 100000 \<and> T div 100000 \<le> millis_of T + T div 2 ^ 32
    \<and> (\<forall>T'\<ge>T. millis_of T \<le> millis_of T')"
proof -
  obtain T s' where T: "timer_inv time s'" "time (bus s) \<le> T" "T \<le> time (bus s')"
    "xtimer_millis_loop irq hw s = Some (of_nat (ovfs T), of_nat T, s')"
    using millis_loop_returns [OF assms] by blast
  then have "xtimer_millis irq hw s = Some (of_nat (millis_of T), s')"
    by (simp add: xtimer_millis_def millis_word Let_def)
  with T millis_of_lag [of T] millis_of_mono [of T] show ?thesis by blast
qed


text \<open>A clock of one tick per bus event that overflows at the first load of the counter.\<close>

definition late_clock :: "history \<Rightarrow> nat" where
  "late_clock t = 4294967295 + length t"

definition late_hw :: hw where
  "late_hw t a = (if a = XTIMER_cntr then of_nat (late_clock t) else 0)"

theorem xtimer_millis_accurate_witness:
  "\<exists>T s'. xtimer_millis (\<lambda>t. acks t < ovfs (late_clock t)) late_hw
       \<lparr>bus = [], mem = (\<lambda>_. 0), tmr_ovrflows = 0\<rparr> = Some (of_nat (millis_of T), s')
     \<and> 4294967295 \<le> T \<and> 42949 \<le> millis_of T"
proof -
  let ?s = "\<lparr>bus = [], mem = (\<lambda>_. 0), tmr_ovrflows = 0\<rparr>"
  have "clock_hw late_clock (\<lambda>t. acks t < ovfs (late_clock t)) late_hw"
    by (simp add: clock_hw_def late_clock_def late_hw_def)
  moreover have "timer_inv late_clock ?s" by (simp add: timer_inv_def late_clock_def ovfs_def)
  ultimately obtain T s' where T: "xtimer_millis (\<lambda>t. acks t < ovfs (late_clock t)) late_hw ?s =
      Some (of_nat (millis_of T), s')" "late_clock (bus ?s) \<le> T"
    using xtimer_millis_accurate [of late_clock _ late_hw ?s] by blast
  have "millis_of 4294967295 = 42949" by (simp add: millis_of_def)
  with T millis_of_mono [of 4294967295 T] show ?thesis
    by (auto simp: late_clock_def intro!: exI [of _ T])
qed

end
