(* ===== verification/Rtmsure.thy ===== *)
theory Rtmsure
  imports Xintc
begin

text \<open>
  The reaction time measurement: the driver of the measuring device
  (\<open>arch/mb_le/sys/rtmsure.c\<close>) and the service and shell command above it
  (\<open>arch/mb_le/services/rtmsure_service.c\<close>). The device delivers the time in milliseconds
  as eight BCD digits.
\<close>

section \<open>The driver\<close>

definition RTMSURE_IRQ :: u8 where "RTMSURE_IRQ = 4"

definition rtmsure_status :: layout where
  "rtmsure_status = [(''irq_pending'', 1)]"

definition RTMSURE_dtr :: u32 where "RTMSURE_dtr = 0x44A30000"
definition RTMSURE_sr :: u32 where "RTMSURE_sr = 0x44A30004"

text \<open>The static variables of the driver and of the service, signed 32-bit integers.\<close>

record rtmsure = machine +
  bcd_time :: u32
  rt_msuretime :: u32

definition rtmsure_start :: "hw \<Rightarrow> u32 \<Rightarrow> 'a rtmsure_scheme \<Rightarrow> 'a rtmsure_scheme option" where
  "rtmsure_start hw isr s = do {
     let s = s\<lparr>bcd_time := - 1\<rparr>;
     s \<leftarrow> xintc_disableIRQ hw RTMSURE_IRQ s;
     xintc_enableIRQ hw RTMSURE_IRQ isr s
   }"

function bcd_toDec_loop :: "u32 \<Rightarrow> u32 \<Rightarrow> u32 \<Rightarrow> u32" where
  "bcd_toDec_loop time dec base =
     (if 0 <s time then
        let dec_nth = time AND 0x0F;
            dec_nth = dec_nth * base;
            base = base * 10;
            dec = dec + dec_nth
        in bcd_toDec_loop (signed_drop_bit 4 time) dec base
      else dec)"
  by pat_completeness auto
termination
proof (relation "measure (\<lambda>(t, d, b). nat (sint t))")
  fix t :: u32
  assume "0 <s t"
  then have "0 < sint t" by (simp add: word_sless_alt)
  then have "drop_bit 4 (sint t) < sint t" by (simp add: drop_bit_eq_div)
  with \<open>0 < sint t\<close> have "nat (sint (signed_drop_bit 4 t)) < nat (sint t)"
    by (simp add: sint_signed_drop_bit_eq)
  then show "\<And>d b d' b'. ((signed_drop_bit 4 t, d, b), t, d', b') \<in> measure (\<lambda>(t, d, b). nat (sint t))"
    by simp
qed simp

declare bcd_toDec_loop.simps [simp del]

definition bcd_toDec :: "u32 \<Rightarrow> u32" where
  "bcd_toDec bcd = bcd_toDec_loop bcd 0 1"

definition rtmsure_time :: "'a rtmsure_scheme \<Rightarrow> u32 \<times> 'a rtmsure_scheme" where
  "rtmsure_time s =
     (let time = bcd_time s;
          s = s\<lparr>bcd_time := - 1\<rparr>
      in if time <s 0 then (time, s) else (bcd_toDec time, s))"

definition onRtmsure_irq :: "hw \<Rightarrow> 'a rtmsure_scheme \<Rightarrow> 'a rtmsure_scheme" where
  "onRtmsure_irq hw s =
     (let irq_ack = fld_set rtmsure_status ''irq_pending'' 1 0;
          s = st32 RTMSURE_sr irq_ack s;
          (dt, s) = ld32 hw RTMSURE_dtr s;
          s = s\<lparr>bcd_time := dt\<rparr>
      in emit (Raise SIGINT) s)"

section \<open>The service and the command\<close>

definition rtmsure_service :: "kern \<Rightarrow> 'a rtmsure_scheme \<Rightarrow> 'a rtmsure_scheme" where
  "rtmsure_service kern s =
     (let s = emit (SigMask True {SIGINT}) s;
          set = kern (bus s);
          s = emit (SigPending set) s
      in if SIGINT \<notin> set then s
         else
           let (time, s) = rtmsure_time s
           in if time = - 1 then s
              else emit (SigMask False set) (s\<lparr>rt_msuretime := time\<rparr>))"

definition rtmsure_m :: "'a rtmsure_scheme \<Rightarrow> int \<times> 'a rtmsure_scheme" where
  "rtmsure_m s =
     (if rt_msuretime s = - 1 then (- 1, emit (Out ''no reaction time available\<newline>'' []) s)
      else if rt_msuretime s <s 0 then (- 1, emit (Out ''unexpected reaction time format'' []) s)
      else
        let s = emit (Out ''reaction time\<newline>----------\<newline>'' []) s;
            s = emit (Out ''short: %d ms\<newline>long: %d ms\<newline>'' [rt_msuretime s, 0]) s
        in (0, s))"

section \<open>BCD numbers\<close>

fun bcd :: "nat \<Rightarrow> nat" where
  "bcd n = (if n < 10 then n else 16 * bcd (n div 10) + n mod 10)"

declare bcd.simps [simp del]

lemma bcd_small: "n < 10 \<Longrightarrow> bcd n = n"
  by (simp add: bcd.simps)

lemma bcd_big: "10 \<le> n \<Longrightarrow> bcd n = 16 * bcd (n div 10) + n mod 10"
  by (subst bcd.simps) simp

lemma bcd_step: "bcd n = 16 * bcd (n div 10) + n mod 10"
  by (cases "n < 10") (simp_all add: bcd_small bcd_big)

lemma bcd_bound: "k \<le> 10 \<Longrightarrow> n < k * 10 ^ j \<Longrightarrow> bcd n < k * 16 ^ j"
proof (induction j arbitrary: n)
  case 0
  then show ?case by (simp add: bcd_small)
next
  case (Suc j)
  then have "n div 10 < k * 10 ^ j" by (simp add: less_mult_imp_div_less)
  with Suc have "bcd (n div 10) + 1 \<le> k * 16 ^ j" by (simp add: Suc_le_eq)
  then have "16 * bcd (n div 10) + 16 \<le> k * 16 ^ Suc j" by simp
  moreover have "n mod 10 < 16" by (rule less_trans [of _ 10]) simp_all
  ultimately show ?case using bcd_step [of n] by linarith
qed

lemma bcd_pos: "0 < n \<Longrightarrow> 0 < bcd n"
proof (induction n rule: less_induct)
  case (less n)
  then show ?case
    by (cases "n < 10") (simp_all add: bcd_small bcd_big)
qed

lemma sint_bcd:
  assumes "n < 80000000"
  shows "sint (of_nat (bcd n) :: u32) = int (bcd n)"
proof -
  have "bcd n < 2 ^ 31" using bcd_bound [of 8 n 7] assms by simp
  then have "signed_take_bit 31 (int (bcd n)) = int (bcd n)"
    by (simp add: signed_take_bit_int_eq_self)
  then show ?thesis by (simp add: signed_of_nat)
qed

lemma bcd_nibble: "(of_nat (bcd n) :: u32) AND 0x0F = of_nat (n mod 10)"
proof -
  have "(of_nat (bcd n) :: u32) AND 0x0F = take_bit 4 (of_nat (bcd n))"
    by (simp add: take_bit_eq_mask mask_numeral)
  also have "\<dots> = of_nat (bcd n mod 16)"
    by (simp add: take_bit_of_nat take_bit_nat_def)
  also have "bcd n mod 16 = n mod 10" using bcd_step [of n] by simp
  finally show ?thesis .
qed

lemma bcd_shift:
  assumes "n < 80000000"
  shows "signed_drop_bit 4 (of_nat (bcd n) :: u32) = of_nat (bcd (n div 10))"
proof (rule signed_word_eqI)
  have "bcd n div 16 = bcd (n div 10)" using bcd_step [of n] by simp
  then show "sint (signed_drop_bit 4 (of_nat (bcd n) :: u32)) = sint (of_nat (bcd (n div 10)) :: u32)"
    using assms by (simp add: sint_signed_drop_bit_eq sint_bcd drop_bit_eq_div flip: zdiv_int)
qed

lemma bcd_toDec_loop_bcd:
  "n < 80000000 \<Longrightarrow> bcd_toDec_loop (of_nat (bcd n)) d b = d + b * of_nat n"
proof (induction n arbitrary: d b rule: less_induct)
  case (less n)
  show ?case
  proof (cases "n = 0")
    case True
    then show ?thesis by (subst bcd_toDec_loop.simps) (simp add: bcd_small)
  next
    case False
    then have "0 <s (of_nat (bcd n) :: u32)"
      using sint_bcd [OF less.prems] bcd_pos [of n] by (simp add: word_sless_alt)
    moreover have "n div 10 < n" "n div 10 < 80000000" using False less.prems by simp_all
    note less.IH [OF this]
    moreover have "(of_nat n :: u32) = of_nat (n mod 10) + 10 * of_nat (n div 10)"
      by (metis mod_mult_div_eq of_nat_add of_nat_mult of_nat_numeral)
    ultimately show ?thesis
      by (subst bcd_toDec_loop.simps)
        (simp add: bcd_nibble bcd_shift [OF less.prems] algebra_simps)
  qed
qed

interpretation rtm_status: reg_layout 1 rtmsure_status
  by unfold_locales (simp add: layout_wf_def rtmsure_status_def)

lemma irq_ack: "fld_set rtmsure_status ''irq_pending'' 1 (0 :: u32) = 1"
  by (simp add: fld_set_def rtmsure_status_def mask_numeral)

section \<open>Properties\<close>

text \<open>
  A reaction time of \<open>n\<close> milliseconds below \<open>80000000\<close> that the device delivers in BCD is
  picked up by the service as the number \<open>n\<close> when the signal raised by the interrupt handler is
  pending, is taken out of the driver, and is what the shell command prints.
\<close>

theorem reaction_time_reported:
  assumes dev: "hw (Wr RTMSURE_sr 1 # bus s) RTMSURE_dtr = of_nat (bcd n)" and n: "n < 80000000"
    and sig: "kern_ok kern"
  shows "let s' = rtmsure_service kern (onRtmsure_irq hw s)
    in rt_msuretime s' = of_nat n \<and> bcd_time s' = - 1
      \<and> (\<exists>s''. rtmsure_m s' = (0, s'')
           \<and> bus s'' = [Out ''short: %d ms\<newline>long: %d ms\<newline>'' [of_nat n, 0], Out ''reaction time\<newline>----------\<newline>'' []] @ bus s')"
proof -
  have "sint (of_nat n :: u32) = int n"
    using n by (simp add: signed_of_nat signed_take_bit_int_eq_self)
  then have pos: "\<not> (of_nat n :: u32) <s 0" "(of_nat n :: u32) \<noteq> - 1"
    by (auto simp: word_sless_alt dest: arg_cong [where f = sint])
  have "\<not> (of_nat (bcd n) :: u32) <s 0" using sint_bcd [OF n] by (simp add: word_sless_alt)
  with dev pos sig show ?thesis
    by (simp add: onRtmsure_irq_def irq_ack rtmsure_service_def rtmsure_time_def bcd_toDec_def
        bcd_toDec_loop_bcd [OF n] rtmsure_m_def st32_def ld32_def emit_def kern_ok_def Let_def)
qed

theorem reaction_time_reported_witness:
  "rt_msuretime (rtmsure_service (\<lambda>t. {g. raised g t})
     (onRtmsure_irq (\<lambda>t a. 0x217)
        \<lparr>bus = [], mem = (\<lambda>_. 0), bcd_time = - 1, rt_msuretime = - 1\<rparr>)) = 217"
  using reaction_time_reported [of "\<lambda>t a. 0x217"
      "\<lparr>bus = [], mem = (\<lambda>_. 0), bcd_time = - 1, rt_msuretime = - 1\<rparr>" 217
      "\<lambda>t. {g. raised g t}"]
  by (simp add: bcd.simps kern_ok_def Let_def)

text \<open>A longer time has the top bit set: the service stores a negative number, and the command
  reports an unexpected format.\<close>

lemma long_time_not_decoded:
  assumes "hw (Wr RTMSURE_sr 1 # bus s) RTMSURE_dtr = dt" "dt <s 0" "dt \<noteq> - 1"
    and "kern_ok kern"
  shows "let s' = rtmsure_service kern (onRtmsure_irq hw s)
    in rt_msuretime s' = dt \<and> fst (rtmsure_m s') = - 1"
  using assms
  by (simp add: onRtmsure_irq_def irq_ack rtmsure_service_def rtmsure_time_def rtmsure_m_def
      st32_def ld32_def emit_def kern_ok_def Let_def)

end
