(* ===== verification/Xuart.thy ===== *)
theory Xuart
  imports Ring Xintc
begin

text \<open>
  The UART of the MicroBlaze target: the driver \<open>src/arch/mb_le/sys/xuart.c\<close>, the terminal
  layers above it (\<open>tty.c\<close>, \<open>console.c\<close>, \<open>prompt.c\<close>) and the service that publishes the
  received keys (\<open>services/uart_service.c\<close>). A C string argument is the list of its
  characters before the terminating NUL.
\<close>

section \<open>Registers and state\<close>

definition xuartlite_ctrl :: layout where
  "xuartlite_ctrl = [(''rst_txfifo'', 1), (''rst_rxfifo'', 1), (''reserved2_3'', 2),
     (''enable_irq'', 1), (''reserved5_31'', 27)]"

definition xuartlite_status :: layout where
  "xuartlite_status = [(''rxfifo_valid'', 1), (''rxfifo_full'', 1), (''txfifo_empty'', 1),
     (''txfifo_full'', 1), (''irq_enabled'', 1), (''ovr_error'', 1), (''frame_error'', 1),
     (''parity_error'', 1), (''reserved8_31'', 24)]"

abbreviation XUART0_BASE :: u32 where "XUART0_BASE \<equiv> 0x40600000"

definition XUART0_rx_datafifo :: u32 where "XUART0_rx_datafifo = XUART0_BASE + 0x00"
definition XUART0_tx_datafifo :: u32 where "XUART0_tx_datafifo = XUART0_BASE + 0x04"
definition XUART0_sr :: u32 where "XUART0_sr = XUART0_BASE + 0x08"
definition XUART0_cr :: u32 where "XUART0_cr = XUART0_BASE + 0x0c"

abbreviation XUART0_IRQ :: u8 where "XUART0_IRQ \<equiv> 0"
abbreviation XUART_RX_BUFFER :: nat where "XUART_RX_BUFFER \<equiv> 8"

record xuart = machine +
  rx0_tail :: u8
  rx0_head :: u8
  rx0_ring :: "u8 list"

section \<open>The driver\<close>

definition xuartlite_start :: "hw \<Rightarrow> u32 \<Rightarrow> 'a xuart_scheme \<Rightarrow> 'a xuart_scheme option" where
  "xuartlite_start hw onxUart0_irq s = do {
     s \<leftarrow> xintc_disableIRQ hw XUART0_IRQ s;
     s \<leftarrow> xintc_enableIRQ hw XUART0_IRQ onxUart0_irq s;
     let uart_cr = fld_set xuartlite_ctrl ''rst_rxfifo'' 1 0;
     let uart_cr = fld_set xuartlite_ctrl ''rst_txfifo'' 1 uart_cr;
     let uart_cr = fld_set xuartlite_ctrl ''enable_irq'' 1 uart_cr;
     Some (st32 XUART0_cr uart_cr s)
   }"

definition xuartlite_read :: "'a xuart_scheme \<Rightarrow> u8 \<times> 'a xuart_scheme" where
  "xuartlite_read s =
     (if rx0_head s = rx0_tail s then (0, s)
      else
        let rx_head = rx0_head s;
            c = rx0_ring s ! unat rx_head;
            rx_head = rx_head + 1;
            rx_head = (if rx_head = of_nat XUART_RX_BUFFER then 0 else rx_head)
        in (c, s\<lparr>rx0_head := rx_head\<rparr>))"

text \<open>\<open>char\<close> is signed, so the store to the 32-bit data register sign-extends it.\<close>

definition xuartlite_write :: "hw \<Rightarrow> u8 \<Rightarrow> 'a machine_scheme \<Rightarrow> 'a machine_scheme option" where
  "xuartlite_write hw c s = do {
     s \<leftarrow> await hw XUART0_sr (fld_on xuartlite_status ''txfifo_empty'') s;
     Some (st32 XUART0_tx_datafifo (scast c) s)
   }"

text \<open>The body of the interrupt handler's loop after the data register has been read.\<close>

definition rx0_push :: "u8 \<Rightarrow> 'a xuart_scheme \<Rightarrow> 'a xuart_scheme" where
  "rx0_push c s =
     (let next_tail = rx0_tail s + 1;
          next_tail = (if next_tail = of_nat XUART_RX_BUFFER then 0 else next_tail);
          s = (if next_tail = rx0_head s
               then let s = s\<lparr>rx0_head := rx0_head s + 1\<rparr>
                    in if rx0_head s = of_nat XUART_RX_BUFFER then s\<lparr>rx0_head := 0\<rparr> else s
               else s);
          s = s\<lparr>rx0_ring := (rx0_ring s)[unat (rx0_tail s) := c]\<rparr>
      in s\<lparr>rx0_tail := next_tail\<rparr>)"

partial_function (option) onxUart0_loop :: "hw \<Rightarrow> 'a xuart_scheme \<Rightarrow> 'a xuart_scheme option" where
  "onxUart0_loop hw s =
     (let r = ld32 hw XUART0_rx_datafifo s;
          s = rx0_push (ucast (fst r AND 0xFF)) (snd r);
          v = ld_fld hw xuartlite_status ''rxfifo_valid'' XUART0_sr s
      in if fst v \<noteq> 0 then onxUart0_loop hw (snd v) else Some (snd v))"

definition onxUart0_irq :: "hw \<Rightarrow> 'a xuart_scheme \<Rightarrow> 'a xuart_scheme option" where
  "onxUart0_irq hw s =
     (let (valid, s) = ld_fld hw xuartlite_status ''rxfifo_valid'' XUART0_sr s
      in if valid = 0 then Some s else onxUart0_loop hw s)"

section \<open>The service\<close>

partial_function (option) uart_service :: "'a xuart_scheme \<Rightarrow> 'a xuart_scheme option" where
  "uart_service s =
     (let r = xuartlite_read s
      in if fst r = 0 then Some (snd r) else uart_service (emit (PubKey (fst r) 0) (snd r)))"

section \<open>Terminal and console\<close>

text \<open>The three recursive calls of \<open>tty_write\<close> are on characters other than DEL, so each is one
  character written.\<close>

definition tty_write :: "hw \<Rightarrow> u8 \<Rightarrow> 'a machine_scheme \<Rightarrow> 'a machine_scheme option" where
  "tty_write hw c s =
     (if c = 0x7f then do {
        s \<leftarrow> xuartlite_write hw 0x08 s;
        s \<leftarrow> xuartlite_write hw 0x20 s;
        xuartlite_write hw 0x08 s
      } else xuartlite_write hw c s)"

fun tty_string :: "hw \<Rightarrow> u8 list \<Rightarrow> 'a machine_scheme \<Rightarrow> 'a machine_scheme option" where
  "tty_string hw [] s = Some s"
| "tty_string hw (c # cs) s = do { s \<leftarrow> tty_write hw c s; tty_string hw cs s }"

definition con_clear :: "'a machine_scheme \<Rightarrow> 'a machine_scheme" where
  "con_clear s = s"

definition set_con :: "hw \<Rightarrow> u32 \<Rightarrow> 'a xuart_scheme \<Rightarrow> 'a xuart_scheme option" where
  "set_con hw isr s = xuartlite_start hw isr s"

definition con_char :: "hw \<Rightarrow> u8 \<Rightarrow> 'a machine_scheme \<Rightarrow> 'a machine_scheme option" where
  "con_char hw code s = tty_write hw code s"

definition con_ln :: "hw \<Rightarrow> 'a machine_scheme \<Rightarrow> 'a machine_scheme option" where
  "con_ln hw s = con_char hw 0x0a s"

definition con_tab :: "hw \<Rightarrow> 'a machine_scheme \<Rightarrow> 'a machine_scheme option" where
  "con_tab hw s = con_char hw 0x09 s"

definition con_string :: "hw \<Rightarrow> u8 list \<Rightarrow> 'a machine_scheme \<Rightarrow> 'a machine_scheme option" where
  "con_string hw str s = tty_string hw str s"

definition con_xy :: "u32 \<Rightarrow> u32 \<Rightarrow> 'a machine_scheme \<Rightarrow> 'a machine_scheme" where
  "con_xy cx cy s = s"

definition con_getx :: "'a machine_scheme \<Rightarrow> u32" where
  "con_getx s = 0"

definition con_gety :: "'a machine_scheme \<Rightarrow> u32" where
  "con_gety s = 0"

text \<open>The prompt is written into a buffer of \<open>p_len\<close> bytes when it has room for three.\<close>

definition shell_prompt :: "u8 list option \<Rightarrow> nat \<Rightarrow> u8 list option" where
  "shell_prompt prompt p_len =
     (case prompt of None \<Rightarrow> None
      | Some b \<Rightarrow> if p_len < 3 then Some b else Some (b[0 := 0x23, 1 := 0x20, 2 := 0]))"

section \<open>Invariant, content, device\<close>

definition rx0_inv :: "'a xuart_scheme \<Rightarrow> bool" where
  "rx0_inv s \<longleftrightarrow> length (rx0_ring s) = XUART_RX_BUFFER
     \<and> unat (rx0_head s) < XUART_RX_BUFFER \<and> unat (rx0_tail s) < XUART_RX_BUFFER"

text \<open>The unread bytes, oldest first.\<close>

definition rx0_content :: "'a xuart_scheme \<Rightarrow> u8 list" where
  "rx0_content s = ring_content (rx0_ring s) (unat (rx0_head s)) (unat (rx0_tail s))"

definition rx0_empty :: "'a xuart_scheme \<Rightarrow> bool" where
  "rx0_empty s \<longleftrightarrow> rx0_head s = rx0_tail s"

text \<open>
  Documented behaviour of the device: the receive FIFO hands out the received bytes \<open>input\<close>
  in order, one per load of the data register, and its status is valid while bytes are left.
\<close>

fun rx_loads :: "history \<Rightarrow> nat" where
  "rx_loads [] = 0"
| "rx_loads (Rd a v # t) = (if a = XUART0_rx_datafifo then Suc (rx_loads t) else rx_loads t)"
| "rx_loads (_ # t) = rx_loads t"

definition rx_fifo_hw :: "u8 list \<Rightarrow> hw \<Rightarrow> bool" where
  "rx_fifo_hw input hw \<longleftrightarrow> (\<forall>t.
     (fld_on xuartlite_status ''rxfifo_valid'' (hw t XUART0_sr) \<longleftrightarrow> rx_loads t < length input)
     \<and> (rx_loads t < length input \<longrightarrow>
          ucast (hw t XUART0_rx_datafifo AND 0xFF) = input ! rx_loads t))"

text \<open>The bytes stored to the transmit register, in order.\<close>

fun tx_bytes :: "history \<Rightarrow> u8 list" where
  "tx_bytes [] = []"
| "tx_bytes (Wr a v # t) =
     (if a = XUART0_tx_datafifo then tx_bytes t @ [ucast v] else tx_bytes t)"
| "tx_bytes (_ # t) = tx_bytes t"

definition tty_expand :: "u8 \<Rightarrow> u8 list" where
  "tty_expand c = (if c = 0x7f then [0x08, 0x20, 0x08] else [c])"

text \<open>The two halves of \<open>_xuartlite_read\<close> between which the interrupt handler may run: the
  load of the byte, and the store of the advanced index.\<close>

definition read_load :: "'a xuart_scheme \<Rightarrow> (u8 \<times> u8) option" where
  "read_load s = (if rx0_head s = rx0_tail s then None
     else Some (rx0_ring s ! unat (rx0_head s), rx0_head s))"

definition read_store :: "u8 \<Rightarrow> 'a xuart_scheme \<Rightarrow> 'a xuart_scheme" where
  "read_store rx_head s =
     s\<lparr>rx0_head := (if rx_head + 1 = of_nat XUART_RX_BUFFER then 0 else rx_head + 1)\<rparr>"

section \<open>Lemmas\<close>

lemma unat_inc8:
  "unat (i :: u8) < 8 \<Longrightarrow> unat (if i + 1 = 8 then 0 else i + 1) = inc 8 (unat i)"
  using unat_inc_u8 [of i 8] by simp

lemma rx0_push_unfold:
  "rx0_inv s \<Longrightarrow> unat (rx0_tail (rx0_push c s)) = inc 8 (unat (rx0_tail s))
     \<and> unat (rx0_head (rx0_push c s)) =
         (if inc 8 (unat (rx0_tail s)) = unat (rx0_head s) then inc 8 (unat (rx0_head s))
          else unat (rx0_head s))
     \<and> rx0_ring (rx0_push c s) = (rx0_ring s)[unat (rx0_tail s) := c]"
  using unat_inc8 [of "rx0_tail s"] unat_inc8 [of "rx0_head s"]
  by (auto simp: rx0_push_def rx0_inv_def Let_def word_unat_eq_iff)

lemma rx0_push_inv: "rx0_inv s \<Longrightarrow> rx0_inv (rx0_push c s)"
  using rx0_push_unfold [of s c] by (auto simp: rx0_inv_def inc_less)

lemma rx0_content_length: "rx0_inv s \<Longrightarrow> length (rx0_content s) \<le> 7"
  using ring_content_length [of "unat (rx0_head s)" "rx0_ring s" "unat (rx0_tail s)"]
  by (simp add: rx0_content_def rx0_inv_def)

lemma rx0_empty_content: "rx0_inv s \<Longrightarrow> rx0_empty s \<longleftrightarrow> rx0_content s = []"
  by (simp add: rx0_content_def rx0_inv_def rx0_empty_def ring_content_Nil word_unat_eq_iff)

lemma rx0_push_content:
  assumes "rx0_inv s"
  shows "rx0_content (rx0_push c s) = push_drop 7 (rx0_content s) c"
  using ring_content_push [of "unat (rx0_head s)" "rx0_ring s" "unat (rx0_tail s)" c]
    rx0_push_unfold [OF assms, of c] assms
  by (auto simp: rx0_content_def rx0_inv_def split: if_splits)

lemma xuartlite_read_pop:
  assumes "rx0_inv s" and "rx0_content s \<noteq> []"
  shows "fst (xuartlite_read s) = hd (rx0_content s)
    \<and> rx0_content (snd (xuartlite_read s)) = tl (rx0_content s) \<and> rx0_inv (snd (xuartlite_read s))"
proof -
  let ?h = "unat (rx0_head s)" and ?t = "unat (rx0_tail s)"
  from assms have ne: "rx0_head s \<noteq> rx0_tail s"
    using rx0_empty_content [of s] by (simp add: rx0_empty_def)
  with assms(1) have "ring_content (rx0_ring s) ?h ?t
      = rx0_ring s ! ?h # ring_content (rx0_ring s) (inc 8 ?h) ?t"
    using ring_content_pop [of ?h "rx0_ring s" ?t] by (auto simp: rx0_inv_def word_unat_eq_iff)
  with ne assms(1) unat_inc8 [of "rx0_head s"] show ?thesis
    by (auto simp: xuartlite_read_def rx0_content_def rx0_inv_def Let_def inc_less)
qed

text \<open>The receive ring implements the bounded queue.\<close>

interpretation rx0: drop_oldest 7 rx0_inv rx0_content rx0_empty rx0_push
  "\<lambda>s. fst (xuartlite_read s)" "\<lambda>s. snd (xuartlite_read s)"
  using xuartlite_read_pop
  by unfold_locales
     (auto simp: rx0_content_length rx0_empty_content rx0_push_content rx0_push_inv)

interpretation uart_ctrl: reg_layout 32 xuartlite_ctrl
  by unfold_locales (simp add: layout_wf_def xuartlite_ctrl_def)

interpretation uart_status: reg_layout 32 xuartlite_status
  by unfold_locales (simp add: layout_wf_def xuartlite_status_def)

lemma rx0_push_bus [simp]: "bus (rx0_push c s) = bus s"
  by (simp add: rx0_push_def Let_def)

lemma xuart_addr_distinct [simp]:
  "XUART0_sr \<noteq> XUART0_rx_datafifo" "XUART0_rx_datafifo \<noteq> XUART0_sr"
  by (simp_all add: XUART0_sr_def XUART0_rx_datafifo_def)

lemma emit_rx0 [simp]:
  "rx0_inv (emit e s) = rx0_inv s" "rx0_content (emit e s) = rx0_content s"
  by (simp_all add: emit_def rx0_inv_def rx0_content_def)

lemma onxUart0_loop_step:
  "onxUart0_loop hw s =
     (let c = hw (bus s) XUART0_rx_datafifo;
          s1 = rx0_push (ucast (c AND 0xFF)) (emit (Rd XUART0_rx_datafifo c) s);
          r = hw (bus s1) XUART0_sr; s2 = emit (Rd XUART0_sr r) s1
      in if fld_on xuartlite_status ''rxfifo_valid'' r then onxUart0_loop hw s2 else Some s2)"
  by (subst onxUart0_loop.simps) (simp add: Let_def ld32_def ld_fld_def fld_on_def)

lemma onxUart0_loop_drains:
  assumes "rx_fifo_hw input hw" and "rx0_inv s" and "rx_loads (bus s) < length input"
  shows "\<exists>s'. onxUart0_loop hw s = Some s' \<and> rx_loads (bus s') = length input
    \<and> rx0_inv s' \<and> rx0_content s' = rx0_content (fold rx0_push (drop (rx_loads (bus s)) input) s)"
  using assms(2,3)
proof (induction "length input - rx_loads (bus s)" arbitrary: s rule: less_induct)
  case less
  let ?c = "hw (bus s) XUART0_rx_datafifo"
  define s1 where "s1 = rx0_push (ucast (?c AND 0xFF)) (emit (Rd XUART0_rx_datafifo ?c) s)"
  define s2 where "s2 = emit (Rd XUART0_sr (hw (bus s1) XUART0_sr)) s1"
  from assms(1) less.prems(2) have byte: "ucast (?c AND 0xFF) = input ! rx_loads (bus s)"
    by (simp add: rx_fifo_hw_def)
  have loads: "rx_loads (bus s2) = Suc (rx_loads (bus s))"
    by (simp add: s1_def s2_def emit_def)
  have inv: "rx0_inv s2" using less.prems(1) by (simp add: s1_def s2_def rx0_push_inv)
  have push: "rx0_content (fold rx0_push xs s2)
      = rx0_content (fold rx0_push xs (rx0_push (input ! rx_loads (bus s)) s))" for xs
    using rx0.content_puts [OF inv] rx0.content_puts [OF rx0_push_inv [OF less.prems(1)]]
      less.prems(1) by (simp add: s1_def s2_def byte rx0_push_content)
  have rest: "drop (rx_loads (bus s)) input
      = input ! rx_loads (bus s) # drop (Suc (rx_loads (bus s))) input"
    using less.prems(2) by (simp add: Cons_nth_drop_Suc)
  have sr: "fld_on xuartlite_status ''rxfifo_valid'' (hw (bus s1) XUART0_sr)
      \<longleftrightarrow> Suc (rx_loads (bus s)) < length input"
    using assms(1) loads by (simp add: rx_fifo_hw_def s1_def s2_def emit_def)
  have step: "onxUart0_loop hw s =
      (if Suc (rx_loads (bus s)) < length input then onxUart0_loop hw s2 else Some s2)"
    using sr by (subst onxUart0_loop_step) (simp add: Let_def s1_def s2_def)
  show ?case
  proof (cases "Suc (rx_loads (bus s)) < length input")
    case True
    with loads less.hyps [of s2] inv obtain s' where "onxUart0_loop hw s2 = Some s'"
      "rx_loads (bus s') = length input" "rx0_inv s'"
      "rx0_content s' = rx0_content (fold rx0_push (drop (Suc (rx_loads (bus s))) input) s2)"
      by (auto simp: diff_less_mono2)
    with True step push rest show ?thesis by simp
  next
    case False
    with less.prems(2) have "Suc (rx_loads (bus s)) = length input" by simp
    with step inv loads push [of "[]"] rest show ?thesis by simp
  qed
qed

lemma uart_service_step:
  "uart_service s = (if fst (xuartlite_read s) = 0 then Some (snd (xuartlite_read s))
     else uart_service (emit (PubKey (fst (xuartlite_read s)) 0) (snd (xuartlite_read s))))"
  by (subst uart_service.simps) (simp add: Let_def)

lemma xuartlite_read_empty:
  "rx0_inv s \<Longrightarrow> rx0_content s = [] \<Longrightarrow> xuartlite_read s = (0, s)"
  using rx0_empty_content [of s] by (simp add: xuartlite_read_def rx0_empty_def)

lemma xuartlite_read_bus [simp]: "bus (snd (xuartlite_read s)) = bus s"
  by (simp add: xuartlite_read_def Let_def)

lemma xuartlite_write_tx:
  assumes "responds hw XUART0_sr (fld_on xuartlite_status ''txfifo_empty'')"
  shows "\<exists>s'. xuartlite_write hw c s = Some s' \<and> tx_bytes (bus s') = tx_bytes (bus s) @ [c]"
proof -
  from responds_await [OF assms] obtain s1
    where s1: "await hw XUART0_sr (fld_on xuartlite_status ''txfifo_empty'') s = Some s1" by blast
  from awaitD [OF this] obtain l where "bus s1 = l @ bus s" and l: "set l \<subseteq> range (Rd XUART0_sr)"
    by auto
  moreover from l have "tx_bytes (l @ t) = tx_bytes t" for t
    by (induction l) auto
  ultimately have "tx_bytes (bus s1) = tx_bytes (bus s)" by simp
  then show ?thesis
    by (simp add: xuartlite_write_def s1 st32_def emit_def)
qed

lemma tty_write_tx:
  assumes tx: "responds hw XUART0_sr (fld_on xuartlite_status ''txfifo_empty'')"
  shows "\<exists>s'. tty_write hw c s = Some s' \<and> tx_bytes (bus s') = tx_bytes (bus s) @ tty_expand c"
proof (cases "c = 0x7f")
  case True
  obtain s1 where s1: "xuartlite_write hw 0x08 s = Some s1" "tx_bytes (bus s1) = tx_bytes (bus s) @ [0x08]"
    using xuartlite_write_tx [OF tx] by blast
  obtain s2 where s2: "xuartlite_write hw 0x20 s1 = Some s2"
      "tx_bytes (bus s2) = tx_bytes (bus s1) @ [0x20]"
    using xuartlite_write_tx [OF tx] by blast
  obtain s3 where "xuartlite_write hw 0x08 s2 = Some s3"
      "tx_bytes (bus s3) = tx_bytes (bus s2) @ [0x08]"
    using xuartlite_write_tx [OF tx] by blast
  with True s1 s2 show ?thesis by (simp add: tty_write_def tty_expand_def)
next
  case False
  with xuartlite_write_tx [OF tx, of c s] show ?thesis by (simp add: tty_write_def tty_expand_def)
qed

lemma tty_string_tx:
  assumes tx: "responds hw XUART0_sr (fld_on xuartlite_status ''txfifo_empty'')"
  shows "\<exists>s'. tty_string hw cs s = Some s'
    \<and> tx_bytes (bus s') = tx_bytes (bus s) @ concat (map tty_expand cs)"
proof (induction cs arbitrary: s)
  case (Cons c cs)
  from tty_write_tx [OF tx] obtain s1 where s1: "tty_write hw c s = Some s1"
    "tx_bytes (bus s1) = tx_bytes (bus s) @ tty_expand c" by blast
  with Cons.IH [of s1] show ?case by auto
qed simp

lemma rx0_read_store_split:
  "xuartlite_read s = (case read_load s of None \<Rightarrow> (0, s) | Some (c, h) \<Rightarrow> (c, read_store h s))"
  by (simp add: xuartlite_read_def read_load_def read_store_def Let_def)

lemma fold_push_room:
  "rx0_inv s \<Longrightarrow> length (rx0_content s) + length cs \<le> 7 \<Longrightarrow>
     rx0_head (fold rx0_push cs s) = rx0_head s"
proof (induction cs arbitrary: s)
  case (Cons c cs)
  let ?h = "unat (rx0_head s)" and ?t = "unat (rx0_tail s)"
  from Cons.prems have lt: "?h < 8" "?t < 8" "length (rx0_ring s) = 8" by (auto simp: rx0_inv_def)
  from Cons.prems(2) have "length (span 8 ?h ?t) < 7"
    by (simp add: rx0_content_def ring_content_def lt)
  with span_full_iff [OF lt(1,2)] have "inc 8 ?t \<noteq> ?h" by simp
  with rx0_push_unfold [OF Cons.prems(1), of c]
  have same: "rx0_head (rx0_push c s) = rx0_head s" by (simp add: word_unat_eq_iff)
  have "length (rx0_content (rx0_push c s)) + length cs \<le> 7"
    using Cons.prems by (simp add: rx0_push_content push_drop_def)
  with Cons.IH [OF rx0_push_inv [OF Cons.prems(1)]] same show ?case by simp
qed simp

section \<open>Properties\<close>

text \<open>
  C36: whatever the order of received bytes and reads, the receive ring delivers what a queue of
  seven bytes that drops its oldest byte delivers, in order, and every byte received is
  delivered, still held, or dropped.
\<close>

theorem rx0_ring_refines_queue:
  assumes "rx0_inv s"
    and "queue_run rx0_empty rx0_push (\<lambda>s. fst (xuartlite_read s)) (\<lambda>s. snd (xuartlite_read s))
           ops (s, []) = (s', out)"
  shows "\<exists>lost. spec_run 7 ops (rx0_content s, [], 0) = (rx0_content s', out, lost)
    \<and> length out + length (rx0_content s') + lost = length (rx0_content s) + arrivals ops"
proof -
  from rx0.run_simulates [OF assms, of 0] obtain lost
    where "spec_run 7 ops (rx0_content s, [], 0) = (rx0_content s', out, lost)" by blast
  with spec_run_conserves [OF _ this] show ?thesis by (intro exI [of _ lost]) simp
qed

definition uart_boot :: xuart where
  "uart_boot = \<lparr>bus = [], mem = (\<lambda>_. 0), rx0_tail = 0, rx0_head = 0, rx0_ring = replicate 8 0\<rparr>"

theorem rx0_ring_refines_queue_witness:
  "let s' = rx0_push 66 (rx0_push 65 uart_boot) in
     \<exists>lost. spec_run 7 [Put 65, Put 66, Pop] (rx0_content uart_boot, [], 0) =
       (rx0_content (snd (xuartlite_read s')), [65], lost)"
proof -
  have inv: "rx0_inv uart_boot" by (simp add: rx0_inv_def uart_boot_def)
  have run: "queue_run rx0_empty rx0_push (\<lambda>s. fst (xuartlite_read s)) (\<lambda>s. snd (xuartlite_read s))
      [Put 65, Put 66, Pop] (uart_boot, [])
      = (snd (xuartlite_read (rx0_push 66 (rx0_push 65 uart_boot))), [65])"
    by (simp add: rx0_empty_def rx0_push_def xuartlite_read_def uart_boot_def)
  from rx0_ring_refines_queue [OF inv run] show ?thesis unfolding Let_def by blast
qed

text \<open>
  C37: the receive interrupt handler returns for every finite FIFO content; it empties the FIFO,
  and the ring then holds the last seven bytes of what it held and what was received.
\<close>

theorem uart_irq_drains_fifo:
  assumes "rx_fifo_hw input hw" and "rx0_inv s" and "rx_loads (bus s) \<le> length input"
  shows "\<exists>s'. onxUart0_irq hw s = Some s' \<and> rx0_inv s' \<and> rx_loads (bus s') = length input
    \<and> (let all = rx0_content s @ drop (rx_loads (bus s)) input
       in rx0_content s' = drop (length all - 7) all)"
proof -
  let ?r = "hw (bus s) XUART0_sr" and ?new = "drop (rx_loads (bus s)) input"
  have "fld_get xuartlite_status ''rxfifo_valid'' ?r \<noteq> 0 \<longleftrightarrow> rx_loads (bus s) < length input"
    using assms(1) by (simp add: rx_fifo_hw_def fld_on_def)
  then have irq: "onxUart0_irq hw s = (if rx_loads (bus s) < length input
      then onxUart0_loop hw (emit (Rd XUART0_sr ?r) s) else Some (emit (Rd XUART0_sr ?r) s))"
    by (auto simp: onxUart0_irq_def ld_fld_def ld32_def)
  show ?thesis
  proof (cases "rx_loads (bus s) < length input")
    case True
    then have "rx_loads (bus (emit (Rd XUART0_sr ?r) s)) < length input" by (simp add: emit_def)
    from onxUart0_loop_drains [OF assms(1) _ this] assms(2) obtain s' where
      "onxUart0_loop hw (emit (Rd XUART0_sr ?r) s) = Some s'" "rx_loads (bus s') = length input"
      "rx0_inv s'" "rx0_content s' = rx0_content (fold rx0_push ?new (emit (Rd XUART0_sr ?r) s))"
      by (auto simp: bus_emit)
    then show ?thesis using True irq rx0.content_puts [of "emit (Rd XUART0_sr ?r) s" ?new] assms(2)
      by (simp add: Let_def)
  next
    case False
    with assms irq rx0_content_length [OF assms(2)] show ?thesis by (simp add: bus_emit Let_def)
  qed
qed

definition fifo_hi :: hw where
  "fifo_hi t a =
     (if a = XUART0_sr then (if rx_loads t < 2 then 1 else 0)
      else if rx_loads t = 0 then 72 else 105)"

theorem uart_irq_drains_fifo_witness:
  "\<exists>s'. onxUart0_irq fifo_hi uart_boot = Some s' \<and> rx0_content s' = [72, 105]"
proof -
  have "rx_fifo_hw [72, 105] fifo_hi"
    by (auto simp: rx_fifo_hw_def fifo_hi_def fld_on_def fld_get_def xuartlite_status_def
        less_2_cases_iff)
  moreover have "rx0_inv uart_boot" and "rx0_content uart_boot = []"
    and "rx_loads (bus uart_boot) = 0"
    by (simp_all add: rx0_inv_def uart_boot_def rx0_content_def ring_content_def span_def)
  ultimately show ?thesis using uart_irq_drains_fifo [of "[72, 105]" fifo_hi uart_boot]
    by (auto simp: Let_def)
qed

text \<open>
  The UART service ends, publishes the unread bytes up to the first NUL byte as key events in
  the order received, and leaves in the ring what follows that NUL byte.
\<close>

theorem uart_service_publishes:
  assumes "rx0_inv s"
  shows "\<exists>s'. uart_service s = Some s' \<and> rx0_inv s'
    \<and> pub_keys (bus s') = pub_keys (bus s) @ map (\<lambda>c. (c, 0)) (takeWhile (\<lambda>c. c \<noteq> 0) (rx0_content s))
    \<and> rx0_content s' = tl (dropWhile (\<lambda>c. c \<noteq> 0) (rx0_content s))"
  using assms
proof (induction "rx0_content s" arbitrary: s)
  case Nil
  then show ?case
    by (subst uart_service_step) (simp add: xuartlite_read_empty)
next
  case (Cons x q)
  then have ne: "rx0_content s \<noteq> []" by auto
  note rd = xuartlite_read_pop [OF Cons.prems ne]
  let ?r = "snd (xuartlite_read s)"
  from rd Cons.hyps(2) have x: "fst (xuartlite_read s) = x" "rx0_content ?r = q"
    by (metis list.sel(1), metis list.sel(3))
  have keys: "pub_keys (bus (emit (PubKey x 0) ?r)) = pub_keys (bus s) @ [(x, 0)]"
    by (simp add: emit_def)
  show ?case
  proof (cases "x = 0")
    case True
    with x rd show ?thesis unfolding Cons.hyps(2) [symmetric]
      by (subst uart_service_step) simp
  next
    case False
    with Cons.hyps(1) [of "emit (PubKey x 0) ?r"] x rd keys show ?thesis
      unfolding Cons.hyps(2) [symmetric] by (subst uart_service_step) simp
  qed
qed

theorem uart_service_publishes_witness:
  "\<exists>s'. uart_service (rx0_push 67 (rx0_push 0 (rx0_push 65 uart_boot))) = Some s'
     \<and> pub_keys (bus s') = [(65, 0)] \<and> rx0_content s' = [67]"
proof -
  let ?s = "rx0_push 67 (rx0_push 0 (rx0_push 65 uart_boot))"
  have inv: "rx0_inv uart_boot" by (simp add: rx0_inv_def uart_boot_def)
  then have "rx0_content ?s = [65, 0, 67]"
    by (simp add: rx0_push_content rx0_push_inv push_drop_def)
      (simp add: uart_boot_def rx0_content_def ring_content_def span_def)
  moreover have "bus ?s = []" by (simp add: uart_boot_def)
  moreover have "rx0_inv ?s" using inv by (simp add: rx0_push_inv)
  ultimately show ?thesis using uart_service_publishes [of ?s] by auto
qed

text \<open>
  As long as the transmit FIFO empties again and again, writing a string to the console
  returns, and exactly its characters have been sent, in order, each DEL character as
  backspace, blank, backspace.
\<close>

theorem con_string_transmits:
  assumes "responds hw XUART0_sr (fld_on xuartlite_status ''txfifo_empty'')"
  shows "\<exists>s'. con_string hw str s = Some s'
    \<and> tx_bytes (bus s') = tx_bytes (bus s) @ concat (map tty_expand str)"
  using tty_string_tx [OF assms] by (simp add: con_string_def)

theorem con_string_transmits_witness:
  "\<exists>s'. con_string (\<lambda>t a. if t = [] then 0 else 4) [0x41, 0x7f] uart_boot = Some s'
     \<and> tx_bytes (bus s') = [0x41, 0x08, 0x20, 0x08]"
proof -
  have "fld_on xuartlite_status ''txfifo_empty'' (4 :: u32)"
    by (simp add: fld_on_def fld_get_def xuartlite_status_def)
  then have "responds (\<lambda>t a. if t = [] then 0 else 4) XUART0_sr
      (fld_on xuartlite_status ''txfifo_empty'')"
    unfolding responds_def by (intro allI exI [of _ "Suc 0"]) simp
  from con_string_transmits [OF this, of "[0x41, 0x7f]" uart_boot] show ?thesis
    by (auto simp: tty_expand_def uart_boot_def)
qed

text \<open>
  A read is not atomic, and the interrupt handler may run between the load of the byte and the
  store of the advanced index. As long as the bytes it brings fit beside the unread ones, the
  outcome is that of the read followed by the interrupt: the oldest byte is returned, and
  the ring holds the other unread bytes and the new ones.
\<close>

theorem read_interrupted_with_room:
  assumes "rx0_inv s" and "read_load s = Some (c, h)"
    and "length (rx0_content s) + length cs \<le> 7"
  shows "rx0_content (read_store h (fold rx0_push cs s)) = tl (rx0_content s) @ cs
    \<and> c = hd (rx0_content s) \<and> rx0_inv (read_store h (fold rx0_push cs s))"
proof -
  let ?f = "fold rx0_push cs s"
  from assms(2) have h: "h = rx0_head s" "rx0_head s \<noteq> rx0_tail s"
    "c = fst (xuartlite_read s)"
    by (auto simp: read_load_def xuartlite_read_def Let_def split: if_splits)
  then have ne: "rx0_content s \<noteq> []"
    using rx0_empty_content [OF assms(1)] by (simp add: rx0_empty_def)
  have inv: "rx0_inv ?f" using assms(1) by (rule rx0.invar_puts)
  have cont: "rx0_content ?f = rx0_content s @ cs"
    using rx0.content_puts_fit [OF assms(1,3)] .
  have head: "rx0_head ?f = h" using fold_push_room [OF assms(1,3)] h by simp
  have ne': "rx0_content ?f \<noteq> []" using cont ne by simp
  then have "rx0_head ?f \<noteq> rx0_tail ?f"
    using rx0_empty_content [OF inv] by (simp add: rx0_empty_def)
  then have "read_store h ?f = snd (xuartlite_read ?f)"
    using head by (simp add: xuartlite_read_def read_store_def Let_def)
  with xuartlite_read_pop [OF inv ne'] xuartlite_read_pop [OF assms(1) ne] cont ne h(3)
  show ?thesis by simp
qed

theorem read_interrupted_with_room_witness:
  "rx0_content (read_store 0 (rx0_push 66 (rx0_push 65 uart_boot))) = [66]"
proof -
  let ?s = "rx0_push 65 uart_boot"
  have inv: "rx0_inv uart_boot" by (simp add: rx0_inv_def uart_boot_def)
  then have c: "rx0_content ?s = [65]"
    by (simp add: rx0_push_content push_drop_def)
      (simp add: uart_boot_def rx0_content_def ring_content_def span_def)
  have "read_load ?s = Some (65, 0)"
    by (simp add: read_load_def rx0_push_def uart_boot_def)
  from read_interrupted_with_room [OF rx0_push_inv [OF inv] this, of "[66]"] c
  show ?thesis by simp
qed

text \<open>
  When the ring is full and the handler brings two bytes between the two halves of a read, the
  stale index overwrites the advanced one and every unread byte is lost: the ring is empty
  afterwards, where the read followed by the interrupt leaves seven bytes.
\<close>

theorem read_interrupted_full_loses_ring:
  "let s = fold rx0_push [1, 2, 3, 4, 5, 6, 7] uart_boot in
     read_load s = Some (1, 0)
     \<and> rx0_content (read_store 0 (fold rx0_push [8, 9] s)) = []
     \<and> rx0_content (fold rx0_push [8, 9] (snd (xuartlite_read s))) = [3, 4, 5, 6, 7, 8, 9]"
  by code_simp

end
