(* ===== verification/Entry.thy ===== *)
theory Entry
  imports Eth_Service Xtimer Rtmsure Xuart
begin

text \<open>
  The start of the board (\<open>arch/mb_le/entry.c\<close>): the drivers are started one after the other,
  each installing its interrupt handlers, and the interrupt controller is enabled last. The
  processor routines in assembly, the kernel and the shell are the fields of the record \<open>platform\<close>.
\<close>

section \<open>State\<close>

record 'n board = "'n eth" +
  tmr :: u32
  rt_bcd :: u32
  rt_time :: u32
  uart_tail :: u8
  uart_head :: u8
  uart_ring :: "u8 list"

record 's platform =
  mb_icache_enable :: "'s \<Rightarrow> 's"
  mb_dcache_enable :: "'s \<Rightarrow> 's"
  mb_exceptions_enable :: "'s \<Rightarrow> 's"
  mb_interrupts_enable :: "'s \<Rightarrow> 's"
  kernel_fio :: "'s \<Rightarrow> 's"
  kernel_stdio :: "'s \<Rightarrow> 's"
  shell_start :: "'s \<Rightarrow> 's"

text \<open>The link-time addresses of the interrupt handlers.\<close>

record handlers =
  sbdma_isr :: u32
  ethtx_isr :: u32
  ethrx_isr :: u32
  timer_isr :: u32
  phy_isr :: u32
  rtmsure_isr :: u32
  uart_isr :: u32

text \<open>An operation of a driver with its own variables, on the state of the board.\<close>

definition on_xtimer :: "(xtimer \<Rightarrow> xtimer option) \<Rightarrow> ('n, 'a) board_scheme \<Rightarrow> ('n, 'a) board_scheme option" where
  "on_xtimer f s =
     map_option (\<lambda>z. s\<lparr>bus := bus z, mem := mem z, tmr := tmr_ovrflows z\<rparr>)
       (f \<lparr>bus = bus s, mem = mem s, tmr_ovrflows = tmr s\<rparr>)"

definition on_rtmsure :: "(rtmsure \<Rightarrow> rtmsure option) \<Rightarrow> ('n, 'a) board_scheme \<Rightarrow> ('n, 'a) board_scheme option" where
  "on_rtmsure f s =
     map_option (\<lambda>z. s\<lparr>bus := bus z, mem := mem z, rt_bcd := bcd_time z, rt_time := rt_msuretime z\<rparr>)
       (f \<lparr>bus = bus s, mem = mem s, bcd_time = rt_bcd s, rt_msuretime = rt_time s\<rparr>)"

definition on_xuart :: "(xuart \<Rightarrow> xuart option) \<Rightarrow> ('n, 'a) board_scheme \<Rightarrow> ('n, 'a) board_scheme option" where
  "on_xuart f s =
     map_option (\<lambda>z. s\<lparr>bus := bus z, mem := mem z, uart_tail := rx0_tail z, uart_head := rx0_head z,
                       uart_ring := rx0_ring z\<rparr>)
       (f \<lparr>bus = bus s, mem = mem s, rx0_tail = uart_tail s, rx0_head = uart_head s, rx0_ring = uart_ring s\<rparr>)"

section \<open>The start\<close>

definition platform_init ::
    "hw \<Rightarrow> ('n, 'a) board_scheme platform \<Rightarrow> handlers \<Rightarrow> ('n, 'a) board_scheme \<Rightarrow> ('n, 'a) board_scheme option" where
  "platform_init hw p isr s = do {
     let s = mb_icache_enable p s;
     let s = mb_dcache_enable p s;
     s \<leftarrow> xdma_start hw (sbdma_isr isr) (ethtx_isr isr) (ethrx_isr isr) s;
     s \<leftarrow> on_xtimer (xtimer_start hw (timer_isr isr)) s;
     s \<leftarrow> xtemac_start hw (phy_isr isr) s;
     s \<leftarrow> on_rtmsure (rtmsure_start hw (rtmsure_isr isr)) s;
     s \<leftarrow> on_xuart (xuartlite_start hw (uart_isr isr)) s;
     let s = xintc_start hw s;
     let s = mb_exceptions_enable p s;
     Some (mb_interrupts_enable p s)
   }"

definition main ::
    "hw \<Rightarrow> ('n, 'a) board_scheme platform \<Rightarrow> handlers \<Rightarrow> ('n, 'a) board_scheme lwip_api \<Rightarrow> u32 \<Rightarrow>
       ('n, 'a) board_scheme \<Rightarrow> (int \<times> ('n, 'a) board_scheme) option" where
  "main hw p isr lw hwaddr s = do {
     s \<leftarrow> platform_init hw p isr s;
     let s = kernel_fio p s;
     let s = kernel_stdio p s;
     let s = emit (Out ''Starting RPV (Co) Event Driven OS (microblaze build)...\<newline>'' []) s;
     let s = netdev_if hw lw hwaddr s;
     let s = shell_start p s;
     Some (0, s)
   }"

section \<open>What a start leaves alone\<close>

text \<open>A run that stores to no register of a set.\<close>

fun touches :: "u32 set \<Rightarrow> bus_event \<Rightarrow> bool" where
  "touches A (Wr a v) \<longleftrightarrow> a \<in> A"
| "touches A _ \<longleftrightarrow> False"

definition avoids :: "u32 set \<Rightarrow> history \<Rightarrow> history \<Rightarrow> bool" where
  "avoids A t t' \<longleftrightarrow> (\<exists>l. t' = l @ t \<and> (\<forall>e \<in> set l. \<not> touches A e))"

definition intc_regs :: "u32 set" where
  "intc_regs = {a. a - XINTC_BASE < 0x200}"

definition eth_crs :: "u32 set" where
  "eth_crs = {ch_cr XDMA2_MM2S, ch_cr XDMA2_S2MM}"

text \<open>A line is armed when it is enabled and its vector holds the handler.\<close>

definition armed :: "u8 \<Rightarrow> u32 \<Rightarrow> history \<Rightarrow> bool" where
  "armed irq isr t \<longleftrightarrow> bit (ier_of t) (unat irq) \<and> last_wr (XINTC_ivar irq) t = isr"

section \<open>Lemmas\<close>

lemma avoids_refl [simp]: "avoids A t t"
  by (simp add: avoids_def)

lemma avoids_trans: "avoids A t t' \<Longrightarrow> avoids A t' t'' \<Longrightarrow> avoids A t t''"
  by (auto simp: avoids_def)

lemma avoids_Cons [intro]: "avoids A t t' \<Longrightarrow> \<not> touches A e \<Longrightarrow> avoids A t (e # t')"
  by (auto simp: avoids_def intro: exI [of _ "e # _"])

lemma avoids_await: "await hw a st m = Some m' \<Longrightarrow> avoids A (bus m) (bus m')"
  using awaitD [of hw a st m m'] by (fastforce simp: avoids_def)

lemma avoids_st_fld: "a \<notin> A \<Longrightarrow> avoids A (bus m) (bus (st_fld hw L f v a m))"
  by (auto simp: st_fld_def ld32_def st32_def emit_def intro!: avoids_Cons)

lemma avoids_st32: "a \<notin> A \<Longrightarrow> avoids A (bus m) (bus (st32 a v m))"
  by (auto simp: st32_def emit_def)

lemma avoids_ld_fld: "avoids A (bus m) (bus (snd (ld_fld hw L f a m)))"
  by (auto simp: ld_fld_def ld32_def emit_def Let_def)

lemma touches_runs: "eth_crs \<subseteq> A \<Longrightarrow> \<not> touches A e \<Longrightarrow> ch_runs ch (e # t) = ch_runs ch t"
  by (cases e) (auto simp: eth_crs_def)

lemma avoids_runs: "avoids A t t' \<Longrightarrow> eth_crs \<subseteq> A \<Longrightarrow> ch_runs ch t' = ch_runs ch t"
proof -
  assume "avoids A t t'" and A: "eth_crs \<subseteq> A"
  then obtain l where "t' = l @ t" "\<forall>e \<in> set l. \<not> touches A e" by (auto simp: avoids_def)
  then show ?thesis by (induction l arbitrary: t') (auto simp: touches_runs [OF A])
qed

lemma unat_ivar: "unat (XINTC_ivar irq) = 0x41200100 + 4 * unat irq"
  using unat_u8_less [of irq] by (simp add: XINTC_ivar_def unat_word_ariths unat_ucast_up)

lemma intc_regs_in:
  "XINTC_sie \<in> intc_regs" "XINTC_cie \<in> intc_regs" "XINTC_imr \<in> intc_regs"
  "unat irq < 32 \<Longrightarrow> XINTC_ivar irq \<in> intc_regs"
proof -
  have "XINTC_ivar irq - XINTC_BASE = 0x100 + 4 * ucast irq" by (simp add: XINTC_ivar_def)
  moreover have "unat irq < 32 \<Longrightarrow> unat (0x100 + 4 * ucast irq :: u32) < 0x200"
    by (simp add: unat_word_ariths unat_ucast_up)
  ultimately show "unat irq < 32 \<Longrightarrow> XINTC_ivar irq \<in> intc_regs"
    by (simp add: intc_regs_def word_less_nat_alt)
qed (simp_all add: intc_regs_def xintc_addr_defs)

lemma intc_not_eth: "a \<in> intc_regs \<Longrightarrow> a \<notin> eth_crs"
  by (auto simp: intc_regs_def eth_crs_def ch_cr_def)

lemma touches_armed: "intc_regs \<subseteq> A \<Longrightarrow> unat irq < 32 \<Longrightarrow> \<not> touches A e \<Longrightarrow> armed irq isr (e # t) = armed irq isr t"
  using intc_regs_in by (cases e) (auto simp: armed_def)

lemma avoids_armed:
  assumes "avoids A t t'" "intc_regs \<subseteq> A" "unat irq < 32"
  shows "armed irq isr t' = armed irq isr t"
proof -
  from assms(1) obtain l where "t' = l @ t" "\<forall>e \<in> set l. \<not> touches A e" by (auto simp: avoids_def)
  then show ?thesis by (induction l arbitrary: t') (auto simp: touches_armed [OF assms(2,3)])
qed

text \<open>The two operations of the interrupt controller.\<close>

lemma XINTC_ivar_inj [simp]: "XINTC_ivar i = XINTC_ivar j \<longleftrightarrow> i = j"
  by (auto dest: arg_cong [where f = unat] simp: unat_ivar word_unat_eq_iff)

lemma XINTC_ivar_imr [simp]: "XINTC_imr \<noteq> XINTC_ivar i"
  by (auto dest: arg_cong [where f = unat] simp: unat_ivar XINTC_imr_def)

definition others_armed :: "u8 \<Rightarrow> history \<Rightarrow> history \<Rightarrow> bool" where
  "others_armed irq t t' \<longleftrightarrow> (\<forall>i a. i \<noteq> irq \<and> unat i < 32 \<and> armed i a t \<longrightarrow> armed i a t')"

lemma enable_arms:
  assumes "intc_hw hw" "unat irq < 32" "isr \<noteq> 0"
  shows "\<exists>t. xintc_enableIRQ hw irq isr s = Some (s\<lparr>bus := t\<rparr>) \<and> armed irq isr t
    \<and> others_armed irq (bus s) t \<and> avoids eth_crs (bus s) t"
proof -
  let ?t = "Rd XINTC_ier (ier_of (bus s) OR XINTC_INT irq) # Wr XINTC_sie (XINTC_INT irq) # Wr (XINTC_ivar irq) isr
       # Wr XINTC_imr (hw (bus s) XINTC_imr OR XINTC_INT irq) # Rd XINTC_imr (hw (bus s) XINTC_imr) # bus s"
  note ne = XINTC_ivar_distinct [of irq, symmetric] XINTC_ivar_distinct [symmetric]
  have "armed irq isr ?t" "others_armed irq (bus s) ?t"
    using assms(2) ne by (auto simp: armed_def others_armed_def bit_or_iff bit_XINTC_INT)
  moreover have "avoids eth_crs (bus s) ?t"
    using intc_regs_in(1,3) [THEN intc_not_eth] intc_not_eth [OF intc_regs_in(4) [OF assms(2)]]
    by (auto intro!: avoids_Cons)
  ultimately show ?thesis using xintc_enableIRQ_eq [OF assms, of s] by blast
qed

lemma disable_spares:
  assumes "intc_hw hw" "unat irq < 32"
  shows "\<exists>t. xintc_disableIRQ hw irq s = Some (s\<lparr>bus := t\<rparr>)
    \<and> others_armed irq (bus s) t \<and> avoids eth_crs (bus s) t"
proof -
  let ?t = "Rd XINTC_ier (ier_of (bus s) AND NOT (XINTC_INT irq)) # Wr XINTC_cie (XINTC_INT irq) # bus s"
  note ne = XINTC_ivar_distinct [symmetric]
  have "i \<noteq> irq \<Longrightarrow> unat i \<noteq> unat irq" for i :: u8 by (simp add: word_unat_eq_iff)
  then have "others_armed irq (bus s) ?t"
    using ne by (auto simp: armed_def others_armed_def bit_and_iff bit_not_iff bit_XINTC_INT)
  moreover have "avoids eth_crs (bus s) ?t"
    using intc_regs_in by (auto intro!: avoids_Cons dest: intc_not_eth)
  ultimately show ?thesis using xintc_disableIRQ_eq [OF assms(1), of irq s] by blast
qed

lemma others_armed_refl [simp]: "others_armed irq t t"
  by (simp add: others_armed_def)

lemma others_armed_trans: "others_armed irq t t' \<Longrightarrow> others_armed irq t' t'' \<Longrightarrow> others_armed irq t t''"
  by (simp add: others_armed_def)

lemma avoids_others: "avoids intc_regs t t' \<Longrightarrow> others_armed irq t t'"
  using avoids_armed [of intc_regs t t'] by (auto simp: others_armed_def)

lemma others_armedD: "others_armed irq t t' \<Longrightarrow> armed i a t \<Longrightarrow> i \<noteq> irq \<Longrightarrow> unat i < 32 \<Longrightarrow> armed i a t'"
  by (auto simp: others_armed_def)

lemma avoids_mono: "avoids B t t' \<Longrightarrow> A \<subseteq> B \<Longrightarrow> avoids A t t'"
proof -
  assume "avoids B t t'" and AB: "A \<subseteq> B"
  moreover have "touches A e \<Longrightarrow> touches B e" for e using AB by (cases e) auto
  ultimately show ?thesis by (auto simp: avoids_def)
qed

text \<open>A start that reinstalls the handler of one line: what it does to the lines and the ethernet
  channels.\<close>

definition starts_line :: "u8 \<Rightarrow> u32 \<Rightarrow> history \<Rightarrow> history \<Rightarrow> bool" where
  "starts_line irq isr t t' \<longleftrightarrow> armed irq isr t' \<and> others_armed irq t t' \<and> avoids eth_crs t t'"

lemma starts_line_before:
  "avoids (intc_regs \<union> eth_crs) t t' \<Longrightarrow> starts_line irq isr t' t'' \<Longrightarrow> starts_line irq isr t t''"
proof -
  assume "avoids (intc_regs \<union> eth_crs) t t'" and st: "starts_line irq isr t' t''"
  then have "avoids intc_regs t t'" "avoids eth_crs t t'" by (auto elim: avoids_mono)
  with st show ?thesis
    by (auto simp: starts_line_def intro: avoids_trans others_armed_trans avoids_others)
qed

lemma starts_line_after:
  "unat irq < 32 \<Longrightarrow> avoids (intc_regs \<union> eth_crs) t' t'' \<Longrightarrow> starts_line irq isr t t' \<Longrightarrow> starts_line irq isr t t''"
proof -
  assume "avoids (intc_regs \<union> eth_crs) t' t''" and st: "starts_line irq isr t t'" and "unat irq < 32"
  moreover from this have "avoids intc_regs t' t''" "avoids eth_crs t' t''" by (auto elim: avoids_mono)
  ultimately show ?thesis
    using avoids_armed [of intc_regs t' t'' irq isr]
    by (auto simp: starts_line_def intro: avoids_trans others_armed_trans avoids_others)
qed

lemma enable_starts:
  assumes "intc_hw hw" "unat irq < 32" "isr \<noteq> 0"
  shows "\<exists>t. xintc_enableIRQ hw irq isr s = Some (s\<lparr>bus := t\<rparr>) \<and> starts_line irq isr (bus s) t"
  using enable_arms [OF assms] by (auto simp: starts_line_def)

lemma reenable_starts:
  assumes "intc_hw hw" "unat irq < 32" "isr \<noteq> 0"
  shows "\<exists>t u. xintc_disableIRQ hw irq s = Some (s\<lparr>bus := u\<rparr>)
    \<and> xintc_enableIRQ hw irq isr (s\<lparr>bus := u\<rparr>) = Some (s\<lparr>bus := t\<rparr>) \<and> starts_line irq isr (bus s) t"
proof -
  obtain u where u: "xintc_disableIRQ hw irq s = Some (s\<lparr>bus := u\<rparr>)" "others_armed irq (bus s) u" "avoids eth_crs (bus s) u"
    using disable_spares [OF assms(1,2), of s] by blast
  obtain t where "xintc_enableIRQ hw irq isr (s\<lparr>bus := u\<rparr>) = Some (s\<lparr>bus := t\<rparr>)" "armed irq isr t"
    "others_armed irq u t" "avoids eth_crs u t"
    using enable_arms [OF assms, of "s\<lparr>bus := u\<rparr>"] by auto
  with u show ?thesis by (auto simp: starts_line_def intro: others_armed_trans avoids_trans)
qed

text \<open>The drivers with variables of their own.\<close>

lemma xtimer_regs: "XTIMER_csr \<notin> intc_regs \<union> eth_crs" "XTIMER_lr \<notin> intc_regs \<union> eth_crs"
  by (simp_all add: XTIMER_csr_def XTIMER_lr_def intc_regs_def eth_crs_def ch_cr_def)

lemma xtimer_start_ok:
  assumes "intc_hw hw" "isr \<noteq> 0"
  shows "\<exists>t. xtimer_start hw isr s = Some (s\<lparr>tmr_ovrflows := 0, bus := t\<rparr>) \<and> starts_line XTIMER_IRQ isr (bus s) t"
proof -
  define s1 where "s1 = st32 XTIMER_csr (fld_set xtimer_tcsr ''ENIT'' 1 (fld_set xtimer_tcsr ''ARHT'' 1 (fld_set xtimer_tcsr ''ENT'' 1 0)))
    (st_fld hw xtimer_tcsr ''LOAD'' 1 XTIMER_csr (st32 XTIMER_lr 0 (st_fld hw xtimer_tcsr ''ENT'' 0 XTIMER_csr (s\<lparr>tmr_ovrflows := 0\<rparr>))))"
  have "avoids (intc_regs \<union> eth_crs) (bus s) (bus s1)"
    using xtimer_regs by (auto simp: s1_def st_fld_def ld32_def st32_def emit_def intro!: avoids_Cons)
  moreover obtain t where "xintc_enableIRQ hw XTIMER_IRQ isr s1 = Some (s1\<lparr>bus := t\<rparr>)" "starts_line XTIMER_IRQ isr (bus s1) t"
    using enable_starts [OF assms(1) _ assms(2), of XTIMER_IRQ s1] by (auto simp: XTIMER_IRQ_def)
  moreover have "s1\<lparr>bus := t\<rparr> = s\<lparr>tmr_ovrflows := 0, bus := t\<rparr>" for t
    by (simp add: s1_def st_fld_def ld32_def st32_def emit_def)
  ultimately show ?thesis
    by (auto simp: xtimer_start_def Let_def s1_def [symmetric] intro: starts_line_before)
qed

lemma rtmsure_start_ok:
  assumes "intc_hw hw" "isr \<noteq> 0"
  shows "\<exists>t. rtmsure_start hw isr s = Some (s\<lparr>bcd_time := - 1, bus := t\<rparr>) \<and> starts_line RTMSURE_IRQ isr (bus s) t"
  using reenable_starts [OF assms(1) _ assms(2), of RTMSURE_IRQ "s\<lparr>bcd_time := - 1\<rparr>"]
  by (auto simp: rtmsure_start_def RTMSURE_IRQ_def Let_def)

lemma xuart_start_ok:
  assumes "intc_hw hw" "isr \<noteq> 0"
  shows "\<exists>t. xuartlite_start hw isr s = Some (s\<lparr>bus := t\<rparr>) \<and> starts_line XUART0_IRQ isr (bus s) t"
proof -
  obtain t u where "xintc_disableIRQ hw XUART0_IRQ s = Some (s\<lparr>bus := u\<rparr>)"
    "xintc_enableIRQ hw XUART0_IRQ isr (s\<lparr>bus := u\<rparr>) = Some (s\<lparr>bus := t\<rparr>)" "starts_line XUART0_IRQ isr (bus s) t"
    using reenable_starts [OF assms(1) _ assms(2), of XUART0_IRQ s] by auto
  moreover have "avoids (intc_regs \<union> eth_crs) t (Wr XUART0_cr v # t)" for v
    by (auto intro!: avoids_Cons simp: XUART0_cr_def intc_regs_def eth_crs_def ch_cr_def)
  ultimately show ?thesis
    by (simp add: xuartlite_start_def Let_def st32_def emit_def)
      (rule exI, rule conjI, rule refl, rule starts_line_after, simp_all)
qed

text \<open>The accesses to the PHY.\<close>

abbreviation other_regs :: "u32 set" where "other_regs \<equiv> intc_regs \<union> eth_crs"

lemma mdio_regs:
  "MDIO_stp \<notin> other_regs" "MDIO_IC_icr \<notin> other_regs" "MDIO_cr \<notin> other_regs" "MDIO_wdr \<notin> other_regs"
  by (simp_all add: mdio_addr_defs intc_regs_def eth_crs_def ch_cr_def)

lemma write_phyReg_avoids:
  assumes "write_phyReg hw r v s = Some (b, s')"
  shows "avoids other_regs (bus s) (bus s')"
proof (cases "fst (ld_fld hw xtemac_mdio_control ''mdio_ready'' MDIO_cr s) = 0")
  case True
  with assms show ?thesis using avoids_ld_fld by (auto simp: write_phyReg_def split_beta Let_def)
next
  case False
  define s1 where "s1 = st_fld hw xtemac_mdio_irq ''mdioc_irq'' 1 MDIO_IC_icr
    (snd (ld_fld hw xtemac_mdio_control ''mdio_ready'' MDIO_cr s))"
  have 1: "avoids other_regs (bus s) (bus s1)"
    unfolding s1_def by (rule avoids_trans [OF avoids_ld_fld avoids_st_fld [OF mdio_regs(2)]])
  from assms False obtain s2 s4 where
    2: "await hw MDIO_IC_isr (\<lambda>v. \<not> fld_on xtemac_mdio_irq ''mdioc_irq'' v) s1 = Some s2"
    and 4: "await hw MDIO_IC_isr (fld_on xtemac_mdio_irq ''mdioc_irq'') (st32 MDIO_cr (mdio_command XTEMAC_MDIO_WRITE r)
      (st_fld hw xtemac_mdio_wdata ''wdata'' (ucast v) MDIO_wdr s2)) = Some s'"
    by (auto simp: write_phyReg_def split_beta Let_def s1_def bind_eq_Some_conv)
  note w = avoids_trans [OF avoids_st_fld [OF mdio_regs(4)] avoids_st32 [OF mdio_regs(3)]]
  from avoids_trans [OF avoids_trans [OF 1 avoids_await [OF 2]] avoids_trans [OF w avoids_await [OF 4]]] show ?thesis .
qed

lemma read_phyReg_avoids:
  assumes "read_phyReg hw r s = Some (b, s')"
  shows "avoids other_regs (bus s) (bus s')"
proof (cases "fst (ld_fld hw xtemac_mdio_rdata ''mdio_ready'' MDIO_rdr s) = 0")
  case True
  with assms show ?thesis using avoids_ld_fld by (auto simp: read_phyReg_def split_beta Let_def)
next
  case False
  define s1 where "s1 = st_fld hw xtemac_mdio_irq ''mdioc_irq'' 1 MDIO_IC_icr
    (snd (ld_fld hw xtemac_mdio_rdata ''mdio_ready'' MDIO_rdr s))"
  have 1: "avoids other_regs (bus s) (bus s1)"
    unfolding s1_def by (rule avoids_trans [OF avoids_ld_fld avoids_st_fld [OF mdio_regs(2)]])
  from assms False obtain s2 s4 where
    2: "await hw MDIO_IC_isr (\<lambda>v. \<not> fld_on xtemac_mdio_irq ''mdioc_irq'' v) s1 = Some s2"
    and 4: "await hw MDIO_IC_isr (fld_on xtemac_mdio_irq ''mdioc_irq'') (st32 MDIO_cr (mdio_command XTEMAC_MDIO_READ r) s2) = Some s4"
    and s': "s' = snd (ld_fld hw xtemac_mdio_rdata ''rdata'' MDIO_rdr s4)"
    by (auto simp: read_phyReg_def split_beta Let_def s1_def bind_eq_Some_conv)
  from avoids_trans [OF avoids_trans [OF 1 avoids_await [OF 2]] avoids_trans [OF avoids_st32 [OF mdio_regs(3)] avoids_await [OF 4]]]
  show ?thesis unfolding s' by (rule avoids_trans) (rule avoids_ld_fld)
qed

lemma read_phyInto_avoids: "read_phyInto hw r p s = Some (v, s') \<Longrightarrow> avoids other_regs (bus s) (bus s')"
  by (auto simp: read_phyInto_def bind_eq_Some_conv dest: read_phyReg_avoids)

lemma phyReset_loop_avoids:
  assumes "phyReset_loop hw p s = Some s'"
  shows "avoids other_regs (bus s) (bus s')"
proof (rule phyReset_loop.raw_induct [where P = "\<lambda>hw p s s'. avoids other_regs (bus s) (bus s')", OF _ assms])
  fix f :: "hw \<Rightarrow> u16 \<Rightarrow> 'a machine_scheme \<Rightarrow> 'a machine_scheme option"
  fix hw p s s'
  assume IH: "\<And>hw p s s'. f hw p s = Some s' \<Longrightarrow> avoids other_regs (bus s) (bus s')"
    and eq: "do { (phy, s) \<leftarrow> read_phyInto hw XTEMAC_MDIO_PHY_BMCR p s;
      if fld_on phy_bmcr ''reset'' phy then f hw phy s else Some s } = Some s'"
  then obtain phy s1 where rd: "read_phyInto hw XTEMAC_MDIO_PHY_BMCR p s = Some (phy, s1)"
    and k: "(if fld_on phy_bmcr ''reset'' phy then f hw phy s1 else Some s1) = Some s'"
    by (auto simp: bind_eq_Some_conv)
  from k IH have "avoids other_regs (bus s1) (bus s')" by (auto split: if_splits)
  with read_phyInto_avoids [OF rd] show "avoids other_regs (bus s) (bus s')" by (rule avoids_trans)
qed

lemma phy_starts:
  assumes "intc_hw hw" "mdio_hw hw phy" "phy_resets N phy" "isr \<noteq> 0"
  shows "\<exists>t. xtemac_phy hw isr s = Some (s\<lparr>link_sig := False, bus := t\<rparr>) \<and> starts_line XTEMAC_PHY_IRQ isr (bus s) t"
proof -
  obtain t where run: "xtemac_phy hw isr s = Some (s\<lparr>link_sig := False, bus := t\<rparr>)"
    using phy_start_ok [OF assms, of s] by blast
  let ?s0 = "st32 MDIO_stp (fld_set xtemac_mdio_setup ''clock_divide'' XTEMAC_MDIO_CLOCK_DIV
    (fld_set xtemac_mdio_setup ''mdio_enable'' 1 0)) (s\<lparr>link_sig := False\<rparr>)"
  from run obtain s2 b3 s3 s4 s5 b6 where
    2: "xtemac_phyReset hw ?s0 = Some s2"
    and 3: "write_phyReg hw XTEMAC_MDIO_PHY_BMCR (fld_set phy_bmcr ''autoneg_enable'' 1 0) s2 = Some (b3, s3)"
    and 4: "xintc_disableIRQ hw XTEMAC_PHY_IRQ s3 = Some s4"
    and 5: "xintc_enableIRQ hw XTEMAC_PHY_IRQ isr s4 = Some s5"
    and 6: "write_phyReg hw XTEMAC_MDIO_LAN8720A_IMR (fld_set lan8720a_imr ''linkdown_irq_en'' 1
        (fld_set lan8720a_imr ''autoneg_irq_en'' 1 0)) s5 = Some (b6, s\<lparr>link_sig := False, bus := t\<rparr>)"
    by (auto simp: xtemac_phy_def Let_def bind_eq_Some_conv split_beta)
  from 2 obtain b7 s7 where 7: "write_phyReg hw XTEMAC_MDIO_PHY_BMCR (fld_set phy_bmcr ''reset'' 1 0) ?s0 = Some (b7, s7)"
    and 8: "phyReset_loop hw (fld_set phy_bmcr ''reset'' 1 0) s7 = Some s2"
    by (auto simp: xtemac_phyReset_def Let_def bind_eq_Some_conv)
  have "avoids other_regs (bus s) (bus ?s0)"
    using avoids_st32 [OF mdio_regs(1), of "s\<lparr>link_sig := False\<rparr>"] by simp
  from avoids_trans [OF avoids_trans [OF this write_phyReg_avoids [OF 7]]
      avoids_trans [OF phyReset_loop_avoids [OF 8] write_phyReg_avoids [OF 3]]]
  have before: "avoids other_regs (bus s) (bus s3)" .
  have "starts_line XTEMAC_PHY_IRQ isr (bus s3) (bus s5)"
    using reenable_starts [OF assms(1) _ assms(4), of XTEMAC_PHY_IRQ s3] 4 5 by auto
  from starts_line_before [OF before this] starts_line_after [OF _ write_phyReg_avoids [OF 6]]
  have "starts_line XTEMAC_PHY_IRQ isr (bus s) t" by simp
  with run show ?thesis by blast
qed

text \<open>The MAC and its two rings.\<close>

lemma temac_regs:
  "TEMAC_rx_cfg_w1 \<notin> intc_regs" "TEMAC_tx_cfg \<notin> intc_regs" "TEMAC_uaw0 \<notin> intc_regs" "TEMAC_uaw1 \<notin> intc_regs"
  "TEMAC_uaw0 \<notin> eth_crs" "TEMAC_uaw1 \<notin> eth_crs"
  "ch_currdesc XDMA2_S2MM \<notin> intc_regs" "ch_cr XDMA2_S2MM \<notin> intc_regs" "ch_taildesc XDMA2_S2MM \<notin> intc_regs"
  by (simp_all add: temac_addr_defs intc_regs_def eth_crs_def ch_cr_def ch_currdesc_def ch_taildesc_def)

lemma trxreset_avoids:
  assumes "xtemac_trxreset hw s = Some s'"
  shows "avoids intc_regs (bus s) (bus s')"
proof -
  from assms obtain s1 where
    1: "await hw TEMAC_rx_cfg_w1 (\<lambda>v. \<not> fld_on xtemac_rx_cfg_w1 ''reset'' v)
      (st_fld hw xtemac_rx_cfg_w1 ''reset'' 1 TEMAC_rx_cfg_w1 s) = Some s1"
    and 2: "await hw TEMAC_tx_cfg (\<lambda>v. \<not> fld_on xtemac_tx_cfg ''reset'' v)
      (st_fld hw xtemac_tx_cfg ''reset'' 1 TEMAC_tx_cfg s1) = Some s'"
    by (auto simp: xtemac_trxreset_def Let_def bind_eq_Some_conv)
  from avoids_trans [OF avoids_trans [OF avoids_st_fld [OF temac_regs(1)] avoids_await [OF 1]]
      avoids_trans [OF avoids_st_fld [OF temac_regs(2)] avoids_await [OF 2]]] show ?thesis .
qed

lemma setmac_avoids:
  "avoids intc_regs (bus s) (bus (xtemac_setmac m s))" "avoids eth_crs (bus s) (bus (xtemac_setmac m s))"
  "\<exists>t. xtemac_setmac m s = s\<lparr>bus := t\<rparr>"
  using temac_regs by (auto simp: xtemac_setmac_def st32_def emit_def Let_def intro!: avoids_Cons)

lemma txsgnormal_avoids:
  assumes "ethdma_txsgnormal hw l c s = Some (b, s')"
  shows "avoids intc_regs (bus s) (bus s')"
  using assms
  by (auto simp: ethdma_txsgnormal_def xsgdma_sgallowed_def xsgdma_ring_def xdcache_flush_def ld32_def emit_def
      bind_eq_Some_conv split_beta Let_def split: if_splits intro!: avoids_Cons)

lemma rxsgcyclic_avoids:
  assumes "ethdma_rxsgcyclic hw l c s = Some (b, s')"
  shows "avoids intc_regs (bus s) (bus s')"
  using assms temac_regs
  by (auto simp: ethdma_rxsgcyclic_def xsgdma_sgallowed_def xsgdma_ring_def xsgdma_cyclicTrans_def xdcache_flush_def
      ld32_def st32_def emit_def bind_eq_Some_conv split_beta Let_def split: if_splits intro!: avoids_Cons)

lemma ring_set_board:
  "ethdma_txsgnormal hw l c s = Some (b, s') \<Longrightarrow> tmr s' = tmr s"
  "ethdma_rxsgcyclic hw l c s = Some (b, s') \<Longrightarrow> tmr s' = tmr s"
  by (auto simp: ethdma_txsgnormal_def ethdma_rxsgcyclic_def xsgdma_sgallowed_def xsgdma_ring_def
      xsgdma_cyclicTrans_def xdcache_flush_def ld32_def st32_def emit_def
      bind_eq_Some_conv split_beta Let_def split: if_splits)

definition eth_fresh :: "('n, 'a) eth_scheme \<Rightarrow> bool" where
  "eth_fresh s \<longleftrightarrow> eth_inv s \<and> rx_frames s = [] \<and> tx_frames s = [] \<and> \<not> tx_locked s"

lemma temac_starts:
  fixes s :: "('n, 'a) board_scheme"
  assumes hw: "intc_hw hw" "mdio_hw hw phy" "phy_resets N phy" "ethdma_hw hw" "temac_hw hw"
    and "isr \<noteq> 0" "eth_idle (bus s)"
  shows "\<exists>s'. xtemac_start hw isr s = Some s' \<and> eth_fresh s' \<and> mem s' = mem s \<and> tmr s' = tmr s
    \<and> armed XTEMAC_PHY_IRQ isr (bus s') \<and> others_armed XTEMAC_PHY_IRQ (bus s) (bus s')"
proof -
  obtain t1 where 1: "xtemac_phy hw isr s = Some (s\<lparr>link_sig := False, bus := t1\<rparr>)"
    and l1: "starts_line XTEMAC_PHY_IRQ isr (bus s) t1"
    using phy_starts [OF hw(1-3) assms(6), of s] by blast
  let ?s1 = "s\<lparr>link_sig := False, bus := t1\<rparr>"
  have i1: "eth_idle t1" using l1 assms(7) avoids_runs [of eth_crs "bus s" t1] by (simp add: starts_line_def)
  obtain t2 where 2: "xtemac_trxreset hw ?s1 = Some (?s1\<lparr>bus := t2\<rparr>)" and i2: "eth_idle t2"
    using trxreset_ok [OF hw(5), of ?s1] i1 by auto
  obtain t3 where 3: "xtemac_setmac XTEMAC_DEF_MACADDR (?s1\<lparr>bus := t2\<rparr>) = ?s1\<lparr>bus := t3\<rparr>"
    using setmac_avoids(3) [of XTEMAC_DEF_MACADDR "?s1\<lparr>bus := t2\<rparr>"] by auto
  have a3: "avoids intc_regs t2 t3" "avoids eth_crs t2 t3"
    using setmac_avoids(1,2) [of "?s1\<lparr>bus := t2\<rparr>" XTEMAC_DEF_MACADDR] 3 by simp_all
  have i3: "eth_idle t3" using i2 avoids_runs [OF a3(2)] by simp
  obtain s4 where 4: "ethdma_txsgnormal hw XTEMAC_MTUS_BUFFER XTEMAC_MTU (?s1\<lparr>bus := t3\<rparr>) = Some (XDMA2_MM2S_BUFFER, s4)"
    and tx: "tx_inv 1536 s4" "tx_frames s4 = []" "\<not> tx_locked s4" "mem s4 = mem s" "\<not> ch_runs XDMA2_S2MM (bus s4)"
    using tx_ring_set [OF hw(4), of "?s1\<lparr>bus := t3\<rparr>"] i3 by auto
  obtain s5 where 5: "ethdma_rxsgcyclic hw XTEMAC_MTUS_BUFFER XTEMAC_MTU s4 = Some (XDMA2_S2MM_BUFFER, s5)"
    and rx: "rx_ready 1536 s5" "rx_frames s5 = []" "tx_inv 1536 s5" "tx_frames s5 = []" "\<not> tx_locked s5" "mem s5 = mem s"
    using rx_ring_set [OF hw(4) tx(5)] tx by auto
  have run: "xtemac_start hw isr s = Some s5"
    unfolding xtemac_start_def Let_def 1 bind.bind_lunit 2 3 4 5 prod.case ..
  have "avoids intc_regs t1 t2" using trxreset_avoids [OF 2] by simp
  moreover have "avoids intc_regs t3 (bus s4)" using txsgnormal_avoids [OF 4] by simp
  ultimately have av: "avoids intc_regs t1 (bus s5)"
    using a3(1) rxsgcyclic_avoids [OF 5] by (blast intro: avoids_trans)
  have "armed XTEMAC_PHY_IRQ isr (bus s5)"
    using l1 avoids_armed [OF av, of XTEMAC_PHY_IRQ isr] by (simp add: starts_line_def)
  moreover have "others_armed XTEMAC_PHY_IRQ (bus s) (bus s5)"
    using l1 avoids_others [OF av] by (auto simp: starts_line_def intro: others_armed_trans)
  moreover have "tmr s5 = tmr s" using ring_set_board(1) [OF 4] ring_set_board(2) [OF 5] by simp
  ultimately show ?thesis using run rx by (simp add: eth_fresh_def eth_inv_def)
qed

text \<open>The DMA engines.\<close>

lemma xdma_starts:
  assumes hw: "intc_hw hw" "out_of_reset hw XDMA0_MM2S" "out_of_reset hw XDMA0_S2MM" "out_of_reset hw XDMA1_MM2S"
    and isr: "f \<noteq> 0" "g \<noteq> 0" "h \<noteq> 0"
  shows "\<exists>s'. xdma_start hw f g h s = Some s' \<and> mem s' = mem s \<and> avoids eth_crs (bus s) (bus s')
    \<and> armed XDMA1_MM2S_IRQ f (bus s') \<and> armed XDMA2_MM2S_IRQ g (bus s') \<and> armed XDMA2_S2MM_IRQ h (bus s')"
proof -
  obtain s' where run: "xdma_start hw f g h s = Some s'" and mem: "mem s' = mem s"
    using xdma_start_ok [OF hw isr, of s] by blast
  let ?rdy = "\<lambda>v :: u32. \<not> fld_on xdmacr ''reset'' v"
  let ?s0 = "s\<lparr>eth_rxhead := 0, eth_rxtail := 0, rxcount := 0, txcount := 0, lostcount := 0,
      eth_txtail := 0, eth_txpkts := 0, eth_txdepth := 0\<rparr>"
  from run obtain s1 s2 s3 s5 s6 s7 s8 s9 where
    1: "xintc_disableIRQ hw XDMA1_MM2S_IRQ ?s0 = Some s1" and 2: "xintc_disableIRQ hw XDMA2_MM2S_IRQ s1 = Some s2"
    and 3: "xintc_disableIRQ hw XDMA2_S2MM_IRQ s2 = Some s3"
    and 5: "await hw (ch_cr XDMA0_MM2S) ?rdy (st_fld hw xdmacr ''reset'' 1 (ch_cr XDMA1_MM2S)
      (st_fld hw xdmacr ''reset'' 1 (ch_cr XDMA0_S2MM) (st_fld hw xdmacr ''reset'' 1 (ch_cr XDMA0_MM2S) s3))) = Some s5"
    and 6: "await hw (ch_cr XDMA0_S2MM) ?rdy s5 = Some s6" and 7: "await hw (ch_cr XDMA1_MM2S) ?rdy s6 = Some s7"
    and 8: "xintc_enableIRQ hw XDMA1_MM2S_IRQ f s7 = Some s8" and 9: "xintc_enableIRQ hw XDMA2_MM2S_IRQ g s8 = Some s9"
    and 10: "xintc_enableIRQ hw XDMA2_S2MM_IRQ h s9 = Some s'"
    by (auto simp: xdma_start_def Let_def bind_eq_Some_conv)
  have a1: "avoids eth_crs (bus s) (bus s1)" "avoids eth_crs (bus s1) (bus s2)" "avoids eth_crs (bus s2) (bus s3)"
    using disable_spares [OF hw(1), of XDMA1_MM2S_IRQ ?s0] disable_spares [OF hw(1), of XDMA2_MM2S_IRQ s1]
      disable_spares [OF hw(1), of XDMA2_S2MM_IRQ s2] 1 2 3 by auto
  have cr: "ch_cr XDMA0_MM2S \<notin> eth_crs" "ch_cr XDMA0_S2MM \<notin> eth_crs" "ch_cr XDMA1_MM2S \<notin> eth_crs"
    by (simp_all add: eth_crs_def ch_cr_def)
  from avoids_trans [OF avoids_trans [OF avoids_trans [OF avoids_st_fld [OF cr(1)] avoids_st_fld [OF cr(2)]]
        avoids_st_fld [OF cr(3)]] avoids_await [OF 5]]
  have "avoids eth_crs (bus s3) (bus s5)" .
  then have a2: "avoids eth_crs (bus s3) (bus s7)"
    using avoids_await [OF 6] avoids_await [OF 7] by (blast intro: avoids_trans)
  have e: "armed XDMA1_MM2S_IRQ f (bus s8)" "avoids eth_crs (bus s7) (bus s8)"
    "armed XDMA2_MM2S_IRQ g (bus s9)" "others_armed XDMA2_MM2S_IRQ (bus s8) (bus s9)" "avoids eth_crs (bus s8) (bus s9)"
    "armed XDMA2_S2MM_IRQ h (bus s')" "others_armed XDMA2_S2MM_IRQ (bus s9) (bus s')" "avoids eth_crs (bus s9) (bus s')"
    using enable_arms [OF hw(1) _ isr(1), of XDMA1_MM2S_IRQ s7] enable_arms [OF hw(1) _ isr(2), of XDMA2_MM2S_IRQ s8]
      enable_arms [OF hw(1) _ isr(3), of XDMA2_S2MM_IRQ s9] 8 9 10 by auto
  have "armed XDMA1_MM2S_IRQ f (bus s9)" using others_armedD [OF e(4,1)] by simp
  then have "armed XDMA1_MM2S_IRQ f (bus s')" "armed XDMA2_MM2S_IRQ g (bus s')"
    using others_armedD [OF e(7)] e(3) by simp_all
  moreover have "avoids eth_crs (bus s) (bus s')" using a1 a2 e(2,5,8) by (blast intro: avoids_trans)
  ultimately show ?thesis using run mem e(6) by blast
qed

text \<open>Enabling the controller.\<close>

lemma xintc_start_eq:
  "\<exists>t. xintc_start hw s = s\<lparr>bus := Wr XINTC_mer 3 # t\<rparr> \<and> (\<forall>i a. armed i a t = armed i a (bus s))"
proof -
  have mer: "fld_set xintc_mer ''hie'' 1 (fld_set xintc_mer ''me'' 1 0) = (3 :: u32)"
    by (simp add: fld_set_def xintc_mer_def mask_numeral)
  have iv: "XINTC_iar \<noteq> XINTC_ivar i" for i
    by (auto dest: arg_cong [where f = unat] simp: unat_ivar XINTC_iar_def)
  have ne: "XINTC_iar \<noteq> XINTC_sie" "XINTC_iar \<noteq> XINTC_cie" by (simp_all add: xintc_addr_defs)
  let ?v = "hw (bus s) XINTC_isr"
  let ?t = "(if ?v \<noteq> 0 then [Wr XINTC_iar ?v] else []) @ Rd XINTC_isr ?v # bus s"
  have "xintc_start hw s = s\<lparr>bus := Wr XINTC_mer 3 # ?t\<rparr>"
    by (simp add: xintc_start_def ld32_def st32_def emit_def mer)
  moreover have "armed i a ?t = armed i a (bus s)" for i a using iv ne by (simp add: armed_def)
  ultimately show ?thesis by blast
qed

lemma armed_mer: "armed i a (Wr XINTC_mer v # t) = armed i a t"
proof -
  have "XINTC_mer \<noteq> XINTC_ivar i" by (auto dest: arg_cong [where f = unat] simp: unat_ivar XINTC_mer_def)
  moreover have "XINTC_mer \<noteq> XINTC_sie" "XINTC_mer \<noteq> XINTC_cie" by (simp_all add: xintc_addr_defs)
  ultimately show ?thesis by (simp add: armed_def)
qed

lemma eth_fresh_board [simp]:
  "eth_fresh (s\<lparr>bus := t\<rparr>) = eth_fresh s"
  "eth_fresh (s\<lparr>rt_bcd := b\<rparr>) = eth_fresh s"
  by (simp_all add: eth_fresh_def eth_inv_def rx_ready_def rx_inv_def rx_frames_def rx_pending_def rx_frame_def
      tx_inv_def tx_ready_def tx_frames_def tx_locked_def tx_count_def tx_frame_def)

text \<open>The last drivers and the controller.\<close>

lemma board_swap: "s\<lparr>bus := t, rt_bcd := b\<rparr> = s\<lparr>rt_bcd := b, bus := t\<rparr>"
  by simp

lemma late_drivers:
  assumes hw: "intc_hw hw" and n: "rtm \<noteq> 0" "uart \<noteq> 0"
  shows "\<exists>s4 s5 t. on_rtmsure (rtmsure_start hw rtm) s = Some s4 \<and> on_xuart (xuartlite_start hw uart) s4 = Some s5
    \<and> xintc_start hw s5 = s\<lparr>rt_bcd := - 1, bus := Wr XINTC_mer 3 # t\<rparr>
    \<and> armed 4 rtm (Wr XINTC_mer 3 # t) \<and> armed 0 uart (Wr XINTC_mer 3 # t)
    \<and> (\<forall>i a. armed i a (bus s) \<longrightarrow> i \<noteq> 4 \<longrightarrow> i \<noteq> 0 \<longrightarrow> unat i < 32 \<longrightarrow> armed i a (Wr XINTC_mer 3 # t))"
proof -
  obtain t4 where 4: "on_rtmsure (rtmsure_start hw rtm) s = Some (s\<lparr>rt_bcd := - 1, bus := t4\<rparr>)"
    and l4: "starts_line 4 rtm (bus s) t4"
    using rtmsure_start_ok [OF hw n(1), of "\<lparr>bus = bus s, mem = mem s, bcd_time = rt_bcd s, rt_msuretime = rt_time s\<rparr>"]
    by (auto simp: RTMSURE_IRQ_def on_rtmsure_def board_swap)
  obtain t5 where 5: "on_xuart (xuartlite_start hw uart) (s\<lparr>rt_bcd := - 1, bus := t4\<rparr>) = Some (s\<lparr>rt_bcd := - 1, bus := t5\<rparr>)"
    and l5: "starts_line 0 uart t4 t5"
    using xuart_start_ok [OF hw n(2), of "\<lparr>bus = t4, mem = mem s, rx0_tail = uart_tail s, rx0_head = uart_head s,
      rx0_ring = uart_ring s\<rparr>"] by (auto simp: on_xuart_def)
  obtain t6 where 6: "xintc_start hw (s\<lparr>rt_bcd := - 1, bus := t5\<rparr>) = s\<lparr>rt_bcd := - 1, bus := Wr XINTC_mer 3 # t6\<rparr>"
    and l6: "\<And>i a. armed i a t6 = armed i a t5"
    using xintc_start_eq [of hw "s\<lparr>rt_bcd := - 1, bus := t5\<rparr>"] by auto
  have "armed 4 rtm (Wr XINTC_mer 3 # t6)" "armed 0 uart (Wr XINTC_mer 3 # t6)"
    "armed i a (bus s) \<Longrightarrow> i \<noteq> 4 \<Longrightarrow> i \<noteq> 0 \<Longrightarrow> unat i < 32 \<Longrightarrow> armed i a (Wr XINTC_mer 3 # t6)" for i a
    using l4 l5 by (auto simp: armed_mer l6 starts_line_def dest: others_armedD)
  with 4 5 6 show ?thesis by blast
qed

section \<open>Property\<close>

text \<open>Documented behaviour of the processor routines: they only change the machine status register.\<close>

definition cpu_ok :: "('n, 'a) board_scheme platform \<Rightarrow> bool" where
  "cpu_ok p \<longleftrightarrow> (\<forall>s. mb_icache_enable p s = s \<and> mb_dcache_enable p s = s
     \<and> mb_exceptions_enable p s = s \<and> mb_interrupts_enable p s = s)"

definition lines :: "handlers \<Rightarrow> (u8 \<times> u32) list" where
  "lines isr = [(XUART0_IRQ, uart_isr isr), (XDMA1_MM2S_IRQ, sbdma_isr isr), (RTMSURE_IRQ, rtmsure_isr isr),
     (XTIMER_IRQ, timer_isr isr), (XDMA2_MM2S_IRQ, ethtx_isr isr), (XDMA2_S2MM_IRQ, ethrx_isr isr),
     (XTEMAC_PHY_IRQ, phy_isr isr)]"

lemma board_start_ok:
  assumes hw: "intc_hw hw" "mdio_hw hw phy" "phy_resets N phy" "ethdma_hw hw" "temac_hw hw"
      "out_of_reset hw XDMA0_MM2S" "out_of_reset hw XDMA0_S2MM" "out_of_reset hw XDMA1_MM2S"
    and p: "cpu_ok p" and isr: "\<forall>l \<in> set (lines isr). snd l \<noteq> 0" and idle: "eth_idle (bus s)"
  shows "\<exists>s'. platform_init hw p isr s = Some s' \<and> eth_fresh s' \<and> mem s' = mem s \<and> tmr s' = 0 \<and> rt_bcd s' = - 1
    \<and> (\<forall>(irq, a) \<in> set (lines isr). armed irq a (bus s')) \<and> hd (bus s') = Wr XINTC_mer 3"
proof -
  have n: "uart_isr isr \<noteq> 0" "sbdma_isr isr \<noteq> 0" "rtmsure_isr isr \<noteq> 0" "timer_isr isr \<noteq> 0"
    "ethtx_isr isr \<noteq> 0" "ethrx_isr isr \<noteq> 0" "phy_isr isr \<noteq> 0" using isr by (simp_all add: lines_def)
  note irqs = RTMSURE_IRQ_def XTIMER_IRQ_def
  obtain s1 where 1: "xdma_start hw (sbdma_isr isr) (ethtx_isr isr) (ethrx_isr isr) s = Some s1" "mem s1 = mem s"
    "avoids eth_crs (bus s) (bus s1)" "armed 3 (sbdma_isr isr) (bus s1)" "armed 9 (ethtx_isr isr) (bus s1)" "armed 10 (ethrx_isr isr) (bus s1)"
    using xdma_starts [OF hw(1,6-8) n(2,5,6), of s] by blast
  obtain t2 where "xtimer_start hw (timer_isr isr) \<lparr>bus = bus s1, mem = mem s1, tmr_ovrflows = tmr s1\<rparr>
      = Some \<lparr>bus = t2, mem = mem s1, tmr_ovrflows = 0\<rparr>" and l2: "starts_line 6 (timer_isr isr) (bus s1) t2"
    using xtimer_start_ok [OF hw(1) n(4), of "\<lparr>bus = bus s1, mem = mem s1, tmr_ovrflows = tmr s1\<rparr>"] by (auto simp: irqs)
  then have 2: "on_xtimer (xtimer_start hw (timer_isr isr)) s1 = Some (s1\<lparr>bus := t2, tmr := 0\<rparr>)" by (simp add: on_xtimer_def)
  let ?s2 = "s1\<lparr>bus := t2, tmr := 0\<rparr>"
  have "eth_idle t2" using idle avoids_runs [OF 1(3)] l2 avoids_runs [of eth_crs "bus s1" t2] by (simp add: starts_line_def)
  then obtain s3 where 3: "xtemac_start hw (phy_isr isr) ?s2 = Some s3" "eth_fresh s3" "mem s3 = mem s" "tmr s3 = 0"
    "armed 11 (phy_isr isr) (bus s3)" "others_armed 11 t2 (bus s3)"
    using temac_starts [OF hw(1-5) n(7), of ?s2] 1(2) by auto
  obtain s4 s5 t where late: "on_rtmsure (rtmsure_start hw (rtmsure_isr isr)) s3 = Some s4"
      "on_xuart (xuartlite_start hw (uart_isr isr)) s4 = Some s5"
      "xintc_start hw s5 = s3\<lparr>rt_bcd := - 1, bus := Wr XINTC_mer 3 # t\<rparr>"
    and l: "armed 4 (rtmsure_isr isr) (Wr XINTC_mer 3 # t)" "armed 0 (uart_isr isr) (Wr XINTC_mer 3 # t)"
    and keep: "\<And>i a. armed i a (bus s3) \<Longrightarrow> i \<noteq> 4 \<Longrightarrow> i \<noteq> 0 \<Longrightarrow> unat i < 32 \<Longrightarrow> armed i a (Wr XINTC_mer 3 # t)"
    using late_drivers [OF hw(1) n(3,1), of s3] by blast
  let ?s6 = "s3\<lparr>rt_bcd := - 1, bus := Wr XINTC_mer 3 # t\<rparr>"
  have run: "platform_init hw p isr s = Some ?s6"
    using p unfolding platform_init_def cpu_ok_def Let_def by (simp add: 1(1) 2 3(1) late)
  have keep2: "armed i a (bus s3)" if "armed i a t2" "i \<noteq> 11" "unat i < 32" for i a
    using that 3(6) by (auto dest: others_armedD)
  have keep1: "armed i a t2" if "armed i a (bus s1)" "i \<noteq> 6" "unat i < 32" for i a
    using that l2 by (auto simp: starts_line_def dest: others_armedD)
  have "armed 3 (sbdma_isr isr) (bus ?s6)" "armed 9 (ethtx_isr isr) (bus ?s6)" "armed 10 (ethrx_isr isr) (bus ?s6)"
    using keep [OF keep2 [OF keep1 [OF 1(4)]]] keep [OF keep2 [OF keep1 [OF 1(5)]]] keep [OF keep2 [OF keep1 [OF 1(6)]]] by simp_all
  moreover have "armed 6 (timer_isr isr) (bus ?s6)" using l2 keep [OF keep2] by (simp add: starts_line_def)
  moreover have "armed 11 (phy_isr isr) (bus ?s6)" using keep [OF 3(5)] by simp
  moreover have "armed 4 (rtmsure_isr isr) (bus ?s6)" "armed 0 (uart_isr isr) (bus ?s6)" using l by simp_all
  ultimately have "\<forall>(irq, a) \<in> set (lines isr). armed irq a (bus ?s6)" by (simp add: lines_def irqs)
  with run 3(2-4) show ?thesis by simp
qed

text \<open>
  C12: on a board whose devices behave as documented the start returns. Every one of the seven
  interrupt lines is then enabled with the handler of its driver in its vector, although every
  driver resets only its own line; both ethernet queues are set up, empty and open, the time is zero
  and no reaction time is stored; and the interrupt controller is enabled by the very last
  store, after all handlers are in place.
\<close>

theorem board_starts:
  assumes hw: "intc_hw hw" "mdio_hw hw phy" "phy_resets N phy" "ethdma_hw hw" "temac_hw hw"
      "out_of_reset hw XDMA0_MM2S" "out_of_reset hw XDMA0_S2MM" "out_of_reset hw XDMA1_MM2S"
    and p: "cpu_ok p" and isr: "\<forall>l \<in> set (lines isr). snd l \<noteq> 0" and idle: "eth_idle (bus s)"
  shows "\<exists>s'. platform_init hw p isr s = Some s' \<and> eth_fresh s' \<and> mem s' = mem s \<and> tmr s' = 0 \<and> rt_bcd s' = - 1
    \<and> (\<forall>(irq, a) \<in> set (lines isr). armed irq a (bus s')) \<and> hd (bus s') = Wr XINTC_mer 3"
  using assms by (rule board_start_ok)

definition board_boot :: "unit board" where
  "board_boot = eth.extend (eth_boot\<lparr>bus := []\<rparr>) (board.fields 7 0 0 0 0 (replicate 8 0))"

definition bare_platform :: "unit board platform" where
  "bare_platform = \<lparr>mb_icache_enable = (\<lambda>s. s), mb_dcache_enable = (\<lambda>s. s), mb_exceptions_enable = (\<lambda>s. s),
     mb_interrupts_enable = (\<lambda>s. s), kernel_fio = (\<lambda>s. s), kernel_stdio = (\<lambda>s. s), shell_start = (\<lambda>s. s)\<rparr>"

definition some_handlers :: handlers where
  "some_handlers = \<lparr>sbdma_isr = 0x500, ethtx_isr = 0x600, ethrx_isr = 0x700, timer_isr = 0x800, phy_isr = 0x900,
     rtmsure_isr = 0xA00, uart_isr = 0xB00\<rparr>"

lemma bare_board:
  "out_of_reset lan_hw XDMA0_MM2S" "out_of_reset lan_hw XDMA0_S2MM" "out_of_reset lan_hw XDMA1_MM2S"
  "cpu_ok bare_platform" "\<forall>l \<in> set (lines some_handlers). snd l \<noteq> 0" "eth_idle (bus board_boot)"
proof -
  have cr: "lan_hw t (ch_cr XDMA0_MM2S) = 0" "lan_hw t (ch_cr XDMA0_S2MM) = 0" "lan_hw t (ch_cr XDMA1_MM2S) = 0" for t
    by (simp_all add: lan_hw_def mdio_addr_defs xintc_addr_defs ch_sr_def ch_cr_def)
  then show "out_of_reset lan_hw XDMA0_MM2S" "out_of_reset lan_hw XDMA0_S2MM" "out_of_reset lan_hw XDMA1_MM2S"
    by (simp_all add: responds_def fld_on_def fld_get_def)
qed (simp_all add: cpu_ok_def bare_platform_def lines_def some_handlers_def board_boot_def eth.extend_def)

theorem board_starts_witness:
  "\<exists>s'. platform_init lan_hw bare_platform some_handlers board_boot = Some s' \<and> eth_fresh s' \<and> tmr s' = 0
     \<and> armed 10 0x700 (bus s') \<and> hd (bus s') = Wr XINTC_mer 3"
  using board_starts [OF lan_hw_ok lan_hw_eth bare_board] by (auto simp: lines_def some_handlers_def)


lemma idle_stack_ready: "lwip_ready idle_stack"
  by (simp add: lwip_ready_def idle_stack_def)


end
