(* ===== verification/Fat.thy ===== *)
theory Fat
  imports Prelude
begin

text \<open>
  The file layer over FatFs, \<open>src/fatfs/fat.c\<close>: the table of open files, the translation of the
  FatFs results and of its directory entries. FatFs itself is not part of the repository: its
  functions are the fields of a record that is a parameter of the operations, over a state
  \<open>'v\<close> that stands for the volume, the \<open>FIL\<close> objects and the current directory.
\<close>

section \<open>FatFs\<close>

datatype fresult = FR_OK | FR_DISK_ERR | FR_NO_FILE | FR_NO_PATH | FR_DENIED | FR_OTHER nat

record FILINFO =
  fsize :: u64
  fdate :: u16
  ftime :: u16
  crdate :: u16
  crtime :: u16
  fattrib :: u8
  fname :: string

text \<open>A \<open>FIL\<close> object is named by its index in \<open>file_desc\<close>; \<open>None\<close> is a NULL pointer.\<close>

record 'v ff =
  f_mount :: "string \<Rightarrow> 'v \<Rightarrow> fresult \<times> 'v"
  f_unmount :: "string \<Rightarrow> 'v \<Rightarrow> fresult \<times> 'v"
  f_chdir :: "string \<Rightarrow> 'v \<Rightarrow> fresult \<times> 'v"
  f_mkdir :: "string \<Rightarrow> 'v \<Rightarrow> fresult \<times> 'v"
  f_unlink :: "string \<Rightarrow> 'v \<Rightarrow> fresult \<times> 'v"
  f_stat :: "string \<Rightarrow> 'v \<Rightarrow> fresult \<times> FILINFO \<times> 'v"
  f_getcwd :: "nat \<Rightarrow> 'v \<Rightarrow> fresult \<times> string \<times> 'v"
  f_findfirst :: "string \<Rightarrow> string \<Rightarrow> 'v \<Rightarrow> fresult \<times> FILINFO \<times> 'v"
  f_findnext :: "'v \<Rightarrow> fresult \<times> FILINFO \<times> 'v"
  f_closedir :: "'v \<Rightarrow> 'v"
  f_size :: "nat \<Rightarrow> 'v \<Rightarrow> u64"
  f_close :: "nat \<Rightarrow> 'v \<Rightarrow> fresult \<times> 'v"
  f_open :: "nat \<Rightarrow> string \<Rightarrow> u8 \<Rightarrow> 'v \<Rightarrow> fresult \<times> 'v"
  f_read :: "nat option \<Rightarrow> u32 \<Rightarrow> 'v \<Rightarrow> fresult \<times> u8 list \<times> u32 \<times> 'v"
  f_write :: "nat option \<Rightarrow> u8 list \<Rightarrow> u32 \<Rightarrow> 'v \<Rightarrow> fresult \<times> u32 \<times> 'v"

section \<open>State\<close>

datatype fat_error_code = FAT_OK | FAT_ACCESS_DENIED | FAT_IO_ERROR | FAT_NOT_FOUND | FAT_ERR_NOTSET

abbreviation MAX_OPEN_FILES :: nat where "MAX_OPEN_FILES \<equiv> 10"

record 'v fat =
  files :: u8
  error_code :: fat_error_code
  open_files :: "nat option list"
  vol :: 'v

record fildatetime =
  year :: u16
  month :: u16
  day :: u16
  hour :: u16
  minute :: u16
  second :: u16

record filinfo =
  filesize :: u64
  attr_system :: bool
  attr_hidden :: bool
  attr_r_only :: bool
  attr_archive :: bool
  attr_directory :: bool
  modify_time :: fildatetime
  create_time :: fildatetime
  full_name :: string

abbreviation AM_RDO :: u8 where "AM_RDO \<equiv> 0x01"
abbreviation AM_HID :: u8 where "AM_HID \<equiv> 0x02"
abbreviation AM_SYS :: u8 where "AM_SYS \<equiv> 0x04"
abbreviation AM_DIR :: u8 where "AM_DIR \<equiv> 0x10"
abbreviation AM_ARC :: u8 where "AM_ARC \<equiv> 0x20"

section \<open>Translation of results\<close>

fun fat_code :: "fresult \<Rightarrow> fat_error_code" where
  "fat_code FR_OK = FAT_OK"
| "fat_code FR_DENIED = FAT_ACCESS_DENIED"
| "fat_code FR_DISK_ERR = FAT_IO_ERROR"
| "fat_code FR_NO_PATH = FAT_NOT_FOUND"
| "fat_code FR_NO_FILE = FAT_NOT_FOUND"
| "fat_code (FR_OTHER _) = FAT_ERR_NOTSET"

definition set_fatErrCode :: "fresult \<Rightarrow> 'v fat \<Rightarrow> 'v fat" where
  "set_fatErrCode fs_result s = s\<lparr>error_code := fat_code fs_result\<rparr>"

definition FILE_YEAR :: "u16 \<Rightarrow> u16" where
  "FILE_YEAR year_mod = year_mod + 1980"

definition to_filDateTime :: "u16 \<Rightarrow> u16 \<Rightarrow> fildatetime" where
  "to_filDateTime fs_date fs_time =
     (let year_mod = (drop_bit 9 fs_date) AND 0x7F
      in \<lparr>year = FILE_YEAR year_mod,
          month = (drop_bit 5 fs_date) AND 0x0F,
          day = fs_date AND 0x1F,
          hour = (drop_bit 11 fs_time) AND 0x1F,
          minute = (drop_bit 5 fs_time) AND 0x3F,
          second = push_bit 1 (fs_time AND 0x3F)\<rparr>)"

definition to_filinfo :: "FILINFO \<Rightarrow> filinfo" where
  "to_filinfo fno =
     \<lparr>filesize = fsize fno,
      attr_system = (fattrib fno AND AM_SYS \<noteq> 0),
      attr_hidden = (fattrib fno AND AM_HID \<noteq> 0),
      attr_r_only = (fattrib fno AND AM_RDO \<noteq> 0),
      attr_archive = (fattrib fno AND AM_ARC \<noteq> 0),
      attr_directory = (fattrib fno AND AM_DIR \<noteq> 0),
      modify_time = to_filDateTime (fdate fno) (ftime fno),
      create_time = to_filDateTime (crdate fno) (crtime fno),
      full_name = fname fno\<rparr>"

section \<open>Operations\<close>

definition fat_getcode :: "'v fat \<Rightarrow> fat_error_code" where
  "fat_getcode s = error_code s"

definition fat_mount :: "'v ff \<Rightarrow> string \<Rightarrow> 'v fat \<Rightarrow> bool \<times> 'v fat" where
  "fat_mount ff path s =
     (let (r, v) = f_mount ff path (vol s);
          s = set_fatErrCode r (s\<lparr>vol := v\<rparr>);
          s = (if error_code s = FAT_OK
               then s\<lparr>files := 0, open_files := replicate MAX_OPEN_FILES None\<rparr> else s)
      in (error_code s = FAT_OK, s))"

definition fat_unmount :: "'v ff \<Rightarrow> string \<Rightarrow> 'v fat \<Rightarrow> bool \<times> 'v fat" where
  "fat_unmount ff path s =
     (let (r, v) = f_unmount ff path (vol s); s = set_fatErrCode r (s\<lparr>vol := v\<rparr>)
      in (error_code s = FAT_OK, s))"

definition fat_chdir :: "'v ff \<Rightarrow> string \<Rightarrow> 'v fat \<Rightarrow> bool \<times> 'v fat" where
  "fat_chdir ff cwd s =
     (let (r, v) = f_chdir ff cwd (vol s); s = set_fatErrCode r (s\<lparr>vol := v\<rparr>)
      in (error_code s = FAT_OK, s))"

definition fat_mkdir :: "'v ff \<Rightarrow> string \<Rightarrow> 'v fat \<Rightarrow> bool \<times> 'v fat" where
  "fat_mkdir ff path s =
     (let (r, v) = f_mkdir ff path (vol s); s = set_fatErrCode r (s\<lparr>vol := v\<rparr>)
      in (error_code s = FAT_OK, s))"

definition fat_unlink :: "'v ff \<Rightarrow> string \<Rightarrow> 'v fat \<Rightarrow> bool \<times> 'v fat" where
  "fat_unlink ff path s =
     (let (r, v) = f_unlink ff path (vol s); s = set_fatErrCode r (s\<lparr>vol := v\<rparr>)
      in (error_code s = FAT_OK, s))"

definition fat_exists :: "'v ff \<Rightarrow> string \<Rightarrow> 'v fat \<Rightarrow> bool \<times> 'v fat" where
  "fat_exists ff path s =
     (let (r, fno, v) = f_stat ff path (vol s); s = set_fatErrCode r (s\<lparr>vol := v\<rparr>)
      in (error_code s = FAT_OK, s))"

text \<open>The current directory as stored in the caller's buffer.\<close>

definition fat_getcwd :: "'v ff \<Rightarrow> 'v fat \<Rightarrow> string \<times> 'v fat" where
  "fat_getcwd ff s =
     (let (r, cwd, v) = f_getcwd ff 255 (vol s); s = set_fatErrCode r (s\<lparr>vol := v\<rparr>)
      in (if error_code s \<noteq> FAT_OK then [] else cwd, s))"

definition fat_stat :: "'v ff \<Rightarrow> string \<Rightarrow> 'v fat \<Rightarrow> bool \<times> filinfo option \<times> 'v fat" where
  "fat_stat ff path s =
     (let (r, fs_fno, v) = f_stat ff path (vol s);
          s = set_fatErrCode r (s\<lparr>vol := v\<rparr>);
          fno = (if error_code s = FAT_OK then Some (to_filinfo fs_fno) else None)
      in (error_code s = FAT_OK, fno, s))"

text \<open>The entries the callback is called with, in order. The loop follows the directory as long
  as FatFs delivers entries with a name, so it need not end; then the value is \<open>None\<close>.\<close>

partial_function (option) fat_ls_loop ::
    "'v ff \<Rightarrow> FILINFO \<Rightarrow> filinfo list \<Rightarrow> 'v fat \<Rightarrow> (filinfo list \<times> 'v fat) option" where
  "fat_ls_loop ff finfo calls s =
     (if \<not> (error_code s = FAT_OK \<and> fname finfo \<noteq> []) then Some (calls, s)
      else
        let calls = calls @ [to_filinfo finfo];
            (r, finfo, v) = f_findnext ff (vol s);
            s = set_fatErrCode r (s\<lparr>vol := v\<rparr>)
        in fat_ls_loop ff finfo calls s)"

definition fat_ls :: "'v ff \<Rightarrow> string \<Rightarrow> 'v fat \<Rightarrow> (filinfo list \<times> 'v fat) option" where
  "fat_ls ff path s = do {
     let (r, finfo, v) = f_findfirst ff path ''*'' (vol s);
     let s = set_fatErrCode r (s\<lparr>vol := v\<rparr>);
     (calls, s) \<leftarrow> fat_ls_loop ff finfo [] s;
     Some (calls, s\<lparr>vol := f_closedir ff (vol s)\<rparr>)
   }"

definition fd_valid :: "int \<Rightarrow> bool" where
  "fd_valid fd \<longleftrightarrow> \<not> (fd < 0 \<or> fd \<ge> int MAX_OPEN_FILES)"

text \<open>The size is returned as a \<open>size_t\<close>, 32 or 64 bits wide.\<close>

definition fat_fsize :: "'v ff \<Rightarrow> int \<Rightarrow> 'v fat \<Rightarrow> 's::len word" where
  "fat_fsize ff fd s =
     (if \<not> fd_valid fd then 0
      else case open_files s ! nat fd of
             None \<Rightarrow> 0
           | Some fp \<Rightarrow> ucast (f_size ff fp (vol s)))"

definition fat_fclose :: "'v ff \<Rightarrow> int \<Rightarrow> 'v fat \<Rightarrow> 'v fat" where
  "fat_fclose ff fd s =
     (if \<not> fd_valid fd then s
      else case open_files s ! nat fd of
             None \<Rightarrow> s
           | Some fp \<Rightarrow>
               let (r, v) = f_close ff fp (vol s);
                   s = set_fatErrCode r (s\<lparr>vol := v\<rparr>);
                   s = s\<lparr>files := files s - 1\<rparr>
               in s\<lparr>open_files := (open_files s)[nat fd := None]\<rparr>)"

text \<open>The search for a free slot; \<open>None\<close> when it would read past the end of the table.\<close>

function fopen_scan :: "nat option list \<Rightarrow> nat \<Rightarrow> nat option" where
  "fopen_scan opn i =
     (if i \<ge> length opn then None
      else if opn ! i = None then Some i
      else fopen_scan opn (i + 1))"
  by auto
termination by (relation "measure (\<lambda>(opn, i). length opn - i)") auto

declare fopen_scan.simps [simp del]

definition fat_fopen :: "'v ff \<Rightarrow> string \<Rightarrow> u8 \<Rightarrow> 'v fat \<Rightarrow> (int \<times> 'v fat) option" where
  "fat_fopen ff path mode s =
     (if files s = of_nat MAX_OPEN_FILES then Some (-1, s)
      else do {
        i \<leftarrow> fopen_scan (open_files s) 0;
        let (r, v) = f_open ff i path mode (vol s);
        let s = set_fatErrCode r (s\<lparr>vol := v\<rparr>);
        if error_code s \<noteq> FAT_OK then Some (-1, s)
        else Some (int i, s\<lparr>files := files s + 1, open_files := (open_files s)[i := Some i]\<rparr>)
      })"

text \<open>The bytes stored in the buffer are returned along with the count.\<close>

definition fat_fread :: "'v ff \<Rightarrow> int \<Rightarrow> u32 \<Rightarrow> 'v fat \<Rightarrow> u32 \<times> u8 list \<times> 'v fat" where
  "fat_fread ff fd nread s =
     (if \<not> fd_valid fd then (0, [], s)
      else let (r, buffer, rd, v) = f_read ff (open_files s ! nat fd) nread (vol s);
               s = set_fatErrCode r (s\<lparr>vol := v\<rparr>)
           in (rd, buffer, s))"

definition fat_fwrite :: "'v ff \<Rightarrow> int \<Rightarrow> u8 list \<Rightarrow> u32 \<Rightarrow> 'v fat \<Rightarrow> u32 \<times> 'v fat" where
  "fat_fwrite ff fd buffer nwrite s =
     (if \<not> fd_valid fd then (0, s)
      else let (r, wr, v) = f_write ff (open_files s ! nat fd) buffer nwrite (vol s);
               s = set_fatErrCode r (s\<lparr>vol := v\<rparr>)
           in (wr, s))"

section \<open>Specification\<close>

text \<open>The table: ten slots, a slot holds the descriptor of its own index, and the counter is the
  number of slots in use.\<close>

definition used :: "nat option list \<Rightarrow> nat" where
  "used opn = length (filter (\<lambda>x. x \<noteq> None) opn)"

definition fat_inv :: "'v fat \<Rightarrow> bool" where
  "fat_inv s \<longleftrightarrow> length (open_files s) = MAX_OPEN_FILES \<and> unat (files s) = used (open_files s)
     \<and> (\<forall>i < MAX_OPEN_FILES. open_files s ! i = None \<or> open_files s ! i = Some i)"

definition is_open :: "int \<Rightarrow> 'v fat \<Rightarrow> bool" where
  "is_open fd s \<longleftrightarrow> fd_valid fd \<and> open_files s ! nat fd \<noteq> None"

text \<open>Any call of the file layer, with any behaviour of FatFs.\<close>

inductive fat_step :: "'v fat \<Rightarrow> 'v fat \<Rightarrow> bool" where
  mount: "fat_step s (snd (fat_mount ff p s))"
| unmount: "fat_step s (snd (fat_unmount ff p s))"
| chdir: "fat_step s (snd (fat_chdir ff p s))"
| mkdir: "fat_step s (snd (fat_mkdir ff p s))"
| unlink: "fat_step s (snd (fat_unlink ff p s))"
| exists: "fat_step s (snd (fat_exists ff p s))"
| getcwd: "fat_step s (snd (fat_getcwd ff s))"
| stat: "fat_step s (snd (snd (fat_stat ff p s)))"
| ls: "fat_ls ff p s = Some (l, s') \<Longrightarrow> fat_step s s'"
| fclose: "fat_step s (fat_fclose ff fd s)"
| fopen: "fat_fopen ff p m s = Some (fd, s') \<Longrightarrow> fat_step s s'"
| fread: "fat_step s (snd (snd (fat_fread ff fd n s)))"
| fwrite: "fat_step s (snd (fat_fwrite ff fd b n s))"

text \<open>The entries FatFs delivers for a directory, from the last result on: those before the first
  failure or the first entry without a name.\<close>

inductive ff_entries :: "'v ff \<Rightarrow> fresult \<Rightarrow> FILINFO \<Rightarrow> 'v \<Rightarrow> FILINFO list \<Rightarrow> bool" for ff where
  failed: "r \<noteq> FR_OK \<Longrightarrow> ff_entries ff r fi v []"
| last_one: "fname fi = [] \<Longrightarrow> ff_entries ff r fi v []"
| entry: "fname fi \<noteq> [] \<Longrightarrow> f_findnext ff v = (r, fi', v') \<Longrightarrow> ff_entries ff r fi' v' es \<Longrightarrow>
    ff_entries ff FR_OK fi v (fi # es)"

section \<open>Lemmas\<close>

lemma fat_code_OK [simp]: "fat_code r = FAT_OK \<longleftrightarrow> r = FR_OK"
  by (cases r) simp_all

lemma fat_ls_loop_entries:
  "ff_entries ff r fi v es \<Longrightarrow> fat_code r = error_code s \<Longrightarrow> vol s = v \<Longrightarrow>
     \<exists>s'. fat_ls_loop ff fi cs s = Some (cs @ map to_filinfo es, s')"
proof (induction arbitrary: s cs rule: ff_entries.induct)
  case (failed r fi v)
  then have "error_code s \<noteq> FAT_OK" by (metis fat_code_OK)
  then show ?case by (subst fat_ls_loop.simps) simp
next
  case (last_one fi r v)
  then show ?case by (subst fat_ls_loop.simps) simp
next
  case (entry fi v r fi' v' es)
  let ?s = "set_fatErrCode r (s\<lparr>vol := v'\<rparr>)"
  from entry.IH [of ?s "cs @ [to_filinfo fi]"] obtain s'
    where "fat_ls_loop ff fi' (cs @ [to_filinfo fi]) ?s = Some ((cs @ [to_filinfo fi]) @ map to_filinfo es, s')"
    by (auto simp: set_fatErrCode_def)
  with entry.hyps entry.prems show ?case by (subst fat_ls_loop.simps) (simp add: Let_def)
qed

lemma used_update_open: "i < length opn \<Longrightarrow> opn ! i = None \<Longrightarrow> used (opn[i := Some j]) = Suc (used opn)"
  by (induction opn arbitrary: i) (auto simp: used_def nth_Cons split: nat.splits)

lemma used_update_close: "i < length opn \<Longrightarrow> opn ! i \<noteq> None \<Longrightarrow> Suc (used (opn[i := None])) = used opn"
  by (induction opn arbitrary: i) (auto simp: used_def nth_Cons split: nat.splits)

lemma used_le: "used opn \<le> length opn"
  by (simp add: used_def)

lemma used_full: "used opn = length opn \<longleftrightarrow> (\<forall>x \<in> set opn. x \<noteq> None)"
proof (induction opn)
  case (Cons x opn)
  have "used (x # opn) = (if x = None then used opn else Suc (used opn))" by (simp add: used_def)
  with Cons used_le [of opn] show ?case by (cases x) auto
qed (simp add: used_def)

text \<open>The scan finds the first free slot at or after its start.\<close>

lemma fopen_scan_Some:
  "fopen_scan opn i = Some j \<longleftrightarrow> i \<le> j \<and> j < length opn \<and> opn ! j = None \<and> (\<forall>k. i \<le> k \<and> k < j \<longrightarrow> opn ! k \<noteq> None)"
proof (induction opn i rule: fopen_scan.induct)
  case (1 opn i)
  show ?case
  proof (cases "i < length opn \<and> opn ! i \<noteq> None")
    case True
    then have "fopen_scan opn i = fopen_scan opn (i + 1)" by (subst fopen_scan.simps) auto
    moreover have "fopen_scan opn (i + 1) = Some j \<longleftrightarrow> i + 1 \<le> j \<and> j < length opn \<and> opn ! j = None
        \<and> (\<forall>k. i + 1 \<le> k \<and> k < j \<longrightarrow> opn ! k \<noteq> None)" using 1 True by simp
    moreover have "i \<le> k \<longleftrightarrow> k = i \<or> i + 1 \<le> k" for k by auto
    ultimately show ?thesis using True by metis
  next
    case False
    then have "fopen_scan opn i = (if i < length opn then Some i else None)" by (subst fopen_scan.simps) auto
    with False show ?thesis by (auto simp: le_less)
  qed
qed

lemma fopen_scan_finds: "\<exists>x \<in> set opn. x = None \<Longrightarrow> \<exists>j. fopen_scan opn 0 = Some j"
proof -
  assume "\<exists>x \<in> set opn. x = None"
  then have ex: "\<exists>j. j < length opn \<and> opn ! j = None" by (metis in_set_conv_nth)
  define j where "j = (LEAST j. j < length opn \<and> opn ! j = None)"
  from LeastI_ex [OF ex] have "j < length opn \<and> opn ! j = None" by (simp add: j_def)
  moreover have "k < j \<Longrightarrow> opn ! k \<noteq> None" for k
    using not_less_Least [of k "\<lambda>j. j < length opn \<and> opn ! j = None"] \<open>j < length opn \<and> _\<close> by (auto simp: j_def)
  ultimately have "fopen_scan opn 0 = Some j" by (simp add: fopen_scan_Some)
  then show ?thesis ..
qed

text \<open>Every call that opens or closes nothing leaves the table alone.\<close>

lemma fat_ls_loop_frame:
  assumes "fat_ls_loop ff fi cs s = Some (l, s')"
  shows "open_files s' = open_files s \<and> files s' = files s"
proof -
  have "open_files (snd (l, s')) = open_files s \<and> files (snd (l, s')) = files s"
  proof (rule fat_ls_loop.raw_induct [where P = "\<lambda>ff fi cs s r. open_files (snd r) = open_files s \<and> files (snd r) = files s",
      OF _ assms])
    fix f :: "'a ff \<Rightarrow> FILINFO \<Rightarrow> filinfo list \<Rightarrow> 'a fat \<Rightarrow> (filinfo list \<times> 'a fat) option" and ff fi cs s z
    assume IH: "\<And>ff fi cs s z. f ff fi cs s = Some z \<Longrightarrow> open_files (snd z) = open_files s \<and> files (snd z) = files s"
      and eq: "(if \<not> (error_code s = FAT_OK \<and> fname fi \<noteq> []) then Some (cs, s)
        else let calls = cs @ [to_filinfo fi]; (r, finfo, v) = f_findnext ff (vol s); s = set_fatErrCode r (s\<lparr>vol := v\<rparr>)
             in f ff finfo calls s) = Some z"
    show "open_files (snd z) = open_files s \<and> files (snd z) = files s"
    proof (cases "error_code s = FAT_OK \<and> fname fi \<noteq> []")
      case False
      with eq show ?thesis by auto
    next
      case True
      obtain r fi' v where n: "f_findnext ff (vol s) = (r, fi', v)" by (cases "f_findnext ff (vol s)")
      with True eq have "f ff fi' (cs @ [to_filinfo fi]) (set_fatErrCode r (s\<lparr>vol := v\<rparr>)) = Some z"
        by (simp add: Let_def)
      from IH [OF this] show ?thesis by (simp add: set_fatErrCode_def)
    qed
  qed
  then show ?thesis by simp
qed

lemma fat_frame [simp]:
  "open_files (snd (fat_unmount ff p s)) = open_files s" "files (snd (fat_unmount ff p s)) = files s"
  "open_files (snd (fat_chdir ff p s)) = open_files s" "files (snd (fat_chdir ff p s)) = files s"
  "open_files (snd (fat_mkdir ff p s)) = open_files s" "files (snd (fat_mkdir ff p s)) = files s"
  "open_files (snd (fat_unlink ff p s)) = open_files s" "files (snd (fat_unlink ff p s)) = files s"
  "open_files (snd (fat_exists ff p s)) = open_files s" "files (snd (fat_exists ff p s)) = files s"
  "open_files (snd (fat_getcwd ff s)) = open_files s" "files (snd (fat_getcwd ff s)) = files s"
  "open_files (snd (snd (fat_stat ff p s))) = open_files s" "files (snd (snd (fat_stat ff p s))) = files s"
  "open_files (snd (snd (fat_fread ff fd n s))) = open_files s" "files (snd (snd (fat_fread ff fd n s))) = files s"
  "open_files (snd (fat_fwrite ff fd b n s)) = open_files s" "files (snd (fat_fwrite ff fd b n s)) = files s"
  by (simp_all add: fat_unmount_def fat_chdir_def fat_mkdir_def fat_unlink_def fat_exists_def fat_getcwd_def
      fat_stat_def fat_fread_def fat_fwrite_def set_fatErrCode_def Let_def split_beta)

lemma fat_inv_frame: "open_files s' = open_files s \<Longrightarrow> files s' = files s \<Longrightarrow> fat_inv s' = fat_inv s"
  by (simp add: fat_inv_def)

lemma fat_fopen_ok:
  assumes inv: "fat_inv s"
  shows "\<exists>fd s'. fat_fopen ff path mode s = Some (fd, s') \<and> fat_inv s'
    \<and> (if fd = -1 then open_files s' = open_files s \<and> files s' = files s
       else fd_valid fd \<and> open_files s ! nat fd = None \<and> error_code s' = FAT_OK
         \<and> open_files s' = (open_files s)[nat fd := Some (nat fd)] \<and> files s' = files s + 1
         \<and> (\<forall>k < nat fd. open_files s ! k \<noteq> None))
    \<and> (used (open_files s) = MAX_OPEN_FILES \<longrightarrow> fd = -1 \<and> s' = s)
    \<and> (used (open_files s) < MAX_OPEN_FILES \<longrightarrow> (fd \<noteq> -1) = (error_code s' = FAT_OK))"
proof -
  from inv have len: "length (open_files s) = 10" and n: "unat (files s) = used (open_files s)"
    and slots: "\<forall>i < 10. open_files s ! i = None \<or> open_files s ! i = Some i"
    by (auto simp: fat_inv_def)
  have full: "files s = 10 \<longleftrightarrow> used (open_files s) = 10" using n by (simp add: word_unat_eq_iff)
  show ?thesis
  proof (cases "used (open_files s) = 10")
    case True
    with full inv show ?thesis by (simp add: fat_fopen_def)
  next
    case False
    then have lt: "used (open_files s) < 10" using used_le [of "open_files s"] len by simp
    then have "\<exists>x \<in> set (open_files s). x = None" using used_full [of "open_files s"] len by auto
    then obtain i where scan: "fopen_scan (open_files s) 0 = Some i" using fopen_scan_finds by blast
    then have i: "i < 10" "open_files s ! i = None" "\<forall>k < i. open_files s ! k \<noteq> None"
      by (auto simp: fopen_scan_Some len)
    obtain r v where o: "f_open ff i path mode (vol s) = (r, v)" by (cases "f_open ff i path mode (vol s)")
    let ?s = "set_fatErrCode r (s\<lparr>vol := v\<rparr>)"
    show ?thesis
    proof (cases "fat_code r = FAT_OK")
      case True
      let ?s' = "?s\<lparr>files := files s + 1, open_files := (open_files s)[i := Some i]\<rparr>"
      have run: "fat_fopen ff path mode s = Some (int i, ?s')"
        using full False scan o True by (simp add: fat_fopen_def set_fatErrCode_def Let_def)
      have "unat (files s + 1) = Suc (used (open_files s))"
        using n lt by (simp add: unat_word_ariths)
      then have "fat_inv ?s'"
        using len slots i used_update_open [of i "open_files s" i]
        by (auto simp: fat_inv_def nth_list_update)
      with run i False True show ?thesis
        by (intro exI [of _ "int i"] exI [of _ ?s']) (simp add: fd_valid_def set_fatErrCode_def)
    next
      case err: False
      have run: "fat_fopen ff path mode s = Some (-1, ?s)"
        using full False scan o err by (simp add: fat_fopen_def set_fatErrCode_def Let_def)
      have "fat_inv ?s" using inv by (simp add: fat_inv_def set_fatErrCode_def)
      with run False err show ?thesis
        by (intro exI [of _ "-1"] exI [of _ ?s]) (simp add: set_fatErrCode_def)
    qed
  qed
qed

lemma fat_fclose_ok:
  assumes inv: "fat_inv s"
  shows "fat_inv (fat_fclose ff fd s)"
    and "is_open fd s \<Longrightarrow> open_files (fat_fclose ff fd s) = (open_files s)[nat fd := None]
      \<and> files (fat_fclose ff fd s) = files s - 1"
    and "\<not> is_open fd s \<Longrightarrow> fat_fclose ff fd s = s"
proof -
  show none: "\<not> is_open fd s \<Longrightarrow> fat_fclose ff fd s = s"
    by (auto simp: is_open_def fat_fclose_def)
  show open_f: "is_open fd s \<Longrightarrow> open_files (fat_fclose ff fd s) = (open_files s)[nat fd := None]
      \<and> files (fat_fclose ff fd s) = files s - 1"
    by (auto simp: is_open_def fat_fclose_def set_fatErrCode_def Let_def split_beta)
  show "fat_inv (fat_fclose ff fd s)"
  proof (cases "is_open fd s")
    case True
    let ?i = "nat fd"
    have i: "?i < 10" "open_files s ! ?i \<noteq> None" using True by (auto simp: is_open_def fd_valid_def)
    have len: "length (open_files s) = 10" using inv by (simp add: fat_inv_def)
    have suc: "Suc (used ((open_files s)[?i := None])) = used (open_files s)"
      using used_update_close [of ?i "open_files s"] i len by simp
    then have "files s \<noteq> 0" using inv by (auto simp: fat_inv_def)
    then have "unat (files s - 1) = used (open_files s) - 1" using inv by (simp add: fat_inv_def unat_minus_one)
    with suc open_f [OF True] inv i(1) show ?thesis by (auto simp: fat_inv_def nth_list_update)
  next
    case False
    with none inv show ?thesis by simp
  qed
qed

lemma fat_step_inv: "fat_step s s' \<Longrightarrow> fat_inv s \<Longrightarrow> fat_inv s'"
proof (induction rule: fat_step.induct)
  case (mount s ff p)
  then show ?case
    by (auto simp: fat_mount_def set_fatErrCode_def Let_def split_beta fat_inv_def used_def)
next
  case (ls ff p s l s')
  obtain r fi v where f: "f_findfirst ff p ''*'' (vol s) = (r, fi, v)" by (cases "f_findfirst ff p ''*'' (vol s)")
  with ls.hyps obtain s1 where "fat_ls_loop ff fi [] (set_fatErrCode r (s\<lparr>vol := v\<rparr>)) = Some (l, s1)"
    and "s' = s1\<lparr>vol := f_closedir ff (vol s1)\<rparr>" by (auto simp: fat_ls_def bind_eq_Some_conv)
  with fat_ls_loop_frame [OF this(1)] ls.prems show ?case
    by (subst fat_inv_frame [of _ s]) (simp_all add: set_fatErrCode_def)
next
  case (fclose s ff fd)
  then show ?case by (intro fat_fclose_ok)
next
  case (fopen ff p m s fd s')
  with fat_fopen_ok [of s ff p m] show ?case by auto
qed (simp_all add: fat_inv_def)

section \<open>Properties\<close>

text \<open>
  C9: opening a file always returns (the search stays inside the table): with ten files open, or
  when FatFs refuses, it returns -1 and opens nothing; otherwise it returns the lowest
  descriptor that was free, marks exactly that one as used, and the table stays
  consistent.
\<close>

theorem fopen_allocates:
  assumes "fat_inv s"
  shows "\<exists>fd s'. fat_fopen ff path mode s = Some (fd, s') \<and> fat_inv s'
    \<and> (fd = -1 \<longleftrightarrow> used (open_files s) = MAX_OPEN_FILES \<or> error_code s' \<noteq> FAT_OK)
    \<and> (fd = -1 \<longrightarrow> open_files s' = open_files s)
    \<and> (fd \<noteq> -1 \<longrightarrow> \<not> is_open fd s \<and> is_open fd s' \<and> (\<forall>k < fd. 0 \<le> k \<longrightarrow> is_open k s)
         \<and> (\<forall>k. k \<noteq> fd \<longrightarrow> is_open k s' = is_open k s) \<and> files s' = files s + 1)"
proof -
  obtain fd s' where run: "fat_fopen ff path mode s = Some (fd, s')" "fat_inv s'"
    and c: "if fd = -1 then open_files s' = open_files s \<and> files s' = files s
       else fd_valid fd \<and> open_files s ! nat fd = None \<and> error_code s' = FAT_OK
         \<and> open_files s' = (open_files s)[nat fd := Some (nat fd)] \<and> files s' = files s + 1
         \<and> (\<forall>k < nat fd. open_files s ! k \<noteq> None)"
    and full: "used (open_files s) = MAX_OPEN_FILES \<longrightarrow> fd = -1 \<and> s' = s"
    and room: "used (open_files s) < MAX_OPEN_FILES \<longrightarrow> (fd \<noteq> -1) = (error_code s' = FAT_OK)"
    using fat_fopen_ok [OF assms, of ff path mode] by blast
  have len: "length (open_files s) = 10" using assms by (simp add: fat_inv_def)
  with used_le [of "open_files s"] have le: "used (open_files s) = 10 \<or> used (open_files s) < 10" by auto
  have "fd = -1 \<longleftrightarrow> used (open_files s) = 10 \<or> error_code s' \<noteq> FAT_OK" using full room le by auto
  moreover have "fd \<noteq> -1 \<longrightarrow> \<not> is_open fd s \<and> is_open fd s' \<and> (\<forall>k < fd. 0 \<le> k \<longrightarrow> is_open k s)
      \<and> (\<forall>k. k \<noteq> fd \<longrightarrow> is_open k s' = is_open k s) \<and> files s' = files s + 1"
    using c len by (auto simp: is_open_def fd_valid_def nth_list_update nat_less_iff eq_nat_nat_iff split: if_splits)
  moreover have "fd = -1 \<longrightarrow> open_files s' = open_files s" using c by auto
  ultimately show ?thesis using run by blast
qed

text \<open>
  C10: in every state the file layer reaches from a mounted volume, with any behaviour of FatFs and
  any sequence of calls, the table of open files is consistent: ten slots, each unused or
  holding its own descriptor, and the counter equal to the number of slots in use.
\<close>

theorem file_table_invariant:
  assumes "fat_mount ff p s0 = (True, s)" and "fat_step\<^sup>*\<^sup>* s s'"
  shows "fat_inv s'"
proof -
  have "fat_inv s" using assms(1)
    by (auto simp: fat_mount_def set_fatErrCode_def Let_def split_beta fat_inv_def used_def)
  with assms(2) show ?thesis by (induction rule: rtranclp_induct) (auto intro: fat_step_inv)
qed

text \<open>
  Closing the descriptor a successful open has returned restores the table, and its slot is the
  next one handed out; closing a descriptor that is not open changes nothing.
\<close>

theorem fclose_undoes_fopen:
  assumes "fat_inv s" and "fat_fopen ff path mode s = Some (fd, s')" and "fd \<noteq> -1"
  shows "open_files (fat_fclose ff' fd s') = open_files s \<and> files (fat_fclose ff' fd s') = files s
    \<and> \<not> is_open fd (fat_fclose ff' fd s') \<and> fat_fclose ff' fd (fat_fclose ff' fd s') = fat_fclose ff' fd s'"
proof -
  have len: "length (open_files s) = 10" using assms(1) by (simp add: fat_inv_def)
  have o: "fd_valid fd" "open_files s ! nat fd = None" "fat_inv s'"
    "open_files s' = (open_files s)[nat fd := Some (nat fd)]" "files s' = files s + 1"
    using fat_fopen_ok [OF assms(1), of ff path mode] assms(2,3) by (auto split: if_splits)
  then have "is_open fd s'" using len by (auto simp: is_open_def fd_valid_def)
  note cl = fat_fclose_ok(2) [OF o(3) this, of ff']
  have "open_files (fat_fclose ff' fd s') = open_files s"
    using cl o(2,4) len by (metis list_update_id list_update_overwrite)
  moreover from this have "\<not> is_open fd (fat_fclose ff' fd s')" using o(2) by (simp add: is_open_def)
  moreover from this have "fat_fclose ff' fd (fat_fclose ff' fd s') = fat_fclose ff' fd s'"
    by (auto simp: is_open_def fat_fclose_def)
  ultimately show ?thesis using cl o(5) by simp
qed

text \<open>
  C24: listing a directory returns whenever FatFs ends the enumeration, after calling the callback
  once for every entry FatFs delivers, in order, with the translated entry; no file is
  opened or closed.
\<close>

theorem fat_ls_lists_entries:
  assumes "f_findfirst ff path ''*'' (vol s) = (r, fi, v)" and "ff_entries ff r fi v es"
  shows "\<exists>s'. fat_ls ff path s = Some (map to_filinfo es, s')
    \<and> open_files s' = open_files s \<and> files s' = files s"
proof -
  let ?s = "set_fatErrCode r (s\<lparr>vol := v\<rparr>)"
  obtain s' where lp: "fat_ls_loop ff fi [] ?s = Some (map to_filinfo es, s')"
    using fat_ls_loop_entries [OF assms(2), of ?s "[]"] by (auto simp: set_fatErrCode_def)
  with fat_ls_loop_frame [OF lp] assms(1) show ?thesis by (simp add: fat_ls_def set_fatErrCode_def)
qed

definition fat_date :: "nat \<Rightarrow> nat \<Rightarrow> nat \<Rightarrow> u16" where
  "fat_date y m d = of_nat (y * 512 + m * 32 + d)"

definition fat_time :: "nat \<Rightarrow> nat \<Rightarrow> nat \<Rightarrow> u16" where
  "fat_time h n p = of_nat (h * 2048 + n * 32 + p)"

lemma unat_and_mask: "unat ((w :: u16) AND mask k) = unat w mod 2 ^ k"
  unfolding take_bit_eq_mask [symmetric] unsigned_take_bit_eq by (rule take_bit_eq_mod)

lemma unat_and_low:
  "unat ((w :: u16) AND 0x7F) = unat w mod 128" "unat (w AND 0x3F) = unat w mod 64"
  "unat (w AND 0x1F) = unat w mod 32" "unat (w AND 0x0F) = unat w mod 16"
  using unat_and_mask [of w 7] unat_and_mask [of w 6] unat_and_mask [of w 5] unat_and_mask [of w 4]
  by (simp_all add: mask_numeral)

lemma unat_drop_u16: "unat (drop_bit k (w :: u16)) = unat w div 2 ^ k"
proof -
  have "take_bit 16 (unat w) = unat w"
    by (rule take_bit_nat_eq_self) (simp add: unsigned_less [where 'b = 16, simplified])
  then show ?thesis unfolding unsigned_drop_bit_eq by (simp add: drop_bit_eq_div [of k "unat w"])
qed

lemma date_radix:
  fixes a b c :: nat
  assumes "b < 16" "c < 32"
  shows "(a * 512 + b * 32 + c) div 512 = a" "(a * 512 + b * 32 + c) div 32 mod 16 = b"
    "(a * 512 + b * 32 + c) mod 32 = c"
proof -
  show "(a * 512 + b * 32 + c) div 512 = a" using assms by (intro div_nat_eqI) simp_all
  have "(a * 512 + b * 32 + c) div 32 = a * 16 + b" using assms by (intro div_nat_eqI) simp_all
  then show "(a * 512 + b * 32 + c) div 32 mod 16 = b" using assms by simp
  have "a * 512 + b * 32 + c = c + (a * 16 + b) * 32" by simp
  then show "(a * 512 + b * 32 + c) mod 32 = c" using assms by (metis mod_less mod_mult_self1)
qed

lemma time_radix:
  fixes h n c :: nat
  assumes "n < 64" "c < 32"
  shows "(h * 2048 + n * 32 + c) div 2048 = h" "(h * 2048 + n * 32 + c) div 32 mod 64 = n"
    "(h * 2048 + n * 32 + c) mod 64 = n mod 2 * 32 + c"
proof -
  show "(h * 2048 + n * 32 + c) div 2048 = h" using assms by (intro div_nat_eqI) simp_all
  have "(h * 2048 + n * 32 + c) div 32 = h * 64 + n" using assms by (intro div_nat_eqI) simp_all
  then show "(h * 2048 + n * 32 + c) div 32 mod 64 = n" using assms by simp
  obtain q r where qr: "n div 2 = q" "n mod 2 = r" "n = 2 * q + r" by (metis mult_div_mod_eq)
  then have "h * 2048 + n * 32 + c = (n mod 2 * 32 + c) + (h * 32 + n div 2) * 64" by simp
  moreover have "n mod 2 * 32 + c < 64" using assms(2) by (cases "even n") (auto simp: mod2_eq_if)
  ultimately show "(h * 2048 + n * 32 + c) mod 64 = n mod 2 * 32 + c" by (metis mod_less mod_mult_self1)
qed

text \<open>
  C23: the date and time of a directory entry: of a FAT time stamp with day \<open>d\<close>, month \<open>m\<close>, years since
  1980 \<open>y\<close>, hour \<open>h\<close>, minute \<open>n\<close> and second pair \<open>p\<close> the decoder returns the date, the hour and the
  minute, but the second comes out 64 too large whenever the minute is odd, because the
  mask takes one bit too many.
\<close>

theorem filDateTime_decodes:
  assumes "d < 32" "m < 16" "y < 128" "h < 32" "n < 64" "p < 32"
  shows "let t = to_filDateTime (fat_date y m d) (fat_time h n p) in
    unat (year t) = 1980 + y \<and> unat (month t) = m \<and> unat (day t) = d
    \<and> unat (hour t) = h \<and> unat (minute t) = n
    \<and> unat (second t) = 2 * p + 64 * (n mod 2)"
proof -
  have d: "unat (fat_date y m d) = y * 512 + m * 32 + d" and t: "unat (fat_time h n p) = h * 2048 + n * 32 + p"
    unfolding fat_date_def fat_time_def unat_of_nat using assms by simp_all
  have "unat (push_bit 1 (x :: u16)) = 2 * unat x" if "unat x < 64" for x
    using that by (simp add: push_bit_eq_mult unat_word_ariths)
  from this [of "fat_time h n p AND 0x3F"] time_radix(3) [OF assms(5,6), of h]
  have "unat (push_bit 1 (fat_time h n p AND 0x3F)) = 2 * p + 64 * (n mod 2)"
    unfolding unat_and_low t using mod_less_divisor [of 64 "h * 2048 + n * 32 + p"] by simp
  moreover have "second (to_filDateTime D T) = push_bit 1 (T AND 0x3F)" for D T
    by (simp only: to_filDateTime_def Let_def fildatetime.simps)
  ultimately have "unat (second (to_filDateTime (fat_date y m d) (fat_time h n p))) = 2 * p + 64 * (n mod 2)" by simp
  then show ?thesis
    using assms by (simp add: to_filDateTime_def FILE_YEAR_def Let_def unat_word_ariths unat_and_low unat_drop_u16
        d t date_radix time_radix)
qed

theorem filDateTime_decodes_witness:
  "let t = to_filDateTime (fat_date 45 6 30) (fat_time 23 59 29) in
     unat (year t) = 2025 \<and> unat (minute t) = 59 \<and> unat (second t) = 122"
  using filDateTime_decodes [of 30 6 45 23 59 29] by (simp add: Let_def)

text \<open>A FatFs that accepts everything, over no state.\<close>

definition ff_ok :: "unit ff" where
  "ff_ok = \<lparr>f_mount = (\<lambda>_ v. (FR_OK, v)), f_unmount = (\<lambda>_ v. (FR_OK, v)), f_chdir = (\<lambda>_ v. (FR_OK, v)),
     f_mkdir = (\<lambda>_ v. (FR_OK, v)), f_unlink = (\<lambda>_ v. (FR_OK, v)),
     f_stat = (\<lambda>_ v. (FR_NO_FILE, \<lparr>fsize = 0, fdate = 0, ftime = 0, crdate = 0, crtime = 0, fattrib = 0, fname = []\<rparr>, v)),
     f_getcwd = (\<lambda>_ v. (FR_OK, ''C:'', v)),
     f_findfirst = (\<lambda>_ _ v. (FR_NO_PATH, \<lparr>fsize = 0, fdate = 0, ftime = 0, crdate = 0, crtime = 0, fattrib = 0, fname = []\<rparr>, v)),
     f_findnext = (\<lambda>v. (FR_OK, \<lparr>fsize = 0, fdate = 0, ftime = 0, crdate = 0, crtime = 0, fattrib = 0, fname = []\<rparr>, v)),
     f_closedir = id, f_size = (\<lambda>_ _. 0), f_close = (\<lambda>_ v. (FR_OK, v)), f_open = (\<lambda>_ _ _ v. (FR_OK, v)),
     f_read = (\<lambda>_ _ v. (FR_OK, [], 0, v)), f_write = (\<lambda>_ _ _ v. (FR_OK, 0, v))\<rparr>"

definition fat_mounted :: "unit fat" where
  "fat_mounted = \<lparr>files = 0, error_code = FAT_OK, open_files = replicate 10 None, vol = ()\<rparr>"

lemma fat_mounted_ok: "fat_inv fat_mounted" "fat_mount ff_ok ''C:'' fat_mounted = (True, fat_mounted)"
  by (simp_all add: fat_inv_def fat_mounted_def used_def fat_mount_def ff_ok_def set_fatErrCode_def)

lemma fat_mounted_fopen:
  "fat_fopen ff_ok ''a'' 1 fat_mounted = Some (0, fat_mounted\<lparr>files := 1, open_files := Some 0 # replicate 9 None\<rparr>)"
proof -
  have r: "replicate 10 None = (None :: nat option) # replicate 9 None" by (simp add: eval_nat_numeral)
  then have "fopen_scan (replicate 10 None) 0 = Some 0" by (subst fopen_scan.simps) simp
  with r show ?thesis by (simp add: fat_fopen_def fat_mounted_def ff_ok_def set_fatErrCode_def)
qed

theorem fopen_allocates_witness:
  "\<exists>s'. fat_fopen ff_ok ''a'' 1 fat_mounted = Some (0, s') \<and> is_open 0 s' \<and> \<not> is_open 1 s'"
proof -
  have "\<not> is_open 1 fat_mounted" by (simp add: is_open_def fat_mounted_def fd_valid_def)
  then show ?thesis
    using fopen_allocates [OF fat_mounted_ok(1), of ff_ok "''a''" 1] fat_mounted_fopen by auto
qed

theorem file_table_invariant_witness:
  "fat_inv (fat_mounted\<lparr>files := 1, open_files := Some 0 # replicate 9 None\<rparr>)"
  by (rule file_table_invariant [OF fat_mounted_ok(2) r_into_rtranclp, OF fat_step.fopen, OF fat_mounted_fopen])

theorem fclose_undoes_fopen_witness:
  "open_files (fat_fclose ff_ok 0 (fat_mounted\<lparr>files := 1, open_files := Some 0 # replicate 9 None\<rparr>))
     = replicate 10 None"
  using fclose_undoes_fopen [OF fat_mounted_ok(1) fat_mounted_fopen, of ff_ok] by (simp add: fat_mounted_def)

definition one_file :: FILINFO where
  "one_file = \<lparr>fsize = 3, fdate = 0, ftime = 0, crdate = 0, crtime = 0, fattrib = AM_DIR, fname = ''A''\<rparr>"

theorem fat_ls_lists_entries_witness:
  "\<exists>s'. fat_ls (ff_ok\<lparr>f_findfirst := (\<lambda>_ _ v. (FR_OK, one_file, v))\<rparr>) ''C:'' fat_mounted
     = Some ([to_filinfo one_file], s')"
proof -
  let ?ff = "ff_ok\<lparr>f_findfirst := (\<lambda>_ _ v. (FR_OK, one_file, v))\<rparr>"
  have "ff_entries ?ff FR_OK one_file () [one_file]"
    by (rule ff_entries.entry, simp add: one_file_def, simp add: ff_ok_def, rule ff_entries.last_one, simp)
  from fat_ls_lists_entries [OF _ this, of "''C:''" fat_mounted] show ?thesis by auto
qed

end
