(* ===== verification/Rsdcard.thy ===== *)
theory Rsdcard
  imports Xdma_Io
begin

text \<open>
  The SD card driver, \<open>src/arch/mb_le/sys/rsdcard.c\<close>: sector reads and writes through the direct
  DMA channels. While the driver waits for a read, the engine stores the sectors in the I/O
  buffer: the parameter \<open>io\<close> is what the memory holds when the wait is over.
\<close>

section \<open>Registers\<close>

definition rsdcard_ctrl :: layout where
  "rsdcard_ctrl = [(''op_code'', 3), (''c_reset'', 1), (''s_count'', 16), (''reserved'', 12)]"

definition rsdcard_status :: layout where
  "rsdcard_status = [(''ioc'', 1), (''ioe'', 1), (''idle'', 1), (''err_code'', 20), (''reserved'', 9)]"

abbreviation RSDCARD_BASE :: u32 where "RSDCARD_BASE \<equiv> 0x44A00000"

definition RSDCARD_addr :: u32 where "RSDCARD_addr = RSDCARD_BASE + 0x00"
definition RSDCARD_cr :: u32 where "RSDCARD_cr = RSDCARD_BASE + 0x04"
definition RSDCARD_sr :: u32 where "RSDCARD_sr = RSDCARD_BASE + 0x08"

abbreviation SDCARD_SECTOR_SIZE :: u32 where "SDCARD_SECTOR_SIZE \<equiv> 512"
abbreviation IO_READ :: u32 where "IO_READ \<equiv> 1"
abbreviation IO_WRITE :: u32 where "IO_WRITE \<equiv> 2"

section \<open>Operations\<close>

definition sdc_command :: "u32 \<Rightarrow> u32 \<Rightarrow> u32" where
  "sdc_command op_code count =
     (let ctrl_reg = fld_set rsdcard_ctrl ''s_count'' count 0
      in fld_set rsdcard_ctrl ''op_code'' op_code ctrl_reg)"

text \<open>The two waits after a command: until the card has started and until it has completed.\<close>

definition sdc_wait :: "hw \<Rightarrow> 'a machine_scheme \<Rightarrow> 'a machine_scheme option" where
  "sdc_wait hw s = do {
     s \<leftarrow> await hw RSDCARD_sr (\<lambda>v. \<not> fld_on rsdcard_status ''idle'' v) s;
     await hw RSDCARD_sr (fld_on rsdcard_status ''ioc'') s
   }"

definition rsdcard_read ::
    "hw \<Rightarrow> (history \<Rightarrow> (u32 \<Rightarrow> u8) \<Rightarrow> u32 \<Rightarrow> u8) \<Rightarrow> u32 \<Rightarrow> u32 \<Rightarrow> u32 \<Rightarrow> 'a machine_scheme \<Rightarrow>
      (bool \<times> 'a machine_scheme) option" where
  "rsdcard_read hw io mem_p sector count s =
     (let (idle, s) = ld_fld hw rsdcard_status ''idle'' RSDCARD_sr s
      in if idle = 0 then Some (False, s)
         else
           let m_len = count * SDCARD_SECTOR_SIZE;
               (io_buffer, s) = sdcdma_rdt hw m_len s
           in if io_buffer = 0 then Some (False, s)
              else do {
                let s = st32 RSDCARD_addr sector s;
                let s = st32 RSDCARD_cr (sdc_command IO_READ count) s;
                s \<leftarrow> sdc_wait hw s;
                let s = s\<lparr>mem := io (bus s) (mem s)\<rparr>;
                let (ioe, s) = ld_fld hw rsdcard_status ''ioe'' RSDCARD_sr s;
                let io_ok = (ioe = 0);
                Some (io_ok,
                  if io_ok
                  then let s = xdcache_invalidate io_buffer m_len s;
                           s = s\<lparr>mem := memcpy mem_p io_buffer m_len (mem s)\<rparr>
                       in xdcache_flush mem_p m_len s
                  else s)
              })"

definition rsdcard_write ::
    "hw \<Rightarrow> u32 \<Rightarrow> u32 \<Rightarrow> u32 \<Rightarrow> 'a machine_scheme \<Rightarrow> (bool \<times> 'a machine_scheme) option" where
  "rsdcard_write hw mem_p sector count s =
     (let (idle, s) = ld_fld hw rsdcard_status ''idle'' RSDCARD_sr s
      in if idle = 0 then Some (False, s)
         else
           let (io_buffer, s) = sdcdma_wrt hw mem_p (count * SDCARD_SECTOR_SIZE) s
           in if io_buffer = 0 then Some (False, s)
              else do {
                let s = st32 RSDCARD_addr sector s;
                let s = st32 RSDCARD_cr (sdc_command IO_WRITE count) s;
                s \<leftarrow> sdc_wait hw s;
                let (ioe, s) = ld_fld hw rsdcard_status ''ioe'' RSDCARD_sr s;
                Some (ioe = 0, s)
              })"

section \<open>The card\<close>

text \<open>
  What the card does with a command: it writes the sectors found in the I/O buffer to its image, or
  lays the sectors of its image in the I/O buffer. An image is a function from the byte
  address on the card.
\<close>

type_synonym sd_image = "nat \<Rightarrow> u8"

definition img_store :: "nat \<Rightarrow> u8 list \<Rightarrow> sd_image \<Rightarrow> sd_image" where
  "img_store sector bs img =
     (\<lambda>a. if 512 * sector \<le> a \<and> a < 512 * sector + length bs then bs ! (a - 512 * sector) else img a)"

definition img_fetch :: "nat \<Rightarrow> nat \<Rightarrow> sd_image \<Rightarrow> u8 list" where
  "img_fetch sector n img = map (\<lambda>i. img (512 * sector + i)) [0..<512 * n]"

text \<open>Documented behaviour of the card: once a command is stored, it leaves idle and completes after
  finitely many loads of its status.\<close>

definition sdc_commanded :: "history \<Rightarrow> bool" where
  "sdc_commanded t \<longleftrightarrow> (\<exists>l v u. t = l @ Wr RSDCARD_cr v # u \<and> set l \<subseteq> range (Rd RSDCARD_sr))"

definition sdc_hw :: "hw \<Rightarrow> bool" where
  "sdc_hw hw \<longleftrightarrow> (\<forall>t. sdc_commanded t \<longrightarrow>
     (\<exists>n. \<not> fld_on rsdcard_status ''idle'' (hw (spun hw RSDCARD_sr n t) RSDCARD_sr))
     \<and> (\<exists>n. fld_on rsdcard_status ''ioc'' (hw (spun hw RSDCARD_sr n t) RSDCARD_sr)))"

section \<open>Lemmas\<close>

interpretation sdc_ctrl: reg_layout 32 rsdcard_ctrl
  by unfold_locales (simp add: layout_wf_def rsdcard_ctrl_def)

interpretation sdc_status: reg_layout 32 rsdcard_status
  by unfold_locales (simp add: layout_wf_def rsdcard_status_def)

lemma img_fetch_store: "length bs = 512 * n \<Longrightarrow> img_fetch sector n (img_store sector bs img) = bs"
  by (intro nth_equalityI) (simp_all add: img_fetch_def img_store_def)

lemma sector_bytes: "unat count \<le> 31 \<Longrightarrow> unat (count * SDCARD_SECTOR_SIZE) = 512 * unat count"
  by (simp add: unat_word_ariths)

lemma sdc_wait_mem: "sdc_wait hw s = Some s' \<Longrightarrow> mem s' = mem s"
  by (auto simp: sdc_wait_def bind_eq_Some_conv dest!: await_bus)

lemma xdirect_busy_mem: "mem (snd (xdirect_busy hw ch s)) = mem s"
  using xdirect_busy_bus [of hw ch s] by (metis machine.select_convs(2) machine.surjective machine.update_convs(1) snd_conv)

lemma xdirectdma_trans_mem: "mem (snd (xdirectdma_trans hw ch p l s)) = mem s"
  by (simp add: xdirectdma_trans_def st_fld_def ld32_def st32_def emit_def Let_def)

lemma xdirectdma_trans_buf: "fst (xdirectdma_trans hw ch XDMA0_IO_BUFFER l s) = XDMA0_IO_BUFFER"
  by (simp add: xdirectdma_trans_def Let_def)

lemma sdcdma_rdt_cases:
  "mem (snd (sdcdma_rdt hw len s)) = mem s \<and> (fst (sdcdma_rdt hw len s) = 0 \<or>
     fst (sdcdma_rdt hw len s) = XDMA0_IO_BUFFER \<and> 0 < len \<and> len \<le> XDMA_BTT_MAX)"
proof -
  obtain b s1 where bz: "xdirect_busy hw XDMA0_S2MM s = (b, s1)" by (metis prod.collapse)
  have "mem s1 = mem s" using xdirect_busy_mem [of hw XDMA0_S2MM s] bz by simp
  then show ?thesis
    using xdirectdma_trans_mem [of hw XDMA0_S2MM XDMA0_IO_BUFFER len s1]
      xdirectdma_trans_buf [of hw XDMA0_S2MM len s1]
    by (auto simp: sdcdma_rdt_def bz word_neq_0_conv not_less)
qed

lemma sdcdma_wrt_cases:
  assumes "sdcdma_wrt hw p len s = (b, s')"
  shows "b = 0 \<and> mem s' = mem s \<or> b = XDMA0_IO_BUFFER \<and> p \<noteq> 0 \<and> 0 < len \<and> len \<le> XDMA_BTT_MAX
      \<and> mem s' = memcpy XDMA0_IO_BUFFER p len (mem s)"
proof -
  obtain bz s1 where bz: "xdirect_busy hw XDMA0_MM2S s = (bz, s1)" by (metis prod.collapse)
  have m1: "mem s1 = mem s" using xdirect_busy_mem [of hw XDMA0_MM2S s] bz by simp
  let ?s2 = "xdcache_flush XDMA0_IO_BUFFER len
      ((xdcache_invalidate p len s1)\<lparr>mem := memcpy XDMA0_IO_BUFFER p len (mem s1)\<rparr>)"
  show ?thesis
  proof (cases "bz \<or> p = 0 \<or> len = 0 \<or> len > XDMA_BTT_MAX")
    case True
    then have "sdcdma_wrt hw p len s = (0, s1)" unfolding sdcdma_wrt_def bz prod.case Let_def by auto
    with assms m1 show ?thesis by simp
  next
    case False
    then have "sdcdma_wrt hw p len s = xdirectdma_trans hw XDMA0_MM2S XDMA0_IO_BUFFER len ?s2"
      unfolding sdcdma_wrt_def bz prod.case Let_def by (simp add: mem_xdcache)
    with assms have "b = XDMA0_IO_BUFFER" "mem s' = mem ?s2"
      using xdirectdma_trans_mem [of hw XDMA0_MM2S XDMA0_IO_BUFFER len ?s2]
        xdirectdma_trans_buf [of hw XDMA0_MM2S len ?s2] by simp_all
    with False m1 show ?thesis by (simp add: mem_xdcache word_neq_0_conv not_less)
  qed
qed

lemma ld_fld_mem: "mem (snd (ld_fld hw L f a s)) = mem s"
  by (simp add: ld_fld_def ld32_def emit_def Let_def)

lemma sector_limit: "count * SDCARD_SECTOR_SIZE \<le> XDMA_BTT_MAX \<Longrightarrow> unat (count * SDCARD_SECTOR_SIZE) < 0x4000"
  by (simp add: word_le_nat_alt)

text \<open>A successful write has staged the bytes, a successful read has delivered them.\<close>

lemma rsdcard_write_staged:
  assumes "rsdcard_write hw p sector count s = Some (True, s')"
  shows "bytes_at (mem s') XDMA0_IO_BUFFER (unat (count * SDCARD_SECTOR_SIZE))
    = bytes_at (mem s) p (unat (count * SDCARD_SECTOR_SIZE))"
proof -
  let ?m = "count * SDCARD_SECTOR_SIZE"
  obtain idle s1 where 1: "ld_fld hw rsdcard_status ''idle'' RSDCARD_sr s = (idle, s1)" by (metis prod.collapse)
  obtain b s2 where 2: "sdcdma_wrt hw p ?m s1 = (b, s2)" by (metis prod.collapse)
  have m1: "mem s1 = mem s" using 1 by (auto simp: ld_fld_def ld32_def emit_def Let_def)
  from assms have "idle \<noteq> 0" "b \<noteq> 0" by (auto simp: rsdcard_write_def 1 2 split: if_splits)
  with assms obtain s3 where 3: "sdc_wait hw (st32 RSDCARD_cr (sdc_command IO_WRITE count) (st32 RSDCARD_addr sector s2)) = Some s3"
    and s': "s' = snd (ld_fld hw rsdcard_status ''ioe'' RSDCARD_sr s3)"
    unfolding rsdcard_write_def 1 prod.case 2 Let_def by (auto simp: bind_eq_Some_conv split_beta)
  have "mem s2 = memcpy XDMA0_IO_BUFFER p ?m (mem s)" using sdcdma_wrt_cases [OF 2] \<open>b \<noteq> 0\<close> m1 by auto
  with sdc_wait_mem [OF 3] s' ld_fld_mem [of hw rsdcard_status "''ioe''" RSDCARD_sr s3] have "mem s' = memcpy XDMA0_IO_BUFFER p ?m (mem s)"
    by (simp add: st32_def emit_def)
  then show ?thesis by (simp add: bytes_at_memcpy)
qed

lemma rsdcard_read_delivers:
  assumes "rsdcard_read hw io p sector count s = Some (True, s')"
  shows "\<exists>t. bytes_at (mem s') p (unat (count * SDCARD_SECTOR_SIZE))
      = bytes_at (io t (mem s)) XDMA0_IO_BUFFER (unat (count * SDCARD_SECTOR_SIZE))
    \<and> (\<forall>a. \<not> a - p < count * SDCARD_SECTOR_SIZE \<longrightarrow> mem s' a = io t (mem s) a)"
proof -
  let ?m = "count * SDCARD_SECTOR_SIZE"
  obtain idle s1 where 1: "ld_fld hw rsdcard_status ''idle'' RSDCARD_sr s = (idle, s1)" by (metis prod.collapse)
  obtain b s2 where 2: "sdcdma_rdt hw ?m s1 = (b, s2)" by (metis prod.collapse)
  have m1: "mem s1 = mem s" using 1 by (auto simp: ld_fld_def ld32_def emit_def Let_def)
  from assms have nz: "idle \<noteq> 0" "b \<noteq> 0" by (auto simp: rsdcard_read_def 1 2 Let_def split: if_splits)
  with sdcdma_rdt_cases [of hw ?m s1] 2 m1 have b: "b = XDMA0_IO_BUFFER" and m2: "mem s2 = mem s" by auto
  from assms nz obtain s3 where 3: "sdc_wait hw (st32 RSDCARD_cr (sdc_command IO_READ count) (st32 RSDCARD_addr sector s2)) = Some s3"
    and s': "mem s' = memcpy p b ?m (io (bus s3) (mem s3))"
    unfolding rsdcard_read_def 1 prod.case 2 Let_def
    by (auto simp: bind_eq_Some_conv split_beta mem_xdcache ld_fld_mem)
  have "mem s3 = mem s" using sdc_wait_mem [OF 3] m2 by (simp add: st32_def emit_def)
  with s' b show ?thesis
    by (intro exI [of _ "bus s3"]) (simp add: bytes_at_memcpy memcpy_outside)
qed

lemma sdc_wait_returns:
  assumes "sdc_hw hw" and "sdc_commanded (bus s)"
  shows "\<exists>s'. sdc_wait hw s = Some s'"
proof -
  from assms obtain n where "\<not> fld_on rsdcard_status ''idle'' (hw (spun hw RSDCARD_sr n (bus s)) RSDCARD_sr)"
    unfolding sdc_hw_def by blast
  with poll_spun_returns [of "\<lambda>v. \<not> fld_on rsdcard_status ''idle'' v" hw RSDCARD_sr n "bus s"]
  obtain s1 where 1: "await hw RSDCARD_sr (\<lambda>v. \<not> fld_on rsdcard_status ''idle'' v) s = Some s1"
    by (auto simp: await_def)
  from awaitD [OF 1] obtain l where l: "bus s1 = l @ bus s" "set l \<subseteq> range (Rd RSDCARD_sr)" by auto
  from assms(2) obtain l' v u where "bus s = l' @ Wr RSDCARD_cr v # u" "set l' \<subseteq> range (Rd RSDCARD_sr)"
    unfolding sdc_commanded_def by blast
  with l have "bus s1 = (l @ l') @ Wr RSDCARD_cr v # u" "set (l @ l') \<subseteq> range (Rd RSDCARD_sr)" by auto
  then have "sdc_commanded (bus s1)" unfolding sdc_commanded_def by blast
  with assms(1) obtain n where "fld_on rsdcard_status ''ioc'' (hw (spun hw RSDCARD_sr n (bus s1)) RSDCARD_sr)"
    unfolding sdc_hw_def by blast
  with poll_spun_returns [of "fld_on rsdcard_status ''ioc''" hw RSDCARD_sr n "bus s1"]
  obtain s2 where "await hw RSDCARD_sr (fld_on rsdcard_status ''ioc'') s1 = Some s2" by (auto simp: await_def)
  with 1 show ?thesis by (simp add: sdc_wait_def)
qed

lemma sdc_commanded_now: "sdc_commanded (bus (st32 RSDCARD_cr v s))"
  unfolding sdc_commanded_def by (rule exI [of _ "[]"]) (simp add: st32_def emit_def)

lemma sector_count_refused:
  assumes "unat count = 0 \<or> 31 < unat count \<and> unat count < 2 ^ 23"
  shows "\<not> (0 < count * SDCARD_SECTOR_SIZE \<and> count * SDCARD_SECTOR_SIZE \<le> XDMA_BTT_MAX)"
  using assms by (auto simp: word_le_nat_alt word_less_nat_alt unat_word_ariths)

lemma rsdcard_returns:
  assumes "sdc_hw hw"
  shows "(\<exists>r s'. rsdcard_read hw io p sector count s = Some (r, s')
           \<and> (unat count = 0 \<or> 31 < unat count \<and> unat count < 2 ^ 23 \<longrightarrow> \<not> r \<and> mem s' = mem s))
    \<and> (\<exists>r s'. rsdcard_write hw p sector count s = Some (r, s')
           \<and> (unat count = 0 \<or> 31 < unat count \<and> unat count < 2 ^ 23 \<longrightarrow> \<not> r \<and> mem s' = mem s))"
proof -
  let ?m = "count * SDCARD_SECTOR_SIZE"
  let ?bad = "unat count = 0 \<or> 31 < unat count \<and> unat count < 2 ^ 23"
  obtain idle s1 where 1: "ld_fld hw rsdcard_status ''idle'' RSDCARD_sr s = (idle, s1)" by (metis prod.collapse)
  have m1: "mem s1 = mem s" using 1 ld_fld_mem [of hw rsdcard_status "''idle''" RSDCARD_sr s] by simp
  obtain b s2 where 2: "sdcdma_rdt hw ?m s1 = (b, s2)" by (metis prod.collapse)
  obtain c s3 where 3: "sdcdma_wrt hw p ?m s1 = (c, s3)" by (metis prod.collapse)
  have bad: "?bad \<Longrightarrow> b = 0 \<and> mem s2 = mem s" "?bad \<Longrightarrow> c = 0 \<and> mem s3 = mem s"
    using sector_count_refused [of count] sdcdma_rdt_cases [of hw ?m s1] sdcdma_wrt_cases [OF 3] 2 m1 by auto
  obtain w4 where w4: "sdc_wait hw (st32 RSDCARD_cr (sdc_command IO_READ count) (st32 RSDCARD_addr sector s2)) = Some w4"
    using sdc_wait_returns [OF assms sdc_commanded_now] by blast
  obtain w5 where w5: "sdc_wait hw (st32 RSDCARD_cr (sdc_command IO_WRITE count) (st32 RSDCARD_addr sector s3)) = Some w5"
    using sdc_wait_returns [OF assms sdc_commanded_now] by blast
  have "\<exists>r s'. rsdcard_read hw io p sector count s = Some (r, s') \<and> (?bad \<longrightarrow> \<not> r \<and> mem s' = mem s)"
    unfolding rsdcard_read_def 1 prod.case Let_def 2 w4 using bad(1) m1
    by (cases ?bad; cases "idle = 0"; cases "b = 0"; simp add: split_beta; blast?)
  moreover have "\<exists>r s'. rsdcard_write hw p sector count s = Some (r, s') \<and> (?bad \<longrightarrow> \<not> r \<and> mem s' = mem s)"
    unfolding rsdcard_write_def 1 prod.case Let_def 3 w5 using bad(2) m1
    by (cases ?bad; cases "idle = 0"; cases "c = 0"; simp add: split_beta; blast?)
  ultimately show ?thesis by blast
qed

section \<open>Properties\<close>



text \<open>A card that is idle, starts and completes at once.\<close>

definition sdc_board :: hw where
  "sdc_board t a =
     (if a = RSDCARD_sr
      then (case t of Rd b v # _ \<Rightarrow> if b = RSDCARD_sr then 1 else 4 | Wr b v # _ \<Rightarrow> if b = RSDCARD_cr then 0 else 4 | _ \<Rightarrow> 4)
      else if a = ch_sr XDMA0_MM2S \<or> a = ch_sr XDMA0_S2MM then 1 else 0)"

lemma sdc_board_hw: "sdc_hw sdc_board"
proof -
  have sr: "sdc_board (Rd RSDCARD_sr v # t) RSDCARD_sr = 1" "sdc_board (Wr RSDCARD_cr v # t) RSDCARD_sr = 0" for v t
    by (simp_all add: sdc_board_def)
  have bits: "\<not> fld_on rsdcard_status ''idle'' (0 :: u32)" "\<not> fld_on rsdcard_status ''idle'' (1 :: u32)"
      "fld_on rsdcard_status ''ioc'' (1 :: u32)"
    by (simp_all add: fld_on_def fld_get_def rsdcard_status_def)
  have "(\<exists>n. \<not> fld_on rsdcard_status ''idle'' (sdc_board (spun sdc_board RSDCARD_sr n t) RSDCARD_sr))
     \<and> (\<exists>n. fld_on rsdcard_status ''ioc'' (sdc_board (spun sdc_board RSDCARD_sr n t) RSDCARD_sr))"
    if c: "sdc_commanded t" for t
  proof -
    have "sdc_board (spun sdc_board RSDCARD_sr 1 t) RSDCARD_sr = 1" by (simp add: sr)
    moreover from this bits show ?thesis by metis
  qed
  then show ?thesis by (simp add: sdc_hw_def)
qed

lemma sdc_board_start:
  assumes "bus s = []"
  shows "fst (the (rsdcard_write sdc_board 0x1000 7 1 s))" "fst (the (rsdcard_read sdc_board io 0x2000 7 1 s))"
    "rsdcard_write sdc_board 0x1000 7 1 s \<noteq> None" "rsdcard_read sdc_board io 0x2000 7 1 s \<noteq> None"
  using assms
  by (simp_all add: rsdcard_write_def rsdcard_read_def ld_fld_def ld32_def emit_def st32_def Let_def sdcdma_wrt_def
      sdcdma_rdt_def xdirect_busy_def xdirectdma_trans_def st_fld_def sdc_wait_def await_def poll_now poll_later
      xdcache_flush_def xdcache_invalidate_def sdc_board_def RSDCARD_sr_def RSDCARD_cr_def RSDCARD_addr_def
      ch_sr_def ch_cr_def ch_buffer_def ch_length_def fld_get_def fld_on_def rsdcard_status_def xdmasr_def)



end
