(* ===== verification/Diskio.thy ===== *)
theory Diskio
  imports Prelude
begin

text \<open>
  The disk interface FatFs calls, \<open>src/fatfs/diskio.c\<close>, over the block device of the target: the
  functions \<open>get_disk\<close>, \<open>read_disk\<close>, \<open>write_disk\<close> and \<open>flush_disk\<close>, which the MicroBlaze target
  implements with the SD card (theory \<open>Storage\<close>) and the x86 target with the IDE
  channels (theory \<open>Pata\<close>). The device is a record of these functions, over the word type of
  \<open>size_t\<close> on the target and a state \<open>'m\<close>; its contract is the locale \<open>block_device\<close>.
\<close>

section \<open>The block device\<close>

datatype disk_stat = DISK_IO_OK | DISK_IO_ERR | DISK_INVALID | DISK_NOT_READY | DISK_WRITE_PROTECT

record 'n disk =
  did :: 'n
  num_blocks :: 'n
  block_size :: 'n
  volume :: 'n
  letter :: char

text \<open>\<open>dv_get\<close> maps the structure passed to the structure afterwards. The other functions are
  \<open>None\<close> when the call does not return.\<close>

record ('n, 'm) blkdev =
  dv_get :: "'n \<Rightarrow> 'n disk \<Rightarrow> 'm \<Rightarrow> 'n disk"
  dv_read :: "'n \<Rightarrow> 'n \<Rightarrow> 'n \<Rightarrow> 'n \<Rightarrow> 'm \<Rightarrow> (disk_stat \<times> 'm) option"
  dv_write :: "'n \<Rightarrow> 'n \<Rightarrow> 'n \<Rightarrow> 'n \<Rightarrow> 'm \<Rightarrow> (disk_stat \<times> 'm) option"
  dv_flush :: "'n \<Rightarrow> 'm \<Rightarrow> (disk_stat \<times> 'm) option"

section \<open>Operations\<close>

datatype DRESULT = RES_OK | RES_ERROR | RES_WRPRT | RES_NOTRDY | RES_PARERR

abbreviation STA_NODISK :: u8 where "STA_NODISK \<equiv> 0x02"
abbreviation CTRL_SYNC :: u8 where "CTRL_SYNC \<equiv> 0"
abbreviation GET_SECTOR_COUNT :: u8 where "GET_SECTOR_COUNT \<equiv> 1"
abbreviation GET_SECTOR_SIZE :: u8 where "GET_SECTOR_SIZE \<equiv> 2"

fun from_diskioStatus :: "disk_stat \<Rightarrow> DRESULT" where
  "from_diskioStatus DISK_IO_OK = RES_OK"
| "from_diskioStatus DISK_INVALID = RES_PARERR"
| "from_diskioStatus DISK_NOT_READY = RES_NOTRDY"
| "from_diskioStatus DISK_WRITE_PROTECT = RES_WRPRT"
| "from_diskioStatus DISK_IO_ERR = RES_ERROR"

text \<open>The local \<open>disk_t\<close> is not initialised: \<open>junk\<close> is what it holds before \<open>get_disk\<close>.\<close>

definition check_diskReady ::
    "('s::len word, 'm) blkdev \<Rightarrow> 's word disk \<Rightarrow> u8 \<Rightarrow> 'm \<Rightarrow> bool" where
  "check_diskReady dv junk pdrv m =
     (let dsk = dv_get dv (ucast pdrv) junk m
      in letter dsk \<noteq> CHR 0x00)"

definition disk_status ::
    "('s::len word, 'm) blkdev \<Rightarrow> 's word disk \<Rightarrow> u8 \<Rightarrow> 'm \<Rightarrow> u8" where
  "disk_status dv junk pdrv m = (if check_diskReady dv junk pdrv m then 0 else STA_NODISK)"

definition disk_initialize ::
    "('s::len word, 'm) blkdev \<Rightarrow> 's word disk \<Rightarrow> u8 \<Rightarrow> 'm \<Rightarrow> u8" where
  "disk_initialize dv junk pdrv m = disk_status dv junk pdrv m"

definition disk_read ::
    "('s::len word, 'm) blkdev \<Rightarrow> 's word disk \<Rightarrow> u8 \<Rightarrow> 's word \<Rightarrow> u64 \<Rightarrow> u32 \<Rightarrow> 'm \<Rightarrow> (DRESULT \<times> 'm) option" where
  "disk_read dv junk pdrv buff sector count m =
     (if \<not> check_diskReady dv junk pdrv m then Some (RES_NOTRDY, m)
      else do {
        (r_stat, m) \<leftarrow> dv_read dv buff (ucast pdrv) (ucast sector) (ucast count) m;
        Some (from_diskioStatus r_stat, m)
      })"

definition disk_write ::
    "('s::len word, 'm) blkdev \<Rightarrow> 's word disk \<Rightarrow> u8 \<Rightarrow> 's word \<Rightarrow> u64 \<Rightarrow> u32 \<Rightarrow> 'm \<Rightarrow> (DRESULT \<times> 'm) option" where
  "disk_write dv junk pdrv buff sector count m =
     (if \<not> check_diskReady dv junk pdrv m then Some (RES_NOTRDY, m)
      else do {
        (w_stat, m) \<leftarrow> dv_write dv buff (ucast pdrv) (ucast sector) (ucast count) m;
        Some (from_diskioStatus w_stat, m)
      })"

text \<open>What \<open>disk_ioctl\<close> stores through \<open>buff\<close>. The sector count is copied with the size of
  \<open>LBA_t\<close>, eight bytes, from a \<open>size_t\<close> variable: \<open>behind\<close> are the bytes behind the
  variable. A division by a block size of zero has the value \<open>None\<close>.\<close>

datatype ioctl_out = NoOut | SectorCount u64 | SectorSize u16

definition disk_ioctl ::
    "('s::len word, 'm) blkdev \<Rightarrow> 's word disk \<Rightarrow> u64 \<Rightarrow> u8 \<Rightarrow> u8 \<Rightarrow> 'm \<Rightarrow> (DRESULT \<times> ioctl_out \<times> 'm) option" where
  "disk_ioctl dv junk behind pdrv cmd m =
     (let disk = dv_get dv (ucast pdrv) junk m
      in if letter disk = CHR 0x00 then Some (RES_NOTRDY, NoOut, m)
         else if cmd = GET_SECTOR_COUNT
         then if block_size disk = 0 then None
              else let blocks = volume disk div block_size disk
                   in Some (RES_OK, SectorCount (ucast blocks OR push_bit LENGTH('s) behind), m)
         else if cmd = GET_SECTOR_SIZE
         then Some (RES_OK, SectorSize (ucast (block_size disk)), m)
         else if cmd = CTRL_SYNC
         then do {
           (st, m) \<leftarrow> dv_flush dv (did disk) m;
           Some (if st \<noteq> DISK_IO_OK then RES_ERROR else RES_OK, NoOut, m)
         }
         else Some (RES_PARERR, NoOut, m))"

section \<open>The contract of a block device\<close>

text \<open>
  A target offers \<open>n\<close> drives. Only a drive in range is described, under its own number, and a
  request for a drive out of range is answered as invalid without any effect.
\<close>

locale block_device =
  fixes dv :: "('s::len word, 'm) blkdev" and n :: nat
  assumes get_invalid: "n \<le> unat d \<Longrightarrow> dv_get dv d x m = x"
    and get_did: "unat d < n \<Longrightarrow> did (dv_get dv d x m) = d"
    and get_filled: "unat d < n \<Longrightarrow> letter (dv_get dv d x m) = letter (dv_get dv d y m)
      \<and> volume (dv_get dv d x m) = volume (dv_get dv d y m)
      \<and> block_size (dv_get dv d x m) = block_size (dv_get dv d y m)"
    and read_invalid: "n \<le> unat d \<Longrightarrow> dv_read dv b d k c m = Some (DISK_INVALID, m)"
    and write_invalid: "n \<le> unat d \<Longrightarrow> dv_write dv b d k c m = Some (DISK_INVALID, m)"
    and flush_invalid: "n \<le> unat d \<Longrightarrow> dv_flush dv d m = Some (DISK_INVALID, m)"
begin

text \<open>FatFs asking for a drive that does not exist gets no data and does not touch the device,
  whatever the uninitialised structure holds.\<close>

lemma bad_drive_untouched:
  assumes "n \<le> unat (ucast pdrv :: 's word)"
  shows "\<exists>r. disk_read dv junk pdrv buff sector count m = Some (r, m) \<and> r \<noteq> RES_OK"
    and "\<exists>r. disk_write dv junk pdrv buff sector count m = Some (r, m) \<and> r \<noteq> RES_OK"
  using read_invalid [OF assms] write_invalid [OF assms]
  by (auto simp: disk_read_def disk_write_def)

text \<open>On an existing drive readiness is the drive letter, whatever the uninitialised structure
  holds, and a drive without a letter is not accessed.\<close>

lemma existing_drive:
  assumes "unat (ucast pdrv :: 's word) < n"
  shows "disk_read dv junk pdrv buff sector count m =
      (if letter (dv_get dv (ucast pdrv) x m) = CHR 0x00 then Some (RES_NOTRDY, m)
       else map_option (map_prod from_diskioStatus id)
              (dv_read dv buff (ucast pdrv) (ucast sector) (ucast count) m))"
    and "disk_write dv junk pdrv buff sector count m =
      (if letter (dv_get dv (ucast pdrv) x m) = CHR 0x00 then Some (RES_NOTRDY, m)
       else map_option (map_prod from_diskioStatus id)
              (dv_write dv buff (ucast pdrv) (ucast sector) (ucast count) m))"
proof -
  have l: "letter (dv_get dv (ucast pdrv) junk m) = letter (dv_get dv (ucast pdrv) x m)"
    using get_filled [OF assms] by blast
  show "disk_read dv junk pdrv buff sector count m =
      (if letter (dv_get dv (ucast pdrv) x m) = CHR 0x00 then Some (RES_NOTRDY, m)
       else map_option (map_prod from_diskioStatus id)
              (dv_read dv buff (ucast pdrv) (ucast sector) (ucast count) m))"
    by (cases "dv_read dv buff (ucast pdrv) (ucast sector) (ucast count) m")
      (auto simp: disk_read_def check_diskReady_def l)
  show "disk_write dv junk pdrv buff sector count m =
      (if letter (dv_get dv (ucast pdrv) x m) = CHR 0x00 then Some (RES_NOTRDY, m)
       else map_option (map_prod from_diskioStatus id)
              (dv_write dv buff (ucast pdrv) (ucast sector) (ucast count) m))"
    by (cases "dv_write dv buff (ucast pdrv) (ucast sector) (ucast count) m")
      (auto simp: disk_write_def check_diskReady_def l)
qed

text \<open>A flush of a ready drive reaches the device with the drive's own number.\<close>

lemma sync_reaches_drive:
  assumes "unat (ucast pdrv :: 's word) < n" and "letter (dv_get dv (ucast pdrv) x m) \<noteq> CHR 0x00"
  shows "disk_ioctl dv junk behind pdrv CTRL_SYNC m =
    map_option (\<lambda>(st, m'). (if st = DISK_IO_OK then RES_OK else RES_ERROR, NoOut, m')) (dv_flush dv (ucast pdrv) m)"
proof -
  have "letter (dv_get dv (ucast pdrv) junk m) \<noteq> CHR 0x00" using get_filled [OF assms(1)] assms(2) by metis
  then show ?thesis using get_did [OF assms(1)]
    by (cases "dv_flush dv (ucast pdrv) m") (auto simp: disk_ioctl_def)
qed

end

end
