(* ===== verification/Storage.thy ===== *)
theory Storage
  imports Rsdcard Diskio
begin

text \<open>
  The block device of the MicroBlaze target, \<open>src/arch/mb_le/storage.c\<close>: one drive, the SD card.
\<close>

abbreviation MAX_DISKS :: u32 where "MAX_DISKS \<equiv> 1"
abbreviation MAX_BLOCK_SIZE :: u32 where "MAX_BLOCK_SIZE \<equiv> 512"

definition disk_io :: "'a machine_scheme \<Rightarrow> 'a machine_scheme" where
  "disk_io s = s"

definition get_disks :: u32 where
  "get_disks = MAX_DISKS"

text \<open>The structure behind the pointer before and after; \<open>None\<close> is a NULL pointer.\<close>

definition get_disk :: "u32 \<Rightarrow> u32 disk option \<Rightarrow> u32 disk option" where
  "get_disk d disk_p =
     (case disk_p of
        None \<Rightarrow> None
      | Some disk \<Rightarrow>
          if d \<ge> MAX_DISKS then Some disk
          else Some (disk\<lparr>did := d, num_blocks := 0, block_size := MAX_BLOCK_SIZE, volume := 0, letter := CHR ''C''\<rparr>))"

text \<open>The text stored in the buffer, \<open>None\<close> when nothing is stored; the formatter of the kernel is a
  parameter.\<close>

definition get_diskInfo :: "(string \<Rightarrow> int list \<Rightarrow> string) \<Rightarrow> u32 \<Rightarrow> bool \<Rightarrow> u32 \<Rightarrow> string option" where
  "get_diskInfo kernel_stringFormat d dsk_info_null dsk_infoLen =
     (if dsk_info_null \<or> d \<ge> MAX_DISKS \<or> dsk_infoLen > 256 then None
      else Some (kernel_stringFormat ''sdcard#%d, volume %d'' [uint d, 0]))"

definition flush_disk :: "u32 \<Rightarrow> disk_stat" where
  "flush_disk d = (if d = MAX_DISKS - 1 then DISK_IO_OK else DISK_INVALID)"

definition read_disk ::
    "hw \<Rightarrow> (history \<Rightarrow> (u32 \<Rightarrow> u8) \<Rightarrow> u32 \<Rightarrow> u8) \<Rightarrow> u32 \<Rightarrow> u32 \<Rightarrow> u32 \<Rightarrow> u32 \<Rightarrow> 'a machine_scheme \<Rightarrow>
      (disk_stat \<times> 'a machine_scheme) option" where
  "read_disk hw io buffer d blck blocks s =
     (if buffer = 0 \<or> d \<ge> MAX_DISKS then Some (DISK_INVALID, s)
      else do {
        (ok, s) \<leftarrow> rsdcard_read hw io buffer blck blocks s;
        Some (if ok then DISK_IO_OK else DISK_IO_ERR, s)
      })"

definition write_disk ::
    "hw \<Rightarrow> u32 \<Rightarrow> u32 \<Rightarrow> u32 \<Rightarrow> u32 \<Rightarrow> 'a machine_scheme \<Rightarrow> (disk_stat \<times> 'a machine_scheme) option" where
  "write_disk hw buffer d blck blocks s =
     (if buffer = 0 \<or> d \<ge> MAX_DISKS then Some (DISK_INVALID, s)
      else do {
        (ok, s) \<leftarrow> rsdcard_write hw buffer blck blocks s;
        Some (if ok then DISK_IO_OK else DISK_IO_ERR, s)
      })"

text \<open>The device as \<open>diskio.c\<close> is linked against it.\<close>

definition sd_dev ::
    "hw \<Rightarrow> (history \<Rightarrow> (u32 \<Rightarrow> u8) \<Rightarrow> u32 \<Rightarrow> u8) \<Rightarrow> (u32, 'a machine_scheme) blkdev" where
  "sd_dev hw io =
     \<lparr>dv_get = (\<lambda>d x m. the (get_disk d (Some x))), dv_read = read_disk hw io, dv_write = write_disk hw,
      dv_flush = (\<lambda>d m. Some (flush_disk d, m))\<rparr>"

interpretation sd: block_device "sd_dev hw io" 1 for hw io
  by unfold_locales
    (auto simp: sd_dev_def get_disk_def read_disk_def write_disk_def flush_disk_def word_le_nat_alt
      word_unat_eq_iff)

section \<open>Lemmas\<close>

lemma sd_letter: "letter (dv_get (sd_dev hw io) 0 x m) = CHR ''C''"
  by (simp add: sd_dev_def get_disk_def)

lemma sd_ops: "dv_read (sd_dev hw io) = read_disk hw io" "dv_write (sd_dev hw io) = write_disk hw"
  by (simp_all add: sd_dev_def)

lemma sd_drive0:
  "disk_read (sd_dev hw io) junk 0 buff sector count m =
     map_option (map_prod from_diskioStatus id) (read_disk hw io buff 0 (ucast sector) count m)"
  "disk_write (sd_dev hw io) junk 0 buff sector count m =
     map_option (map_prod from_diskioStatus id) (write_disk hw buff 0 (ucast sector) count m)"
proof -
  have lt: "unat (ucast (0 :: u8) :: u32) < 1" by simp
  show "disk_read (sd_dev hw io) junk 0 buff sector count m =
     map_option (map_prod from_diskioStatus id) (read_disk hw io buff 0 (ucast sector) count m)"
    using sd.existing_drive(1) [OF lt, of hw io junk buff sector count m junk] sd_letter [of hw io junk m]
    by (simp add: sd_ops)
  show "disk_write (sd_dev hw io) junk 0 buff sector count m =
     map_option (map_prod from_diskioStatus id) (write_disk hw buff 0 (ucast sector) count m)"
    using sd.existing_drive(2) [OF lt, of hw io junk buff sector count m junk] sd_letter [of hw io junk m]
    by (simp add: sd_ops)
qed

section \<open>Properties\<close>

text \<open>
  On the MicroBlaze target FatFs reaches the SD card as drive 0 only. A read of drive 0 into a
  buffer returns when the card reacts as documented, with success exactly when the card
  driver succeeded; a NULL buffer is a parameter error; any other drive number leaves
  the machine untouched and never reports success.
\<close>

theorem sd_disk_read:
  assumes "sdc_hw hw"
  shows "\<exists>r m'. disk_read (sd_dev hw io) junk pdrv buff sector count m = Some (r, m')
    \<and> (if pdrv \<noteq> 0 then m' = m \<and> r \<noteq> RES_OK
       else if buff = 0 then m' = m \<and> r = RES_PARERR
       else \<exists>ok. rsdcard_read hw io buff (ucast sector) count m = Some (ok, m')
              \<and> r = (if ok then RES_OK else RES_ERROR))"
proof (cases "pdrv = 0")
  case False
  then have "1 \<le> unat (ucast pdrv :: u32)" by (simp add: unat_ucast_up Suc_le_eq unat_gt_0)
  from sd.bad_drive_untouched(1) [OF this] False show ?thesis by auto
next
  case True
  obtain ok m' where "rsdcard_read hw io buff (ucast sector) count m = Some (ok, m')"
    using rsdcard_returns [OF assms, of io buff "ucast sector" count m] by blast
  with True show ?thesis by (cases "buff = 0"; cases ok; simp add: sd_drive0 read_disk_def; blast?)
qed

theorem sd_disk_read_witness:
  "\<exists>r m'. disk_read (sd_dev sdc_board (\<lambda>t M. M)) \<lparr>did = 9, num_blocks = 0, block_size = 0, volume = 0, letter = CHR ''X''\<rparr>
     3 0x2000 7 1 \<lparr>bus = [], mem = (\<lambda>_. 0)\<rparr> = Some (r, m') \<and> r \<noteq> RES_OK"
  using sd_disk_read [OF sdc_board_hw, of "\<lambda>t M. M" "\<lparr>did = 9, num_blocks = 0, block_size = 0, volume = 0, letter = CHR ''X''\<rparr>"
      3 "0x2000" 7 1 "\<lparr>bus = [], mem = (\<lambda>_. 0)\<rparr>"] by auto

end
