(* ===== verification/Pata.thy ===== *)
theory Pata
  imports Diskio
begin

text \<open>
  The block device of the x86 target, \<open>src/arch/x86_64/pata.c\<close>: up to four IDE devices on two buses.
  The port I/O is assembly (\<open>sys/pata.asm\<close>), here a record of the four entry points over a state \<open>'w\<close>;
  theory \<open>Ide_System\<close> puts the model of the assembly in its place. The journal entries of the
  kernel are recorded.
\<close>

section \<open>State\<close>

abbreviation IDE_DEV_LETTERS :: nat where "IDE_DEV_LETTERS \<equiv> 4"
abbreviation IDE_NO_DEVICE :: u8 where "IDE_NO_DEVICE \<equiv> 0"
abbreviation IDE_ATA_DEVICE :: u8 where "IDE_ATA_DEVICE \<equiv> 1"
abbreviation IDE_ATAPI_DEVICE :: u8 where "IDE_ATAPI_DEVICE \<equiv> 2"
abbreviation IDE_CAP_LBA_LO :: nat where "IDE_CAP_LBA_LO \<equiv> 60"
abbreviation IDE_CAP_LBA_HI :: nat where "IDE_CAP_LBA_HI \<equiv> 61"
abbreviation IDE_DEV_ID_WORDS :: nat where "IDE_DEV_ID_WORDS \<equiv> 256"
abbreviation IDE_ATA_SECTOR_BYTES :: u64 where "IDE_ATA_SECTOR_BYTES \<equiv> 512"
abbreviation IDE_ATAPI_SECTOR_BYTES :: u64 where "IDE_ATAPI_SECTOR_BYTES \<equiv> 2048"
abbreviation IDE_NO_LETTER :: char where "IDE_NO_LETTER \<equiv> CHR 0x00"

record ide_dev =
  ide_letter :: char
  ide_bus :: u8
  bus_dev :: u8
  ata_detect :: u8
  capacity :: u64
  identity_block :: "u16 list"

record 'w pata =
  ide_devs :: "ide_dev list"
  journal :: "(string \<times> int list) list"
  ports :: 'w

text \<open>The assembly entry points. Detection fills the identity block passed. The value is \<open>None\<close> when the
  routine does not return to its caller.\<close>

record 'w ide_asm =
  ide_detect :: "u8 \<Rightarrow> u8 \<Rightarrow> u16 list \<Rightarrow> 'w \<Rightarrow> (u8 \<times> u16 list \<times> 'w) option"
  ide_flush :: "u8 \<Rightarrow> u8 \<Rightarrow> 'w \<Rightarrow> (u8 \<times> 'w) option"
  ide_read :: "u8 \<Rightarrow> u8 \<Rightarrow> u64 \<Rightarrow> u64 \<Rightarrow> u64 \<Rightarrow> 'w \<Rightarrow> (u8 \<times> 'w) option"
  ide_write :: "u8 \<Rightarrow> u8 \<Rightarrow> u64 \<Rightarrow> u64 \<Rightarrow> u64 \<Rightarrow> 'w \<Rightarrow> (u8 \<times> 'w) option"

section \<open>Operations\<close>

text \<open>The 28-bit capacity is put together in a 32-bit signed \<open>int\<close>, then widened to \<open>size_t\<close>.\<close>

definition cap_sectors :: "u16 list \<Rightarrow> u64" where
  "cap_sectors idb =
     (let hi = ucast (idb ! IDE_CAP_LBA_HI) :: u32; lo = ucast (idb ! IDE_CAP_LBA_LO) :: u32
      in scast (push_bit 16 hi OR lo))"

definition probe_dev :: "'w ide_asm \<Rightarrow> u8 \<Rightarrow> u8 \<Rightarrow> nat \<Rightarrow> 'w \<Rightarrow> (ide_dev \<times> nat \<times> 'w) option" where
  "probe_dev asm bus_no dev_no dev_letter w = do {
     (det, idb, w) \<leftarrow> ide_detect asm bus_no dev_no (replicate IDE_DEV_ID_WORDS 0) w;
     let dev = \<lparr>ide_letter = IDE_NO_LETTER, ide_bus = bus_no, bus_dev = dev_no, ata_detect = det,
                capacity = 0, identity_block = idb\<rparr>;
     Some (if det \<noteq> IDE_NO_DEVICE
           then (dev\<lparr>ide_letter := ''CDEF'' ! dev_letter, capacity := cap_sectors idb * IDE_ATA_SECTOR_BYTES\<rparr>,
                 dev_letter + 1, w)
           else (dev, dev_letter, w))
   }"

fun disk_io_loop :: "'w ide_asm \<Rightarrow> (u8 \<times> u8) list \<Rightarrow> nat \<Rightarrow> 'w \<Rightarrow> (ide_dev list \<times> 'w) option" where
  "disk_io_loop asm [] dev_letter w = Some ([], w)"
| "disk_io_loop asm ((b, d) # ps) dev_letter w = do {
     (dev, dev_letter, w) \<leftarrow> probe_dev asm b d dev_letter w;
     (devs, w) \<leftarrow> disk_io_loop asm ps dev_letter w;
     Some (dev # devs, w)
   }"

definition disk_io :: "'w ide_asm \<Rightarrow> 'w pata \<Rightarrow> 'w pata option" where
  "disk_io asm s = do {
     (devs, w) \<leftarrow> disk_io_loop asm [(0, 0), (0, 1), (1, 0), (1, 1)] 0 (ports s);
     Some (s\<lparr>ide_devs := devs, ports := w\<rparr>)
   }"

definition get_disks :: u64 where
  "get_disks = of_nat IDE_DEV_LETTERS"

definition get_disk :: "u64 \<Rightarrow> u64 disk option \<Rightarrow> 'w pata \<Rightarrow> u64 disk option" where
  "get_disk d disk_p s =
     (case disk_p of
        None \<Rightarrow> None
      | Some disk \<Rightarrow>
          if d \<ge> of_nat IDE_DEV_LETTERS then Some disk
          else
            let dev = ide_devs s ! unat d;
                disk = disk\<lparr>did := d, letter := ide_letter dev, volume := capacity dev, block_size := 0\<rparr>
            in Some (if ata_detect dev = IDE_ATA_DEVICE then disk\<lparr>block_size := IDE_ATA_SECTOR_BYTES\<rparr>
                     else if ata_detect dev = IDE_ATAPI_DEVICE then disk\<lparr>block_size := IDE_ATAPI_SECTOR_BYTES\<rparr>
                     else disk))"

definition get_diskInfo ::
    "(string \<Rightarrow> int list \<Rightarrow> string) \<Rightarrow> u64 \<Rightarrow> bool \<Rightarrow> u64 \<Rightarrow> 'w pata \<Rightarrow> string option" where
  "get_diskInfo kernel_stringFormat d dsk_info_null dsk_infoLen s =
     (if d \<ge> of_nat IDE_DEV_LETTERS \<or> dsk_info_null \<or> dsk_infoLen > 256 then None
      else
        let dev = ide_devs s ! unat d;
            dsk_info = kernel_stringFormat ''IDE#%d: bus %d, device %d, '' [uint d, uint (ide_bus dev), uint (bus_dev dev)]
        in Some (if ata_detect dev = IDE_ATAPI_DEVICE then dsk_info @ ''atapi''
                 else if ata_detect dev = IDE_NO_DEVICE then dsk_info @ ''not detected''
                 else if ata_detect dev = IDE_ATA_DEVICE
                 then dsk_info @ kernel_stringFormat ''ata, capacity %d'' [uint (capacity dev)]
                 else dsk_info @ ''unknown''))"

definition kernel_jentry :: "string \<Rightarrow> int list \<Rightarrow> 'w pata \<Rightarrow> 'w pata" where
  "kernel_jentry f args s = s\<lparr>journal := (f, args) # journal s\<rparr>"

definition flush_disk :: "'w ide_asm \<Rightarrow> u64 \<Rightarrow> 'w pata \<Rightarrow> (disk_stat \<times> 'w pata) option" where
  "flush_disk asm d s =
     (if d \<ge> of_nat IDE_DEV_LETTERS then Some (DISK_INVALID, s)
      else
        let dev = ide_devs s ! unat d
        in if ata_detect dev = IDE_NO_DEVICE then Some (DISK_NOT_READY, s)
           else do {
             (ok, w) \<leftarrow> ide_flush asm (ide_bus dev) (bus_dev dev) (ports s);
             let s = s\<lparr>ports := w\<rparr>;
             let s = (if ok = 0 then kernel_jentry ''[kernel] error: device#%d on ide bus#%d flush data failed''
                        [uint (bus_dev dev), uint (ide_bus dev)] s else s);
             Some (if ok \<noteq> 0 then DISK_IO_OK else DISK_IO_ERR, s)
           })"

definition read_disk :: "'w ide_asm \<Rightarrow> u64 \<Rightarrow> u64 \<Rightarrow> u64 \<Rightarrow> u64 \<Rightarrow> 'w pata \<Rightarrow> (disk_stat \<times> 'w pata) option" where
  "read_disk asm buffer d blck blocks s =
     (if d \<ge> of_nat IDE_DEV_LETTERS then Some (DISK_INVALID, s)
      else
        let dev = ide_devs s ! unat d
        in if ata_detect dev = IDE_NO_DEVICE then Some (DISK_NOT_READY, s)
           else do {
             (ok, w) \<leftarrow> ide_read asm (ide_bus dev) (bus_dev dev) buffer blck blocks (ports s);
             let s = s\<lparr>ports := w\<rparr>;
             let s = (if ok = 0 then kernel_jentry ''[kernel] error: read disk sector#%d count#%d failed''
                        [sint (ucast blck :: u32), sint (ucast blocks :: u32)] s else s);
             Some (if ok \<noteq> 0 then DISK_IO_OK else DISK_IO_ERR, s)
           })"

definition write_disk :: "'w ide_asm \<Rightarrow> u64 \<Rightarrow> u64 \<Rightarrow> u64 \<Rightarrow> u64 \<Rightarrow> 'w pata \<Rightarrow> (disk_stat \<times> 'w pata) option" where
  "write_disk asm buffer d blck blocks s =
     (if d \<ge> of_nat IDE_DEV_LETTERS then Some (DISK_INVALID, s)
      else
        let dev = ide_devs s ! unat d
        in if ata_detect dev = IDE_NO_DEVICE then Some (DISK_NOT_READY, s)
           else do {
             (ok, w) \<leftarrow> ide_write asm (ide_bus dev) (bus_dev dev) buffer blck blocks (ports s);
             let s = s\<lparr>ports := w\<rparr>;
             let s = (if ok = 0 then kernel_jentry ''[kernel] error: write disk sector#%d count#%d failed''
                        [sint (ucast blck :: u32), sint (ucast blocks :: u32)] s else s);
             Some (if ok \<noteq> 0 then DISK_IO_OK else DISK_IO_ERR, s)
           })"

text \<open>The device as \<open>diskio.c\<close> is linked against it.\<close>

definition ide_blkdev :: "'w ide_asm \<Rightarrow> (u64, 'w pata) blkdev" where
  "ide_blkdev asm =
     \<lparr>dv_get = (\<lambda>d x m. the (get_disk d (Some x) m)),
      dv_read = read_disk asm, dv_write = write_disk asm, dv_flush = flush_disk asm\<rparr>"

interpretation ide: block_device "ide_blkdev asm" 4 for asm
  by unfold_locales
    (auto simp: ide_blkdev_def get_disk_def read_disk_def write_disk_def flush_disk_def word_le_nat_alt Let_def)

section \<open>Lemmas\<close>

lemma probe_dev_fields:
  assumes "probe_dev asm b d n w = Some (dev, n', w')"
  shows "ide_bus dev = b" "bus_dev dev = d"
    "ata_detect dev \<noteq> IDE_NO_DEVICE \<Longrightarrow> ide_letter dev = ''CDEF'' ! n \<and> n' = Suc n
       \<and> capacity dev = cap_sectors (identity_block dev) * IDE_ATA_SECTOR_BYTES"
    "ata_detect dev = IDE_NO_DEVICE \<Longrightarrow> ide_letter dev = IDE_NO_LETTER \<and> n' = n \<and> capacity dev = 0"
  using assms by (auto simp: probe_dev_def Let_def bind_eq_Some_conv split: prod.splits if_splits)

definition detected :: "ide_dev \<Rightarrow> bool" where
  "detected dev \<longleftrightarrow> ata_detect dev \<noteq> IDE_NO_DEVICE"

lemma disk_io_loop_devs:
  "disk_io_loop asm ps n w = Some (devs, w') \<Longrightarrow> length devs = length ps \<and> (\<forall>i < length ps.
     (ide_bus (devs ! i), bus_dev (devs ! i)) = ps ! i
     \<and> (if detected (devs ! i)
        then ide_letter (devs ! i) = ''CDEF'' ! (n + length (filter detected (take i devs)))
          \<and> capacity (devs ! i) = cap_sectors (identity_block (devs ! i)) * IDE_ATA_SECTOR_BYTES
        else ide_letter (devs ! i) = IDE_NO_LETTER \<and> capacity (devs ! i) = 0))"
proof (induction ps arbitrary: n w devs w')
  case Nil
  then show ?case by simp
next
  case (Cons p ps)
  obtain b d where p: "p = (b, d)" by (cases p)
  from Cons.prems p obtain dev n1 w1 ds w2 where pr: "probe_dev asm b d n w = Some (dev, n1, w1)"
    and lp: "disk_io_loop asm ps n1 w1 = Some (ds, w2)" and devs: "devs = dev # ds"
    by (auto simp: bind_eq_Some_conv)
  note IH = Cons.IH [OF lp] and pf = probe_dev_fields [OF pr]
  have n1: "n1 = n + (if detected dev then 1 else 0)" using pf(3,4) by (auto simp: detected_def)
  show ?case
  proof (intro conjI allI impI)
    show "length devs = length (p # ps)" using IH devs by simp
    fix i assume i: "i < length (p # ps)"
    show "(ide_bus (devs ! i), bus_dev (devs ! i)) = (p # ps) ! i"
      using i IH pf(1,2) devs p by (cases i) auto
    show "if detected (devs ! i)
        then ide_letter (devs ! i) = ''CDEF'' ! (n + length (filter detected (take i devs)))
          \<and> capacity (devs ! i) = cap_sectors (identity_block (devs ! i)) * IDE_ATA_SECTOR_BYTES
        else ide_letter (devs ! i) = IDE_NO_LETTER \<and> capacity (devs ! i) = 0"
    proof (cases i)
      case 0
      then show ?thesis using pf(3,4) devs by (simp add: detected_def)
    next
      case (Suc j)
      then show ?thesis using i IH devs n1 by (simp add: add.assoc split: if_splits)
    qed
  qed
qed

lemma less4: "i < 4 \<longleftrightarrow> i = 0 \<or> i = 1 \<or> i = 2 \<or> i = (3 :: nat)"
  by auto

lemma probe_slots:
  "i < 4 \<Longrightarrow> [(0, 0), (0, 1), (1, 0), (1, 1)] ! i = (of_nat (i div 2) :: u8, of_nat (i mod 2) :: u8)"
  unfolding less4 by (elim disjE) simp_all

lemma filter_take_less:
  assumes "j < i" "i \<le> length xs" "P (xs ! j)"
  shows "length (filter P (take j xs)) < length (filter P (take i xs))"
proof -
  obtain k where i: "i = j + Suc k" using assms(1) less_imp_Suc_add by auto
  have "drop j xs = xs ! j # drop (Suc j) xs" using assms(1,2) by (simp add: Cons_nth_drop_Suc)
  then have "take i xs = take j xs @ xs ! j # take k (drop (Suc j) xs)" using take_add [of j "Suc k" xs] by (simp add: i)
  then show ?thesis using assms(3) by simp
qed

text \<open>Widening a signed 32-bit value that is not negative.\<close>

lemma scast_nonneg:
  assumes "unat (w :: u32) < 0x80000000"
  shows "(scast w :: u64) = ucast w"
proof -
  have "\<not> bit (unat w) 31" using assms by (simp add: bit_iff_odd)
  then have "\<not> bit w 31" by (simp add: bit_unsigned_iff)
  then show ?thesis
    by (intro bit_word_eqI) (auto simp: bit_word_scast_iff bit_word_ucast_iff dest: bit_imp_le_length)
qed

lemma cap_sectors_exact:
  assumes "unat (idb ! 61) < 0x8000"
  shows "unat (cap_sectors idb) = unat (idb ! 61) * 65536 + unat (idb ! 60)"
proof -
  let ?hi = "ucast (idb ! 61) :: u32" and ?lo = "ucast (idb ! 60) :: u32"
  have lo: "unat ?lo < 65536" using unsigned_less [of "idb ! 60", where 'a = nat] by (simp add: unat_ucast_up)
  have "push_bit 16 ?hi OR ?lo = push_bit 16 ?hi + ?lo"
    by (rule disjunctive_add [symmetric]) (auto simp: bit_push_bit_iff bit_ucast_iff dest: bit_imp_le_length)
  then have u: "unat (push_bit 16 ?hi OR ?lo) = unat (idb ! 61) * 65536 + unat (idb ! 60)"
    using assms lo by (simp add: push_bit_eq_mult unat_word_ariths unat_ucast_up)
  moreover from this have "(scast (push_bit 16 ?hi OR ?lo) :: u64) = ucast (push_bit 16 ?hi OR ?lo)"
    using assms lo by (intro scast_nonneg) (simp add: unat_ucast_up)
  ultimately show ?thesis by (simp add: cap_sectors_def Let_def unat_ucast_up)
qed

lemma disk_ioD:
  "disk_io asm s = Some s' \<Longrightarrow> \<exists>ds w. disk_io_loop asm [(0, 0), (0, 1), (1, 0), (1, 1)] 0 (ports s) = Some (ds, w)
     \<and> ide_devs s' = ds"
  by (auto simp: disk_io_def bind_eq_Some_conv simp del: disk_io_loop.simps)

section \<open>Properties\<close>

text \<open>
  After detection there are four device slots, two per bus. The detected devices get the letters
  C, D, E, F in slot order without a gap, so no two share a letter; a slot without
  device has no letter and no capacity.
\<close>

theorem ide_letters:
  assumes "disk_io asm s = Some s'" and "devs = ide_devs s'"
  shows "length devs = 4 \<and> (\<forall>i < 4.
      ide_bus (devs ! i) = of_nat (i div 2) \<and> bus_dev (devs ! i) = of_nat (i mod 2)
      \<and> (detected (devs ! i) \<longrightarrow>
           ide_letter (devs ! i) = ''CDEF'' ! length (filter detected (take i devs)))
      \<and> (\<not> detected (devs ! i) \<longrightarrow> ide_letter (devs ! i) = IDE_NO_LETTER \<and> capacity (devs ! i) = 0))
    \<and> (\<forall>i < 4. \<forall>j < i. detected (devs ! i) \<and> detected (devs ! j) \<longrightarrow>
         ide_letter (devs ! i) \<noteq> ide_letter (devs ! j))"
proof -
  from disk_ioD [OF assms(1)] obtain ds w where
    lp: "disk_io_loop asm [(0, 0), (0, 1), (1, 0), (1, 1)] 0 (ports s) = Some (ds, w)" and devs: "devs = ds"
    using assms(2) by auto
  note D = disk_io_loop_devs [OF lp, folded devs]
  then have len: "length devs = 4" by simp
  have slot: "ide_bus (devs ! i) = of_nat (i div 2) \<and> bus_dev (devs ! i) = of_nat (i mod 2)
      \<and> (detected (devs ! i) \<longrightarrow> ide_letter (devs ! i) = ''CDEF'' ! length (filter detected (take i devs)))
      \<and> (\<not> detected (devs ! i) \<longrightarrow> ide_letter (devs ! i) = IDE_NO_LETTER \<and> capacity (devs ! i) = 0)" if "i < 4" for i
    using spec [OF conjunct2 [OF D], of i] probe_slots [OF that] that by (simp split: if_splits)
  have "ide_letter (devs ! i) \<noteq> ide_letter (devs ! j)"
    if "i < 4" "j < i" "detected (devs ! i)" "detected (devs ! j)" for i j
  proof -
    let ?n = "\<lambda>k. length (filter detected (take k devs))"
    have "?n j < ?n i" using filter_take_less [of j i devs detected] that len by simp
    moreover have "?n i < 4" using length_filter_le [of detected "take i devs"] that(1) len by simp
    ultimately have "''CDEF'' ! ?n i \<noteq> ''CDEF'' ! ?n j"
      using nth_eq_iff_index_eq [of "''CDEF''" "?n i" "?n j"] by simp
    with slot [of i] slot [of j] that show ?thesis by simp
  qed
  with len slot show ?thesis by blast
qed


text \<open>Two disks: an ATA disk of 256 sectors as primary master, an ATAPI drive as secondary slave.\<close>

definition two_disks :: "unit ide_asm" where
  "two_disks =
     \<lparr>ide_detect = (\<lambda>b d idb w.
        if b = 0 \<and> d = 0 then Some (1, idb[60 := 256], w) else if b = 1 \<and> d = 1 then Some (2, idb[60 := 256], w)
        else Some (0, idb, w)),
      ide_flush = (\<lambda>_ _ w. Some (1, w)), ide_read = (\<lambda>_ _ _ _ _ w. Some (1, w)),
      ide_write = (\<lambda>_ _ _ _ _ w. Some (1, w))\<rparr>"

definition pata_boot :: "unit pata" where
  "pata_boot = \<lparr>ide_devs = [], journal = [], ports = ()\<rparr>"

lemma two_disks_devs:
  "\<exists>s. disk_io two_disks pata_boot = Some s \<and> ata_detect (ide_devs s ! 0) = 1
     \<and> identity_block (ide_devs s ! 0) = (replicate 256 0)[60 := 256]
     \<and> detected (ide_devs s ! 0) \<and> detected (ide_devs s ! 3)"
  by (simp add: disk_io_def two_disks_def pata_boot_def probe_dev_def Let_def detected_def)

theorem ide_letters_witness:
  "\<exists>s. disk_io two_disks pata_boot = Some s \<and> ide_letter (ide_devs s ! 0) \<noteq> ide_letter (ide_devs s ! 3)"
proof -
  obtain s where s: "disk_io two_disks pata_boot = Some s" "detected (ide_devs s ! 0)" "detected (ide_devs s ! 3)"
    using two_disks_devs by blast
  have "\<forall>i < 4. \<forall>j < i. detected (ide_devs s ! i) \<and> detected (ide_devs s ! j) \<longrightarrow>
        ide_letter (ide_devs s ! i) \<noteq> ide_letter (ide_devs s ! j)"
    using ide_letters [OF s(1) refl] by (elim conjE)
  from this [rule_format, of 3 0] s show ?thesis by (intro exI [of _ s]) simp
qed


end
