(* ===== verification/X86_Cpu.thy ===== *)
theory X86_Cpu
  imports Prelude
begin

text \<open>
  The x86-64 processor as far as the assembly of the PC target uses it: general purpose registers,
  two flags, a stack of its own and a byte-addressed memory. An instruction is a function on this
  state. A routine is the sequence of its instructions, so every move between registers, every saved
  register and every flag a jump tests is in the model. The stack is kept apart
  from the memory: buffers do not overlap it.
\<close>

section \<open>State\<close>

record cpu =
  rax :: u64
  rbx :: u64
  rcx :: u64
  rdx :: u64
  rsi :: u64
  rdi :: u64
  r8 :: u64
  r12 :: u64
  zf :: bool
  df :: bool
  stack :: "u64 list"
  ram :: "u64 \<Rightarrow> u8"

text \<open>The low byte and word of a register (\<open>al\<close>, \<open>cl\<close>, \<open>dx\<close>, ...).\<close>

definition lo8 :: "u64 \<Rightarrow> u8" where
  "lo8 r = ucast r"

definition set_lo8 :: "u8 \<Rightarrow> u64 \<Rightarrow> u64" where
  "set_lo8 b r = (r AND NOT (mask 8)) OR ucast b"

definition lo16 :: "u64 \<Rightarrow> u16" where
  "lo16 r = ucast r"

definition set_lo16 :: "u16 \<Rightarrow> u64 \<Rightarrow> u64" where
  "set_lo16 w r = (r AND NOT (mask 16)) OR ucast w"

section \<open>Instructions\<close>

named_theorems x86 \<open>the effect of the instructions\<close>

definition push :: "u64 \<Rightarrow> 'a cpu_scheme \<Rightarrow> 'a cpu_scheme" where
  "push v s = s\<lparr>stack := v # stack s\<rparr>"

definition pop :: "'a cpu_scheme \<Rightarrow> u64 \<times> 'a cpu_scheme" where
  "pop s = (hd (stack s), s\<lparr>stack := tl (stack s)\<rparr>)"

text \<open>The flags register as \<open>pushfq\<close> and \<open>popfq\<close> move it: zero flag in bit 6, direction flag in bit 10.\<close>

definition pushfq :: "'a cpu_scheme \<Rightarrow> 'a cpu_scheme" where
  "pushfq s = push ((if zf s then 0x40 else 0) OR (if df s then 0x400 else 0)) s"

definition popfq :: "'a cpu_scheme \<Rightarrow> 'a cpu_scheme" where
  "popfq s = (let (f, s) = pop s in s\<lparr>zf := bit f 6, df := bit f 10\<rparr>)"

definition cld :: "'a cpu_scheme \<Rightarrow> 'a cpu_scheme" where
  "cld s = s\<lparr>df := False\<rparr>"

definition xor_rax :: "'a cpu_scheme \<Rightarrow> 'a cpu_scheme" where
  "xor_rax s = s\<lparr>rax := 0, zf := True\<rparr>"

definition or_al :: "'a cpu_scheme \<Rightarrow> 'a cpu_scheme" where
  "or_al s = s\<lparr>zf := (lo8 (rax s) = 0)\<rparr>"

definition or_rcx :: "'a cpu_scheme \<Rightarrow> 'a cpu_scheme" where
  "or_rcx s = s\<lparr>zf := (rcx s = 0)\<rparr>"

definition inc_rcx :: "'a cpu_scheme \<Rightarrow> 'a cpu_scheme" where
  "inc_rcx s = s\<lparr>rcx := rcx s + 1, zf := (rcx s + 1 = 0)\<rparr>"

definition dec_rcx :: "'a cpu_scheme \<Rightarrow> 'a cpu_scheme" where
  "dec_rcx s = s\<lparr>rcx := rcx s - 1, zf := (rcx s - 1 = 0)\<rparr>"

definition inc_rdi :: "'a cpu_scheme \<Rightarrow> 'a cpu_scheme" where
  "inc_rdi s = s\<lparr>rdi := rdi s + 1, zf := (rdi s + 1 = 0)\<rparr>"

definition dec_rdi :: "'a cpu_scheme \<Rightarrow> 'a cpu_scheme" where
  "dec_rdi s = s\<lparr>rdi := rdi s - 1, zf := (rdi s - 1 = 0)\<rparr>"

definition inc_rsi :: "'a cpu_scheme \<Rightarrow> 'a cpu_scheme" where
  "inc_rsi s = s\<lparr>rsi := rsi s + 1, zf := (rsi s + 1 = 0)\<rparr>"

definition mov_al :: "u8 \<Rightarrow> 'a cpu_scheme \<Rightarrow> 'a cpu_scheme" where
  "mov_al v s = s\<lparr>rax := set_lo8 v (rax s)\<rparr>"

definition cmp_al :: "u8 \<Rightarrow> 'a cpu_scheme \<Rightarrow> 'a cpu_scheme" where
  "cmp_al v s = s\<lparr>zf := (lo8 (rax s) = v)\<rparr>"

text \<open>The string instructions run through memory in the direction the direction flag says.\<close>

definition str_step :: "'a cpu_scheme \<Rightarrow> u64" where
  "str_step s = (if df s then - 1 else 1)"

definition lodsb :: "'a cpu_scheme \<Rightarrow> 'a cpu_scheme" where
  "lodsb s = s\<lparr>rax := set_lo8 (ram s (rsi s)) (rax s), rsi := rsi s + str_step s\<rparr>"

definition stosb :: "'a cpu_scheme \<Rightarrow> 'a cpu_scheme" where
  "stosb s = s\<lparr>ram := (ram s)(rdi s := lo8 (rax s)), rdi := rdi s + str_step s\<rparr>"

definition movsb :: "'a cpu_scheme \<Rightarrow> 'a cpu_scheme" where
  "movsb s = s\<lparr>ram := (ram s)(rdi s := ram s (rsi s)), rsi := rsi s + str_step s, rdi := rdi s + str_step s\<rparr>"

definition scasb :: "'a cpu_scheme \<Rightarrow> 'a cpu_scheme" where
  "scasb s = s\<lparr>zf := (lo8 (rax s) = ram s (rdi s)), rdi := rdi s + str_step s\<rparr>"

definition cmpsb :: "'a cpu_scheme \<Rightarrow> 'a cpu_scheme" where
  "cmpsb s = s\<lparr>zf := (ram s (rsi s) = ram s (rdi s)), rsi := rsi s + str_step s, rdi := rdi s + str_step s\<rparr>"

text \<open>A repeat prefix: \<open>rcx\<close> counts down to zero; \<open>repz\<close> and \<open>repnz\<close> also stop on the flag.\<close>

primrec rep_n ::
    "nat \<Rightarrow> ('a cpu_scheme \<Rightarrow> 'a cpu_scheme) \<Rightarrow> ('a cpu_scheme \<Rightarrow> bool) \<Rightarrow> 'a cpu_scheme \<Rightarrow> 'a cpu_scheme" where
  "rep_n 0 instr stop s = s"
| "rep_n (Suc n) instr stop s =
     (let s = (instr s)\<lparr>rcx := of_nat n\<rparr> in if stop s then s else rep_n n instr stop s)"

definition rep :: "('a cpu_scheme \<Rightarrow> 'a cpu_scheme) \<Rightarrow> 'a cpu_scheme \<Rightarrow> 'a cpu_scheme" where
  "rep instr s = rep_n (unat (rcx s)) instr (\<lambda>_. False) s"

definition repz :: "('a cpu_scheme \<Rightarrow> 'a cpu_scheme) \<Rightarrow> 'a cpu_scheme \<Rightarrow> 'a cpu_scheme" where
  "repz instr s = rep_n (unat (rcx s)) instr (\<lambda>s. \<not> zf s) s"

definition repnz :: "('a cpu_scheme \<Rightarrow> 'a cpu_scheme) \<Rightarrow> 'a cpu_scheme \<Rightarrow> 'a cpu_scheme" where
  "repnz instr s = rep_n (unat (rcx s)) instr zf s"

text \<open>
  A call pushes the return address; the routine ends with \<open>ret\<close>, which pops the address execution
  goes on with. The call returns to its caller only if that is the address pushed and the stack is
  the caller's again; otherwise its value is \<open>None\<close>, as for a routine that never ends.
\<close>

definition call :: "u64 \<Rightarrow> ('a cpu_scheme \<Rightarrow> 'a cpu_scheme option) \<Rightarrow> 'a cpu_scheme \<Rightarrow> 'a cpu_scheme option" where
  "call ra routine s = do {
     s' \<leftarrow> routine (push ra s);
     let (pc, s') = pop s';
     if pc = ra \<and> stack s' = stack s then Some s' else None
   }"

text \<open>What a routine keeps for its caller: the callee-saved registers and the stack.\<close>

definition saved :: "'a cpu_scheme \<Rightarrow> 'b cpu_scheme \<Rightarrow> bool" where
  "saved s s' \<longleftrightarrow> rbx s' = rbx s \<and> r12 s' = r12 s \<and> stack s' = stack s"

section \<open>Lemmas\<close>

lemma lo8_set_lo8 [simp]: "lo8 (set_lo8 b r) = b"
  by (rule bit_word_eqI) (auto simp: lo8_def set_lo8_def bit_simps)

lemma set_lo8_idem [simp]: "set_lo8 b (set_lo8 c r) = set_lo8 b r"
  by (rule bit_word_eqI) (auto simp: set_lo8_def bit_simps dest: bit_imp_le_length)

lemma lo16_set_lo16 [simp]: "lo16 (set_lo16 w r) = w"
  by (rule bit_word_eqI) (auto simp: lo16_def set_lo16_def bit_simps)

lemma byte_mask: "(0xFF :: u64) = mask 8"
  by (simp add: mask_eq_exp_minus_1)

lemma lo8_0 [simp]: "lo8 0 = 0"
  by (simp add: lo8_def)

declare push_def [x86] pop_def [x86] cld_def [x86] xor_rax_def [x86] or_al_def [x86] or_rcx_def [x86]
  inc_rcx_def [x86] dec_rcx_def [x86] inc_rdi_def [x86] dec_rdi_def [x86] inc_rsi_def [x86] mov_al_def [x86]
  cmp_al_def [x86] str_step_def [x86] lodsb_def [x86] stosb_def [x86] movsb_def [x86] scasb_def [x86] cmpsb_def [x86]

lemma popfq_pushfq [simp]:
  "popfq (s\<lparr>stack := ((if z then 0x40 else 0) OR (if d then 0x400 else 0)) # t\<rparr>) = s\<lparr>stack := t, zf := z, df := d\<rparr>"
  by (simp add: popfq_def pop_def)

text \<open>A routine that leaves the stack as it was returns to its caller.\<close>

lemma call_returns:
  assumes "routine (push ra s) = Some s'" "stack s' = ra # stack s"
  shows "call ra routine s = Some (s'\<lparr>stack := stack s\<rparr>)"
  using assms by (simp add: call_def pop_def)

end
