(* ===== verification/X86_Io.thy ===== *)
theory X86_Io
  imports X86_Cpu
begin

text \<open>
  The ports of the PC target and the instructions that use them. A device answers a port load as a
  function of all port accesses so far, the latest first; the processor keeps them as a history.
\<close>

section \<open>Ports\<close>

datatype port_event =
    InB u16 u8
  | InW u16 u16
  | OutB u16 u8
  | OutW u16 u16

type_synonym pdev = "port_event list \<Rightarrow> u16 \<Rightarrow> u16"

record ide_cpu = cpu +
  pio :: "port_event list"

definition in_al :: "pdev \<Rightarrow> 'a ide_cpu_scheme \<Rightarrow> 'a ide_cpu_scheme" where
  "in_al P s =
     (let v = ucast (P (pio s) (lo16 (rdx s))) in s\<lparr>rax := set_lo8 v (rax s), pio := InB (lo16 (rdx s)) v # pio s\<rparr>)"

definition out_al :: "'a ide_cpu_scheme \<Rightarrow> 'a ide_cpu_scheme" where
  "out_al s = s\<lparr>pio := OutB (lo16 (rdx s)) (lo8 (rax s)) # pio s\<rparr>"

text \<open>A word moves between the port and two bytes of memory, the low byte first.\<close>

definition insw :: "pdev \<Rightarrow> 'a ide_cpu_scheme \<Rightarrow> 'a ide_cpu_scheme" where
  "insw P s =
     (let w = P (pio s) (lo16 (rdx s))
      in s\<lparr>ram := (ram s)(rdi s := ucast w, rdi s + 1 := ucast (drop_bit 8 w)), rdi := rdi s + 2 * str_step s,
           pio := InW (lo16 (rdx s)) w # pio s\<rparr>)"

definition outsw :: "'a ide_cpu_scheme \<Rightarrow> 'a ide_cpu_scheme" where
  "outsw s =
     (let w = ucast (ram s (rsi s)) OR push_bit 8 (ucast (ram s (rsi s + 1)))
      in s\<lparr>rsi := rsi s + 2 * str_step s, pio := OutW (lo16 (rdx s)) w # pio s\<rparr>)"

definition add_dx :: "u16 \<Rightarrow> 'a cpu_scheme \<Rightarrow> 'a cpu_scheme" where
  "add_dx v s = s\<lparr>rdx := set_lo16 (lo16 (rdx s) + v) (rdx s), zf := (lo16 (rdx s) + v = 0)\<rparr>"

definition mov_di :: "u16 \<Rightarrow> 'a cpu_scheme \<Rightarrow> 'a cpu_scheme" where
  "mov_di v s = s\<lparr>rdi := set_lo16 v (rdi s)\<rparr>"

definition mov_dil :: "u8 \<Rightarrow> 'a cpu_scheme \<Rightarrow> 'a cpu_scheme" where
  "mov_dil v s = s\<lparr>rdi := set_lo8 v (rdi s)\<rparr>"

definition test_al :: "u8 \<Rightarrow> 'a cpu_scheme \<Rightarrow> 'a cpu_scheme" where
  "test_al v s = s\<lparr>zf := (lo8 (rax s) AND v = 0)\<rparr>"

definition xchg_ah_al :: "'a cpu_scheme \<Rightarrow> 'a cpu_scheme" where
  "xchg_ah_al s = s\<lparr>rax := set_lo16 (push_bit 8 (lo16 (rax s)) OR drop_bit 8 (lo16 (rax s))) (rax s)\<rparr>"

text \<open>\<open>loop\<close>: count down, and whether to jump.\<close>

definition dec_loop :: "'a cpu_scheme \<Rightarrow> 'a cpu_scheme" where
  "dec_loop s = s\<lparr>rcx := rcx s - 1\<rparr>"

definition in_al_imm :: "pdev \<Rightarrow> u16 \<Rightarrow> 'a ide_cpu_scheme \<Rightarrow> 'a ide_cpu_scheme" where
  "in_al_imm P p s = (let v = ucast (P (pio s) p) in s\<lparr>rax := set_lo8 v (rax s), pio := InB p v # pio s\<rparr>)"

definition out_imm_al :: "u16 \<Rightarrow> 'a ide_cpu_scheme \<Rightarrow> 'a ide_cpu_scheme" where
  "out_imm_al p s = s\<lparr>pio := OutB p (lo8 (rax s)) # pio s\<rparr>"

definition mov_dx :: "u16 \<Rightarrow> 'a cpu_scheme \<Rightarrow> 'a cpu_scheme" where
  "mov_dx v s = s\<lparr>rdx := set_lo16 v (rdx s)\<rparr>"

definition and_al :: "u8 \<Rightarrow> 'a cpu_scheme \<Rightarrow> 'a cpu_scheme" where
  "and_al v s = s\<lparr>rax := set_lo8 (lo8 (rax s) AND v) (rax s), zf := (lo8 (rax s) AND v = 0)\<rparr>"

definition or_al_imm :: "u8 \<Rightarrow> 'a cpu_scheme \<Rightarrow> 'a cpu_scheme" where
  "or_al_imm v s = s\<lparr>rax := set_lo8 (lo8 (rax s) OR v) (rax s), zf := (lo8 (rax s) OR v = 0)\<rparr>"

text \<open>Further loads of a port.\<close>

fun looks :: "pdev \<Rightarrow> u16 \<Rightarrow> nat \<Rightarrow> port_event list \<Rightarrow> port_event list" where
  "looks P p 0 t = t"
| "looks P p (Suc n) t = looks P p n (InB p (ucast (P t p)) # t)"

end
