(* ===== verification/Ide_Ports.thy ===== *)
theory Ide_Ports
  imports X86_Io
begin

text \<open>
  The IDE port routines of the PC target, \<open>arch/x86_64/sys/pata.asm\<close>, one line of the assembly per
  line here. A routine called
  inside the file leaves the stack as it found it, so a call of it is its application; the stack
  matters where the code fails to restore it.
\<close>

section \<open>Registers of the controller\<close>

abbreviation IDE_SECTOR_COUNT_REG :: u16 where "IDE_SECTOR_COUNT_REG \<equiv> 2"
abbreviation IDE_LBA_LOW_REG :: u16 where "IDE_LBA_LOW_REG \<equiv> 3"
abbreviation IDE_LBA_MID_REG :: u16 where "IDE_LBA_MID_REG \<equiv> 4"
abbreviation IDE_LBA_HIGH_REG :: u16 where "IDE_LBA_HIGH_REG \<equiv> 5"
abbreviation IDE_DRIVE_HEAD_REG :: u16 where "IDE_DRIVE_HEAD_REG \<equiv> 6"
abbreviation IDE_STATUS_COMMAND_REG :: u16 where "IDE_STATUS_COMMAND_REG \<equiv> 7"
abbreviation IDE_CONTROL_OFFSET :: u16 where "IDE_CONTROL_OFFSET \<equiv> 0x206"

abbreviation IDE_DRIVE_HEAD_SLAVE :: u64 where "IDE_DRIVE_HEAD_SLAVE \<equiv> 0x10"
abbreviation IDE_DRIVE_HEAD_MAGIC :: u64 where "IDE_DRIVE_HEAD_MAGIC \<equiv> 0xA0"
abbreviation IDE_DRIVE_HEAD_LBA_MODE :: u64 where "IDE_DRIVE_HEAD_LBA_MODE \<equiv> 0xE0"

abbreviation IDE_DEVICE_BUSY_FLAG :: u8 where "IDE_DEVICE_BUSY_FLAG \<equiv> 0x80"
abbreviation IDE_DEVICE_READY_FLAG :: u8 where "IDE_DEVICE_READY_FLAG \<equiv> 0x40"
abbreviation IDE_DEVICE_DRQ_FLAG :: u8 where "IDE_DEVICE_DRQ_FLAG \<equiv> 0x08"
abbreviation IDE_DEVICE_ERROR_FLAG :: u8 where "IDE_DEVICE_ERROR_FLAG \<equiv> 0x21"

abbreviation IDE_DEVICE_IDENTIFY_CMD :: u8 where "IDE_DEVICE_IDENTIFY_CMD \<equiv> 0xEC"
abbreviation IDE_DEVICE_READ_SECT_CMD :: u8 where "IDE_DEVICE_READ_SECT_CMD \<equiv> 0x20"
abbreviation IDE_DEVICE_WRITE_SECT_CMD :: u8 where "IDE_DEVICE_WRITE_SECT_CMD \<equiv> 0x30"
abbreviation IDE_DEVICE_FLUSH_CACHE_CMD :: u8 where "IDE_DEVICE_FLUSH_CACHE_CMD \<equiv> 0xE7"

definition select_ide_controller :: "'a cpu_scheme \<Rightarrow> 'a cpu_scheme" where
  "select_ide_controller s =
     (let s = s\<lparr>rdx := 0x170\<rparr>;
          s = s\<lparr>zf := (rdi s = 0)\<rparr>
      in if \<not> zf s then s else s\<lparr>rdx := rdx s + 0x80, zf := (rdx s + 0x80 = 0)\<rparr>)"

definition write_ide_reg :: "'a ide_cpu_scheme \<Rightarrow> 'a ide_cpu_scheme" where
  "write_ide_reg s =
     (let s = push (rdx s) s;
          s = add_dx (lo16 (rdi s)) s;
          s = out_al s;
          (d, s) = pop s
      in s\<lparr>rdx := d\<rparr>)"

definition clear_ide_reg :: "'a ide_cpu_scheme \<Rightarrow> 'a ide_cpu_scheme" where
  "clear_ide_reg s =
     (let s = (mov_al 0 s)\<lparr>zf := True\<rparr>
      in write_ide_reg s)"

definition read_ide_reg :: "pdev \<Rightarrow> 'a ide_cpu_scheme \<Rightarrow> 'a ide_cpu_scheme" where
  "read_ide_reg P s =
     (let s = push (rdx s) s;
          s = add_dx (lo16 (rdi s)) s;
          s = in_al P s;
          (d, s) = pop s
      in s\<lparr>rdx := d\<rparr>)"

definition read_ide_status_reg :: "pdev \<Rightarrow> 'a ide_cpu_scheme \<Rightarrow> 'a ide_cpu_scheme" where
  "read_ide_status_reg P s = read_ide_reg P (mov_dil (ucast IDE_STATUS_COMMAND_REG) s)"

definition ide_ata_spec_delay :: "pdev \<Rightarrow> 'a ide_cpu_scheme \<Rightarrow> 'a ide_cpu_scheme" where
  "ide_ata_spec_delay P s =
     (let s = push (rax s) s;
          s = push (rcx s) s;
          s = push (rdx s) s;
          s = add_dx IDE_CONTROL_OFFSET s;
          s = s\<lparr>rcx := 4\<rparr>;
          s = rep (in_al P) s;
          (d, s) = pop s;
          s = s\<lparr>rdx := d\<rparr>;
          (c, s) = pop s;
          s = s\<lparr>rcx := c\<rparr>;
          (a, s) = pop s
      in s\<lparr>rax := a\<rparr>)"

definition ide_device_disable_irq :: "'a ide_cpu_scheme \<Rightarrow> 'a ide_cpu_scheme" where
  "ide_device_disable_irq s =
     (let s = push (rax s) s;
          s = push (rdx s) s;
          s = add_dx IDE_CONTROL_OFFSET s;
          s = mov_al 2 s;
          s = out_al s;
          (d, s) = pop s;
          s = s\<lparr>rdx := d\<rparr>;
          (a, s) = pop s
      in s\<lparr>rax := a\<rparr>)"

section \<open>Waiting for the device\<close>

text \<open>The loop that waits for the device to leave the busy state and then looks for an error; the
  other two waits end in the same instructions once their counter has run out.\<close>

partial_function (option) not_busy_loop :: "pdev \<Rightarrow> 'a ide_cpu_scheme \<Rightarrow> 'a ide_cpu_scheme option" where
  "not_busy_loop P s =
     (let s = in_al P s;
          s = test_al IDE_DEVICE_BUSY_FLAG s
      in if \<not> zf s then not_busy_loop P s
         else
           let s = test_al IDE_DEVICE_ERROR_FLAG s
           in if zf s then Some s else Some (s\<lparr>rbx := set_lo8 0 (rbx s), zf := True\<rparr>))"

definition wait_ide_device_not_busy :: "pdev \<Rightarrow> 'a ide_cpu_scheme \<Rightarrow> 'a ide_cpu_scheme option" where
  "wait_ide_device_not_busy P s = do {
     let s = push (rdx s) s;
     let s = push (rbx s) s;
     let s = s\<lparr>rbx := set_lo8 1 (rbx s)\<rparr>;
     let s = add_dx IDE_STATUS_COMMAND_REG s;
     s \<leftarrow> not_busy_loop P s;
     let s = mov_al (lo8 (rbx s)) s;
     let (b, s) = pop s;
     let s = s\<lparr>rbx := b\<rparr>;
     let (d, s) = pop s;
     Some (s\<lparr>rdx := d\<rparr>)
   }"

text \<open>The loop that waits for a flag of the device that is not busy, at most \<open>rcx\<close> times.\<close>

partial_function (option) flag_loop :: "pdev \<Rightarrow> u8 \<Rightarrow> 'a ide_cpu_scheme \<Rightarrow> 'a ide_cpu_scheme option" where
  "flag_loop P flag s =
     (let s = in_al P s;
          s = test_al IDE_DEVICE_BUSY_FLAG s
      in if zf s
         then
           let s = test_al flag s
           in if \<not> zf s then Some s
              else
                let s = dec_loop s
                in if rcx s \<noteq> 0 then flag_loop P flag s else not_busy_loop P s
         else
           let s = dec_loop s
           in if rcx s \<noteq> 0 then flag_loop P flag s else not_busy_loop P s)"

definition wait_flag :: "pdev \<Rightarrow> u8 \<Rightarrow> u64 \<Rightarrow> 'a ide_cpu_scheme \<Rightarrow> 'a ide_cpu_scheme option" where
  "wait_flag P flag tries s = do {
     let s = push (rdx s) s;
     let s = push (rcx s) s;
     let s = push (rbx s) s;
     let s = s\<lparr>rbx := set_lo8 1 (rbx s)\<rparr>;
     let s = add_dx IDE_STATUS_COMMAND_REG s;
     let s = s\<lparr>rcx := tries\<rparr>;
     s \<leftarrow> flag_loop P flag s;
     let s = mov_al (lo8 (rbx s)) s;
     let (b, s) = pop s;
     let s = s\<lparr>rbx := b\<rparr>;
     let (c, s) = pop s;
     let s = s\<lparr>rcx := c\<rparr>;
     let (d, s) = pop s;
     Some (s\<lparr>rdx := d\<rparr>)
   }"

definition wait_ide_device_ready :: "pdev \<Rightarrow> 'a ide_cpu_scheme \<Rightarrow> 'a ide_cpu_scheme option" where
  "wait_ide_device_ready P s = wait_flag P IDE_DEVICE_READY_FLAG 0xFFFFFF s"

definition wait_ide_device_drq :: "pdev \<Rightarrow> 'a ide_cpu_scheme \<Rightarrow> 'a ide_cpu_scheme option" where
  "wait_ide_device_drq P s = wait_flag P IDE_DEVICE_DRQ_FLAG 0xFFFF s"

section \<open>The entry points\<close>

text \<open>Identification ends with the kind of the device in \<open>al\<close>, 0 if there is none.\<close>

definition ide_identify :: "pdev \<Rightarrow> 'a ide_cpu_scheme \<Rightarrow> 'a ide_cpu_scheme option" where
  "ide_identify P s = do {
     let s = s\<lparr>rdi := 0, zf := True\<rparr>;
     let s = mov_al (push_bit 4 (lo8 (rax s))) s;
     let s = mov_al (lo8 (rax s) OR ucast IDE_DRIVE_HEAD_MAGIC) s;
     let s = mov_dil (ucast IDE_DRIVE_HEAD_REG) s;
     let s = write_ide_reg s;
     let s = ide_ata_spec_delay P s;
     let s = mov_dil (ucast IDE_SECTOR_COUNT_REG) s;
     let s = clear_ide_reg s;
     let s = mov_dil (ucast IDE_LBA_LOW_REG) s;
     let s = clear_ide_reg s;
     let s = mov_dil (ucast IDE_LBA_MID_REG) s;
     let s = clear_ide_reg s;
     let s = mov_dil (ucast IDE_LBA_HIGH_REG) s;
     let s = clear_ide_reg s;
     let s = mov_al IDE_DEVICE_IDENTIFY_CMD s;
     let s = mov_dil (ucast IDE_STATUS_COMMAND_REG) s;
     let s = write_ide_reg s;
     let s = ide_ata_spec_delay P s;
     let s = read_ide_status_reg P s;
     let s = cmp_al 0xFF s;
     if zf s then Some (s\<lparr>rax := set_lo16 0 (rax s)\<rparr>)
     else do {
       let s = or_al s;
       if zf s then Some (s\<lparr>rax := set_lo16 0 (rax s)\<rparr>)
       else do {
         s \<leftarrow> wait_ide_device_ready P s;
         let s = cmp_al 1 s;
         if \<not> zf s then Some (s\<lparr>rax := set_lo16 0 (rax s)\<rparr>)
         else do {
           let s = mov_dil (ucast IDE_LBA_MID_REG) s;
           let s = read_ide_reg P s;
           let s = xchg_ah_al s;
           let s = mov_dil (ucast IDE_LBA_HIGH_REG) s;
           let s = read_ide_reg P s;
           let s = xchg_ah_al s;
           let s = s\<lparr>zf := (lo16 (rax s) = 0xEB14)\<rparr>;
           if zf s then Some (s\<lparr>rax := set_lo16 2 (rax s)\<rparr>)
           else do {
             let s = read_ide_status_reg P s;
             let s = test_al IDE_DEVICE_ERROR_FLAG s;
             if \<not> zf s then Some (s\<lparr>rax := set_lo16 0 (rax s)\<rparr>)
             else do {
               s \<leftarrow> wait_ide_device_drq P s;
               Some (s\<lparr>rax := set_lo16 (ucast (lo8 (rax s))) (rax s), zf := True\<rparr>)
             }
           }
         }
       }
     }
   }"

definition arch_ide_device_detect :: "pdev \<Rightarrow> 'a ide_cpu_scheme \<Rightarrow> 'a ide_cpu_scheme option" where
  "arch_ide_device_detect P s = do {
     let s = push (r12 s) s;
     let s = s\<lparr>r12 := rdx s\<rparr>;
     let s = select_ide_controller s;
     let s = mov_al (lo8 (rsi s)) s;
     s \<leftarrow> ide_identify P s;
     let s = or_al s;
     let s = (if zf s then s
              else
                let s = cmp_al 2 s
                in if zf s then s
                   else rep (insw P) (s\<lparr>rdi := r12 s, rcx := 256\<rparr>));
     let s = s\<lparr>rax := ucast (lo8 (rax s))\<rparr>;
     let (r, s) = pop s;
     Some (s\<lparr>r12 := r\<rparr>)
   }"

definition arch_ide_device_flush :: "pdev \<Rightarrow> 'a ide_cpu_scheme \<Rightarrow> 'a ide_cpu_scheme option" where
  "arch_ide_device_flush P s = do {
     let s = select_ide_controller s;
     let s = s\<lparr>rdi := 0, zf := True\<rparr>;
     let s = mov_al (ucast IDE_DRIVE_HEAD_MAGIC) s;
     let s = s\<lparr>zf := (rsi s = 0)\<rparr>;
     let s = (if zf s then s else mov_al (lo8 (rax s) OR ucast IDE_DRIVE_HEAD_SLAVE) s);
     let s = mov_di IDE_DRIVE_HEAD_REG s;
     let s = write_ide_reg s;
     let s = ide_ata_spec_delay P s;
     let s = ide_device_disable_irq s;
     s \<leftarrow> wait_ide_device_ready P s;
     let s = or_al s;
     s \<leftarrow> (if zf s then Some s
          else
            let s = mov_al IDE_DEVICE_FLUSH_CACHE_CMD s;
                s = mov_di IDE_STATUS_COMMAND_REG s;
                s = write_ide_reg s
            in wait_ide_device_not_busy P s);
     Some (s\<lparr>rax := ucast (lo8 (rax s))\<rparr>)
   }"

text \<open>Program the device for a transfer. The routine always reports success.\<close>

definition ide_device_sectors_io :: "pdev \<Rightarrow> 'a ide_cpu_scheme \<Rightarrow> 'a ide_cpu_scheme" where
  "ide_device_sectors_io P s =
     (let s = select_ide_controller s;
          s = s\<lparr>rax := rcx s\<rparr>;
          s = s\<lparr>rax := drop_bit 24 (rax s)\<rparr>;
          s = s\<lparr>zf := (rsi s = 0)\<rparr>;
          s = (if zf s then s else s\<lparr>rax := rax s OR IDE_DRIVE_HEAD_SLAVE\<rparr>);
          s = s\<lparr>rax := rax s OR IDE_DRIVE_HEAD_LBA_MODE\<rparr>;
          s = mov_di IDE_DRIVE_HEAD_REG s;
          s = write_ide_reg s;
          s = ide_ata_spec_delay P s;
          s = ide_device_disable_irq s;
          s = s\<lparr>rax := r8 s\<rparr>;
          s = s\<lparr>rax := rax s AND 0xFF\<rparr>;
          s = mov_di IDE_SECTOR_COUNT_REG s;
          s = write_ide_reg s;
          s = s\<lparr>rax := rcx s\<rparr>;
          s = mov_di IDE_LBA_LOW_REG s;
          s = write_ide_reg s;
          s = s\<lparr>rax := rcx s\<rparr>;
          s = s\<lparr>rax := drop_bit 8 (rax s)\<rparr>;
          s = mov_di IDE_LBA_MID_REG s;
          s = write_ide_reg s;
          s = s\<lparr>rax := rcx s\<rparr>;
          s = s\<lparr>rax := drop_bit 16 (rax s)\<rparr>;
          s = mov_di IDE_LBA_HIGH_REG s;
          s = write_ide_reg s
      in s\<lparr>rax := 1\<rparr>)"

text \<open>When a wait inside a loop over the sectors fails, the code leaves the loop with the counter it has
  pushed still on the stack.\<close>

partial_function (option) read_nxt_sect :: "pdev \<Rightarrow> 'a ide_cpu_scheme \<Rightarrow> 'a ide_cpu_scheme option" where
  "read_nxt_sect P s = do {
     let s = push (rcx s) s;
     s \<leftarrow> wait_ide_device_not_busy P s;
     let s = or_al s;
     if zf s then Some s
     else do {
       let s = cld s;
       let s = s\<lparr>rcx := 256\<rparr>;
       let s = s\<lparr>rdi := r12 s\<rparr>;
       let s = rep (insw P) s;
       let s = ide_ata_spec_delay P s;
       let s = s\<lparr>r12 := r12 s + 512\<rparr>;
       let (c, s) = pop s;
       let s = s\<lparr>rcx := c\<rparr>;
       let s = dec_loop s;
       if rcx s \<noteq> 0 then read_nxt_sect P s else Some (mov_al 1 s)
     }
   }"

definition arch_ide_device_read :: "pdev \<Rightarrow> 'a ide_cpu_scheme \<Rightarrow> 'a ide_cpu_scheme option" where
  "arch_ide_device_read P s = do {
     let s = push (r12 s) s;
     let s = s\<lparr>r12 := rdx s\<rparr>;
     let s = xor_rax s;
     let s = ide_device_sectors_io P s;
     let s = or_al s;
     s \<leftarrow> (if zf s then Some s
          else do {
            let s = mov_al IDE_DEVICE_READ_SECT_CMD s;
            let s = mov_di IDE_STATUS_COMMAND_REG s;
            let s = write_ide_reg s;
            s \<leftarrow> wait_ide_device_drq P s;
            let s = or_al s;
            if zf s then Some s
            else do {
              let s = s\<lparr>rcx := r8 s\<rparr>;
              let s = or_rcx s;
              let s = (if \<not> zf s then s else s\<lparr>rcx := 256\<rparr>);
              read_nxt_sect P s
            }
          });
     let s = s\<lparr>rax := ucast (lo8 (rax s))\<rparr>;
     let (r, s) = pop s;
     Some (s\<lparr>r12 := r\<rparr>)
   }"

partial_function (option) write_nxt_sect :: "pdev \<Rightarrow> 'a ide_cpu_scheme \<Rightarrow> 'a ide_cpu_scheme option" where
  "write_nxt_sect P s = do {
     let s = push (rcx s) s;
     s \<leftarrow> wait_ide_device_not_busy P s;
     let s = or_al s;
     if zf s then Some s
     else do {
       let s = cld s;
       let s = s\<lparr>rcx := 256\<rparr>;
       let s = s\<lparr>rsi := r12 s\<rparr>;
       let s = rep outsw s;
       let s = ide_ata_spec_delay P s;
       let s = s\<lparr>r12 := r12 s + 512\<rparr>;
       let (c, s) = pop s;
       let s = s\<lparr>rcx := c\<rparr>;
       let s = dec_loop s;
       if rcx s \<noteq> 0 then write_nxt_sect P s else wait_ide_device_not_busy P s
     }
   }"

definition arch_ide_device_write :: "pdev \<Rightarrow> 'a ide_cpu_scheme \<Rightarrow> 'a ide_cpu_scheme option" where
  "arch_ide_device_write P s = do {
     let s = push (r12 s) s;
     let s = s\<lparr>r12 := rdx s\<rparr>;
     let s = xor_rax s;
     let s = ide_device_sectors_io P s;
     let s = or_al s;
     s \<leftarrow> (if zf s then Some s
          else do {
            let s = mov_al IDE_DEVICE_WRITE_SECT_CMD s;
            let s = mov_di IDE_STATUS_COMMAND_REG s;
            let s = write_ide_reg s;
            s \<leftarrow> wait_ide_device_drq P s;
            let s = or_al s;
            if zf s then Some s
            else do {
              let s = s\<lparr>rcx := r8 s\<rparr>;
              let s = or_rcx s;
              let s = (if \<not> zf s then s else s\<lparr>rcx := 256\<rparr>);
              write_nxt_sect P s
            }
          });
     let s = s\<lparr>rax := ucast (lo8 (rax s))\<rparr>;
     let (r, s) = pop s;
     Some (s\<lparr>r12 := r\<rparr>)
   }"

end
