(* ===== verification/X86_Mem.thy ===== *)
theory X86_Mem
  imports X86_Cpu
begin

text \<open>
  The string and memory routines of the PC target: the assembly of \<open>arch/x86_64/sys/memory.asm\<close>,
  one line of it per line here, and the C functions of \<open>arch/x86_64/memory.c\<close> over them. A loop of a
  string routine ends at the terminator it finds, so it is a partial function.
\<close>

section \<open>The routines\<close>

text \<open>The loops of \<open>strcat\<close> and of \<open>strcpy\<close> are the same four instructions.\<close>

partial_function (option) strcpy_loop :: "'a cpu_scheme \<Rightarrow> 'a cpu_scheme option" where
  "strcpy_loop s =
     (let s = lodsb s;
          s = stosb s;
          s = or_al s
      in if \<not> zf s then strcpy_loop s else Some s)"

definition arch_strcat :: "'a cpu_scheme \<Rightarrow> 'a cpu_scheme option" where
  "arch_strcat s = do {
     let s = push (rbx s) s;
     let s = cld s;
     let s = s\<lparr>rbx := rdi s\<rparr>;
     let s = xor_rax s;
     let s = s\<lparr>rcx := - 1\<rparr>;
     let s = repnz scasb s;
     let s = dec_rdi s;
     s \<leftarrow> strcpy_loop s;
     let s = s\<lparr>rax := rbx s\<rparr>;
     let (b, s) = pop s;
     Some (s\<lparr>rbx := b\<rparr>)
   }"

partial_function (option) strlen_loop :: "'a cpu_scheme \<Rightarrow> 'a cpu_scheme option" where
  "strlen_loop s =
     (let s = lodsb s;
          s = inc_rcx s;
          s = or_al s
      in if \<not> zf s then strlen_loop s else Some s)"

definition arch_strlen :: "'a cpu_scheme \<Rightarrow> 'a cpu_scheme option" where
  "arch_strlen s = do {
     let s = cld s;
     let s = s\<lparr>rcx := 0, zf := True\<rparr>;
     let s = s\<lparr>rsi := rdi s\<rparr>;
     s \<leftarrow> strlen_loop s;
     let s = dec_rcx s;
     Some (s\<lparr>rax := rcx s\<rparr>)
   }"

partial_function (option) strchr_loop :: "'a cpu_scheme \<Rightarrow> 'a cpu_scheme option" where
  "strchr_loop s =
     (let s = mov_al (ram s (rdi s)) s;
          s = cmp_al (lo8 (rdx s)) s
      in if zf s then Some (s\<lparr>rax := rdi s\<rparr>)
         else
           let s = or_al s
           in if zf s then Some (xor_rax s)
              else strchr_loop (inc_rdi s))"

definition arch_strchr :: "'a cpu_scheme \<Rightarrow> 'a cpu_scheme option" where
  "arch_strchr s = strchr_loop (s\<lparr>rdx := set_lo8 (lo8 (rsi s)) (rdx s)\<rparr>)"

text \<open>The difference of two bytes, zero-extended to 64 bits before the subtraction.\<close>

definition byte_diff :: "u8 \<Rightarrow> u8 \<Rightarrow> 'a cpu_scheme \<Rightarrow> 'a cpu_scheme" where
  "byte_diff a b s = s\<lparr>rax := ucast a - ucast b, zf := (a = b)\<rparr>"

partial_function (option) arch_strcmp :: "'a cpu_scheme \<Rightarrow> 'a cpu_scheme option" where
  "arch_strcmp s =
     (let s = mov_al (ram s (rdi s)) s;
          s = s\<lparr>rcx := set_lo8 (ram s (rsi s)) (rcx s)\<rparr>;
          s = cmp_al (lo8 (rcx s)) s
      in if \<not> zf s
         then
           let s = s\<lparr>rax := ucast (lo8 (rax s)), rcx := ucast (lo8 (rcx s))\<rparr>
           in Some (byte_diff (lo8 (rax s)) (lo8 (rcx s)) s)
         else
           let s = or_al s
           in if zf s then Some (xor_rax s)
              else
                let s = inc_rdi s;
                    s = inc_rsi s
                in arch_strcmp s)"

partial_function (option) strncmp_loop :: "'a cpu_scheme \<Rightarrow> 'a cpu_scheme option" where
  "strncmp_loop s =
     (let s = mov_al (ram s (rdi s)) s;
          s = s\<lparr>rdx := set_lo8 (ram s (rsi s)) (rdx s)\<rparr>;
          s = cmp_al (lo8 (rdx s)) s;
          not_matched = (\<lambda>s. let s = s\<lparr>rax := ucast (lo8 (rax s)), rdx := ucast (lo8 (rdx s))\<rparr>
                             in Some (byte_diff (lo8 (rax s)) (lo8 (rdx s)) s))
      in if \<not> zf s then not_matched s
         else
           let s = or_al s
           in if zf s then Some (xor_rax s)
              else
                let s = inc_rdi s;
                    s = inc_rsi s;
                    s = dec_rcx s
                in if \<not> zf s then strncmp_loop s else not_matched s)"

definition arch_strncmp :: "'a cpu_scheme \<Rightarrow> 'a cpu_scheme option" where
  "arch_strncmp s =
     (let s = s\<lparr>rcx := rdx s\<rparr>;
          s = or_rcx s
      in if zf s then Some (xor_rax s) else strncmp_loop s)"

partial_function (option) strncpy_loop :: "'a cpu_scheme \<Rightarrow> 'a cpu_scheme option" where
  "strncpy_loop s =
     (let s = lodsb s;
          s = stosb s;
          s = dec_rcx s
      in if zf s then Some s
         else
           let s = or_al s
           in if \<not> zf s then strncpy_loop s else Some (rep stosb s))"

text \<open>The routine returns in \<open>rax\<close> the destination with its low byte replaced by the last byte
  loaded, since \<open>lodsb\<close> loads into the register that holds the result.\<close>

definition arch_strncpy :: "'a cpu_scheme \<Rightarrow> 'a cpu_scheme option" where
  "arch_strncpy s =
     (let s = cld s;
          s = s\<lparr>rax := rdi s\<rparr>;
          s = s\<lparr>rcx := rdx s\<rparr>;
          s = or_rcx s
      in if \<not> zf s then strncpy_loop s else Some s)"

definition arch_strcpy :: "'a cpu_scheme \<Rightarrow> 'a cpu_scheme option" where
  "arch_strcpy s =
     (let s = cld s;
          s = s\<lparr>rax := rdi s\<rparr>
      in strcpy_loop s)"

definition arch_memcpy :: "'a cpu_scheme \<Rightarrow> 'a cpu_scheme option" where
  "arch_memcpy s =
     (let s = pushfq s;
          s = push (rcx s) s;
          s = cld s;
          s = s\<lparr>rax := rdi s\<rparr>;
          s = s\<lparr>rcx := rdx s\<rparr>;
          s = rep movsb s;
          (c, s) = pop s;
          s = s\<lparr>rcx := c\<rparr>
      in Some (popfq s))"

definition arch_memset :: "'a cpu_scheme \<Rightarrow> 'a cpu_scheme option" where
  "arch_memset s =
     (let s = pushfq s;
          s = push (rcx s) s;
          s = push (rdi s) s;
          s = s\<lparr>rax := rsi s\<rparr>;
          s = s\<lparr>rax := rax s AND 0xFF, zf := (rax s AND 0xFF = 0)\<rparr>;
          s = cld s;
          s = s\<lparr>rcx := rdx s\<rparr>;
          s = rep stosb s;
          (d, s) = pop s;
          s = s\<lparr>rdi := d\<rparr>;
          s = s\<lparr>rax := rdi s\<rparr>;
          (c, s) = pop s;
          s = s\<lparr>rcx := c\<rparr>
      in Some (popfq s))"

text \<open>The address the call pushes is that of the instruction behind it.\<close>

definition arch_memmove :: "u64 \<Rightarrow> 'a cpu_scheme \<Rightarrow> 'a cpu_scheme option" where
  "arch_memmove here s = call here arch_memcpy s"

definition arch_memcmp :: "'a cpu_scheme \<Rightarrow> 'a cpu_scheme option" where
  "arch_memcmp s =
     (let s = pushfq s;
          s = push (rcx s) s;
          s = cld s;
          s = xor_rax s;
          s = s\<lparr>rcx := rdx s\<rparr>;
          s = repz cmpsb s;
          s = (if zf s then s
               else
                 let s = mov_al (ram s (rdi s - 1)) s;
                     s = mov_al (lo8 (rax s) - ram s (rsi s - 1)) s;
                     s = s\<lparr>rax := set_lo16 (scast (lo8 (rax s))) (rax s)\<rparr>
                 in s\<lparr>rax := scast (lo16 (rax s))\<rparr>);
          (c, s) = pop s;
          s = s\<lparr>rcx := c\<rparr>
      in Some (popfq s))"

section \<open>The C functions\<close>

text \<open>The arguments are passed in \<open>rdi\<close>, \<open>rsi\<close> and \<open>rdx\<close>, the result in \<open>rax\<close>, an \<open>int\<close> in its lower half.\<close>

definition int_result :: "'a cpu_scheme \<Rightarrow> int" where
  "int_result s = sint (ucast (rax s) :: u32)"

definition c_strlen :: "u64 \<Rightarrow> u64 \<Rightarrow> 'a cpu_scheme \<Rightarrow> (u64 \<times> 'a cpu_scheme) option" where
  "c_strlen ra p s = do { s \<leftarrow> call ra arch_strlen (s\<lparr>rdi := p\<rparr>); Some (rax s, s) }"

definition c_strchr :: "u64 \<Rightarrow> u64 \<Rightarrow> u32 \<Rightarrow> 'a cpu_scheme \<Rightarrow> (u64 \<times> 'a cpu_scheme) option" where
  "c_strchr ra p c s = do { s \<leftarrow> call ra arch_strchr (s\<lparr>rdi := p, rsi := ucast c\<rparr>); Some (rax s, s) }"

definition c_strcmp :: "u64 \<Rightarrow> u64 \<Rightarrow> u64 \<Rightarrow> 'a cpu_scheme \<Rightarrow> (int \<times> 'a cpu_scheme) option" where
  "c_strcmp ra p q s = do { s \<leftarrow> call ra arch_strcmp (s\<lparr>rdi := p, rsi := q\<rparr>); Some (int_result s, s) }"

definition c_strncmp :: "u64 \<Rightarrow> u64 \<Rightarrow> u64 \<Rightarrow> u64 \<Rightarrow> 'a cpu_scheme \<Rightarrow> (int \<times> 'a cpu_scheme) option" where
  "c_strncmp ra p q n s = do { s \<leftarrow> call ra arch_strncmp (s\<lparr>rdi := p, rsi := q, rdx := n\<rparr>); Some (int_result s, s) }"

definition c_strcat :: "u64 \<Rightarrow> u64 \<Rightarrow> u64 \<Rightarrow> 'a cpu_scheme \<Rightarrow> (u64 \<times> 'a cpu_scheme) option" where
  "c_strcat ra d p s = do { s \<leftarrow> call ra arch_strcat (s\<lparr>rdi := d, rsi := p\<rparr>); Some (rax s, s) }"

definition c_strcpy :: "u64 \<Rightarrow> u64 \<Rightarrow> u64 \<Rightarrow> 'a cpu_scheme \<Rightarrow> (u64 \<times> 'a cpu_scheme) option" where
  "c_strcpy ra d p s = do { s \<leftarrow> call ra arch_strcpy (s\<lparr>rdi := d, rsi := p\<rparr>); Some (rax s, s) }"

definition c_strncpy :: "u64 \<Rightarrow> u64 \<Rightarrow> u64 \<Rightarrow> u64 \<Rightarrow> 'a cpu_scheme \<Rightarrow> (u64 \<times> 'a cpu_scheme) option" where
  "c_strncpy ra d p n s = do { s \<leftarrow> call ra arch_strncpy (s\<lparr>rdi := d, rsi := p, rdx := n\<rparr>); Some (rax s, s) }"

definition c_memcpy :: "u64 \<Rightarrow> u64 \<Rightarrow> u64 \<Rightarrow> u64 \<Rightarrow> 'a cpu_scheme \<Rightarrow> (u64 \<times> 'a cpu_scheme) option" where
  "c_memcpy ra d p n s = do { s \<leftarrow> call ra arch_memcpy (s\<lparr>rdi := d, rsi := p, rdx := n\<rparr>); Some (rax s, s) }"

definition c_memset :: "u64 \<Rightarrow> u64 \<Rightarrow> u32 \<Rightarrow> u64 \<Rightarrow> 'a cpu_scheme \<Rightarrow> (u64 \<times> 'a cpu_scheme) option" where
  "c_memset ra d c n s = do { s \<leftarrow> call ra arch_memset (s\<lparr>rdi := d, rsi := ucast c, rdx := n\<rparr>); Some (rax s, s) }"

definition c_memmove :: "u64 \<Rightarrow> u64 \<Rightarrow> u64 \<Rightarrow> u64 \<Rightarrow> u64 \<Rightarrow> 'a cpu_scheme \<Rightarrow> (u64 \<times> 'a cpu_scheme) option" where
  "c_memmove here ra d p n s = do {
     s \<leftarrow> call ra (arch_memmove here) (s\<lparr>rdi := d, rsi := p, rdx := n\<rparr>);
     Some (rax s, s)
   }"

definition c_memcmp :: "u64 \<Rightarrow> u64 \<Rightarrow> u64 \<Rightarrow> u64 \<Rightarrow> 'a cpu_scheme \<Rightarrow> (int \<times> 'a cpu_scheme) option" where
  "c_memcmp ra p q n s = do { s \<leftarrow> call ra arch_memcmp (s\<lparr>rdi := p, rsi := q, rdx := n\<rparr>); Some (int_result s, s) }"

section \<open>Strings in memory\<close>

text \<open>A terminated string, the bytes of a block, and bytes stored one after the other.\<close>

fun cstr :: "(u64 \<Rightarrow> u8) \<Rightarrow> u64 \<Rightarrow> u8 list \<Rightarrow> bool" where
  "cstr M p [] \<longleftrightarrow> M p = 0"
| "cstr M p (x # xs) \<longleftrightarrow> M p = x \<and> x \<noteq> 0 \<and> cstr M (p + 1) xs"

fun poke :: "u64 \<Rightarrow> u8 list \<Rightarrow> (u64 \<Rightarrow> u8) \<Rightarrow> u64 \<Rightarrow> u8" where
  "poke p [] M = M"
| "poke p (x # xs) M = poke (p + 1) xs (M(p := x))"

fun peek :: "(u64 \<Rightarrow> u8) \<Rightarrow> u64 \<Rightarrow> nat \<Rightarrow> u8 list" where
  "peek M p 0 = []"
| "peek M p (Suc n) = M p # peek M (p + 1) n"

definition region :: "u64 \<Rightarrow> nat \<Rightarrow> u64 set" where
  "region p n = (\<lambda>i. p + of_nat i) ` {..<n}"

definition apart :: "u64 \<Rightarrow> nat \<Rightarrow> u64 \<Rightarrow> nat \<Rightarrow> bool" where
  "apart p n q m \<longleftrightarrow> region p n \<inter> region q m = {}"

lemma region_0 [simp]: "region p 0 = {}"
  by (simp add: region_def)

lemma region_Suc [simp]: "region p (Suc n) = insert p (region (p + 1) n)"
  by (auto simp: region_def image_image lessThan_Suc_eq_insert_0 add.assoc)

lemma region_SucD: "a \<in> region (p + 1) n \<Longrightarrow> a \<in> region p (Suc n)"
  by simp

lemma not_in_region: "n < 2 ^ 64 \<Longrightarrow> p \<notin> region (p + 1) n"
proof
  assume n: "n < 2 ^ 64" and "p \<in> region (p + 1) n"
  then obtain i where i: "i < n" "p = p + 1 + of_nat i" by (auto simp: region_def)
  then have "(of_nat (Suc i) :: u64) = 0" by (simp add: add.assoc)
  then have "unat (of_nat (Suc i) :: u64) = unat (0 :: u64)" by (rule arg_cong)
  with i n show False by (simp add: unat_of_nat del: of_nat_Suc)
qed

lemma poke_outside: "a \<notin> region p (length xs) \<Longrightarrow> poke p xs M a = M a"
  by (induction xs arbitrary: p M) auto

lemma poke_append: "poke p (xs @ ys) M = poke (p + of_nat (length xs)) ys (poke p xs M)"
  by (induction xs arbitrary: p M) (simp_all add: add.assoc)

lemma peek_poke: "length xs \<le> 2 ^ 64 \<Longrightarrow> peek (poke p xs M) p (length xs) = xs"
proof (induction xs arbitrary: p M)
  case (Cons x xs)
  then have "poke (p + 1) xs (M(p := x)) p = x" using not_in_region [of "length xs" p] by (simp add: poke_outside)
  with Cons show ?case by simp
qed simp

lemma cstr_cong: "cstr M p xs \<Longrightarrow> (\<And>a. a \<in> region p (Suc (length xs)) \<Longrightarrow> M' a = M a) \<Longrightarrow> cstr M' p xs"
proof (induction xs arbitrary: p)
  case (Cons x xs)
  have "cstr M' (p + 1) xs"
    using Cons.prems(1) by (intro Cons.IH) (auto intro!: Cons.prems(2) dest: region_SucD)
  then show ?case using Cons.prems(1) Cons.prems(2) [of p] by simp
qed simp

lemma cstr_poke: "0 \<notin> set xs \<Longrightarrow> length xs < 2 ^ 64 - 1 \<Longrightarrow> cstr (poke p (xs @ [0]) M) p xs"
proof (induction xs arbitrary: p M)
  case (Cons x xs)
  then have "poke p ((x # xs) @ [0]) M p = x" using not_in_region [of "Suc (length xs)" p]
    by (simp add: poke_outside)
  with Cons show ?case by auto
qed simp

lemma cstr_poke_other: "cstr M q ys \<Longrightarrow> apart p (length xs) q (Suc (length ys)) \<Longrightarrow> cstr (poke p xs M) q ys"
  unfolding apart_def by (erule cstr_cong, rule poke_outside) blast

lemma cstr_nonzero: "cstr M p xs \<Longrightarrow> 0 \<notin> set xs"
  by (induction xs arbitrary: p) auto

lemma cstr_append: "cstr M p (xs @ ys) \<longleftrightarrow> peek M p (length xs) = xs \<and> 0 \<notin> set xs \<and> cstr M (p + of_nat (length xs)) ys"
  by (induction xs arbitrary: p) (auto simp: add.assoc)

lemma length_peek [simp]: "length (peek M p n) = n"
  by (induction n arbitrary: p) auto

lemma peek_nth: "i < n \<Longrightarrow> peek M p n ! i = M (p + of_nat i)"
  by (induction n arbitrary: p i) (auto simp: nth_Cons' add.assoc of_nat_diff)

lemma cstr_end: "cstr M p xs \<Longrightarrow> M (p + of_nat (length xs)) = 0"
  using cstr_append [of M p xs "[]"] by simp

lemma cstr_nth: "cstr M p xs \<Longrightarrow> i < length xs \<Longrightarrow> M (p + of_nat i) = xs ! i \<and> xs ! i \<noteq> 0"
  by (induction xs arbitrary: p i) (auto simp: less_Suc_eq_0_disj simp flip: add.assoc)

lemma cstr_length: "cstr M p xs \<Longrightarrow> length xs < 2 ^ 64"
proof (rule ccontr)
  assume p: "cstr M p xs" and "\<not> length xs < 2 ^ 64"
  then obtain i where i: "length xs = i + 2 ^ 64" using nat_le_iff_add [of "2 ^ 64" "length xs"] by (auto simp: add.commute)
  have "(of_nat (2 ^ 64) :: u64) = 0" by simp
  then have "(of_nat (length xs) :: u64) = of_nat i" by (simp only: i of_nat_add add_0_right)
  then have "M (p + of_nat i) = 0" using cstr_end [OF p] by (simp only:)
  then show False using cstr_nth [OF p, of i] i by simp
qed

section \<open>The loops\<close>

lemma apart_Suc:
  "apart p (Suc n) q (Suc m) \<Longrightarrow> p \<noteq> q \<and> apart (p + 1) n (q + 1) m \<and> p \<notin> region (q + 1) m \<and> q \<notin> region (p + 1) n"
  by (auto simp: apart_def)

lemma strlen_loop_eq:
  "cstr (ram s) (rsi s) xs \<Longrightarrow> \<not> df s \<Longrightarrow>
     strlen_loop s = Some (s\<lparr>rax := set_lo8 0 (rax s), rcx := rcx s + of_nat (length xs) + 1,
       rsi := rsi s + of_nat (length xs) + 1, zf := True\<rparr>)"
proof (induction xs arbitrary: s)
  case (Cons x xs)
  let ?s = "s\<lparr>rax := set_lo8 x (rax s), rsi := rsi s + 1, rcx := rcx s + 1, zf := False\<rparr>"
  have "strlen_loop s = strlen_loop ?s" using Cons.prems by (subst strlen_loop.simps) (simp add: x86)
  then show ?case using Cons.IH [of ?s] Cons.prems by (simp add: algebra_simps)
qed (subst strlen_loop.simps, simp add: x86)

lemma strcpy_loop_eq:
  "cstr (ram s) (rsi s) xs \<Longrightarrow> \<not> df s \<Longrightarrow> apart (rdi s) (Suc (length xs)) (rsi s) (Suc (length xs)) \<Longrightarrow>
     strcpy_loop s = Some (s\<lparr>rax := set_lo8 0 (rax s), rsi := rsi s + of_nat (length xs) + 1,
       rdi := rdi s + of_nat (length xs) + 1, ram := poke (rdi s) (xs @ [0]) (ram s), zf := True\<rparr>)"
proof (induction xs arbitrary: s)
  case (Cons x xs)
  define s' where "s' = s\<lparr>rax := set_lo8 x (rax s), rsi := rsi s + 1, ram := (ram s)(rdi s := x), rdi := rdi s + 1, zf := False\<rparr>"
  have run: "strcpy_loop s = strcpy_loop s'"
    unfolding s'_def using Cons.prems(1,2) by (subst strcpy_loop.simps) (simp add: x86)
  have a: "apart (rdi s + 1) (Suc (length xs)) (rsi s + 1) (Suc (length xs))" "rdi s \<notin> region (rsi s + 1) (Suc (length xs))"
    using apart_Suc [of "rdi s" _ "rsi s"] Cons.prems(3) by (simp_all del: region_Suc)
  have "cstr (ram s') (rsi s') xs"
    using Cons.prems(1) a(2) unfolding s'_def by (auto simp del: region_Suc intro!: cstr_cong [of "ram s" "rsi s + 1"])
  from Cons.IH [OF this] a(1) Cons.prems(2) show ?case
    unfolding run by (simp add: s'_def algebra_simps fun_upd_def)
qed (subst strcpy_loop.simps, simp add: x86)

lemma scasb_loop:
  "cstr (ram s) (rdi s) xs \<Longrightarrow> \<not> df s \<Longrightarrow> lo8 (rax s) = 0 \<Longrightarrow> length xs < n \<Longrightarrow>
     rep_n n scasb zf s = s\<lparr>rcx := of_nat (n - 1 - length xs), rdi := rdi s + of_nat (length xs) + 1, zf := True\<rparr>"
proof (induction xs arbitrary: s n)
  case Nil
  then show ?case by (cases n) (simp_all add: x86)
next
  case (Cons x xs)
  then obtain m where n: "n = Suc m" by (cases n) auto
  let ?s = "s\<lparr>zf := False, rdi := rdi s + 1, rcx := of_nat m\<rparr>"
  have "rep_n n scasb zf s = rep_n m scasb zf ?s" using Cons.prems by (simp add: n x86)
  then show ?case using Cons.IH [of ?s m] Cons.prems n by (simp add: algebra_simps)
qed

text \<open>Where the first \<open>c\<close> of a string stands, its terminator included.\<close>

definition chr_ptr :: "u64 \<Rightarrow> u8 \<Rightarrow> u8 list \<Rightarrow> u64" where
  "chr_ptr p c xs = (if c \<in> set xs \<or> c = 0 then p + of_nat (length (takeWhile (\<lambda>x. x \<noteq> c) xs)) else 0)"

lemma chr_ptr_simps:
  "chr_ptr p c [] = (if c = 0 then p else 0)"
  "chr_ptr p c (x # xs) = (if x = c then p else chr_ptr (p + 1) c xs)"
  by (auto simp: chr_ptr_def add.assoc)

lemma strchr_loop_eq:
  "cstr (ram s) (rdi s) xs \<Longrightarrow>
     \<exists>z d. strchr_loop s = Some (s\<lparr>zf := z, rdi := d, rax := chr_ptr (rdi s) (lo8 (rdx s)) xs\<rparr>)"
proof (induction xs arbitrary: s)
  case Nil
  then show ?case
    by (intro exI [of _ True] exI [of _ "rdi s"], subst strchr_loop.simps) (simp add: x86 Let_def chr_ptr_simps)
next
  case (Cons x xs)
  define s' where "s' = s\<lparr>rax := set_lo8 x (rax s), rdi := rdi s + 1, zf := (rdi s + 1 = 0)\<rparr>"
  show ?case
  proof (cases "x = lo8 (rdx s)")
    case True
    then show ?thesis using Cons.prems
      by (intro exI [of _ True] exI [of _ "rdi s"], subst strchr_loop.simps) (simp add: x86 Let_def chr_ptr_simps)
  next
    case False
    then have run: "strchr_loop s = strchr_loop s'"
      using Cons.prems unfolding s'_def by (subst strchr_loop.simps) (simp add: x86)
    have "cstr (ram s') (rdi s') xs" using Cons.prems by (simp add: s'_def)
    from Cons.IH [OF this] False show ?thesis unfolding run by (auto simp: s'_def chr_ptr_simps)
  qed
qed

text \<open>The difference of the first bytes in which two strings differ, their terminators included.\<close>

fun str_diff :: "u8 list \<Rightarrow> u8 list \<Rightarrow> int" where
  "str_diff [] [] = 0"
| "str_diff (x # xs) [] = uint x"
| "str_diff [] (y # ys) = - uint y"
| "str_diff (x # xs) (y # ys) = (if x = y then str_diff xs ys else uint x - uint y)"

text \<open>What a comparison leaves alone: everything but the scratch registers and the zero flag.\<close>

definition compares :: "'a cpu_scheme \<Rightarrow> 'a cpu_scheme \<Rightarrow> bool" where
  "compares s s' \<longleftrightarrow> s' = s\<lparr>rax := rax s', rcx := rcx s', rdx := rdx s', rsi := rsi s', rdi := rdi s', zf := zf s'\<rparr>"

lemma compares_trans: "compares s s' \<Longrightarrow> compares s' s'' \<Longrightarrow> compares s s''"
  by (cases s; cases s'; cases s'') (simp add: compares_def)

lemma compares_upd:
  "compares s (s\<lparr>rax := a, rcx := c, rdx := d, rsi := p, rdi := q, zf := z\<rparr>)"
  by (simp add: compares_def)

lemma uint_u8_less: "uint (b :: u8) < 256"
  by (rule unsigned_less [where 'b = 8, simplified])

lemma sint_byte_diff: "sint (ucast (ucast (a :: u8) - ucast (b :: u8) :: u64) :: u32) = uint a - uint b"
proof -
  have "sint (ucast (ucast a - ucast b :: u64) :: u32) = signed_take_bit 31 (uint a - uint b)"
    by transfer (simp add: signed_take_bit_take_bit)
  moreover have "uint a < 256" "uint b < 256" "0 \<le> uint a" "0 \<le> uint b"
    by (simp_all add: uint_u8_less)
  then have "- 2147483648 \<le> uint a - uint b" "uint a - uint b < 2147483648" by linarith+
  ultimately show ?thesis by (simp add: signed_take_bit_int_eq_self)
qed

lemma int_result_diff: "int_result (byte_diff a b s) = uint a - uint b"
  by (simp add: int_result_def byte_diff_def sint_byte_diff)

lemma compares_byte_diff [simp]: "compares s (byte_diff a b s') = compares s s'"
  by (cases s; cases s') (simp add: compares_def byte_diff_def)

lemma lo8_ucast [simp]: "lo8 (ucast b) = b"
  by (rule bit_word_eqI) (auto simp: lo8_def bit_simps)

lemma strcmp_eq:
  "cstr (ram s) (rdi s) xs \<Longrightarrow> cstr (ram s) (rsi s) ys \<Longrightarrow>
     \<exists>s'. arch_strcmp s = Some s' \<and> compares s s' \<and> int_result s' = str_diff xs ys"
proof (induction xs ys arbitrary: s rule: str_diff.induct)
  case (4 x xs y ys)
  show ?case
  proof (cases "x = y")
    case True
    define s' where "s' = s\<lparr>rax := set_lo8 x (rax s), rcx := set_lo8 x (rcx s), rdi := rdi s + 1, rsi := rsi s + 1,
      zf := (rsi s + 1 = 0)\<rparr>"
    have run: "arch_strcmp s = arch_strcmp s'"
      using 4(2,3) True unfolding s'_def by (subst arch_strcmp.simps) (simp add: x86)
    have "cstr (ram s') (rdi s') xs" "cstr (ram s') (rsi s') ys" using 4(2,3) by (simp_all add: s'_def)
    from 4(1) [OF True this] obtain s'' where "arch_strcmp s' = Some s''" "compares s' s''" "int_result s'' = str_diff xs ys"
      by blast
    moreover have "compares s s'" by (simp add: compares_def s'_def)
    ultimately show ?thesis using True compares_trans unfolding run by auto
  qed (use 4(2,3) in \<open>subst arch_strcmp.simps, simp add: x86 Let_def int_result_diff, simp add: compares_def\<close>)
qed (subst arch_strcmp.simps, simp add: x86 Let_def int_result_diff, simp add: compares_def int_result_def)+

end
