(* ===== verification/Ide_Disk.thy ===== *)
theory Ide_Disk
  imports Ide_Ports X86_Mem
begin

text \<open>
  The IDE port routines against a disk. The documented behaviour of an ATA drive in programmed I/O is
  given as an automaton over the port accesses (task file registers, the data phase of a command and
  the sectors); a device keeps its contract if its answers agree with the automaton. The routines
  then transfer exactly the sectors asked for. A drive that reports an error inside a transfer makes
  them return to a wrong address.
\<close>

section \<open>The drives of a bus\<close>

text \<open>In the data phase the words still to be read are left, or the sector being written, the words of
  it received so far and the number of words still to come.\<close>

datatype phase = Idle | DataIn "u16 list" | DataOut bool nat "u16 list" nat

fun due :: "phase \<Rightarrow> bool" where
  "due Idle = False"
| "due (DataIn ws) = (ws \<noteq> [])"
| "due (DataOut slave k ws r) = (r \<noteq> 0)"

record ata =
  head :: u8
  cnt :: u8
  lba0 :: u8
  lba1 :: u8
  lba2 :: u8
  phase :: phase
  sects :: "bool \<Rightarrow> nat \<Rightarrow> u16 list"

definition lba28 :: "ata \<Rightarrow> nat" where
  "lba28 a = unat (ucast (lba0 a) OR push_bit 8 (ucast (lba1 a)) OR push_bit 16 (ucast (lba2 a))
     OR push_bit 24 (ucast (head a AND 0xF)) :: u32)"

definition sect_count :: "ata \<Rightarrow> nat" where
  "sect_count a = (if cnt a = 0 then 256 else unat (cnt a))"

definition ata_command :: "(bool \<Rightarrow> u16 list) \<Rightarrow> u8 \<Rightarrow> ata \<Rightarrow> ata" where
  "ata_command ident v a =
     (let slave = bit (head a) 4
      in if v = IDE_DEVICE_READ_SECT_CMD
         then a\<lparr>phase := DataIn (concat (map (sects a slave) [lba28 a ..< lba28 a + sect_count a]))\<rparr>
         else if v = IDE_DEVICE_WRITE_SECT_CMD then a\<lparr>phase := DataOut slave (lba28 a) [] (256 * sect_count a)\<rparr>
         else if v = IDE_DEVICE_IDENTIFY_CMD then a\<lparr>phase := DataIn (ident slave)\<rparr>
         else a\<lparr>phase := Idle\<rparr>)"

definition take_word :: "u16 \<Rightarrow> ata \<Rightarrow> ata" where
  "take_word w a =
     (case phase a of
        DataOut slave k ws (Suc r) \<Rightarrow>
          if length ws = 255
          then a\<lparr>sects := (sects a)(slave := (sects a slave)(k := ws @ [w])), phase := DataOut slave (k + 1) [] r\<rparr>
          else a\<lparr>phase := DataOut slave k (ws @ [w]) r\<rparr>
      | _ \<Rightarrow> a)"

fun ata_step :: "(bool \<Rightarrow> u16 list) \<Rightarrow> u16 \<Rightarrow> port_event \<Rightarrow> ata \<Rightarrow> ata" where
  "ata_step ident b (OutB p v) a =
     (let r = p - b
      in if r = IDE_SECTOR_COUNT_REG then a\<lparr>cnt := v\<rparr>
         else if r = IDE_LBA_LOW_REG then a\<lparr>lba0 := v\<rparr>
         else if r = IDE_LBA_MID_REG then a\<lparr>lba1 := v\<rparr>
         else if r = IDE_LBA_HIGH_REG then a\<lparr>lba2 := v\<rparr>
         else if r = IDE_DRIVE_HEAD_REG then a\<lparr>head := v\<rparr>
         else if r = IDE_STATUS_COMMAND_REG then ata_command ident v a
         else a)"
| "ata_step ident b (InB p v) a = a"
| "ata_step ident b (InW p v) a = (case phase a of DataIn (w # ws) \<Rightarrow> if p = b then a\<lparr>phase := DataIn ws\<rparr> else a | _ \<Rightarrow> a)"
| "ata_step ident b (OutW p w) a = (if p = b then take_word w a else a)"

fun ata_of :: "(bool \<Rightarrow> u16 list) \<Rightarrow> u16 \<Rightarrow> ata \<Rightarrow> port_event list \<Rightarrow> ata" where
  "ata_of ident b ini [] = ini"
| "ata_of ident b ini (e # t) = ata_step ident b e (ata_of ident b ini t)"

text \<open>The contract of a bus with working drives: the data port
  yields the word that is due; the drive leaves the busy state after finitely many looks, and
  is then ready, without error and, in a data phase, asking for data.\<close>

definition status :: "pdev \<Rightarrow> u16 \<Rightarrow> port_event list \<Rightarrow> u8" where
  "status P b t = ucast (P t (b + IDE_STATUS_COMMAND_REG))"

definition ata_bus :: "(bool \<Rightarrow> u16 list) \<Rightarrow> u16 \<Rightarrow> ata \<Rightarrow> pdev \<Rightarrow> bool" where
  "ata_bus ident b ini P \<longleftrightarrow>
     (\<forall>t w ws. phase (ata_of ident b ini t) = DataIn (w # ws) \<longrightarrow> P t b = w)
     \<and> (\<forall>t. \<exists>n. \<not> bit (status P b (looks P (b + IDE_STATUS_COMMAND_REG) n t)) 7)
     \<and> (\<forall>t. \<not> bit (status P b t) 7 \<longrightarrow> bit (status P b t) 6 \<and> \<not> bit (status P b t) 5 \<and> \<not> bit (status P b t) 0
          \<and> (due (phase (ata_of ident b ini t)) \<longrightarrow> bit (status P b t) 3))"

definition ata_wf :: "ata \<Rightarrow> bool" where
  "ata_wf a \<longleftrightarrow> (\<forall>d k. length (sects a d k) = 256)"

section \<open>The port primitives\<close>

text \<open>Accesses that leave the automaton alone.\<close>

definition quiet :: "port_event list \<Rightarrow> bool" where
  "quiet l \<longleftrightarrow> (\<forall>e \<in> set l. case e of InB p v \<Rightarrow> True | _ \<Rightarrow> False)"

lemma quiet_simps [simp]: "quiet []" "quiet (InB p v # l) \<longleftrightarrow> quiet l" "quiet (l @ l') \<longleftrightarrow> quiet l \<and> quiet l'"
  by (auto simp: quiet_def)

lemma ata_of_quiet [simp]: "quiet l \<Longrightarrow> ata_of ident b ini (l @ t) = ata_of ident b ini t"
  by (induction l) (auto simp: quiet_def split: port_event.splits)

lemma lo16_ucast [simp]: "lo16 (ucast (w :: u16)) = w"
  by (rule bit_word_eqI) (auto simp: lo16_def bit_simps)

lemma set_lo16_lo16 [simp]: "set_lo16 w (ucast (v :: u16)) = ucast w"
  by (rule bit_word_eqI) (auto simp: set_lo16_def bit_simps dest: bit_imp_le_length)

lemma write_ide_reg_eq:
  "write_ide_reg s = s\<lparr>zf := (lo16 (rdx s) + lo16 (rdi s) = 0), pio := OutB (lo16 (rdx s) + lo16 (rdi s)) (lo8 (rax s)) # pio s\<rparr>"
  by (cases s) (simp add: write_ide_reg_def add_dx_def out_al_def x86)

lemma disable_irq_eq:
  "ide_device_disable_irq s = s\<lparr>zf := (lo16 (rdx s) + 0x206 = 0), pio := OutB (lo16 (rdx s) + 0x206) 2 # pio s\<rparr>"
  by (cases s) (simp add: ide_device_disable_irq_def add_dx_def out_al_def x86)

lemma read_ide_reg_eq:
  "read_ide_reg P s = (let p = lo16 (rdx s) + lo16 (rdi s); v = ucast (P (pio s) p)
     in s\<lparr>rax := set_lo8 v (rax s), zf := (p = 0), pio := InB p v # pio s\<rparr>)"
  by (cases s) (simp add: read_ide_reg_def add_dx_def in_al_def x86 Let_def)

lemma rep_in_al:
  "\<exists>a l. rep_n n (in_al P) (\<lambda>_. False) s = s\<lparr>rax := a, rcx := (if n = 0 then rcx s else 0), pio := l @ pio s\<rparr> \<and> quiet l"
proof (induction n arbitrary: s)
  case 0
  show ?case by (intro exI [of _ "rax s"] exI [of _ "[]"]) simp
next
  case (Suc n)
  let ?v = "ucast (P (pio s) (lo16 (rdx s))) :: u8"
  let ?s = "s\<lparr>rax := set_lo8 ?v (rax s), pio := InB (lo16 (rdx s)) ?v # pio s, rcx := of_nat n\<rparr>"
  obtain a l where l: "rep_n n (in_al P) (\<lambda>_. False) ?s = ?s\<lparr>rax := a, rcx := (if n = 0 then rcx ?s else 0), pio := l @ pio ?s\<rparr>"
    "quiet l" using Suc by blast
  have "rep_n (Suc n) (in_al P) (\<lambda>_. False) s = rep_n n (in_al P) (\<lambda>_. False) ?s" by (simp add: in_al_def Let_def)
  with l show ?case by (intro exI [of _ a] exI [of _ "l @ [InB (lo16 (rdx s)) ?v]"]) simp
qed

lemma delay_eq: "\<exists>z l. ide_ata_spec_delay P s = s\<lparr>zf := z, pio := l @ pio s\<rparr> \<and> quiet l"
proof -
  define s0 where "s0 = (add_dx 0x206 (push (rdx s) (push (rcx s) (push (rax s) s))))\<lparr>rcx := 4\<rparr>"
  obtain a l where l: "rep (in_al P) s0 = s0\<lparr>rax := a, rcx := 0, pio := l @ pio s0\<rparr>" "quiet l"
    using rep_in_al [of 4 P s0] by (auto simp: rep_def s0_def)
  then have "ide_ata_spec_delay P s = s\<lparr>zf := zf s0, pio := l @ pio s\<rparr>"
    by (cases s) (simp add: ide_ata_spec_delay_def s0_def add_dx_def x86)
  with l(2) show ?thesis by blast
qed

text \<open>The waits on a bus with working drives: only the status register is loaded and the answer is 1.\<close>

lemma bit_u8_and:
  "(v AND 0x80 = 0) \<longleftrightarrow> \<not> bit v 7" "(v AND 0x40 = 0) \<longleftrightarrow> \<not> bit v 6" "(v AND 0x08 = 0) \<longleftrightarrow> \<not> bit v 3"
  "(v AND 0x21 = 0) \<longleftrightarrow> \<not> bit v 5 \<and> \<not> bit v 0" for v :: u8
  by (simp_all add: word_bit_eq_iff bit_simps less_Suc_eq numeral_nat all_conj_distrib) (auto simp: bit_numeral_rec)

text \<open>One look at the status register.\<close>

definition look :: "pdev \<Rightarrow> 'a ide_cpu_scheme \<Rightarrow> 'a ide_cpu_scheme" where
  "look P s = s\<lparr>rax := set_lo8 (ucast (P (pio s) (lo16 (rdx s)))) (rax s),
     pio := InB (lo16 (rdx s)) (ucast (P (pio s) (lo16 (rdx s)))) # pio s\<rparr>"

lemma look_simps [simp]:
  "rdx (look P s) = rdx s" "rcx (look P s) = rcx s" "rbx (look P s) = rbx s"
  "pio (look P s) = InB (lo16 (rdx s)) (ucast (P (pio s) (lo16 (rdx s)))) # pio s"
  by (simp_all add: look_def)

lemma not_busy_loop_look:
  assumes "lo16 (rdx s) = b + 7"
  shows "bit (status P b (pio s)) 7 \<Longrightarrow> \<exists>z. not_busy_loop P s = not_busy_loop P ((look P s)\<lparr>zf := z\<rparr>)"
    "\<not> bit (status P b (pio s)) 7 \<Longrightarrow> \<not> bit (status P b (pio s)) 5 \<Longrightarrow> \<not> bit (status P b (pio s)) 0 \<Longrightarrow>
       not_busy_loop P s = Some ((look P s)\<lparr>zf := True\<rparr>)"
  using assms
  by (subst not_busy_loop.simps,
      auto simp: in_al_def test_al_def look_def status_def Let_def bit_u8_and)+

lemma not_busy_loop_ok:
  assumes bus: "ata_bus ident b ini P"
  shows "lo16 (rdx s) = b + 7 \<Longrightarrow> \<not> bit (status P b (looks P (b + 7) n (pio s))) 7 \<Longrightarrow>
    \<exists>v z l. not_busy_loop P s = Some (s\<lparr>rax := set_lo8 v (rax s), zf := z, pio := l @ pio s\<rparr>) \<and> quiet l"
proof (induction n arbitrary: s)
  case n: (Suc n)
  show ?case
  proof (cases "bit (status P b (pio s)) 7")
    case True
    then obtain z where run: "not_busy_loop P s = not_busy_loop P ((look P s)\<lparr>zf := z\<rparr>)"
      using not_busy_loop_look(1) [OF n.prems(1)] by blast
    let ?s = "(look P s)\<lparr>zf := z\<rparr>"
    have "lo16 (rdx ?s) = b + 7" "\<not> bit (status P b (looks P (b + 7) n (pio ?s))) 7" using n.prems by simp_all
    from n.IH [OF this] obtain v z' l where
      "not_busy_loop P ?s = Some (?s\<lparr>rax := set_lo8 v (rax ?s), zf := z', pio := l @ pio ?s\<rparr>)" "quiet l" by blast
    then show ?thesis unfolding run
      by (intro exI [of _ v] exI [of _ z'] exI [of _ "l @ [InB (b + 7) (status P b (pio s))]"])
        (simp add: look_def n.prems(1) status_def)
  next
    case False
    then have "\<not> bit (status P b (pio s)) 5" "\<not> bit (status P b (pio s)) 0" using bus by (auto simp: ata_bus_def)
    from not_busy_loop_look(2) [OF n.prems(1) False this] show ?thesis
      by (intro exI [of _ "status P b (pio s)"] exI [of _ True] exI [of _ "[InB (b + 7) (status P b (pio s))]"])
        (simp add: look_def n.prems(1) status_def)
  qed
next
  case 0
  then have "\<not> bit (status P b (pio s)) 7" by simp
  moreover from this have "\<not> bit (status P b (pio s)) 5" "\<not> bit (status P b (pio s)) 0" using bus by (auto simp: ata_bus_def)
  ultimately show ?case using not_busy_loop_look(2) [OF 0(1)]
    by (intro exI [of _ "status P b (pio s)"] exI [of _ True] exI [of _ "[InB (b + 7) (status P b (pio s))]"])
      (simp add: look_def 0(1) status_def)
qed

lemma flag_loop_look:
  assumes "lo16 (rdx s) = b + 7"
  shows "bit (status P b (pio s)) 7 \<Longrightarrow> flag_loop P flag s =
       (if rcx s \<noteq> 1 then flag_loop P flag ((look P s)\<lparr>zf := False, rcx := rcx s - 1\<rparr>)
        else not_busy_loop P ((look P s)\<lparr>zf := False, rcx := rcx s - 1\<rparr>))"
    "\<not> bit (status P b (pio s)) 7 \<Longrightarrow> status P b (pio s) AND flag \<noteq> 0 \<Longrightarrow>
       flag_loop P flag s = Some ((look P s)\<lparr>zf := False\<rparr>)"
proof -
  assume "bit (status P b (pio s)) 7"
  then show "flag_loop P flag s =
       (if rcx s \<noteq> 1 then flag_loop P flag ((look P s)\<lparr>zf := False, rcx := rcx s - 1\<rparr>)
        else not_busy_loop P ((look P s)\<lparr>zf := False, rcx := rcx s - 1\<rparr>))"
    using assms by (subst flag_loop.simps) (simp add: in_al_def test_al_def look_def status_def bit_u8_and dec_loop_def Let_def)
next
  assume "\<not> bit (status P b (pio s)) 7" "status P b (pio s) AND flag \<noteq> 0"
  then show "flag_loop P flag s = Some ((look P s)\<lparr>zf := False\<rparr>)"
    using assms by (subst flag_loop.simps) (simp add: in_al_def test_al_def look_def status_def bit_u8_and dec_loop_def Let_def)
qed

lemma flag_loop_ok:
  assumes bus: "ata_bus ident b ini P"
    and flag: "\<And>l. quiet l \<Longrightarrow> \<not> bit (status P b (l @ t)) 7 \<Longrightarrow> status P b (l @ t) AND flag \<noteq> 0"
  shows "lo16 (rdx s) = b + 7 \<Longrightarrow> \<not> bit (status P b (looks P (b + 7) n (pio s))) 7 \<Longrightarrow> pio s = l0 @ t \<Longrightarrow> quiet l0 \<Longrightarrow>
    \<exists>v c z l. flag_loop P flag s = Some (s\<lparr>rax := set_lo8 v (rax s), rcx := c, zf := z, pio := l @ pio s\<rparr>) \<and> quiet l"
proof (induction n arbitrary: s l0)
  case n: (Suc n)
  let ?e = "InB (b + 7) (status P b (pio s))" and ?s = "(look P s)\<lparr>zf := False, rcx := rcx s - 1\<rparr>"
  show ?case
  proof (cases "bit (status P b (pio s)) 7")
    case True
    have s: "lo16 (rdx ?s) = b + 7" "\<not> bit (status P b (looks P (b + 7) n (pio ?s))) 7" "pio ?s = (?e # l0) @ t"
      using n.prems by (simp_all add: status_def)
    show ?thesis
    proof (cases "rcx s = 1")
      case False
      have "quiet (?e # l0)" using n.prems(4) by simp
      from n.IH [OF s this] obtain v c z l where
        "flag_loop P flag ?s = Some (?s\<lparr>rax := set_lo8 v (rax ?s), rcx := c, zf := z, pio := l @ pio ?s\<rparr>)" "quiet l" by blast
      then show ?thesis using flag_loop_look(1) [OF n.prems(1) True, of flag] False
        by (intro exI [of _ v] exI [of _ c] exI [of _ z] exI [of _ "l @ [?e]"]) (simp add: look_def n.prems(1) status_def)
    next
      case 1: True
      from not_busy_loop_ok [OF bus s(1,2)] obtain v z l where
        "not_busy_loop P ?s = Some (?s\<lparr>rax := set_lo8 v (rax ?s), zf := z, pio := l @ pio ?s\<rparr>)" "quiet l" by blast
      then show ?thesis using flag_loop_look(1) [OF n.prems(1) True, of flag] 1
        by (intro exI [of _ v] exI [of _ "0 :: u64"] exI [of _ z] exI [of _ "l @ [?e]"]) (simp add: look_def n.prems(1) status_def)
    qed
  next
    case False
    with flag [OF n.prems(4)] n.prems(3) have "status P b (pio s) AND flag \<noteq> 0" by simp
    from flag_loop_look(2) [OF n.prems(1) False this] show ?thesis
      by (intro exI [of _ "status P b (pio s)"] exI [of _ "rcx s"] exI [of _ False] exI [of _ "[?e]"])
        (simp add: look_def n.prems(1) status_def)
  qed
next
  case 0
  then have nb: "\<not> bit (status P b (pio s)) 7" by simp
  with flag [OF 0(4)] 0(3) have "status P b (pio s) AND flag \<noteq> 0" by simp
  from flag_loop_look(2) [OF 0(1) nb this] show ?case
    by (intro exI [of _ "status P b (pio s)"] exI [of _ "rcx s"] exI [of _ False] exI [of _ "[InB (b + 7) (status P b (pio s))]"])
      (simp add: look_def 0(1) status_def)
qed

lemma ata_bus_leaves_busy: "ata_bus ident b ini P \<Longrightarrow> \<exists>n. \<not> bit (status P b (looks P (b + 7) n t)) 7"
  by (simp add: ata_bus_def)

lemma wait_not_busy_ok:
  assumes bus: "ata_bus ident b ini P" and "lo16 (rdx s) = b"
  shows "\<exists>z l. wait_ide_device_not_busy P s = Some (s\<lparr>rax := set_lo8 1 (rax s), zf := z, pio := l @ pio s\<rparr>) \<and> quiet l"
proof -
  define s0 where "s0 = add_dx 7 ((push (rbx s) (push (rdx s) s))\<lparr>rbx := set_lo8 1 (rbx s)\<rparr>)"
  have dx: "lo16 (rdx s0) = b + 7" using assms(2) by (simp add: s0_def add_dx_def x86)
  obtain n where "\<not> bit (status P b (looks P (b + 7) n (pio s0))) 7" using ata_bus_leaves_busy [OF bus] by blast
  from not_busy_loop_ok [OF bus dx this] obtain v z l where
    l: "not_busy_loop P s0 = Some (s0\<lparr>rax := set_lo8 v (rax s0), zf := z, pio := l @ pio s0\<rparr>)" "quiet l" by blast
  have "wait_ide_device_not_busy P s = Some (s\<lparr>rax := set_lo8 1 (rax s), zf := z, pio := l @ pio s\<rparr>)"
    using l(1) by (cases s) (simp add: wait_ide_device_not_busy_def s0_def add_dx_def x86)
  with l(2) show ?thesis by blast
qed

lemma wait_flag_ok:
  assumes bus: "ata_bus ident b ini P" and "lo16 (rdx s) = b"
    and flag: "\<And>l. quiet l \<Longrightarrow> \<not> bit (status P b (l @ pio s)) 7 \<Longrightarrow> status P b (l @ pio s) AND flag \<noteq> 0"
  shows "\<exists>z l. wait_flag P flag tries s = Some (s\<lparr>rax := set_lo8 1 (rax s), zf := z, pio := l @ pio s\<rparr>) \<and> quiet l"
proof -
  define s0 where "s0 = (add_dx 7 ((push (rbx s) (push (rcx s) (push (rdx s) s)))\<lparr>rbx := set_lo8 1 (rbx s)\<rparr>))\<lparr>rcx := tries\<rparr>"
  have dx: "lo16 (rdx s0) = b + 7" and pio: "pio s0 = [] @ pio s" using assms(2) by (simp_all add: s0_def add_dx_def x86)
  obtain n where "\<not> bit (status P b (looks P (b + 7) n (pio s0))) 7" using ata_bus_leaves_busy [OF bus] by blast
  from flag_loop_ok [OF bus flag dx this pio quiet_simps(1)] obtain v c z l where
    l: "flag_loop P flag s0 = Some (s0\<lparr>rax := set_lo8 v (rax s0), rcx := c, zf := z, pio := l @ pio s0\<rparr>)" "quiet l" by blast
  have "wait_flag P flag tries s = Some (s\<lparr>rax := set_lo8 1 (rax s), zf := z, pio := l @ pio s\<rparr>)"
    using l(1) by (cases s) (simp add: wait_flag_def s0_def add_dx_def x86)
  with l(2) show ?thesis by blast
qed

lemma wait_ready_ok:
  assumes "ata_bus ident b ini P" "lo16 (rdx s) = b"
  shows "\<exists>z l. wait_ide_device_ready P s = Some (s\<lparr>rax := set_lo8 1 (rax s), zf := z, pio := l @ pio s\<rparr>) \<and> quiet l"
  unfolding wait_ide_device_ready_def
  by (rule wait_flag_ok [OF assms]) (use assms(1) in \<open>auto simp: bit_u8_and ata_bus_def\<close>)

lemma wait_drq_ok:
  assumes "ata_bus ident b ini P" "lo16 (rdx s) = b" "due (phase (ata_of ident b ini (pio s)))"
  shows "\<exists>z l. wait_ide_device_drq P s = Some (s\<lparr>rax := set_lo8 1 (rax s), zf := z, pio := l @ pio s\<rparr>) \<and> quiet l"
  unfolding wait_ide_device_drq_def
  by (rule wait_flag_ok [OF assms(1,2)]) (use assms(1,3) in \<open>auto simp: bit_u8_and ata_bus_def\<close>)

section \<open>Programming a transfer\<close>

text \<open>The base port of a bus and the automaton after the task file has been written.\<close>

definition ide_base :: "u64 \<Rightarrow> u16" where
  "ide_base ide_bus = (if ide_bus = 0 then 0x1F0 else 0x170)"

definition head_byte :: "u64 \<Rightarrow> u64 \<Rightarrow> u8" where
  "head_byte dev lba = lo8 ((if dev = 0 then drop_bit 24 lba else drop_bit 24 lba OR 0x10) OR 0xE0)"

definition program :: "u64 \<Rightarrow> u64 \<Rightarrow> u64 \<Rightarrow> ata \<Rightarrow> ata" where
  "program dev lba n a = a\<lparr>head := head_byte dev lba, cnt := lo8 n, lba0 := lo8 lba, lba1 := lo8 (drop_bit 8 lba),
     lba2 := lo8 (drop_bit 16 lba)\<rparr>"

lemma set_lo16_over: "set_lo16 w (set_lo16 v r) = set_lo16 w r"
  by (rule bit_word_eqI) (auto simp: set_lo16_def bit_simps dest: bit_imp_le_length)

lemma lo8_and_FF: "lo8 (r AND 0xFF) = lo8 r"
  unfolding byte_mask by (rule bit_word_eqI) (simp add: lo8_def bit_simps)

lemma select_eq:
  "select_ide_controller s = s\<lparr>rdx := ucast (ide_base (rdi s)), zf := False\<rparr>"
  by (cases s) (simp add: select_ide_controller_def ide_base_def)

lemma sectors_io_ok:
  fixes s :: "'a ide_cpu_scheme"
  defines "b \<equiv> ide_base (rdi s)"
  shows "\<exists>z l. ide_device_sectors_io P s = s\<lparr>rax := 1, rdx := ucast b, rdi := set_lo16 5 (rdi s), zf := z, pio := l @ pio s\<rparr>
    \<and> ata_of ident b ini (l @ pio s) = program (rsi s) (rcx s) (r8 s) (ata_of ident b ini (pio s))"
proof -
  define s1 where "s1 = s\<lparr>rax := (if rsi s = 0 then drop_bit 24 (rcx s) else drop_bit 24 (rcx s) OR 0x10) OR 0xE0,
    rdx := ucast b, rdi := set_lo16 6 (rdi s), zf := False, pio := OutB (b + 6) (head_byte (rsi s) (rcx s)) # pio s\<rparr>"
  obtain z l where l: "ide_ata_spec_delay P s1 = s1\<lparr>zf := z, pio := l @ pio s1\<rparr>" "quiet l" using delay_eq by blast
  have b: "b + 6 \<noteq> 0" "b + 518 \<noteq> 0" "b + 2 \<noteq> 0" "b + 3 \<noteq> 0" "b + 4 \<noteq> 0" "b + 5 \<noteq> 0"
    by (simp_all add: b_def ide_base_def)
  let ?l = "[OutB (b + 5) (lo8 (drop_bit 16 (rcx s))), OutB (b + 4) (lo8 (drop_bit 8 (rcx s))), OutB (b + 3) (lo8 (rcx s)),
     OutB (b + 2) (lo8 (r8 s)), OutB (b + 0x206) 2] @ l @ [OutB (b + 6) (head_byte (rsi s) (rcx s))]"
  have "ide_device_sectors_io P s = s\<lparr>rax := 1, rdx := ucast b, rdi := set_lo16 5 (rdi s), zf := False, pio := ?l @ pio s\<rparr>"
  proof -
    have "ide_device_sectors_io P s = (let
          s = ide_ata_spec_delay P s1;
          s = ide_device_disable_irq s;
          s = write_ide_reg (mov_di 2 (s\<lparr>rax := r8 s AND 0xFF\<rparr>));
          s = write_ide_reg (mov_di 3 (s\<lparr>rax := rcx s\<rparr>));
          s = write_ide_reg (mov_di 4 (s\<lparr>rax := drop_bit 8 (rcx s)\<rparr>));
          s = write_ide_reg (mov_di 5 (s\<lparr>rax := drop_bit 16 (rcx s)\<rparr>))
      in s\<lparr>rax := 1\<rparr>)"
      using b(1) unfolding ide_device_sectors_io_def Let_def select_eq
      by (cases s; cases "rsi s = 0") (simp_all add: s1_def head_byte_def write_ide_reg_eq mov_di_def b_def)
    then show ?thesis using b(2-)
      by (simp add: l(1), simp add: s1_def disable_irq_eq write_ide_reg_eq mov_di_def lo8_and_FF set_lo16_over Let_def)
  qed
  moreover have "ata_of ident b ini (?l @ pio s) = program (rsi s) (rcx s) (r8 s) (ata_of ident b ini (pio s))"
    using l(2) by (simp add: program_def)
  ultimately show ?thesis by blast
qed

section \<open>Reading\<close>

text \<open>Words as the bytes of memory.\<close>

fun wbytes :: "u16 list \<Rightarrow> u8 list" where
  "wbytes [] = []"
| "wbytes (w # ws) = ucast w # ucast (drop_bit 8 w) # wbytes ws"

lemma length_wbytes [simp]: "length (wbytes ws) = 2 * length ws"
  by (induction ws) simp_all

lemma wbytes_append [simp]: "wbytes (us @ vs) = wbytes us @ wbytes vs"
  by (induction us) simp_all

lemma insw_word:
  assumes "ata_bus ident b ini P" "phase (ata_of ident b ini (pio s)) = DataIn (w # ws)" "lo16 (rdx s) = b" "\<not> df s"
  shows "insw P s = s\<lparr>ram := (ram s)(rdi s := ucast w, rdi s + 1 := ucast (drop_bit 8 w)), rdi := rdi s + 2, pio := InW b w # pio s\<rparr>"
proof -
  have "P (pio s) b = w" using assms(1,2) by (simp add: ata_bus_def)
  then show ?thesis using assms(3,4) by (simp add: insw_def str_step_def)
qed

lemma rep_insw:
  assumes bus: "ata_bus ident b ini P"
  shows "phase (ata_of ident b ini (pio s)) = DataIn (us @ vs) \<Longrightarrow> lo16 (rdx s) = b \<Longrightarrow> \<not> df s \<Longrightarrow>
    \<exists>l. rep_n (length us) (insw P) (\<lambda>_. False) s = s\<lparr>rcx := (if us = [] then rcx s else 0), rdi := rdi s + 2 * of_nat (length us),
         ram := poke (rdi s) (wbytes us) (ram s), pio := l @ pio s\<rparr>
      \<and> ata_of ident b ini (l @ pio s) = (ata_of ident b ini (pio s))\<lparr>phase := DataIn vs\<rparr>"
proof (induction us arbitrary: s)
  case Nil
  then show ?case by (intro exI [of _ "[]"]) simp
next
  case (Cons w us)
  define s' where "s' = s\<lparr>ram := (ram s)(rdi s := ucast w, rdi s + 1 := ucast (drop_bit 8 w)), rdi := rdi s + 2,
    pio := InW b w # pio s, rcx := of_nat (length us)\<rparr>"
  have "insw P s = s\<lparr>ram := (ram s)(rdi s := ucast w, rdi s + 1 := ucast (drop_bit 8 w)), rdi := rdi s + 2, pio := InW b w # pio s\<rparr>"
    using insw_word [OF bus _ Cons.prems(2,3)] Cons.prems(1) by simp
  then have run: "rep_n (length (w # us)) (insw P) (\<lambda>_. False) s = rep_n (length us) (insw P) (\<lambda>_. False) s'"
    by (simp add: s'_def)
  have ata: "ata_of ident b ini (pio s') = (ata_of ident b ini (pio s))\<lparr>phase := DataIn (us @ vs)\<rparr>"
    using Cons.prems(1) by (simp add: s'_def)
  then have "phase (ata_of ident b ini (pio s')) = DataIn (us @ vs)" "lo16 (rdx s') = b" "\<not> df s'"
    using Cons.prems(2,3) by (simp_all add: s'_def)
  from Cons.IH [OF this] obtain l where
    l: "rep_n (length us) (insw P) (\<lambda>_. False) s' = s'\<lparr>rcx := (if us = [] then rcx s' else 0), rdi := rdi s' + 2 * of_nat (length us),
         ram := poke (rdi s') (wbytes us) (ram s'), pio := l @ pio s'\<rparr>"
    "ata_of ident b ini (l @ pio s') = (ata_of ident b ini (pio s'))\<lparr>phase := DataIn vs\<rparr>" by blast
  have "rep_n (length (w # us)) (insw P) (\<lambda>_. False) s = s\<lparr>rcx := 0, rdi := rdi s + 2 * of_nat (length (w # us)),
         ram := poke (rdi s) (wbytes (w # us)) (ram s), pio := (l @ [InW b w]) @ pio s\<rparr>"
    unfolding run l(1) by (simp add: s'_def algebra_simps)
  moreover have "ata_of ident b ini ((l @ [InW b w]) @ pio s) = (ata_of ident b ini (pio s))\<lparr>phase := DataIn vs\<rparr>"
    using l(2) ata by (simp add: s'_def)
  ultimately show ?case by (intro exI [of _ "l @ [InW b w]"]) simp
qed

lemma read_one_sect:
  assumes bus: "ata_bus ident b ini P" and x: "length x = 256" "phase (ata_of ident b ini (pio s)) = DataIn (x @ ws)"
    and dx: "lo16 (rdx s) = b"
  shows "\<exists>d z l. read_nxt_sect P s = (let s' = s\<lparr>rax := set_lo8 1 (rax s), rcx := rcx s - 1, rdi := d, r12 := r12 s + 512,
      zf := z, df := False, ram := poke (r12 s) (wbytes x) (ram s), pio := l @ pio s\<rparr>
      in if rcx s - 1 \<noteq> 0 then read_nxt_sect P s' else Some s')
    \<and> ata_of ident b ini (l @ pio s) = (ata_of ident b ini (pio s))\<lparr>phase := DataIn ws\<rparr>"
proof -
  let ?t = "push (rcx s) s"
  have "lo16 (rdx ?t) = b" using dx by (simp add: push_def)
  from wait_not_busy_ok [OF bus this] obtain z l where
    w: "wait_ide_device_not_busy P ?t = Some (?t\<lparr>rax := set_lo8 1 (rax ?t), zf := z, pio := l @ pio ?t\<rparr>)" "quiet l" by blast
  define s0 where "s0 = (cld (or_al (?t\<lparr>rax := set_lo8 1 (rax ?t), zf := z, pio := l @ pio ?t\<rparr>)))\<lparr>rcx := 256\<rparr>"
  define s1 where "s1 = s0\<lparr>rdi := r12 s0\<rparr>"
  note s1_defs = s1_def s0_def x86
  have "phase (ata_of ident b ini (pio s1)) = DataIn (x @ ws)" "lo16 (rdx s1) = b" "\<not> df s1"
    using x(2) dx w(2) by (simp_all add: s1_defs)
  from rep_insw [OF bus this] obtain l1 where
    r: "rep_n (length x) (insw P) (\<lambda>_. False) s1 = s1\<lparr>rcx := (if x = [] then rcx s1 else 0), rdi := rdi s1 + 2 * of_nat (length x),
         ram := poke (rdi s1) (wbytes x) (ram s1), pio := l1 @ pio s1\<rparr>"
    "ata_of ident b ini (l1 @ pio s1) = (ata_of ident b ini (pio s1))\<lparr>phase := DataIn ws\<rparr>" by blast
  define s2 where "s2 = s1\<lparr>rcx := 0, rdi := rdi s1 + 512, ram := poke (rdi s1) (wbytes x) (ram s1), pio := l1 @ pio s1\<rparr>"
  have "x \<noteq> []" using x(1) by auto
  then have rep: "rep (insw P) s1 = s2" using r(1) x(1) by (simp add: rep_def s1_defs s2_def)
  obtain z2 l2 where d: "ide_ata_spec_delay P s2 = s2\<lparr>zf := z2, pio := l2 @ pio s2\<rparr>" "quiet l2" using delay_eq by blast
  let ?l = "l2 @ l1 @ l"
  define s3 where "s3 = s\<lparr>rax := set_lo8 1 (rax s), rcx := rcx s - 1, rdi := r12 s + 512, r12 := r12 s + 512,
      zf := z2, df := False, ram := poke (r12 s) (wbytes x) (ram s), pio := ?l @ pio s\<rparr>"
  have al: "zf (or_al (?t\<lparr>rax := set_lo8 1 (rax ?t), zf := z, pio := l @ pio ?t\<rparr>)) = False" by (simp add: or_al_def)
  have "read_nxt_sect P s = (let s' = s2\<lparr>zf := z2, pio := l2 @ pio s2\<rparr>; s' = s'\<lparr>r12 := r12 s' + 512\<rparr>; (c, s') = pop s';
        s' = dec_loop (s'\<lparr>rcx := c\<rparr>) in if rcx s' \<noteq> 0 then read_nxt_sect P s' else Some (mov_al 1 s'))"
    unfolding read_nxt_sect.simps [of P s] Let_def w(1) bind.bind_lunit al if_False s0_def [symmetric] s1_def [symmetric] rep d(1) ..
  moreover have "(let s' = s2\<lparr>zf := z2, pio := l2 @ pio s2\<rparr>; s' = s'\<lparr>r12 := r12 s' + 512\<rparr>; (c, s') = pop s'
        in dec_loop (s'\<lparr>rcx := c\<rparr>)) = s3" by (simp add: s2_def s3_def s1_defs dec_loop_def)
  moreover have "rcx s3 = rcx s - 1" by (simp add: s3_def)
  moreover have "mov_al 1 s3 = s3" by (simp add: s3_def mov_al_def)
  ultimately have "read_nxt_sect P s = (if rcx s - 1 \<noteq> 0 then read_nxt_sect P s3 else Some s3)"
    by (auto simp: Let_def split: prod.splits)
  moreover have "ata_of ident b ini (?l @ pio s) = (ata_of ident b ini (pio s))\<lparr>phase := DataIn ws\<rparr>"
    using r(2) w(2) d(2) by (simp add: s1_defs)
  ultimately show ?thesis
    by (intro exI [of _ "r12 s + 512"] exI [of _ z2] exI [of _ ?l]) (simp add: s3_def)
qed

lemma read_loop_ok:
  assumes bus: "ata_bus ident b ini P"
  shows "ss \<noteq> [] \<Longrightarrow> \<forall>x \<in> set ss. length x = 256 \<Longrightarrow> unat (rcx s) = length ss \<Longrightarrow>
      phase (ata_of ident b ini (pio s)) = DataIn (concat ss) \<Longrightarrow> lo16 (rdx s) = b \<Longrightarrow>
    \<exists>d z l. read_nxt_sect P s = Some (s\<lparr>rax := set_lo8 1 (rax s), rcx := 0, rdi := d, r12 := r12 s + 512 * of_nat (length ss),
        zf := z, df := False, ram := poke (r12 s) (wbytes (concat ss)) (ram s), pio := l @ pio s\<rparr>)
      \<and> ata_of ident b ini (l @ pio s) = (ata_of ident b ini (pio s))\<lparr>phase := DataIn []\<rparr>"
proof (induction ss arbitrary: s)
  case (Cons x ss)
  have x: "length x = 256" "phase (ata_of ident b ini (pio s)) = DataIn (x @ concat ss)" using Cons.prems by simp_all
  from read_one_sect [OF bus this Cons.prems(5)] obtain d z l where
    one: "read_nxt_sect P s = (let s' = s\<lparr>rax := set_lo8 1 (rax s), rcx := rcx s - 1, rdi := d, r12 := r12 s + 512,
      zf := z, df := False, ram := poke (r12 s) (wbytes x) (ram s), pio := l @ pio s\<rparr>
      in if rcx s - 1 \<noteq> 0 then read_nxt_sect P s' else Some s')"
    and ata: "ata_of ident b ini (l @ pio s) = (ata_of ident b ini (pio s))\<lparr>phase := DataIn (concat ss)\<rparr>" by blast
  define s' where "s' = s\<lparr>rax := set_lo8 1 (rax s), rcx := rcx s - 1, rdi := d, r12 := r12 s + 512,
      zf := z, df := False, ram := poke (r12 s) (wbytes x) (ram s), pio := l @ pio s\<rparr>"
  have c: "unat (rcx s - 1) = length ss" using Cons.prems(3) by (simp add: unat_sub_if')
  show ?case
  proof (cases "ss = []")
    case True
    with c have "rcx s - 1 = 0" by (simp add: unat_eq_0)
    with one ata True show ?thesis by (intro exI [of _ d] exI [of _ z] exI [of _ l]) simp
  next
    case False
    then have "rcx s - 1 \<noteq> 0" using c by auto
    with one have run: "read_nxt_sect P s = read_nxt_sect P s'" by (simp add: s'_def)
    have "\<forall>x \<in> set ss. length x = 256" "unat (rcx s') = length ss" "phase (ata_of ident b ini (pio s')) = DataIn (concat ss)"
      "lo16 (rdx s') = b" using Cons.prems c ata by (simp_all add: s'_def)
    from Cons.IH [OF False this] obtain d' z' l' where
      "read_nxt_sect P s' = Some (s'\<lparr>rax := set_lo8 1 (rax s'), rcx := 0, rdi := d', r12 := r12 s' + 512 * of_nat (length ss),
        zf := z', df := False, ram := poke (r12 s') (wbytes (concat ss)) (ram s'), pio := l' @ pio s'\<rparr>)"
      "ata_of ident b ini (l' @ pio s') = (ata_of ident b ini (pio s'))\<lparr>phase := DataIn []\<rparr>" by blast
    then show ?thesis using ata x(1) unfolding run
      by (intro exI [of _ d'] exI [of _ z'] exI [of _ "l' @ l"]) (simp add: s'_def poke_append algebra_simps)
  qed
qed simp

section \<open>Addressing\<close>

text \<open>The drive and the first sector that are addressed: only 28 bits of a sector number reach the drive,
  and bit 28 runs into the bit that selects the slave.\<close>

definition drive :: "u64 \<Rightarrow> u64 \<Rightarrow> bool" where
  "drive dev lba \<longleftrightarrow> dev \<noteq> 0 \<or> bit lba 28"

definition lba_start :: "u64 \<Rightarrow> nat" where
  "lba_start lba = unat lba mod 2 ^ 28"

lemma lba_in_range: "unat lba < 2 ^ 28 \<Longrightarrow> drive dev lba = (dev \<noteq> 0)" "unat lba < 2 ^ 28 \<Longrightarrow> lba_start lba = unat lba"
proof -
  assume a: "unat lba < 2 ^ 28"
  then have "\<not> bit (unat lba) 28" by (simp add: bit_iff_odd)
  then have "\<not> bit lba 28" by (simp add: bit_unsigned_iff)
  then show "drive dev lba = (dev \<noteq> 0)" by (simp add: drive_def)
  show "lba_start lba = unat lba" using a by (simp add: lba_start_def)
qed

lemma program_fields [simp]:
  "head (program dev lba n a) = head_byte dev lba" "cnt (program dev lba n a) = lo8 n"
  "sects (program dev lba n a) = sects a" "phase (program dev lba n a) = phase a"
  by (simp_all add: program_def)

definition sect_n :: "u64 \<Rightarrow> nat" where
  "sect_n n = (if n = 0 then 256 else unat n)"

lemma program_count: "unat n \<le> 256 \<Longrightarrow> sect_count (program dev lba n a) = sect_n n"
proof -
  assume n: "unat n \<le> 256"
  have "unat (lo8 n) = unat n mod 256" by (simp add: lo8_def unsigned_ucast_eq take_bit_eq_mod unsigned_take_bit_eq)
  moreover have "lo8 n = 0 \<longleftrightarrow> unat (lo8 n) = 0" "n = 0 \<longleftrightarrow> unat n = 0" by (simp_all add: unat_eq_0)
  ultimately show ?thesis using n by (cases "unat n = 256") (auto simp: sect_count_def sect_n_def)
qed

lemma program_slave: "bit (head_byte dev lba) 4 = drive dev lba"
  by (simp add: head_byte_def drive_def lo8_def bit_simps bit_numeral_rec)

lemma head_lba: "bit (head_byte dev lba AND 0xF) j \<longleftrightarrow> j < 4 \<and> bit lba (24 + j)"
proof -
  have m: "(0xF :: u8) = mask 4" by (simp add: mask_eq_exp_minus_1)
  have "j < 4 \<Longrightarrow> j = 0 \<or> j = 1 \<or> j = 2 \<or> j = 3" by auto
  then show ?thesis unfolding m by (auto simp: head_byte_def lo8_def bit_simps bit_numeral_rec)
qed

lemma program_lba: "lba28 (program dev lba n a) = lba_start lba"
proof -
  define h where "h = head_byte dev lba AND 0xF"
  have h: "bit h j \<longleftrightarrow> j < 4 \<and> bit lba (24 + j)" for j by (simp add: h_def head_lba)
  have "(ucast (lo8 lba) OR push_bit 8 (ucast (lo8 (drop_bit 8 lba))) OR push_bit 16 (ucast (lo8 (drop_bit 16 lba)))
     OR push_bit 24 (ucast h) :: u32) = take_bit 28 (ucast lba)" (is "?w = _")
  proof (rule bit_word_eqI)
    fix i assume "i < LENGTH(32)"
    then show "bit ?w i = bit (take_bit 28 (ucast lba) :: u32) i"
      by (cases "i < 16"; cases "i < 24"; cases "i < 28") (auto simp: bit_simps h lo8_def)
  qed
  then have w: "(ucast (lo8 lba) OR push_bit 8 (ucast (lo8 (drop_bit 8 lba))) OR push_bit 16 (ucast (lo8 (drop_bit 16 lba)))
     OR push_bit 24 (ucast (head_byte dev lba AND 0xF)) :: u32) = take_bit 28 (ucast lba)" unfolding h_def .
  have "unat (take_bit 28 (ucast lba) :: u32) = take_bit 28 (unat lba)"
    by (simp add: unsigned_ucast_eq unsigned_take_bit_eq)
  with w show ?thesis by (simp add: lba28_def lba_start_def program_def take_bit_eq_mod)
qed

section \<open>Transfers\<close>

text \<open>Reading and writing differ in the command and the loop over the sectors only.\<close>

definition ide_transfer ::
    "pdev \<Rightarrow> u8 \<Rightarrow> ('a ide_cpu_scheme \<Rightarrow> 'a ide_cpu_scheme option) \<Rightarrow> 'a ide_cpu_scheme \<Rightarrow> 'a ide_cpu_scheme option" where
  "ide_transfer P cmd nxt_sect s = do {
     let s = push (r12 s) s;
     let s = s\<lparr>r12 := rdx s\<rparr>;
     let s = xor_rax s;
     let s = ide_device_sectors_io P s;
     let s = or_al s;
     s \<leftarrow> (if zf s then Some s
          else do {
            let s = mov_al cmd s;
            let s = mov_di IDE_STATUS_COMMAND_REG s;
            let s = write_ide_reg s;
            s \<leftarrow> wait_ide_device_drq P s;
            let s = or_al s;
            if zf s then Some s
            else do {
              let s = s\<lparr>rcx := r8 s\<rparr>;
              let s = or_rcx s;
              let s = (if \<not> zf s then s else s\<lparr>rcx := 256\<rparr>);
              nxt_sect s
            }
          });
     let s = s\<lparr>rax := ucast (lo8 (rax s))\<rparr>;
     let (r, s) = pop s;
     Some (s\<lparr>r12 := r\<rparr>)
   }"

lemma transfers:
  "arch_ide_device_read P s = ide_transfer P IDE_DEVICE_READ_SECT_CMD (read_nxt_sect P) s"
  "arch_ide_device_write P s = ide_transfer P IDE_DEVICE_WRITE_SECT_CMD (write_nxt_sect P) s"
  unfolding arch_ide_device_read_def arch_ide_device_write_def ide_transfer_def by (rule refl)+

definition transfer_end :: "'a ide_cpu_scheme \<Rightarrow> 'a ide_cpu_scheme" where
  "transfer_end s = (let s = s\<lparr>rax := ucast (lo8 (rax s))\<rparr>; (r, s) = pop s in s\<lparr>r12 := r\<rparr>)"

lemma set_lo8_not_0: "lo8 (set_lo8 1 r) \<noteq> 0"
  by simp

lemma transfer_start:
  fixes s :: "'a ide_cpu_scheme"
  defines "b \<equiv> ide_base (rdi s)"
  defines "e \<equiv> (push (r12 s) s)\<lparr>r12 := rdx s\<rparr>"
  shows "\<exists>l d t. t = e\<lparr>rax := set_lo8 cmd 1, rdx := ucast b, rdi := d, zf := False, pio := l @ pio s\<rparr>
    \<and> ata_of ident b ini (l @ pio s) = ata_command ident cmd (program (rsi s) (rcx s) (r8 s) (ata_of ident b ini (pio s)))
    \<and> ide_transfer P cmd nxt s = (wait_ide_device_drq P t \<bind> (\<lambda>s. if zf (or_al s) then Some (transfer_end (or_al s)) else
        nxt (let s = or_rcx ((or_al s)\<lparr>rcx := r8 s\<rparr>) in if \<not> zf s then s else s\<lparr>rcx := 256\<rparr>) \<bind> (\<lambda>s. Some (transfer_end s))))"
proof -
  have e: "ide_base (rdi (xor_rax e)) = b" "pio (xor_rax e) = pio s" "rsi (xor_rax e) = rsi s" "rcx (xor_rax e) = rcx s"
    "r8 (xor_rax e) = r8 s" by (simp_all add: e_def b_def x86)
  obtain z l where l: "ide_device_sectors_io P (xor_rax e) = (xor_rax e)\<lparr>rax := 1, rdx := ucast b,
      rdi := set_lo16 5 (rdi (xor_rax e)), zf := z, pio := l @ pio s\<rparr>"
    "ata_of ident b ini (l @ pio s) = program (rsi s) (rcx s) (r8 s) (ata_of ident b ini (pio s))"
    using sectors_io_ok [of P "xor_rax e" ident ini] unfolding e by blast
  define u where "u = (xor_rax e)\<lparr>rax := 1, rdx := ucast b, rdi := set_lo16 5 (rdi (xor_rax e)), zf := z, pio := l @ pio s\<rparr>"
  define t where "t = write_ide_reg (mov_di 7 (mov_al cmd (or_al u)))"
  have b7: "b + 7 \<noteq> 0" by (simp add: b_def ide_base_def)
  let ?l = "OutB (b + 7) cmd # l"
  have "t = e\<lparr>rax := set_lo8 cmd 1, rdx := ucast b, rdi := set_lo16 7 (set_lo16 5 (rdi s)), zf := False, pio := ?l @ pio s\<rparr>"
    using b7 by (simp add: t_def u_def write_ide_reg_eq mov_di_def x86 e_def)
  moreover have "ata_of ident b ini (?l @ pio s) = ata_command ident cmd (program (rsi s) (rcx s) (r8 s) (ata_of ident b ini (pio s)))"
    by (simp add: l(2) Let_def)
  moreover have "ide_transfer P cmd nxt s = (wait_ide_device_drq P t \<bind> (\<lambda>s. if zf (or_al s) then Some (transfer_end (or_al s)) else
        nxt (let s = or_rcx ((or_al s)\<lparr>rcx := r8 s\<rparr>) in if \<not> zf s then s else s\<lparr>rcx := 256\<rparr>) \<bind> (\<lambda>s. Some (transfer_end s))))"
  proof -
    have zf: "zf (or_al u) = False" by (simp add: u_def or_al_def lo8_def)
    have r8: "r8 (or_al s) = r8 s" for s :: "'a ide_cpu_scheme" by (simp add: or_al_def)
    have fin: "(case pop (s\<lparr>rax := ucast (lo8 (rax s))\<rparr>) of (r, s) \<Rightarrow> Some (s\<lparr>r12 := r\<rparr>)) = Some (transfer_end s)"
      for s :: "'a ide_cpu_scheme" by (simp add: transfer_end_def split: prod.split)
    have e': "(push (r12 s) s)\<lparr>r12 := rdx (push (r12 s) s)\<rparr> = e" by (simp add: e_def push_def)
    show ?thesis
      unfolding ide_transfer_def Let_def e' l(1) u_def [symmetric] zf if_False fin t_def [symmetric] r8
      by (simp add: if_distrib [of "\<lambda>x. Option.bind x f" for f] cong: if_cong)
  qed
  ultimately show ?thesis by (intro exI [of _ ?l] exI [of _ "set_lo16 7 (set_lo16 5 (rdi s))"] exI [of _ t] conjI)
qed

lemma transfer_ready:
  fixes s :: "'a ide_cpu_scheme"
  defines "b \<equiv> ide_base (rdi s)"
  defines "e \<equiv> (push (r12 s) s)\<lparr>r12 := rdx s\<rparr>"
  assumes bus: "ata_bus ident b ini P"
    and a: "a = ata_command ident cmd (program (rsi s) (rcx s) (r8 s) (ata_of ident b ini (pio s)))" "due (phase a)"
  shows "\<exists>l d z t. t = e\<lparr>rax := set_lo8 1 1, rcx := (if r8 s = 0 then 256 else r8 s), rdx := ucast b, rdi := d, zf := z, pio := l @ pio s\<rparr>
    \<and> ata_of ident b ini (l @ pio s) = a
    \<and> ide_transfer P cmd nxt s = (nxt t \<bind> (\<lambda>s. Some (transfer_end s)))"
proof -
  obtain l d t where t: "t = e\<lparr>rax := set_lo8 cmd 1, rdx := ucast b, rdi := d, zf := False, pio := l @ pio s\<rparr>"
    "ata_of ident b ini (l @ pio s) = a"
    "ide_transfer P cmd nxt s = (wait_ide_device_drq P t \<bind> (\<lambda>s. if zf (or_al s) then Some (transfer_end (or_al s)) else
        nxt (let s = or_rcx ((or_al s)\<lparr>rcx := r8 s\<rparr>) in if \<not> zf s then s else s\<lparr>rcx := 256\<rparr>) \<bind> (\<lambda>s. Some (transfer_end s))))"
    using transfer_start [where s = s and cmd = cmd and ident = ident and ini = ini and P = P and nxt = nxt] unfolding a(1) b_def e_def by blast
  have "lo16 (rdx t) = b" "due (phase (ata_of ident b ini (pio t)))" using a(2) t(2) by (simp_all add: t(1))
  from wait_drq_ok [OF bus this] obtain z l' where
    w: "wait_ide_device_drq P t = Some (t\<lparr>rax := set_lo8 1 (rax t), zf := z, pio := l' @ pio t\<rparr>)" "quiet l'" by blast
  define t' where "t' = e\<lparr>rax := set_lo8 1 1, rcx := (if r8 s = 0 then 256 else r8 s), rdx := ucast b, rdi := d,
    zf := (r8 s = 0), pio := (l' @ l) @ pio s\<rparr>"
  have "r8 t = r8 s" by (simp add: t(1) e_def push_def)
  then have "(let s = or_rcx ((or_al (t\<lparr>rax := set_lo8 1 (rax t), zf := z, pio := l' @ pio t\<rparr>))\<lparr>rcx := r8 t\<rparr>)
      in if \<not> zf s then s else s\<lparr>rcx := 256\<rparr>) = t'"
    by (simp add: t'_def t(1) x86)
  then have "ide_transfer P cmd nxt s = (nxt t' \<bind> (\<lambda>s. Some (transfer_end s)))"
    unfolding t(3) w(1) bind.bind_lunit by (simp add: or_al_def)
  moreover have "ata_of ident b ini ((l' @ l) @ pio s) = a" using w(2) t(2) by simp
  ultimately show ?thesis unfolding t'_def by blast
qed

lemma sect_n_rcx: "unat (if n = 0 then 256 else n :: u64) = sect_n n"
  by (simp add: sect_n_def)

lemma sect_n_pos: "0 < sect_n n"
  by (simp add: sect_n_def unat_gt_0)

text \<open>The sectors a transfer is about.\<close>

definition asked :: "ata \<Rightarrow> u64 \<Rightarrow> u64 \<Rightarrow> u64 \<Rightarrow> u16 list list" where
  "asked a dev lba n = map (sects a (drive dev lba)) [lba_start lba ..< lba_start lba + sect_n n]"

lemma asked_lengths: "ata_wf a \<Longrightarrow> \<forall>x \<in> set (asked a dev lba n). length x = 256" "length (asked a dev lba n) = sect_n n"
  by (auto simp: asked_def ata_wf_def)

lemma read_command:
  assumes "unat n \<le> 256"
  shows "ata_command ident IDE_DEVICE_READ_SECT_CMD (program dev lba n a) =
    (program dev lba n a)\<lparr>phase := DataIn (concat (asked a dev lba n))\<rparr>"
  using program_count [OF assms] by (simp add: ata_command_def asked_def program_lba program_slave Let_def)

lemma concat_asked: "ata_wf a \<Longrightarrow> concat (asked a dev lba n) \<noteq> []"
  using asked_lengths [of a dev lba n] sect_n_pos [of n] by (cases "asked a dev lba n") auto

lemma read_ok:
  assumes b: "b = ide_base (rdi s)" and bus: "ata_bus ident b ini P"
    and a: "a = ata_of ident b ini (pio s)" "ata_wf a"
    and n: "unat (r8 s) \<le> 256"
  shows "\<exists>d z l. arch_ide_device_read P s = Some (s\<lparr>rax := 1, rcx := 0, rdx := ucast b, rdi := d, zf := z, df := False,
        ram := poke (rdx s) (wbytes (concat (asked a (rsi s) (rcx s) (r8 s)))) (ram s), pio := l @ pio s\<rparr>)
      \<and> ata_of ident b ini (l @ pio s) = (program (rsi s) (rcx s) (r8 s) a)\<lparr>phase := DataIn []\<rparr>"
proof -
  let ?ss = "asked a (rsi s) (rcx s) (r8 s)"
  define c where "c = (program (rsi s) (rcx s) (r8 s) a)\<lparr>phase := DataIn (concat ?ss)\<rparr>"
  have c': "c = ata_command ident IDE_DEVICE_READ_SECT_CMD (program (rsi s) (rcx s) (r8 s) (ata_of ident (ide_base (rdi s)) ini (pio s)))"
    "due (phase c)"
    using read_command [OF n] concat_asked [OF a(2)] a(1) b by (simp_all add: c_def)
  from transfer_ready [OF bus [unfolded b] c'] obtain l d z t where
    t: "t = ((push (r12 s) s)\<lparr>r12 := rdx s\<rparr>)\<lparr>rax := set_lo8 1 1, rcx := (if r8 s = 0 then 256 else r8 s), rdx := ucast b,
      rdi := d, zf := z, pio := l @ pio s\<rparr>" "ata_of ident b ini (l @ pio s) = c"
    "arch_ide_device_read P s = (read_nxt_sect P t \<bind> (\<lambda>s. Some (transfer_end s)))"
    unfolding transfers b by blast
  have "?ss \<noteq> []" "unat (rcx t) = length ?ss"
    using sect_n_pos [of "r8 s"] asked_lengths(2) [of a "rsi s" "rcx s" "r8 s"] by (auto simp: t(1) sect_n_rcx)
  moreover have "phase (ata_of ident b ini (pio t)) = DataIn (concat ?ss)" "lo16 (rdx t) = b"
    using t(2) by (simp_all add: t(1) c_def)
  ultimately obtain d' z' l' where
    r: "read_nxt_sect P t = Some (t\<lparr>rax := set_lo8 1 (rax t), rcx := 0, rdi := d', r12 := r12 t + 512 * of_nat (length ?ss),
        zf := z', df := False, ram := poke (r12 t) (wbytes (concat ?ss)) (ram t), pio := l' @ pio t\<rparr>)"
    "ata_of ident b ini (l' @ pio t) = (ata_of ident b ini (pio t))\<lparr>phase := DataIn []\<rparr>"
    using read_loop_ok [OF bus _ asked_lengths(1) [OF a(2)]] by blast
  have "arch_ide_device_read P s = Some (s\<lparr>rax := 1, rcx := 0, rdx := ucast b, rdi := d', zf := z', df := False,
        ram := poke (rdx s) (wbytes (concat ?ss)) (ram s), pio := (l' @ l) @ pio s\<rparr>)"
    unfolding t(3) r(1) by (simp add: t(1) transfer_end_def x86)
  moreover have "ata_of ident b ini ((l' @ l) @ pio s) = (program (rsi s) (rcx s) (r8 s) a)\<lparr>phase := DataIn []\<rparr>"
    using r(2) t(2) by (simp add: t(1) c_def)
  ultimately show ?thesis by blast
qed

section \<open>Writing\<close>

text \<open>The words and sectors of memory from an address on.\<close>

definition word_at :: "(u64 \<Rightarrow> u8) \<Rightarrow> u64 \<Rightarrow> u16" where
  "word_at M p = ucast (M p) OR push_bit 8 (ucast (M (p + 1)))"

primrec words :: "(u64 \<Rightarrow> u8) \<Rightarrow> u64 \<Rightarrow> nat \<Rightarrow> u16 list" where
  "words M p 0 = []"
| "words M p (Suc n) = word_at M p # words M (p + 2) n"

primrec mem_sects :: "(u64 \<Rightarrow> u8) \<Rightarrow> u64 \<Rightarrow> nat \<Rightarrow> u16 list list" where
  "mem_sects M p 0 = []"
| "mem_sects M p (Suc n) = words M p 256 # mem_sects M (p + 512) n"

lemma length_words [simp]: "length (words M p n) = n"
  by (induction n arbitrary: p) simp_all

lemma rep_outsw:
  "\<not> df s \<Longrightarrow> rep_n n outsw (\<lambda>_. False) s = s\<lparr>rcx := (if n = 0 then rcx s else 0), rsi := rsi s + 2 * of_nat n,
     pio := rev (map (OutW (lo16 (rdx s))) (words (ram s) (rsi s) n)) @ pio s\<rparr>"
proof (induction n arbitrary: s)
  case (Suc n)
  define s' where "s' = s\<lparr>rsi := rsi s + 2, pio := OutW (lo16 (rdx s)) (word_at (ram s) (rsi s)) # pio s, rcx := of_nat n\<rparr>"
  have run: "rep_n (Suc n) outsw (\<lambda>_. False) s = rep_n n outsw (\<lambda>_. False) s'"
    using Suc.prems by (simp add: s'_def outsw_def str_step_def word_at_def Let_def)
  have "\<not> df s'" using Suc.prems by (simp add: s'_def)
  from Suc.IH [OF this] show ?case unfolding run by (simp add: s'_def algebra_simps)
qed simp

lemma ata_of_words: "ata_of ident b ini (rev (map (OutW b) us) @ t) = fold take_word us (ata_of ident b ini t)"
  by (induction us arbitrary: t rule: rev_induct) simp_all

lemma take_words:
  "phase a = DataOut sl k ws (length us + r) \<Longrightarrow> length ws + length us < 256 \<Longrightarrow>
     fold take_word us a = a\<lparr>phase := DataOut sl k (ws @ us) r\<rparr>"
proof (induction us arbitrary: a ws)
  case (Cons u us)
  have "take_word u a = a\<lparr>phase := DataOut sl k (ws @ [u]) (length us + r)\<rparr>" using Cons.prems by (simp add: take_word_def)
  then show ?case using Cons.IH [of "take_word u a" "ws @ [u]"] Cons.prems(2) by simp
qed simp

definition put_sect :: "bool \<Rightarrow> nat \<Rightarrow> u16 list \<Rightarrow> ata \<Rightarrow> ata" where
  "put_sect sl k x a = a\<lparr>sects := (sects a)(sl := (sects a sl)(k := x))\<rparr>"

primrec put_sects :: "bool \<Rightarrow> nat \<Rightarrow> u16 list list \<Rightarrow> ata \<Rightarrow> ata" where
  "put_sects sl k [] a = a"
| "put_sects sl k (x # xs) a = put_sects sl (Suc k) xs (put_sect sl k x a)"

lemma take_sect:
  assumes "length us = 256" "phase a = DataOut sl k [] (256 + r)"
  shows "fold take_word us a = (put_sect sl k us a)\<lparr>phase := DataOut sl (Suc k) [] r\<rparr>"
proof -
  obtain vs v where us: "us = vs @ [v]" "length vs = 255" using assms(1) by (cases us rule: rev_cases) auto
  have "fold take_word vs a = a\<lparr>phase := DataOut sl k vs (Suc r)\<rparr>"
    using take_words [of a sl k "[]" vs "Suc r"] assms(2) us(2) by simp
  then show ?thesis using us by (simp add: take_word_def put_sect_def)
qed

lemma put_sects_upd: "put_sects sl k xs (a\<lparr>phase := ph\<rparr>) = (put_sects sl k xs a)\<lparr>phase := ph\<rparr>"
proof -
  have "put_sect sl k x (a\<lparr>phase := ph\<rparr>) = (put_sect sl k x a)\<lparr>phase := ph\<rparr>" for k x a by (simp add: put_sect_def)
  then show ?thesis by (induction xs arbitrary: k a) simp_all
qed

lemma write_one_sect:
  assumes bus: "ata_bus ident b ini P" and ph: "phase (ata_of ident b ini (pio s)) = DataOut sl k [] (256 + r)"
    and dx: "lo16 (rdx s) = b"
  shows "\<exists>z l. write_nxt_sect P s = (let s' = s\<lparr>rax := set_lo8 1 (rax s), rcx := rcx s - 1, rsi := r12 s + 512, r12 := r12 s + 512,
      zf := z, df := False, pio := l @ pio s\<rparr>
      in if rcx s - 1 \<noteq> 0 then write_nxt_sect P s' else wait_ide_device_not_busy P s')
    \<and> ata_of ident b ini (l @ pio s) = (put_sect sl k (words (ram s) (r12 s) 256) (ata_of ident b ini (pio s)))\<lparr>phase := DataOut sl (Suc k) [] r\<rparr>"
proof -
  let ?t = "push (rcx s) s" and ?x = "words (ram s) (r12 s) 256"
  have "lo16 (rdx ?t) = b" using dx by (simp add: push_def)
  from wait_not_busy_ok [OF bus this] obtain z l where
    w: "wait_ide_device_not_busy P ?t = Some (?t\<lparr>rax := set_lo8 1 (rax ?t), zf := z, pio := l @ pio ?t\<rparr>)" "quiet l" by blast
  define s0 where "s0 = (cld (or_al (?t\<lparr>rax := set_lo8 1 (rax ?t), zf := z, pio := l @ pio ?t\<rparr>)))\<lparr>rcx := 256\<rparr>"
  define s1 where "s1 = s0\<lparr>rsi := r12 s0\<rparr>"
  note s1_defs = s1_def s0_def x86
  define s2 where "s2 = s1\<lparr>rcx := 0, rsi := rsi s1 + 512, pio := rev (map (OutW b) ?x) @ pio s1\<rparr>"
  have rep: "rep outsw s1 = s2" using rep_outsw [of s1 256] dx by (simp add: rep_def s1_defs s2_def)
  obtain z2 l2 where d: "ide_ata_spec_delay P s2 = s2\<lparr>zf := z2, pio := l2 @ pio s2\<rparr>" "quiet l2" using delay_eq by blast
  let ?l = "l2 @ rev (map (OutW b) ?x) @ l"
  define s3 where "s3 = s\<lparr>rax := set_lo8 1 (rax s), rcx := rcx s - 1, rsi := r12 s + 512, r12 := r12 s + 512,
      zf := z2, df := False, pio := ?l @ pio s\<rparr>"
  have al: "zf (or_al (?t\<lparr>rax := set_lo8 1 (rax ?t), zf := z, pio := l @ pio ?t\<rparr>)) = False" by (simp add: or_al_def)
  have "write_nxt_sect P s = (let s' = s2\<lparr>zf := z2, pio := l2 @ pio s2\<rparr>; s' = s'\<lparr>r12 := r12 s' + 512\<rparr>; (c, s') = pop s';
        s' = dec_loop (s'\<lparr>rcx := c\<rparr>) in if rcx s' \<noteq> 0 then write_nxt_sect P s' else wait_ide_device_not_busy P s')"
    unfolding write_nxt_sect.simps [of P s] Let_def w(1) bind.bind_lunit al if_False s0_def [symmetric] s1_def [symmetric] rep d(1) ..
  moreover have "(let s' = s2\<lparr>zf := z2, pio := l2 @ pio s2\<rparr>; s' = s'\<lparr>r12 := r12 s' + 512\<rparr>; (c, s') = pop s'
        in dec_loop (s'\<lparr>rcx := c\<rparr>)) = s3" by (simp add: s2_def s3_def s1_defs dec_loop_def)
  moreover have "rcx s3 = rcx s - 1" by (simp add: s3_def)
  ultimately have "write_nxt_sect P s = (if rcx s - 1 \<noteq> 0 then write_nxt_sect P s3 else wait_ide_device_not_busy P s3)"
    by (auto simp: Let_def split: prod.splits)
  moreover have "ata_of ident b ini (?l @ pio s) = (put_sect sl k ?x (ata_of ident b ini (pio s)))\<lparr>phase := DataOut sl (Suc k) [] r\<rparr>"
    using take_sect [OF _ ph, of ?x] w(2) d(2) by (simp add: ata_of_words)
  ultimately show ?thesis by (intro exI [of _ z2] exI [of _ ?l]) (simp add: s3_def)
qed

lemma write_loop_ok:
  assumes bus: "ata_bus ident b ini P"
  shows "0 < m \<Longrightarrow> unat (rcx s) = m \<Longrightarrow> phase (ata_of ident b ini (pio s)) = DataOut sl k [] (256 * m) \<Longrightarrow> lo16 (rdx s) = b \<Longrightarrow>
    \<exists>d z l. write_nxt_sect P s = Some (s\<lparr>rax := set_lo8 1 (rax s), rcx := 0, rsi := d, r12 := r12 s + 512 * of_nat m,
        zf := z, df := False, pio := l @ pio s\<rparr>)
      \<and> ata_of ident b ini (l @ pio s) =
          (put_sects sl k (mem_sects (ram s) (r12 s) m) (ata_of ident b ini (pio s)))\<lparr>phase := DataOut sl (k + m) [] 0\<rparr>"
proof (induction m arbitrary: s k)
  case (Suc m)
  have ph: "phase (ata_of ident b ini (pio s)) = DataOut sl k [] (256 + 256 * m)" using Suc.prems(3) by simp
  from write_one_sect [OF bus this Suc.prems(4)] obtain z l where
    one: "write_nxt_sect P s = (let s' = s\<lparr>rax := set_lo8 1 (rax s), rcx := rcx s - 1, rsi := r12 s + 512, r12 := r12 s + 512,
      zf := z, df := False, pio := l @ pio s\<rparr> in if rcx s - 1 \<noteq> 0 then write_nxt_sect P s' else wait_ide_device_not_busy P s')"
    and ata: "ata_of ident b ini (l @ pio s) =
      (put_sect sl k (words (ram s) (r12 s) 256) (ata_of ident b ini (pio s)))\<lparr>phase := DataOut sl (Suc k) [] (256 * m)\<rparr>"
    by blast
  define s' where "s' = s\<lparr>rax := set_lo8 1 (rax s), rcx := rcx s - 1, rsi := r12 s + 512, r12 := r12 s + 512,
      zf := z, df := False, pio := l @ pio s\<rparr>"
  have dx: "lo16 (rdx s') = b" using Suc.prems(4) by (simp add: s'_def)
  have c: "unat (rcx s - 1) = m" using Suc.prems(2) by (simp add: unat_sub_if')
  show ?case
  proof (cases "m = 0")
    case True
    with c have "rcx s - 1 = 0" by (simp add: unat_eq_0)
    with one have run: "write_nxt_sect P s = wait_ide_device_not_busy P s'" by (simp add: s'_def)
    obtain z' l' where w: "wait_ide_device_not_busy P s' = Some (s'\<lparr>rax := set_lo8 1 (rax s'), zf := z', pio := l' @ pio s'\<rparr>)"
      "quiet l'" using wait_not_busy_ok [OF bus dx] by blast
    show ?thesis unfolding run w(1) using ata w(2) True \<open>rcx s - 1 = 0\<close>
      by (intro exI [of _ "r12 s + 512"] exI [of _ z'] exI [of _ "l' @ l"]) (simp add: s'_def)
  next
    case False
    then have "rcx s - 1 \<noteq> 0" using c by auto
    with one have run: "write_nxt_sect P s = write_nxt_sect P s'" by (simp add: s'_def)
    have "0 < m" "unat (rcx s') = m" "phase (ata_of ident b ini (pio s')) = DataOut sl (Suc k) [] (256 * m)"
      using False c ata by (simp_all add: s'_def)
    from Suc.IH [OF this dx] obtain d' z' l' where
      "write_nxt_sect P s' = Some (s'\<lparr>rax := set_lo8 1 (rax s'), rcx := 0, rsi := d', r12 := r12 s' + 512 * of_nat m,
        zf := z', df := False, pio := l' @ pio s'\<rparr>)"
      "ata_of ident b ini (l' @ pio s') =
          (put_sects sl (Suc k) (mem_sects (ram s') (r12 s') m) (ata_of ident b ini (pio s')))\<lparr>phase := DataOut sl (Suc k + m) [] 0\<rparr>"
      by blast
    then show ?thesis using ata unfolding run
      by (intro exI [of _ d'] exI [of _ z'] exI [of _ "l' @ l"]) (simp add: s'_def put_sects_upd algebra_simps)
  qed
qed simp

lemma write_command:
  assumes "unat n \<le> 256"
  shows "ata_command ident IDE_DEVICE_WRITE_SECT_CMD (program dev lba n a) =
    (program dev lba n a)\<lparr>phase := DataOut (drive dev lba) (lba_start lba) [] (256 * sect_n n)\<rparr>"
  using program_count [OF assms] by (simp add: ata_command_def program_lba program_slave Let_def)

lemma write_ok:
  assumes b: "b = ide_base (rdi s)" and bus: "ata_bus ident b ini P" and a: "a = ata_of ident b ini (pio s)"
    and n: "unat (r8 s) \<le> 256"
  shows "\<exists>d i z l. arch_ide_device_write P s = Some (s\<lparr>rax := 1, rcx := 0, rdx := ucast b, rsi := i, rdi := d, zf := z,
        df := False, pio := l @ pio s\<rparr>)
      \<and> ata_of ident b ini (l @ pio s) = (put_sects (drive (rsi s) (rcx s)) (lba_start (rcx s))
            (mem_sects (ram s) (rdx s) (sect_n (r8 s))) (program (rsi s) (rcx s) (r8 s) a))
          \<lparr>phase := DataOut (drive (rsi s) (rcx s)) (lba_start (rcx s) + sect_n (r8 s)) [] 0\<rparr>"
proof -
  let ?sl = "drive (rsi s) (rcx s)" and ?k = "lba_start (rcx s)" and ?n = "sect_n (r8 s)"
  define c where "c = (program (rsi s) (rcx s) (r8 s) a)\<lparr>phase := DataOut ?sl ?k [] (256 * ?n)\<rparr>"
  have c': "c = ata_command ident IDE_DEVICE_WRITE_SECT_CMD (program (rsi s) (rcx s) (r8 s) (ata_of ident (ide_base (rdi s)) ini (pio s)))"
    "due (phase c)"
    using write_command [OF n] sect_n_pos [of "r8 s"] a b by (simp_all add: c_def)
  from transfer_ready [OF bus [unfolded b] c'] obtain l d z t where
    t: "t = ((push (r12 s) s)\<lparr>r12 := rdx s\<rparr>)\<lparr>rax := set_lo8 1 1, rcx := (if r8 s = 0 then 256 else r8 s), rdx := ucast b,
      rdi := d, zf := z, pio := l @ pio s\<rparr>" "ata_of ident b ini (l @ pio s) = c"
    "arch_ide_device_write P s = (write_nxt_sect P t \<bind> (\<lambda>s. Some (transfer_end s)))"
    unfolding transfers b by blast
  have "unat (rcx t) = ?n" "phase (ata_of ident b ini (pio t)) = DataOut ?sl ?k [] (256 * ?n)" "lo16 (rdx t) = b"
    using t(2) by (simp_all add: t(1) c_def sect_n_rcx)
  from write_loop_ok [OF bus sect_n_pos this] obtain i z' l' where
    w: "write_nxt_sect P t = Some (t\<lparr>rax := set_lo8 1 (rax t), rcx := 0, rsi := i, r12 := r12 t + 512 * of_nat ?n,
        zf := z', df := False, pio := l' @ pio t\<rparr>)"
    "ata_of ident b ini (l' @ pio t) =
      (put_sects ?sl ?k (mem_sects (ram t) (r12 t) ?n) (ata_of ident b ini (pio t)))\<lparr>phase := DataOut ?sl (?k + ?n) [] 0\<rparr>" by blast
  have "arch_ide_device_write P s = Some (s\<lparr>rax := 1, rcx := 0, rdx := ucast b, rsi := i, rdi := d, zf := z',
        df := False, pio := (l' @ l) @ pio s\<rparr>)"
    unfolding t(3) w(1) by (simp add: t(1) transfer_end_def x86)
  moreover have "ata_of ident b ini ((l' @ l) @ pio s) = (put_sects ?sl ?k (mem_sects (ram s) (rdx s) ?n)
      (program (rsi s) (rcx s) (r8 s) a))\<lparr>phase := DataOut ?sl (?k + ?n) [] 0\<rparr>"
    using w(2) t(2) by (simp add: t(1) c_def put_sects_upd push_def)
  ultimately show ?thesis by blast
qed

end
