(* ===== verification/Ide_System.thy ===== *)
theory Ide_System
  imports Pata Ide_Disk
begin

text \<open>
  The block device of the x86 target put together: \<open>pata.c\<close> calling the routines of \<open>sys/pata.asm\<close> on a
  processor whose ports lead to a bus with two drives. A write followed by a read returns the data
  and leaves the rest of the disk alone; sector numbers of 29 bits and more address the wrong drive; a
  drive error inside a transfer makes the routines return to a wrong address.
\<close>

section \<open>The entry points on the processor\<close>

text \<open>The arguments in the registers of the System V convention, and the byte \<open>al\<close> as the result. The routines
  return to \<open>ra\<close>; \<open>idb\<close> is where the identity block of a device lies.\<close>

definition ide_args :: "u8 \<Rightarrow> u8 \<Rightarrow> u64 \<Rightarrow> u64 \<Rightarrow> u64 \<Rightarrow> ide_cpu \<Rightarrow> ide_cpu" where
  "ide_args bus_no dev_no buffer lba_sector sectors w =
     w\<lparr>rdi := ucast bus_no, rsi := ucast dev_no, rdx := buffer, rcx := lba_sector, r8 := sectors\<rparr>"

definition pc_ide :: "pdev \<Rightarrow> u64 \<Rightarrow> (u8 \<Rightarrow> u8 \<Rightarrow> u64) \<Rightarrow> ide_cpu ide_asm" where
  "pc_ide P ra idb =
     \<lparr>ide_detect = (\<lambda>bus_no dev_no identity w. do {
        w \<leftarrow> call ra (arch_ide_device_detect P)
               (w\<lparr>rdi := ucast bus_no, rsi := ucast dev_no, rdx := idb bus_no dev_no, ram := poke (idb bus_no dev_no) (wbytes identity) (ram w)\<rparr>);
        Some (lo8 (rax w), words (ram w) (idb bus_no dev_no) 256, w)
      }),
      ide_flush = (\<lambda>bus_no dev_no w. do {
        w \<leftarrow> call ra (arch_ide_device_flush P) (w\<lparr>rdi := ucast bus_no, rsi := ucast dev_no\<rparr>);
        Some (lo8 (rax w), w)
      }),
      ide_read = (\<lambda>bus_no dev_no buffer lba_sector sectors w. do {
        w \<leftarrow> call ra (arch_ide_device_read P) (ide_args bus_no dev_no buffer lba_sector sectors w);
        Some (lo8 (rax w), w)
      }),
      ide_write = (\<lambda>bus_no dev_no buffer lba_sector sectors w. do {
        w \<leftarrow> call ra (arch_ide_device_write P) (ide_args bus_no dev_no buffer lba_sector sectors w);
        Some (lo8 (rax w), w)
      })\<rparr>"

section \<open>Sectors and memory\<close>

lemma wbytes_words: "wbytes (words M p n) = peek M p (2 * n)"
proof (induction n arbitrary: p)
  case (Suc n)
  have "(ucast (word_at M p) :: u8) = M p" "(ucast (drop_bit 8 (word_at M p)) :: u8) = M (p + 1)"
    by (rule bit_word_eqI, auto simp: word_at_def bit_simps dest: bit_imp_le_length)+
  then show ?case using Suc by (simp add: add.assoc)
qed simp

lemma words_append: "words M p (m + n) = words M p m @ words M (p + 2 * of_nat m) n"
  by (induction m arbitrary: p) (simp_all add: algebra_simps)

lemma concat_mem_sects: "concat (mem_sects M p n) = words M p (256 * n)"
  by (induction n arbitrary: p) (simp_all add: words_append)

lemma mem_sects_lengths: "length (mem_sects M p n) = n" "\<forall>x \<in> set (mem_sects M p n). length x = 256"
  by (induction n arbitrary: p) simp_all

lemma sects_put_sects:
  "sects (put_sects sl k xs a) d i = (if d = sl \<and> k \<le> i \<and> i < k + length xs then xs ! (i - k) else sects a d i)"
proof (induction xs arbitrary: k a)
  case (Cons x xs)
  have "i \<ge> k \<and> \<not> i \<ge> Suc k \<longleftrightarrow> i = k" by auto
  then show ?case using Cons.IH [of "Suc k" "put_sect sl k x a"] by (auto simp: put_sect_def nth_Cons')
qed auto

lemma sects_read_back:
  "map (sects (put_sects sl k xs a) sl) [k ..< k + length xs] = xs"
  by (rule nth_equalityI) (simp_all add: sects_put_sects)

text \<open>The sectors of a drive keep their size.\<close>

lemma ata_wf_step: "ata_wf a \<Longrightarrow> ata_wf (ata_step ident b e a)"
  by (cases "(ident, b, e, a)" rule: ata_step.cases)
    (auto simp: ata_wf_def Let_def ata_command_def take_word_def split: phase.splits list.splits nat.splits)

lemma ata_wf_of: "ata_wf ini \<Longrightarrow> ata_wf (ata_of ident b ini t)"
  by (induction t) (simp_all add: ata_wf_step)

section \<open>Calls\<close>

abbreviation bus_base :: "ide_dev \<Rightarrow> u16" where
  "bus_base dev \<equiv> ide_base (ucast (ide_bus dev))"

text \<open>What a call of the block device leaves alone: the callee-saved registers, the stack, the devices and the
  journal.\<close>

definition ide_frame :: "ide_cpu pata \<Rightarrow> ide_cpu pata \<Rightarrow> bool" where
  "ide_frame s s' \<longleftrightarrow> saved (ports s) (ports s') \<and> ide_devs s' = ide_devs s \<and> journal s' = journal s"

lemma read_disk_ok:
  assumes bus: "ata_bus ident b ini P" and wf: "ata_wf ini"
    and dev: "d < 4" "dev = ide_devs s ! unat d" "detected dev" "b = bus_base dev" and n: "unat n \<le> 256"
    and a: "a = ata_of ident b ini (pio (ports s))"
  shows "\<exists>s'. read_disk (pc_ide P ra idb) buf d blck n s = Some (DISK_IO_OK, s')
    \<and> ram (ports s') = poke buf (wbytes (concat (asked a (ucast (bus_dev dev)) blck n))) (ram (ports s))
    \<and> sects (ata_of ident b ini (pio (ports s'))) = sects a \<and> ide_frame s s'"
proof -
  let ?w = "ide_args (ide_bus dev) (bus_dev dev) buf blck n (ports s)"
  have w: "rdi (push ra ?w) = ucast (ide_bus dev)" "rsi (push ra ?w) = ucast (bus_dev dev)" "rdx (push ra ?w) = buf"
    "rcx (push ra ?w) = blck" "r8 (push ra ?w) = n" "pio (push ra ?w) = pio (ports s)" "ram (push ra ?w) = ram (ports s)"
    by (simp_all add: ide_args_def push_def)
  have "ata_wf a" using ata_wf_of [OF wf] a by simp
  from read_ok [OF _ bus, of "push ra ?w", unfolded w, OF dev(4) a this n] obtain e z l where
    r: "arch_ide_device_read P (push ra ?w) = Some ((push ra ?w)\<lparr>rax := 1, rcx := 0, rdx := ucast b, rdi := e, zf := z,
      df := False, ram := poke buf (wbytes (concat (asked a (ucast (bus_dev dev)) blck n))) (ram (ports s)), pio := l @ pio (ports s)\<rparr>)"
    "ata_of ident b ini (l @ pio (ports s)) = (program (ucast (bus_dev dev)) blck n a)\<lparr>phase := DataIn []\<rparr>" by blast
  from call_returns [of "arch_ide_device_read P", OF r(1)] have
    "call ra (arch_ide_device_read P) ?w = Some (((push ra ?w)\<lparr>rax := 1, rcx := 0, rdx := ucast b, rdi := e, zf := z,
      df := False, ram := poke buf (wbytes (concat (asked a (ucast (bus_dev dev)) blck n))) (ram (ports s)), pio := l @ pio (ports s)\<rparr>)
      \<lparr>stack := stack ?w\<rparr>)" by (simp add: push_def)
  then show ?thesis using dev(1-3) r(2)
    by (simp add: read_disk_def pc_ide_def detected_def word_le_nat_alt word_less_nat_alt Let_def ide_frame_def saved_def push_def ide_args_def lo8_def)
qed

lemma write_disk_ok:
  assumes bus: "ata_bus ident b ini P"
    and dev: "d < 4" "dev = ide_devs s ! unat d" "detected dev" "b = bus_base dev" and n: "unat n \<le> 256"
    and a: "a = ata_of ident b ini (pio (ports s))"
  shows "\<exists>s'. write_disk (pc_ide P ra idb) buf d blck n s = Some (DISK_IO_OK, s')
    \<and> ram (ports s') = ram (ports s)
    \<and> sects (ata_of ident b ini (pio (ports s'))) = sects (put_sects (drive (ucast (bus_dev dev)) blck) (lba_start blck)
         (mem_sects (ram (ports s)) buf (sect_n n)) a) \<and> ide_frame s s'"
proof -
  let ?w = "ide_args (ide_bus dev) (bus_dev dev) buf blck n (ports s)" and ?sl = "drive (ucast (bus_dev dev)) blck"
  have w: "rdi (push ra ?w) = ucast (ide_bus dev)" "rsi (push ra ?w) = ucast (bus_dev dev)" "rdx (push ra ?w) = buf"
    "rcx (push ra ?w) = blck" "r8 (push ra ?w) = n" "pio (push ra ?w) = pio (ports s)" "ram (push ra ?w) = ram (ports s)"
    by (simp_all add: ide_args_def push_def)
  from write_ok [OF _ bus, of "push ra ?w", unfolded w, OF dev(4) a n] obtain e i z l where
    r: "arch_ide_device_write P (push ra ?w) = Some ((push ra ?w)\<lparr>rax := 1, rcx := 0, rdx := ucast b, rsi := i, rdi := e, zf := z,
      df := False, pio := l @ pio (ports s)\<rparr>)"
    "ata_of ident b ini (l @ pio (ports s)) = (put_sects ?sl (lba_start blck) (mem_sects (ram (ports s)) buf (sect_n n))
      (program (ucast (bus_dev dev)) blck n a))\<lparr>phase := DataOut ?sl (lba_start blck + sect_n n) [] 0\<rparr>" by blast
  have sects: "sects (ata_of ident b ini (l @ pio (ports s))) =
      sects (put_sects ?sl (lba_start blck) (mem_sects (ram (ports s)) buf (sect_n n)) a)"
    unfolding r(2) by (intro ext) (simp add: sects_put_sects)
  from call_returns [of "arch_ide_device_write P", OF r(1)] have
    "call ra (arch_ide_device_write P) ?w = Some (((push ra ?w)\<lparr>rax := 1, rcx := 0, rdx := ucast b, rsi := i, rdi := e, zf := z,
      df := False, pio := l @ pio (ports s)\<rparr>)\<lparr>stack := stack ?w\<rparr>)" by (simp add: push_def)
  then show ?thesis using dev(1-3) sects
    by (simp add: write_disk_def pc_ide_def detected_def word_le_nat_alt word_less_nat_alt Let_def ide_frame_def saved_def push_def ide_args_def lo8_def)
qed

section \<open>A drive error in the data phase\<close>

lemma wait_not_busy_error:
  assumes "lo16 (rdx s) = b" "\<not> bit (status P b (pio s)) 7" "bit (status P b (pio s)) 0"
  shows "wait_ide_device_not_busy P s =
    Some (s\<lparr>rax := set_lo8 0 (rax s), zf := True, pio := InB (b + 7) (status P b (pio s)) # pio s\<rparr>)"
proof -
  define s0 where "s0 = add_dx 7 ((push (rbx s) (push (rdx s) s))\<lparr>rbx := set_lo8 1 (rbx s)\<rparr>)"
  have s0: "lo16 (rdx s0) = b + 7" "pio s0 = pio s" using assms(1) by (simp_all add: s0_def add_dx_def x86)
  have "not_busy_loop P s0 = Some ((look P s0)\<lparr>rbx := set_lo8 0 (rbx s0), zf := True\<rparr>)"
    using assms(2,3) s0 by (subst not_busy_loop.simps)
      (simp add: in_al_def test_al_def look_def status_def bit_u8_and Let_def)
  then show ?thesis using assms(1)
    by (cases s) (simp add: wait_ide_device_not_busy_def s0_def add_dx_def x86 look_def status_def)
qed

lemma wait_drq_at_once:
  assumes "lo16 (rdx s) = b" "\<not> bit (status P b (pio s)) 7" "bit (status P b (pio s)) 3"
  shows "wait_ide_device_drq P s =
    Some (s\<lparr>rax := set_lo8 1 (rax s), zf := False, pio := InB (b + 7) (status P b (pio s)) # pio s\<rparr>)"
proof -
  define s0 where "s0 = (add_dx 7 ((push (rbx s) (push (rcx s) (push (rdx s) s)))\<lparr>rbx := set_lo8 1 (rbx s)\<rparr>))\<lparr>rcx := 0xFFFF\<rparr>"
  have s0: "lo16 (rdx s0) = b + 7" "pio s0 = pio s" using assms(1) by (simp_all add: s0_def add_dx_def x86)
  have "flag_loop P 0x08 s0 = Some ((look P s0)\<lparr>zf := False\<rparr>)"
    using flag_loop_look(2) [OF s0(1)] assms(2,3) s0(2) by (simp add: bit_u8_and)
  then show ?thesis using assms(1)
    by (cases s) (simp add: wait_ide_device_drq_def wait_flag_def s0_def add_dx_def x86 look_def status_def)
qed

text \<open>Both loops leave through the same exit, with the counter on the stack.\<close>

lemma loops_error:
  assumes "lo16 (rdx s) = b" "\<not> bit (status P b (pio s)) 7" "bit (status P b (pio s)) 0"
  shows "read_nxt_sect P s = Some ((push (rcx s) s)\<lparr>rax := set_lo8 0 (rax s), zf := True, pio := InB (b + 7) (status P b (pio s)) # pio s\<rparr>)"
    "write_nxt_sect P s = Some ((push (rcx s) s)\<lparr>rax := set_lo8 0 (rax s), zf := True, pio := InB (b + 7) (status P b (pio s)) # pio s\<rparr>)"
proof -
  have p: "lo16 (rdx (push (rcx s) s)) = b" "pio (push (rcx s) s) = pio s" "rax (push (rcx s) s) = rax s"
    using assms(1) by (simp_all add: push_def)
  note w = wait_not_busy_error [OF p(1), of P, unfolded p, OF assms(2,3)]
  show "read_nxt_sect P s = Some ((push (rcx s) s)\<lparr>rax := set_lo8 0 (rax s), zf := True, pio := InB (b + 7) (status P b (pio s)) # pio s\<rparr>)"
    by (subst read_nxt_sect.simps) (simp add: w or_al_def)
  show "write_nxt_sect P s = Some ((push (rcx s) s)\<lparr>rax := set_lo8 0 (rax s), zf := True, pio := InB (b + 7) (status P b (pio s)) # pio s\<rparr>)"
    by (subst write_nxt_sect.simps) (simp add: w or_al_def)
qed

text \<open>A bus whose drives fail every data command: not busy, asking for data and with the error flag set.\<close>

definition failing_bus :: "(bool \<Rightarrow> u16 list) \<Rightarrow> u16 \<Rightarrow> ata \<Rightarrow> pdev \<Rightarrow> bool" where
  "failing_bus ident b ini P \<longleftrightarrow> (\<forall>t. due (phase (ata_of ident b ini t)) \<longrightarrow>
     \<not> bit (status P b t) 7 \<and> bit (status P b t) 3 \<and> bit (status P b t) 0)"

lemma transfer_error:
  fixes s :: "'a ide_cpu_scheme"
  assumes b: "b = ide_base (rdi s)" and bus: "failing_bus ident b ini P"
    and c: "due (phase (ata_command ident cmd (program (rsi s) (rcx s) (r8 s) (ata_of ident b ini (pio s)))))"
    and nxt: "\<And>s :: 'a ide_cpu_scheme. lo16 (rdx s) = b \<Longrightarrow> \<not> bit (status P b (pio s)) 7 \<Longrightarrow> bit (status P b (pio s)) 0 \<Longrightarrow> nxt s =
      Some ((push (rcx s) s)\<lparr>rax := set_lo8 0 (rax s), zf := True, pio := InB (b + 7) (status P b (pio s)) # pio s\<rparr>)"
  shows "\<exists>s'. ide_transfer P cmd nxt s = Some s' \<and> rax s' = 0 \<and> stack s' = r12 s # stack s"
proof -
  let ?e = "(push (r12 s) s)\<lparr>r12 := rdx s\<rparr>"
  obtain l d t where t: "t = ?e\<lparr>rax := set_lo8 cmd 1, rdx := ucast b, rdi := d, zf := False, pio := l @ pio s\<rparr>"
    "ata_of ident b ini (l @ pio s) = ata_command ident cmd (program (rsi s) (rcx s) (r8 s) (ata_of ident b ini (pio s)))"
    "ide_transfer P cmd nxt s = (wait_ide_device_drq P t \<bind> (\<lambda>s. if zf (or_al s) then Some (transfer_end (or_al s)) else
        nxt (let s = or_rcx ((or_al s)\<lparr>rcx := r8 s\<rparr>) in if \<not> zf s then s else s\<lparr>rcx := 256\<rparr>) \<bind> (\<lambda>s. Some (transfer_end s))))"
    using transfer_start [where s = s and cmd = cmd and ident = ident and ini = ini and P = P and nxt = nxt] unfolding b by blast
  have due: "due (phase (ata_of ident b ini (l @ pio s)))" using c t(2) by simp
  have tb: "lo16 (rdx t) = b" "pio t = l @ pio s" by (simp_all add: t(1))
  have "\<not> bit (status P b (pio t)) 7" "bit (status P b (pio t)) 3" using bus due tb(2) by (simp_all add: failing_bus_def)
  note w = wait_drq_at_once [OF tb(1) this]
  define u where "u = ?e\<lparr>rax := set_lo8 1 1, rcx := (if r8 s = 0 then 256 else r8 s), rdx := ucast b, rdi := d, zf := (r8 s = 0),
    pio := InB (b + 7) (status P b (l @ pio s)) # l @ pio s\<rparr>"
  have "r8 t = r8 s" by (simp add: t(1) push_def)
  then have u: "(let s = or_rcx ((or_al (t\<lparr>rax := set_lo8 1 (rax t), zf := False, pio := InB (b + 7) (status P b (pio t)) # pio t\<rparr>))
      \<lparr>rcx := r8 t\<rparr>) in if \<not> zf s then s else s\<lparr>rcx := 256\<rparr>) = u"
    by (simp add: u_def t(1) x86)
  have "due (phase (ata_of ident b ini (pio u)))" "lo16 (rdx u) = b" using due by (simp_all add: u_def)
  moreover from this(1) have "\<not> bit (status P b (pio u)) 7" "bit (status P b (pio u)) 0" using bus by (simp_all add: failing_bus_def)
  ultimately have nxt': "nxt u = Some ((push (rcx u) u)\<lparr>rax := set_lo8 0 (rax u), zf := True, pio := InB (b + 7) (status P b (pio u)) # pio u\<rparr>)"
    using nxt by blast
  have zf: "\<not> zf (or_al (t\<lparr>rax := set_lo8 1 (rax t), zf := False, pio := InB (b + 7) (status P b (pio t)) # pio t\<rparr>))"
    by (simp add: or_al_def)
  have r8: "r8 (t\<lparr>rax := set_lo8 1 (rax t), zf := False, pio := InB (b + 7) (status P b (pio t)) # pio t\<rparr>) = r8 t" by simp
  have "ide_transfer P cmd nxt s = Some (transfer_end
      ((push (rcx u) u)\<lparr>rax := set_lo8 0 (rax u), zf := True, pio := InB (b + 7) (status P b (pio u)) # pio u\<rparr>))"
    unfolding t(3) w bind.bind_lunit if_not_P [OF zf] r8 u nxt' ..
  then show ?thesis by (simp add: transfer_end_def u_def x86)
qed

section \<open>Properties\<close>

text \<open>
  C26: what \<open>write_disk\<close> has written to a working drive, \<open>read_disk\<close> reads back: the bytes of the buffer written
  arrive in the other buffer in their order, for any number of blocks up to 256 (0 stands for 256). The
  write leaves every other sector of both drives of the bus alone, and the two calls return with the
  callee-saved registers and the stack as they were and without a journal entry.
\<close>

theorem ide_write_then_read:
  assumes "ata_bus ident b ini P" "ata_wf ini" and "d < 4" "dev = ide_devs s ! unat d" "detected dev" "b = bus_base dev"
    and "unat n \<le> 256"
  shows "\<exists>s1 s2. write_disk (pc_ide P ra idb) buf d blck n s = Some (DISK_IO_OK, s1)
    \<and> read_disk (pc_ide P ra idb) buf' d blck n s1 = Some (DISK_IO_OK, s2)
    \<and> ram (ports s2) = poke buf' (peek (ram (ports s)) buf (512 * sect_n n)) (ram (ports s))
    \<and> (\<forall>sl i. sl \<noteq> drive (ucast (bus_dev dev)) blck \<or> i < lba_start blck \<or> lba_start blck + sect_n n \<le> i \<longrightarrow>
         sects (ata_of ident b ini (pio (ports s2))) sl i = sects (ata_of ident b ini (pio (ports s))) sl i)
    \<and> ide_frame s s2"
proof -
  let ?sl = "drive (ucast (bus_dev dev)) blck" and ?k = "lba_start blck" and ?xs = "mem_sects (ram (ports s)) buf (sect_n n)"
  from write_disk_ok [OF assms(1,3-7) refl] obtain s1 where
    w: "write_disk (pc_ide P ra idb) buf d blck n s = Some (DISK_IO_OK, s1)" "ram (ports s1) = ram (ports s)"
    "sects (ata_of ident b ini (pio (ports s1))) = sects (put_sects ?sl ?k ?xs (ata_of ident b ini (pio (ports s))))" "ide_frame s s1"
    by blast
  have dev: "dev = ide_devs s1 ! unat d" using w(4) assms(4) by (simp add: ide_frame_def saved_def)
  from read_disk_ok [OF assms(1-3) dev assms(5-7) refl] obtain s2 where
    r: "read_disk (pc_ide P ra idb) buf' d blck n s1 = Some (DISK_IO_OK, s2)"
    "ram (ports s2) = poke buf' (wbytes (concat (asked (ata_of ident b ini (pio (ports s1))) (ucast (bus_dev dev)) blck n))) (ram (ports s1))"
    "sects (ata_of ident b ini (pio (ports s2))) = sects (ata_of ident b ini (pio (ports s1)))" "ide_frame s1 s2" by blast
  have "asked (ata_of ident b ini (pio (ports s1))) (ucast (bus_dev dev)) blck n = ?xs"
    using sects_read_back [of ?sl ?k ?xs] by (simp add: asked_def w(3) mem_sects_lengths)
  then have "ram (ports s2) = poke buf' (peek (ram (ports s)) buf (512 * sect_n n)) (ram (ports s))"
    using r(2) w(2) by (simp add: concat_mem_sects wbytes_words)
  moreover have "ide_frame s s2" using w(4) r(4) by (simp add: ide_frame_def saved_def)
  ultimately show ?thesis using w(1,3) r(1,3) by (auto simp: sects_put_sects mem_sects_lengths)
qed

text \<open>
  C29: sector numbers of the master from \<open>2 ^ 28\<close> on reach the other drive: bit 28 lands in the register bit that
  selects the slave, and the bits above it are lost. A write to sector \<open>2 ^ 28 + k\<close> of the master succeeds,
  leaves the master as it is and overwrites the sectors from \<open>k\<close> on of the slave.
\<close>

theorem ide_high_sector_hits_slave:
  assumes "ata_bus ident b ini P" and "d < 4" "dev = ide_devs s ! unat d" "detected dev" "b = bus_base dev"
    and "bus_dev dev = 0" "k < 2 ^ 28" "unat n \<le> 256" "a = ata_of ident b ini (pio (ports s))"
  shows "\<exists>s'. write_disk (pc_ide P ra idb) buf d (2 ^ 28 + of_nat k) n s = Some (DISK_IO_OK, s')
    \<and> (\<forall>i. sects (ata_of ident b ini (pio (ports s'))) False i = sects a False i
       \<and> sects (ata_of ident b ini (pio (ports s'))) True i =
           (if k \<le> i \<and> i < k + sect_n n then mem_sects (ram (ports s)) buf (sect_n n) ! (i - k) else sects a True i))"
proof -
  let ?blck = "2 ^ 28 + of_nat k :: u64"
  have k: "unat ?blck = 2 ^ 28 + k" using assms(7) by (simp add: unat_word_ariths unat_of_nat)
  have "bit (unat ?blck) 28" unfolding k using assms(7) by (simp add: bit_iff_odd div_add1_eq)
  then have "bit ?blck 28" by (simp add: bit_unsigned_iff)
  then have a: "drive (ucast (bus_dev dev)) ?blck" "lba_start ?blck = k"
    using assms(7) unfolding drive_def lba_start_def k by simp_all
  then have "drive (ucast (bus_dev dev)) ?blck = True" by simp
  from write_disk_ok [OF assms(1-5,8,9), of ra idb buf ?blck, unfolded this a(2)] show ?thesis
    by (elim exE conjE) (simp add: sects_put_sects mem_sects_lengths)
qed


section \<open>A machine with one drive\<close>

definition blank_ata :: ata where
  "blank_ata = \<lparr>head = 0, cnt = 0, lba0 = 0, lba1 = 0, lba2 = 0, phase = Idle, sects = (\<lambda>_ _. replicate 256 0)\<rparr>"

definition good_bus :: pdev where
  "good_bus t p = (if p = 0x1F0 then (case phase (ata_of (\<lambda>_. []) 0x1F0 blank_ata t) of DataIn (w # ws) \<Rightarrow> w | _ \<Rightarrow> 0) else 0x48)"

definition bad_bus :: pdev where
  "bad_bus t p = (if due (phase (ata_of (\<lambda>_. []) 0x1F0 blank_ata t)) then 0x49 else 0x40)"

definition ide_pc :: "ide_cpu pata" where
  "ide_pc = \<lparr>ide_devs = \<lparr>ide_letter = CHR ''C'', ide_bus = 0, bus_dev = 0, ata_detect = 1, capacity = 0, identity_block = []\<rparr> #
       replicate 3 \<lparr>ide_letter = IDE_NO_LETTER, ide_bus = 0, bus_dev = 1, ata_detect = 0, capacity = 0, identity_block = []\<rparr>,
     journal = [], ports = \<lparr>rax = 0, rbx = 0, rcx = 0, rdx = 0, rsi = 0, rdi = 0, r8 = 0, r12 = 0x7000, zf = False, df = False,
       stack = [], ram = (\<lambda>p. ucast p), pio = []\<rparr>\<rparr>"

lemma blank_wf: "ata_wf blank_ata"
  by (simp add: ata_wf_def blank_ata_def)

lemma good_bus_works: "ata_bus (\<lambda>_. []) 0x1F0 blank_ata good_bus"
proof -
  have "status good_bus 0x1F0 t = 0x48" for t by (simp add: status_def good_bus_def)
  then show ?thesis by (auto simp: ata_bus_def good_bus_def bit_numeral_rec)
qed

lemma bad_bus_fails: "failing_bus (\<lambda>_. []) 0x1F0 blank_ata bad_bus"
  by (simp add: failing_bus_def status_def bad_bus_def bit_numeral_rec)

lemma ide_pc_dev: "detected (ide_devs ide_pc ! unat (0 :: u64))" "bus_base (ide_devs ide_pc ! unat (0 :: u64)) = 0x1F0"
  "bus_dev (ide_devs ide_pc ! unat (0 :: u64)) = 0" "(0 :: u64) < 4"
  by (simp_all add: ide_pc_def detected_def ide_base_def)

theorem ide_write_then_read_witness:
  "\<exists>s1 s2. write_disk (pc_ide good_bus 0x1000 (\<lambda>_ _. 0)) 0x2000 0 5 2 ide_pc = Some (DISK_IO_OK, s1)
    \<and> read_disk (pc_ide good_bus 0x1000 (\<lambda>_ _. 0)) 0x9000 0 5 2 s1 = Some (DISK_IO_OK, s2)
    \<and> ram (ports s2) = poke 0x9000 (peek ucast 0x2000 1024) ucast"
  using ide_write_then_read [OF good_bus_works blank_wf ide_pc_dev(4) refl ide_pc_dev(1) ide_pc_dev(2) [symmetric],
    of 2 "0x1000" "\<lambda>_ _. 0" "0x2000" 5 "0x9000"]
  by (auto simp: ide_pc_def sect_n_def)

theorem ide_high_sector_hits_slave_witness:
  "\<exists>s'. write_disk (pc_ide good_bus 0x1000 (\<lambda>_ _. 0)) 0x2000 0 (2 ^ 28 + of_nat 7) 1 ide_pc = Some (DISK_IO_OK, s')
    \<and> sects (ata_of (\<lambda>_. []) 0x1F0 blank_ata (pio (ports s'))) True 7 = words ucast 0x2000 256"
  using ide_high_sector_hits_slave [OF good_bus_works ide_pc_dev(4) refl ide_pc_dev(1) ide_pc_dev(2) [symmetric] ide_pc_dev(3),
    of 7 1 _ "0x1000" "\<lambda>_ _. 0" "0x2000", OF _ _ refl]
  by (auto simp: ide_pc_def sect_n_def)


end
