(* ===== verification/Ide_Detect.thy ===== *)
theory Ide_Detect
  imports Ide_System
begin

text \<open>
  Detection of the drives at start-up: \<open>disk_io\<close> of \<open>pata.c\<close> down to the ports. A bus with two working drives
  is found with what the drives report about themselves, a floating bus as empty.
\<close>

section \<open>Identification\<close>

text \<open>The instructions after the command has been sent.\<close>

definition identify_answer :: "pdev \<Rightarrow> 'a ide_cpu_scheme \<Rightarrow> 'a ide_cpu_scheme option" where
  "identify_answer P s = (
     let s = read_ide_status_reg P s;
         s = cmp_al 0xFF s
     in if zf s then Some (s\<lparr>rax := set_lo16 0 (rax s)\<rparr>)
     else let s = or_al s in
       if zf s then Some (s\<lparr>rax := set_lo16 0 (rax s)\<rparr>)
       else do {
         s \<leftarrow> wait_ide_device_ready P s;
         let s = cmp_al 1 s;
         if \<not> zf s then Some (s\<lparr>rax := set_lo16 0 (rax s)\<rparr>)
         else do {
           let s = mov_dil (ucast IDE_LBA_MID_REG) s;
           let s = read_ide_reg P s;
           let s = xchg_ah_al s;
           let s = mov_dil (ucast IDE_LBA_HIGH_REG) s;
           let s = read_ide_reg P s;
           let s = xchg_ah_al s;
           let s = s\<lparr>zf := (lo16 (rax s) = 0xEB14)\<rparr>;
           if zf s then Some (s\<lparr>rax := set_lo16 2 (rax s)\<rparr>)
           else do {
             let s = read_ide_status_reg P s;
             let s = test_al IDE_DEVICE_ERROR_FLAG s;
             if \<not> zf s then Some (s\<lparr>rax := set_lo16 0 (rax s)\<rparr>)
             else do {
               s \<leftarrow> wait_ide_device_drq P s;
               Some (s\<lparr>rax := set_lo16 (ucast (lo8 (rax s))) (rax s), zf := True\<rparr>)
             }
           }
         }
       })"

lemma lo16_set_lo8_set_lo8: "lo16 (set_lo8 v (set_lo8 w 0)) = ucast v" "lo16 (set_lo8 v 0) = ucast v"
  by (rule bit_word_eqI, auto simp: lo16_def set_lo8_def bit_simps dest: bit_imp_le_length)+

definition identified :: "(bool \<Rightarrow> u16 list) \<Rightarrow> bool \<Rightarrow> u8 \<Rightarrow> ata \<Rightarrow> ata" where
  "identified ident sl h a = a\<lparr>head := h, cnt := 0, lba0 := 0, lba1 := 0, lba2 := 0, phase := DataIn (ident sl)\<rparr>"

lemma identify_starts:
  fixes s :: "'a ide_cpu_scheme"
  assumes "lo16 (rdx s) = b"
  shows "\<exists>a z l h. ide_identify P s = identify_answer P (s\<lparr>rax := a, rdi := set_lo8 7 0, zf := z, pio := l @ pio s\<rparr>)
    \<and> ata_of ident b ini (l @ pio s) = identified ident (bit (lo8 (rax s)) 0) h (ata_of ident b ini (pio s))"
proof -
  let ?h = "push_bit 4 (lo8 (rax s)) OR 0xA0 :: u8"
  define s1 where "s1 = s\<lparr>rax := set_lo8 ?h (rax s), rdi := set_lo8 6 0, zf := (b + 6 = 0), pio := OutB (b + 6) ?h # pio s\<rparr>"
  obtain z1 l1 where d1: "ide_ata_spec_delay P s1 = s1\<lparr>zf := z1, pio := l1 @ pio s1\<rparr>" "quiet l1" using delay_eq by blast
  let ?w = "[OutB (b + 7) 0xEC, OutB (b + 5) 0, OutB (b + 4) 0, OutB (b + 3) 0, OutB (b + 2) 0] @ l1 @ [OutB (b + 6) ?h]"
  define s2 where "s2 = s\<lparr>rax := set_lo8 0xEC (rax s), rdi := set_lo8 7 0, zf := (b + 7 = 0), pio := ?w @ pio s\<rparr>"
  obtain z2 l2 where d2: "ide_ata_spec_delay P s2 = s2\<lparr>zf := z2, pio := l2 @ pio s2\<rparr>" "quiet l2" using delay_eq by blast
  have 1: "write_ide_reg (mov_dil 6 (mov_al (lo8 (rax (mov_al (push_bit 4 (lo8 (rax (s\<lparr>rdi := 0, zf := True\<rparr>)))) (s\<lparr>rdi := 0, zf := True\<rparr>)))
      OR 0xA0) (mov_al (push_bit 4 (lo8 (rax (s\<lparr>rdi := 0, zf := True\<rparr>)))) (s\<lparr>rdi := 0, zf := True\<rparr>)))) = s1"
    using assms by (cases s) (simp add: s1_def write_ide_reg_eq mov_dil_def mov_al_def lo16_set_lo8_set_lo8)
  have 2: "write_ide_reg (mov_dil 7 (mov_al 0xEC (clear_ide_reg (mov_dil 5 (clear_ide_reg (mov_dil 4 (clear_ide_reg (mov_dil 3
      (clear_ide_reg (mov_dil 2 (s1\<lparr>zf := z1, pio := l1 @ pio s1\<rparr>))))))))))) = s2"
    using assms by (cases s) (simp add: s1_def s2_def write_ide_reg_eq clear_ide_reg_def mov_dil_def mov_al_def lo16_set_lo8_set_lo8)
  have "ide_identify P s = identify_answer P (s2\<lparr>zf := z2, pio := l2 @ pio s2\<rparr>)"
    using 1 d1(1) 2 d2(1) by (simp add: ide_identify_def identify_answer_def Let_def)
  moreover have "ata_of ident b ini ((l2 @ ?w) @ pio s) = identified ident (bit (lo8 (rax s)) 0) ?h (ata_of ident b ini (pio s))"
    using d1(2) d2(2) by (simp add: identified_def ata_command_def Let_def bit_simps bit_numeral_rec)
  ultimately show ?thesis
    by (intro exI [of _ "set_lo8 0xEC (rax s)"] exI [of _ z2] exI [of _ "l2 @ ?w"] exI [of _ ?h]) (simp add: s2_def)
qed

text \<open>A bus with two working drives that announce themselves: the identification is 256 words, no error is ever
  shown and the signature of a packet device does not appear.\<close>

definition ata_present :: "(bool \<Rightarrow> u16 list) \<Rightarrow> u16 \<Rightarrow> ata \<Rightarrow> pdev \<Rightarrow> bool" where
  "ata_present ident b ini P \<longleftrightarrow> ata_bus ident b ini P \<and> (\<forall>sl. length (ident sl) = 256)
     \<and> (\<forall>t. status P b t AND 0x21 = 0 \<and> ucast (P t (b + IDE_LBA_HIGH_REG)) \<noteq> (0xEB :: u8))"

lemma status_present:
  assumes "ata_present ident b ini P"
  shows "status P b t \<noteq> 0xFF" "status P b t \<noteq> 0" "status P b t AND 0x21 = 0"
proof -
  have e: "status P b t AND 0x21 = 0" for t using assms by (simp add: ata_present_def)
  then show "status P b t AND 0x21 = 0" .
  show "status P b t \<noteq> 0xFF" using e [of t] by auto
  have "bit (status P b t) 7 \<or> bit (status P b t) 6" using assms by (auto simp: ata_present_def ata_bus_def)
  then show "status P b t \<noteq> 0" by auto
qed

lemma read_status_eq:
  "lo16 (rdx s) = b \<Longrightarrow> rdi s = set_lo8 v 0 \<Longrightarrow> read_ide_status_reg P s =
     s\<lparr>rax := set_lo8 (status P b (pio s)) (rax s), rdi := set_lo8 7 0, zf := (b + 7 = 0), pio := InB (b + 7) (status P b (pio s)) # pio s\<rparr>"
  by (cases s) (simp add: read_ide_status_reg_def read_ide_reg_eq mov_dil_def lo16_set_lo8_set_lo8 status_def Let_def)

lemma read_reg_eq:
  "lo16 (rdx s) = b \<Longrightarrow> rdi s = set_lo8 v 0 \<Longrightarrow> read_ide_reg P (mov_dil r s) =
     s\<lparr>rax := set_lo8 (ucast (P (pio s) (b + ucast r))) (rax s), rdi := set_lo8 r 0, zf := (b + ucast r = 0),
       pio := InB (b + ucast r) (ucast (P (pio s) (b + ucast r))) # pio s\<rparr>"
  by (cases s) (simp add: read_ide_reg_eq mov_dil_def lo16_set_lo8_set_lo8 Let_def)

text \<open>The two exchanges put the registers together, the high one in the high byte.\<close>

definition xchg :: "u64 \<Rightarrow> u64" where
  "xchg r = set_lo16 (push_bit 8 (lo16 r) OR drop_bit 8 (lo16 r)) r"

lemma xchg_ah_al_eq: "xchg_ah_al s = s\<lparr>rax := xchg (rax s)\<rparr>"
  by (simp add: xchg_ah_al_def xchg_def)

lemma xchg_high: "(ucast (drop_bit 8 (lo16 (xchg (set_lo8 v r)))) :: u8) = v"
  by (rule bit_word_eqI) (auto simp: xchg_def lo16_def set_lo16_def set_lo8_def bit_simps dest: bit_imp_le_length)

lemma signature: "v \<noteq> 0xEB \<Longrightarrow> lo16 (xchg (set_lo8 v r)) \<noteq> 0xEB14"
proof
  assume "v \<noteq> 0xEB" "lo16 (xchg (set_lo8 v r)) = 0xEB14"
  then show False using xchg_high [of v r] by simp
qed

lemma lo8_set_lo16 [simp]: "lo8 (set_lo16 w r) = ucast w"
  by (rule bit_word_eqI) (auto simp: lo8_def set_lo16_def bit_simps)

lemma identify_answer_ok:
  assumes pr: "ata_present ident b ini P" and s: "lo16 (rdx s) = b" "rdi s = set_lo8 v 0"
    and due: "due (phase (ata_of ident b ini (pio s)))"
  shows "\<exists>a d z l. identify_answer P s = Some (s\<lparr>rax := set_lo16 1 a, rdi := d, zf := z, pio := l @ pio s\<rparr>) \<and> quiet l"
proof -
  have bus: "ata_bus ident b ini P" using pr by (simp add: ata_present_def)
  let ?st = "\<lambda>s. InB (b + 7) (status P b (pio s))"
  define s1 where "s1 = s\<lparr>rax := set_lo8 (status P b (pio s)) (rax s), rdi := set_lo8 7 0, zf := False, pio := ?st s # pio s\<rparr>"
  have 1: "or_al (cmp_al 0xFF (read_ide_status_reg P s)) = s1" "\<not> zf (cmp_al 0xFF (read_ide_status_reg P s))" "\<not> zf s1"
    using status_present [OF pr] by (simp_all add: read_status_eq [OF s] x86 s1_def)
  have "lo16 (rdx s1) = b" using s(1) by (simp add: s1_def)
  from wait_ready_ok [OF bus this] obtain z2 l2 where
    2: "wait_ide_device_ready P s1 = Some (s1\<lparr>rax := set_lo8 1 (rax s1), zf := z2, pio := l2 @ pio s1\<rparr>)" "quiet l2" by blast
  define s2 where "s2 = s1\<lparr>rax := set_lo8 1 (rax s1), zf := True, pio := l2 @ pio s1\<rparr>"
  have c2: "cmp_al 1 (s1\<lparr>rax := set_lo8 1 (rax s1), zf := z2, pio := l2 @ pio s1\<rparr>) = s2" by (simp add: s2_def cmp_al_def)
  have b2: "lo16 (rdx s2) = b" "rdi s2 = set_lo8 7 0" using s(1) by (simp_all add: s2_def s1_def)
  define s3 where "s3 = xchg_ah_al (read_ide_reg P (mov_dil 4 s2))"
  have s3: "s3 = s2\<lparr>rax := rax s3, rdi := set_lo8 4 0, zf := (b + 4 = 0), pio := InB (b + 4) (ucast (P (pio s2) (b + 4))) # pio s2\<rparr>"
    by (simp add: s3_def read_reg_eq [OF b2] xchg_ah_al_eq)
  have b3: "lo16 (rdx s3) = b" "rdi s3 = set_lo8 4 0" using b2(1) by (subst s3, simp)+
  define s4 where "s4 = (xchg_ah_al (read_ide_reg P (mov_dil 5 s3)))\<lparr>zf := False\<rparr>"
  have s4: "s4 = s3\<lparr>rax := rax s4, rdi := set_lo8 5 0, zf := False, pio := InB (b + 5) (ucast (P (pio s3) (b + 5))) # pio s3\<rparr>"
    by (simp add: s4_def read_reg_eq [OF b3] xchg_ah_al_eq)
  have sig: "lo16 (rax (xchg_ah_al (read_ide_reg P (mov_dil 5 s3)))) \<noteq> 0xEB14"
    using pr signature by (simp add: read_reg_eq [OF b3] xchg_ah_al_eq ata_present_def)
  have b4: "lo16 (rdx s4) = b" "rdi s4 = set_lo8 5 0" using b3(1) by (subst s4, simp)+
  define s5 where "s5 = s4\<lparr>rax := set_lo8 (status P b (pio s4)) (rax s4), rdi := set_lo8 7 0, zf := True, pio := ?st s4 # pio s4\<rparr>"
  have 5: "test_al 0x21 (read_ide_status_reg P s4) = s5"
    using status_present [OF pr] by (simp add: read_status_eq [OF b4] test_al_def s5_def)
  have pio: "pio s5 = ?st s4 # InB (b + 5) (ucast (P (pio s3) (b + 5))) # InB (b + 4) (ucast (P (pio s2) (b + 4))) # l2 @ [?st s] @ pio s"
    unfolding s5_def by (simp, subst s4, simp, subst s3, simp add: s2_def s1_def)
  let ?l = "[?st s4, InB (b + 5) (ucast (P (pio s3) (b + 5))), InB (b + 4) (ucast (P (pio s2) (b + 4)))] @ l2 @ [?st s]"
  have q: "quiet ?l" using 2(2) by simp
  have "due (phase (ata_of ident b ini (pio s5)))" using due q unfolding pio by (simp add: 2(2))
  moreover have "lo16 (rdx s5) = b" using b4 by (simp add: s5_def)
  ultimately obtain z6 l6 where
    6: "wait_ide_device_drq P s5 = Some (s5\<lparr>rax := set_lo8 1 (rax s5), zf := z6, pio := l6 @ pio s5\<rparr>)" "quiet l6"
    using wait_drq_ok [OF bus] by blast
  have "identify_answer P s = Some ((s5\<lparr>rax := set_lo8 1 (rax s5), zf := z6, pio := l6 @ pio s5\<rparr>)
      \<lparr>rax := set_lo16 1 (set_lo8 1 (rax s5)), zf := True\<rparr>)"
    using 1 2(1) c2 5 6(1) sig
    by (simp add: identify_answer_def Let_def s2_def [symmetric] s3_def [symmetric] s4_def [symmetric]) (simp add: s2_def s5_def)
  moreover obtain r where "s5 = s\<lparr>rax := r, rdi := set_lo8 7 0, zf := True, pio := ?l @ pio s\<rparr>"
  proof
    show "s5 = s\<lparr>rax := rax s5, rdi := set_lo8 7 0, zf := True, pio := ?l @ pio s\<rparr>"
      unfolding s5_def by (subst s4, subst s3) (simp add: s2_def s1_def, subst s4, subst s3, simp add: s2_def s1_def)
  qed
  ultimately have "identify_answer P s = Some (s\<lparr>rax := set_lo16 1 (set_lo8 1 r), rdi := set_lo8 7 0, zf := True,
      pio := (l6 @ ?l) @ pio s\<rparr>)" by simp
  moreover have "quiet (l6 @ ?l)" using q 6(2) by simp
  ultimately show ?thesis by blast
qed

section \<open>Detection\<close>

lemma call_done:
  "routine (push ra s) = Some ((push ra s)\<lparr>rax := a, rcx := c, rdx := d, rdi := i, zf := z, ram := m, pio := l\<rparr>) \<Longrightarrow>
   call ra routine s = Some (s\<lparr>rax := a, rcx := c, rdx := d, rdi := i, zf := z, ram := m, pio := l\<rparr>)" for s :: "'a ide_cpu_scheme"
  by (cases s) (simp add: call_def push_def pop_def)

lemma detect_ok:
  assumes b: "b = ide_base (rdi s)" and pr: "ata_present ident b ini P" and df: "\<not> df s"
  shows "\<exists>d z l. arch_ide_device_detect P s = Some (s\<lparr>rax := 1, rcx := 0, rdx := ucast b, rdi := d, zf := z,
      ram := poke (rdx s) (wbytes (ident (bit (lo8 (rsi s)) 0))) (ram s), pio := l @ pio s\<rparr>)"
proof -
  have bus: "ata_bus ident b ini P" and len: "\<And>sl. length (ident sl) = 256" using pr by (simp_all add: ata_present_def)
  let ?id = "ident (bit (lo8 (rsi s)) 0)"
  define s0 where "s0 = mov_al (lo8 (rsi s)) (select_ide_controller ((push (r12 s) s)\<lparr>r12 := rdx s\<rparr>))"
  have s0: "s0 = s\<lparr>rax := rax s0, rdx := ucast b, r12 := rdx s, zf := False, stack := r12 s # stack s\<rparr>"
    by (cases s) (simp add: s0_def select_eq b x86)
  have b0: "lo16 (rdx s0) = b" "lo8 (rax s0) = lo8 (rsi s)" "pio s0 = pio s"
    by (subst s0, simp) (simp_all add: s0_def select_eq x86)
  from identify_starts [OF b0(1), of P ident ini, unfolded b0(2,3)] obtain a z l h where
    i: "ide_identify P s0 = identify_answer P (s0\<lparr>rax := a, rdi := set_lo8 7 0, zf := z, pio := l @ pio s\<rparr>)"
    "ata_of ident b ini (l @ pio s) = identified ident (bit (lo8 (rsi s)) 0) h (ata_of ident b ini (pio s))" by blast
  let ?s = "s0\<lparr>rax := a, rdi := set_lo8 7 0, zf := z, pio := l @ pio s\<rparr>"
  have ph: "phase (ata_of ident b ini (l @ pio s)) = DataIn ?id" using i(2) by (simp add: identified_def)
  then have "lo16 (rdx ?s) = b" "rdi ?s = set_lo8 7 0" "due (phase (ata_of ident b ini (pio ?s)))"
    using b0(1) len [of "bit (lo8 (rsi s)) 0"] by auto
  from identify_answer_ok [OF pr this] obtain a' d' z' l' where
    j: "identify_answer P ?s = Some (?s\<lparr>rax := set_lo16 1 a', rdi := d', zf := z', pio := l' @ pio ?s\<rparr>)" "quiet l'" by blast
  define s1 where "s1 = s0\<lparr>rax := set_lo16 1 a', pio := l' @ l @ pio s, zf := False, rdi := r12 s0, rcx := 256\<rparr>"
  have "phase (ata_of ident b ini (pio s1)) = DataIn (?id @ [])" "lo16 (rdx s1) = b" "\<not> df s1"
    using ph j(2) b0(1) df by (simp_all add: s1_def) (subst s0, simp)
  from rep_insw [OF bus this] obtain l2 where
    r: "rep_n (length ?id) (insw P) (\<lambda>_. False) s1 = s1\<lparr>rcx := (if ?id = [] then rcx s1 else 0), rdi := rdi s1 + 2 * of_nat (length ?id),
         ram := poke (rdi s1) (wbytes ?id) (ram s1), pio := l2 @ pio s1\<rparr>" by blast
  have "?id \<noteq> []" using len [of "bit (lo8 (rsi s)) 0"] by auto
  then have rep: "rep (insw P) s1 = s1\<lparr>rcx := 0, rdi := rdi s1 + 512, ram := poke (rdi s1) (wbytes ?id) (ram s1), pio := l2 @ pio s1\<rparr>"
    using r len by (simp add: rep_def s1_def)
  have "arch_ide_device_detect P s = (let s = rep (insw P) s1; s = s\<lparr>rax := ucast (lo8 (rax s))\<rparr>; (r, s) = pop s in Some (s\<lparr>r12 := r\<rparr>))"
  proof -
    let ?u = "select_ide_controller ((push (r12 s) s)\<lparr>r12 := rdx (push (r12 s) s)\<rparr>)"
    have "mov_al (lo8 (rsi ?u)) ?u = s0" by (simp add: s0_def select_eq push_def)
    then show ?thesis using i(1) j(1) unfolding arch_ide_device_detect_def Let_def
      by (simp add: or_al_def cmp_al_def s1_def)
  qed
  also have "\<dots> = Some (s\<lparr>rax := 1, rcx := 0, rdx := ucast b, rdi := rdx s + 512, zf := False,
      ram := poke (rdx s) (wbytes ?id) (ram s), pio := (l2 @ l' @ l) @ pio s\<rparr>)"
  proof -
    obtain ax where "s0 = s\<lparr>rax := ax, rdx := ucast b, r12 := rdx s, zf := False, stack := r12 s # stack s\<rparr>" using s0 by blast
    then show ?thesis unfolding rep by (cases s) (simp add: s1_def pop_def)
  qed
  finally show ?thesis by blast
qed

text \<open>No drive drives the lines of an empty bus: its status register reads as all ones.\<close>

definition empty_bus :: "u16 \<Rightarrow> pdev \<Rightarrow> bool" where
  "empty_bus b P \<longleftrightarrow> (\<forall>t. status P b t = 0xFF)"

lemma detect_none:
  assumes b: "b = ide_base (rdi s)" and e: "empty_bus b P"
  shows "\<exists>d z l. arch_ide_device_detect P s = Some (s\<lparr>rax := 0, rcx := rcx s, rdx := ucast b, rdi := d, zf := z, ram := ram s, pio := l @ pio s\<rparr>)"
proof -
  let ?u = "select_ide_controller ((push (r12 s) s)\<lparr>r12 := rdx (push (r12 s) s)\<rparr>)"
  define s0 where "s0 = mov_al (lo8 (rsi ?u)) ?u"
  obtain ax where s0: "s0 = s\<lparr>rax := ax, rdx := ucast b, r12 := rdx s, zf := False, stack := r12 s # stack s\<rparr>"
  proof
    show "s0 = s\<lparr>rax := rax s0, rdx := ucast b, r12 := rdx s, zf := False, stack := r12 s # stack s\<rparr>"
      by (cases s) (simp add: s0_def select_eq b x86)
  qed
  have b0: "lo16 (rdx s0) = b" "pio s0 = pio s" by (simp_all add: s0)
  from identify_starts [OF b0(1), of P] obtain a z l where
    i: "ide_identify P s0 = identify_answer P (s0\<lparr>rax := a, rdi := set_lo8 7 0, zf := z, pio := l @ pio s\<rparr>)" unfolding b0(2) by blast
  let ?s = "s0\<lparr>rax := a, rdi := set_lo8 7 0, zf := z, pio := l @ pio s\<rparr>"
  have dx: "lo16 (rdx ?s) = b" "rdi ?s = set_lo8 7 0" by (simp_all add: s0)
  have "status P b (pio ?s) = 0xFF" using e by (simp add: empty_bus_def)
  then have j: "identify_answer P ?s = Some (?s\<lparr>rax := set_lo16 0 (set_lo8 0xFF a), zf := True, pio := InB (b + 7) 0xFF # l @ pio s\<rparr>)"
    using read_status_eq [OF dx, of P] by (simp add: identify_answer_def cmp_al_def Let_def)
  have "arch_ide_device_detect P s = Some (s\<lparr>rax := 0, rcx := rcx s, rdx := ucast b, rdi := set_lo8 7 0, zf := True, ram := ram s,
      pio := (InB (b + 7) 0xFF # l) @ pio s\<rparr>)"
    using i j s0_def [symmetric] unfolding arch_ide_device_detect_def Let_def
    by (simp add: or_al_def, cases s) (simp add: s0 pop_def)
  then show ?thesis by blast
qed

section \<open>The identity block in memory\<close>

lemma wbytes_inj: "wbytes us = wbytes vs \<Longrightarrow> us = vs"
proof (induction us arbitrary: vs)
  case Nil
  then show ?case by (cases vs) simp_all
next
  case (Cons u us)
  then obtain v vs' where v: "vs = v # vs'" by (cases vs) simp_all
  with Cons.prems have "(ucast u :: u8) = ucast v" "(ucast (drop_bit 8 u) :: u8) = ucast (drop_bit 8 v)" "us = vs'"
    using Cons.IH by simp_all
  moreover have "u = v"
  proof (rule bit_word_eqI)
    fix i assume i: "i < LENGTH(16)"
    have "bit (ucast u :: u8) i = bit (ucast v :: u8) i"
      "bit (ucast (drop_bit 8 u) :: u8) (i - 8) = bit (ucast (drop_bit 8 v) :: u8) (i - 8)" using calculation(1,2) by simp_all
    then show "bit u i = bit v i" using i by (cases "i < 8") (auto simp: bit_simps)
  qed
  ultimately show ?case using v by simp
qed

lemma words_poke: "2 * length ws \<le> 2 ^ 64 \<Longrightarrow> words (poke p (wbytes ws) M) p (length ws) = ws"
  using peek_poke [of "wbytes ws" p M] by (intro wbytes_inj) (simp add: wbytes_words)

text \<open>The detection routine as \<open>pata.c\<close> calls it.\<close>

definition pc_frame :: "ide_cpu \<Rightarrow> ide_cpu \<Rightarrow> bool" where
  "pc_frame w w' \<longleftrightarrow> saved w w' \<and> df w' = df w"

lemma pc_detect_ata:
  assumes "ata_present ident (ide_base (ucast bus_no)) ini P" "\<not> df w"
  shows "\<exists>w'. ide_detect (pc_ide P ra idb) bus_no dev_no blk w = Some (1, ident (bit dev_no 0), w') \<and> pc_frame w w'"
proof -
  let ?w = "w\<lparr>rdi := ucast bus_no, rsi := ucast dev_no, rdx := idb bus_no dev_no, ram := poke (idb bus_no dev_no) (wbytes blk) (ram w)\<rparr>"
  have w: "rdi (push ra ?w) = ucast bus_no" "rsi (push ra ?w) = ucast dev_no" "rdx (push ra ?w) = idb bus_no dev_no"
    "\<not> df (push ra ?w)" using assms(2) by (simp_all add: push_def)
  from detect_ok [where s = "push ra ?w", unfolded w(1-3), OF refl assms(1) w(4)] obtain d z l where
    r: "arch_ide_device_detect P (push ra ?w) = Some ((push ra ?w)\<lparr>rax := 1, rcx := 0, rdx := ucast (ide_base (ucast bus_no)), rdi := d, zf := z,
      ram := poke (idb bus_no dev_no) (wbytes (ident (bit (lo8 (ucast dev_no)) 0))) (ram (push ra ?w)), pio := l @ pio (push ra ?w)\<rparr>)"
    by blast
  have "lo8 (ucast dev_no) = dev_no" "lo8 1 = 1" by (simp, simp add: lo8_def)
  moreover have "length (ident (bit dev_no 0)) = 256" using assms(1) by (simp add: ata_present_def)
  ultimately show ?thesis
    using call_done [of "arch_ide_device_detect P", OF r] words_poke [of "ident (bit dev_no 0)" "idb bus_no dev_no"]
    by (simp add: pc_ide_def pc_frame_def saved_def)
qed

lemma pc_detect_none:
  assumes "empty_bus (ide_base (ucast bus_no)) P"
  shows "\<exists>blk' w'. ide_detect (pc_ide P ra idb) bus_no dev_no blk w = Some (0, blk', w') \<and> pc_frame w w'"
proof -
  let ?w = "w\<lparr>rdi := ucast bus_no, rsi := ucast dev_no, rdx := idb bus_no dev_no, ram := poke (idb bus_no dev_no) (wbytes blk) (ram w)\<rparr>"
  have "rdi (push ra ?w) = ucast bus_no" by (simp add: push_def)
  from detect_none [where s = "push ra ?w", unfolded this, OF refl assms] obtain d z l where
    r: "arch_ide_device_detect P (push ra ?w) = Some ((push ra ?w)\<lparr>rax := 0, rcx := rcx (push ra ?w), rdx := ucast (ide_base (ucast bus_no)),
      rdi := d, zf := z, ram := ram (push ra ?w), pio := l @ pio (push ra ?w)\<rparr>)" by blast
  from call_done [of "arch_ide_device_detect P", OF r] show ?thesis by (simp add: pc_ide_def pc_frame_def saved_def)
qed

text \<open>
  C28: start-up on a PC with two ATA drives on the primary bus and no secondary bus: \<open>disk_io\<close> returns with the drives
  as C and D, each with the 256 words the drive has reported and the capacity in them, and with
  two empty slots. The callee-saved registers and the stack are the caller's.
\<close>

theorem ide_finds_drives:
  assumes "ata_present ident 0x1F0 ini P" "empty_bus 0x170 P" "\<not> df (ports s)"
  shows "\<exists>s'. disk_io (pc_ide P ra idb) s = Some s' \<and> pc_frame (ports s) (ports s')
    \<and> map ide_letter (ide_devs s') = [CHR ''C'', CHR ''D'', IDE_NO_LETTER, IDE_NO_LETTER]
    \<and> map ata_detect (ide_devs s') = [IDE_ATA_DEVICE, IDE_ATA_DEVICE, IDE_NO_DEVICE, IDE_NO_DEVICE]
    \<and> map identity_block (take 2 (ide_devs s')) = [ident False, ident True]
    \<and> map capacity (ide_devs s') = [cap_sectors (ident False) * 512, cap_sectors (ident True) * 512, 0, 0]"
proof -
  have base: "ide_base (ucast (0 :: u8)) = 0x1F0" "ide_base (ucast (1 :: u8)) = 0x170" by (simp_all add: ide_base_def)
  let ?blk = "replicate 256 0 :: u16 list" and ?asm = "pc_ide P ra idb"
  have df: "pc_frame w w' \<Longrightarrow> \<not> df w \<Longrightarrow> \<not> df w'" for w w' by (simp add: pc_frame_def saved_def)
  obtain w1 where w1: "ide_detect ?asm 0 0 ?blk (ports s) = Some (1, ident False, w1)" "pc_frame (ports s) w1"
    using pc_detect_ata [of ident 0 ini P _ ra idb 0 ?blk] assms(1,3) base by fastforce
  obtain w2 where w2: "ide_detect ?asm 0 1 ?blk w1 = Some (1, ident True, w2)" "pc_frame w1 w2"
    using pc_detect_ata [of ident 0 ini P _ ra idb 1 ?blk] assms(1) df [OF w1(2) assms(3)] base by fastforce
  obtain b3 w3 where w3: "ide_detect ?asm 1 0 ?blk w2 = Some (0, b3, w3)" "pc_frame w2 w3"
    using pc_detect_none [of 1 P ra idb 0 ?blk w2] assms(2) base by auto
  obtain b4 w4 where w4: "ide_detect ?asm 1 1 ?blk w3 = Some (0, b4, w4)" "pc_frame w3 w4"
    using pc_detect_none [of 1 P ra idb 1 ?blk w3] assms(2) base by auto
  have "pc_frame (ports s) w4" using w1(2) w2(2) w3(2) w4(2) by (simp add: pc_frame_def saved_def)
  then show ?thesis using w1(1) w2(1) w3(1) w4(1) by (simp add: disk_io_def probe_dev_def Let_def)
qed

definition two_ident :: "bool \<Rightarrow> u16 list" where
  "two_ident sl = (replicate 256 0)[60 := if sl then 64 else 256]"

definition two_bus :: pdev where
  "two_bus t p = (if p = 0x1F0 then (case phase (ata_of two_ident 0x1F0 blank_ata t) of DataIn (w # ws) \<Rightarrow> w | _ \<Rightarrow> 0)
     else if p = 0x177 then 0xFF else 0x48)"

lemma two_bus_present: "ata_present two_ident 0x1F0 blank_ata two_bus"
proof -
  have "status two_bus 0x1F0 t = 0x48" for t by (simp add: status_def two_bus_def)
  then show ?thesis by (auto simp: ata_present_def ata_bus_def two_bus_def two_ident_def bit_numeral_rec)
qed

theorem ide_finds_drives_witness:
  "\<exists>s'. disk_io (pc_ide two_bus 0x1000 (\<lambda>_ _. 0x3000)) ide_pc = Some s'
    \<and> map capacity (ide_devs s') = [256 * 512, 64 * 512, 0, 0]"
proof -
  have e: "empty_bus 0x170 two_bus" by (simp add: empty_bus_def status_def two_bus_def)
  have d: "\<not> df (ports ide_pc)" by (simp add: ide_pc_def)
  have c: "cap_sectors (two_ident False) = 256" "cap_sectors (two_ident True) = 64"
    by (simp_all add: cap_sectors_def two_ident_def)
  show ?thesis using ide_finds_drives [OF two_bus_present e d, of "0x1000" "\<lambda>_ _. 0x3000"] c by auto
qed

end
