(* ===== verification/X86_Blk.thy ===== *)
theory X86_Blk
  imports X86_Mem
begin

text \<open>
  What the string and memory routines of the PC target compute: the bounded string routines and the
  block routines, among them \<open>memmove\<close> on overlapping blocks, and the properties of all of them.
\<close>

section \<open>Bounded strings\<close>

lemma unat_pred: "unat (w :: u64) = Suc k \<Longrightarrow> unat (w - 1) = k"
  by (simp add: unat_sub_if')

lemma strncmp_loop_eq:
  "cstr (ram s) (rdi s) xs \<Longrightarrow> cstr (ram s) (rsi s) ys \<Longrightarrow> unat (rcx s) = Suc k \<Longrightarrow>
     \<exists>s'. strncmp_loop s = Some s' \<and> compares s s' \<and> int_result s' = str_diff (take (Suc k) xs) (take (Suc k) ys)"
proof (induction xs ys arbitrary: s k rule: str_diff.induct)
  case (4 x xs y ys)
  have dec: "unat (rcx s - 1) = k" using unat_pred [OF 4(4)] .
  show ?case
  proof (cases "x = y \<and> k \<noteq> 0")
    case True
    then obtain j where k: "k = Suc j" by (cases k) auto
    define s' where "s' = s\<lparr>rax := set_lo8 x (rax s), rdx := set_lo8 x (rdx s), rdi := rdi s + 1, rsi := rsi s + 1,
      rcx := rcx s - 1, zf := False\<rparr>"
    have "rcx s - 1 \<noteq> 0" using dec k by auto
    then have run: "strncmp_loop s = strncmp_loop s'"
      using 4(2,3) True unfolding s'_def by (subst strncmp_loop.simps) (simp add: x86 Let_def)
    have "x = y" "cstr (ram s') (rdi s') xs" "cstr (ram s') (rsi s') ys" "unat (rcx s') = Suc j"
      using True 4(2,3) dec k by (simp_all add: s'_def)
    from 4(1) [OF this] obtain s'' where "strncmp_loop s' = Some s''" "compares s' s''"
      "int_result s'' = str_diff (take (Suc j) xs) (take (Suc j) ys)" by blast
    moreover have "compares s s'" by (simp add: compares_def s'_def)
    ultimately show ?thesis using True compares_trans k unfolding run by auto
  next
    case False
    moreover have "k = 0 \<Longrightarrow> rcx s - 1 = 0" using dec by (simp add: unat_eq_0)
    ultimately show ?thesis
      using 4(2,3) by (subst strncmp_loop.simps) (auto simp: x86 Let_def int_result_diff, auto simp: compares_def)
  qed
qed (subst strncmp_loop.simps, simp add: x86 Let_def int_result_diff, simp add: compares_def int_result_def)+

lemma rep_stosb:
  "\<not> df s \<Longrightarrow> n < 2 ^ 64 \<Longrightarrow> rep_n n stosb (\<lambda>_. False) s = s\<lparr>rcx := if n = 0 then rcx s else 0,
     rdi := rdi s + of_nat n, ram := poke (rdi s) (replicate n (lo8 (rax s))) (ram s)\<rparr>"
proof (induction n arbitrary: s)
  case (Suc n)
  then show ?case by (simp add: x86 Let_def algebra_simps)
qed simp

text \<open>A string cut to \<open>n\<close> bytes or filled up with zeros.\<close>

definition pad :: "nat \<Rightarrow> u8 list \<Rightarrow> u8 list" where
  "pad n xs = take n xs @ replicate (n - length xs) 0"

lemma length_pad [simp]: "length (pad n xs) = n"
  by (simp add: pad_def)

lemma pad_Suc: "pad (Suc n) [] = 0 # replicate n 0" "pad (Suc n) (x # xs) = x # pad n xs"
  by (simp_all add: pad_def)

lemma strncpy_loop_eq:
  "cstr (ram s) (rsi s) xs \<Longrightarrow> \<not> df s \<Longrightarrow> unat (rcx s) = Suc k \<Longrightarrow> apart (rdi s) (Suc k) (rsi s) (Suc (length xs)) \<Longrightarrow>
     \<exists>b p c. strncpy_loop s = Some (s\<lparr>rax := set_lo8 b (rax s), rsi := p, rdi := rdi s + of_nat (Suc k),
       ram := poke (rdi s) (pad (Suc k) xs) (ram s), rcx := 0, zf := c\<rparr>)"
proof (induction xs arbitrary: s k)
  case Nil
  note c = unat_pred [OF Nil(3)]
  show ?case
  proof (cases k)
    case 0
    with c have "rcx s - 1 = 0" by (simp add: unat_eq_0)
    with Nil 0 show ?thesis
      by (intro exI [of _ "0 :: u8"] exI [of _ "rsi s + 1"] exI [of _ True], subst strncpy_loop.simps) (simp add: x86 Let_def pad_Suc)
  next
    case (Suc j)
    with c have "rcx s - 1 \<noteq> 0" by auto
    then have "strncpy_loop s = Some (rep stosb (s\<lparr>rax := set_lo8 0 (rax s), rsi := rsi s + 1,
        ram := (ram s)(rdi s := 0), rdi := rdi s + 1, rcx := rcx s - 1, zf := True\<rparr>))"
      using Nil by (subst strncpy_loop.simps) (simp add: x86)
    moreover have "k < 2 ^ 64" using c unsigned_less [of "rcx s - 1", where 'a = nat] by simp
    moreover have "k \<noteq> 0" using Suc by simp
    ultimately show ?thesis using Nil(2) c
      by (intro exI [of _ "0 :: u8"] exI [of _ "rsi s + 1"] exI [of _ True]) (simp add: pad_Suc rep_def rep_stosb add.assoc)
  qed
next
  case (Cons x xs)
  note c = unat_pred [OF Cons.prems(3)]
  show ?case
  proof (cases k)
    case 0
    with c have "rcx s - 1 = 0" by (simp add: unat_eq_0)
    with Cons.prems 0 show ?thesis
      by (intro exI [of _ x] exI [of _ "rsi s + 1"] exI [of _ True], subst strncpy_loop.simps)
        (simp add: x86 Let_def pad_Suc pad_def)
  next
    case (Suc j)
    define s' where "s' = s\<lparr>rax := set_lo8 x (rax s), rsi := rsi s + 1, ram := (ram s)(rdi s := x), rdi := rdi s + 1,
      rcx := rcx s - 1, zf := False\<rparr>"
    have "rcx s - 1 \<noteq> 0" using c Suc by auto
    then have run: "strncpy_loop s = strncpy_loop s'"
      unfolding s'_def using Cons.prems(1,2) by (subst strncpy_loop.simps) (simp add: x86)
    have a: "apart (rdi s + 1) k (rsi s + 1) (Suc (length xs))" "rdi s \<notin> region (rsi s + 1) (Suc (length xs))"
      using apart_Suc [of "rdi s" _ "rsi s"] Cons.prems(4) by (simp_all del: region_Suc)
    have "cstr (ram s') (rsi s') xs"
      using Cons.prems(1) a(2) unfolding s'_def by (auto simp del: region_Suc intro!: cstr_cong [of "ram s" "rsi s + 1"])
    moreover have "\<not> df s'" "unat (rcx s') = Suc j" "apart (rdi s') (Suc j) (rsi s') (Suc (length xs))"
      using Cons.prems(2) c Suc a(1) by (simp_all add: s'_def)
    ultimately obtain b p z where "strncpy_loop s' = Some (s'\<lparr>rax := set_lo8 b (rax s'), rsi := p, rdi := rdi s' + of_nat (Suc j),
       ram := poke (rdi s') (pad (Suc j) xs) (ram s'), rcx := 0, zf := z\<rparr>)" using Cons.IH by blast
    then show ?thesis unfolding run
      by (intro exI [of _ b] exI [of _ p] exI [of _ z]) (simp add: s'_def Suc pad_Suc algebra_simps)
  qed
qed

section \<open>Blocks\<close>

text \<open>Bytes moved one by one upwards, and where each byte of the destination comes from: where the
  blocks overlap, the bytes before the source repeat.\<close>

fun move_up :: "u64 \<Rightarrow> u64 \<Rightarrow> nat \<Rightarrow> (u64 \<Rightarrow> u8) \<Rightarrow> u64 \<Rightarrow> u8" where
  "move_up d p 0 M = M"
| "move_up d p (Suc n) M = move_up (d + 1) (p + 1) n (M(d := M p))"

lemma move_up_last:
  "move_up d p (Suc n) M = (move_up d p n M)(d + of_nat n := move_up d p n M (p + of_nat n))"
proof (induction n arbitrary: d p M)
  case (Suc n)
  have "move_up d p (Suc (Suc n)) M = move_up (d + 1) (p + 1) (Suc n) (M(d := M p))" by (rule move_up.simps(2))
  then show ?case unfolding Suc.IH [of "d + 1"] by (simp add: add.assoc)
qed simp

lemma region_last: "region p (Suc n) = insert (p + of_nat n) (region p n)"
  by (auto simp: region_def lessThan_Suc)

lemma of_nat_inj_u64: "i < 2 ^ 64 \<Longrightarrow> j < 2 ^ 64 \<Longrightarrow> (of_nat i :: u64) = of_nat j \<longleftrightarrow> i = j"
  by (auto dest: arg_cong [where f = unat] simp: unat_of_nat)

lemma move_up_spec:
  assumes "n \<le> 2 ^ 64" and d: "d = p + of_nat k" and k: "k < 2 ^ 64"
  shows "(\<forall>i < n. move_up d p n M (d + of_nat i) = M (p + of_nat (i mod k))) \<and>
     (\<forall>a. a \<notin> region d n \<longrightarrow> move_up d p n M a = M a)"
  using assms(1)
proof (induction n)
  case (Suc n)
  then have IH: "\<And>i. i < n \<Longrightarrow> move_up d p n M (d + of_nat i) = M (p + of_nat (i mod k))"
    and out: "\<And>a. a \<notin> region d n \<Longrightarrow> move_up d p n M a = M a" by simp_all
  have "move_up d p n M (p + of_nat n) = M (p + of_nat (n mod k))"
  proof (cases "0 < k \<and> k \<le> n")
    case True
    then have "p + of_nat n = d + of_nat (n - k)" by (simp add: d of_nat_diff)
    moreover have "n mod k = (n - k) mod k" using True by (simp add: le_mod_geq)
    moreover have "n - k < n" using True by linarith
    ultimately show ?thesis using IH [of "n - k"] by (simp only:)
  next
    case False
    have "p + of_nat n \<notin> region d n"
    proof
      assume "p + of_nat n \<in> region d n"
      then obtain j where j: "j < n" "p + of_nat n = d + of_nat j" by (auto simp: region_def)
      then have "(of_nat n :: u64) = of_nat (k + j)" by (simp add: d add.assoc)
      then have "of_nat (n - j) = (of_nat k :: u64)" using j(1) by (simp add: of_nat_diff)
      then have "n - j = k" using of_nat_inj_u64 [of "n - j" k] Suc.prems k j(1) by simp
      with False j(1) show False by auto
    qed
    moreover have "n mod k = n" using False by (cases "k = 0") simp_all
    ultimately show ?thesis using out by simp
  qed
  moreover have "i < n \<Longrightarrow> d + of_nat i \<noteq> d + of_nat n" for i using of_nat_inj_u64 [of i n] Suc.prems by simp
  ultimately show ?case
    unfolding move_up_last region_last using IH out by (simp add: less_Suc_eq all_conj_distrib)
qed simp

lemma rep_movsb:
  "\<not> df s \<Longrightarrow> n < 2 ^ 64 \<Longrightarrow> rep_n n movsb (\<lambda>_. False) s = s\<lparr>rcx := if n = 0 then rcx s else 0,
     rsi := rsi s + of_nat n, rdi := rdi s + of_nat n, ram := move_up (rdi s) (rsi s) n (ram s)\<rparr>"
proof (induction n arbitrary: s)
  case (Suc n)
  then show ?case by (simp add: x86 Let_def algebra_simps)
qed simp

lemma stack_upd_stack [simp]: "s\<lparr>stack := stack s\<rparr> = s"
  by simp

text \<open>Each block routine keeps the flags and \<open>rcx\<close>; \<open>memset\<close> keeps \<open>rdi\<close> as well.\<close>

lemma arch_memcpy_eq:
  "arch_memcpy s = Some (s\<lparr>rax := rdi s, rsi := rsi s + rdx s, rdi := rdi s + rdx s,
     ram := move_up (rdi s) (rsi s) (unat (rdx s)) (ram s)\<rparr>)"
  using unsigned_less [of "rdx s", where 'a = nat]
  by (simp add: arch_memcpy_def pushfq_def x86 rep_def rep_movsb)

lemma arch_memset_eq:
  "arch_memset s = Some (s\<lparr>rax := rdi s, ram := poke (rdi s) (replicate (unat (rdx s)) (lo8 (rsi s))) (ram s)\<rparr>)"
proof -
  have "lo8 (rsi s AND 0xFF) = lo8 (rsi s)"
    unfolding byte_mask by (rule bit_word_eqI) (simp add: lo8_def bit_simps)
  then show ?thesis using unsigned_less [of "rdx s", where 'a = nat]
    by (simp add: arch_memset_def pushfq_def x86 rep_def rep_stosb)
qed

text \<open>The first position in which two blocks differ.\<close>

fun first_diff :: "u8 list \<Rightarrow> u8 list \<Rightarrow> (u8 \<times> u8) option" where
  "first_diff (x # xs) (y # ys) = (if x = y then first_diff xs ys else Some (x, y))"
| "first_diff _ _ = None"

lemma repz_cmpsb:
  "\<not> df s \<Longrightarrow> n < 2 ^ 64 \<Longrightarrow> zf s \<Longrightarrow>
     \<exists>c p q. rep_n n cmpsb (\<lambda>s. \<not> zf s) s = s\<lparr>rcx := c, rsi := p, rdi := q,
         zf := (first_diff (peek (ram s) (rdi s) n) (peek (ram s) (rsi s) n) = None)\<rparr>
       \<and> (\<forall>x y. first_diff (peek (ram s) (rdi s) n) (peek (ram s) (rsi s) n) = Some (x, y) \<longrightarrow>
            ram s (q - 1) = x \<and> ram s (p - 1) = y)"
proof (induction n arbitrary: s)
  case 0
  then show ?case by (intro exI [of _ "rcx s"] exI [of _ "rsi s"] exI [of _ "rdi s"]) simp
next
  case (Suc n)
  define s' where "s' = s\<lparr>zf := (ram s (rsi s) = ram s (rdi s)), rsi := rsi s + 1, rdi := rdi s + 1, rcx := of_nat n\<rparr>"
  have run: "rep_n (Suc n) cmpsb (\<lambda>s. \<not> zf s) s = (if zf s' then rep_n n cmpsb (\<lambda>s. \<not> zf s) s' else s')"
    using Suc.prems by (simp add: s'_def x86 Let_def)
  show ?case
  proof (cases "zf s'")
    case True
    from Suc.IH [OF _ _ this] Suc.prems obtain c p q where
      "rep_n n cmpsb (\<lambda>s. \<not> zf s) s' = s'\<lparr>rcx := c, rsi := p, rdi := q,
         zf := (first_diff (peek (ram s') (rdi s') n) (peek (ram s') (rsi s') n) = None)\<rparr>"
      "\<forall>x y. first_diff (peek (ram s') (rdi s') n) (peek (ram s') (rsi s') n) = Some (x, y) \<longrightarrow>
            ram s' (q - 1) = x \<and> ram s' (p - 1) = y" by (fastforce simp: s'_def)
    with True show ?thesis unfolding run
      by (intro exI [of _ c] exI [of _ p] exI [of _ q]) (auto simp: s'_def)
  next
    case False
    then show ?thesis unfolding run
      by (intro exI [of _ "of_nat n :: u64"] exI [of _ "rsi s + 1"] exI [of _ "rdi s + 1"]) (auto simp: s'_def)
  qed
qed

lemma sint_cbw: "sint (ucast (scast (scast (w :: u8) :: u16) :: u64) :: u32) = sint w"
  by transfer (simp add: signed_take_bit_take_bit)

text \<open>The difference of two bytes, cut to eight bits and sign-extended.\<close>

definition blk_diff :: "u8 list \<Rightarrow> u8 list \<Rightarrow> int" where
  "blk_diff xs ys = (case first_diff xs ys of None \<Rightarrow> 0 | Some (x, y) \<Rightarrow> sint (x - y))"

lemma arch_memcmp_eq:
  "\<exists>a p q. arch_memcmp s = Some (s\<lparr>rax := a, rsi := p, rdi := q\<rparr>) \<and> sint (ucast a :: u32) =
     blk_diff (peek (ram s) (rdi s) (unat (rdx s))) (peek (ram s) (rsi s) (unat (rdx s)))"
proof -
  let ?d = "first_diff (peek (ram s) (rdi s) (unat (rdx s))) (peek (ram s) (rsi s) (unat (rdx s)))"
  define s0 where "s0 = xor_rax (cld (push (rcx (pushfq s)) (pushfq s)))"
  define s1 where "s1 = s0\<lparr>rcx := rdx s0\<rparr>"
  have s1: "\<not> df s1" "zf s1" "ram s1 = ram s" "rdi s1 = rdi s" "rsi s1 = rsi s" "rcx s1 = rdx s" "rax s1 = 0"
    by (simp_all add: s0_def s1_def pushfq_def x86)
  have "unat (rdx s) < 2 ^ 64" using unsigned_less [of "rdx s", where 'a = nat] by simp
  from repz_cmpsb [OF s1(1) this s1(2)] obtain c p q where
    run: "repz cmpsb s1 = s1\<lparr>rcx := c, rsi := p, rdi := q, zf := (?d = None)\<rparr>" and
    pq: "\<And>x y. ?d = Some (x, y) \<Longrightarrow> ram s (q - 1) = x \<and> ram s (p - 1) = y"
    unfolding repz_def s1 by blast
  note mc = arch_memcmp_def Let_def s0_def [symmetric] s1_def [symmetric] run
  show ?thesis
  proof (cases ?d)
    case None
    then have eq: "arch_memcmp s = Some (s\<lparr>rax := 0, rsi := p, rdi := q\<rparr>)"
      unfolding mc by (simp add: x86 s1_def s0_def pushfq_def)
    show ?thesis by (rule exI, rule exI, rule exI, rule conjI [OF eq]) (simp add: blk_diff_def None)
  next
    case (Some xy)
    obtain x y where xy: "xy = (x, y)" by (cases xy)
    have eq: "arch_memcmp s = Some (s\<lparr>rax := scast (scast (x - y) :: u16), rsi := p, rdi := q\<rparr>)"
      unfolding mc using pq [of x y] Some xy by (simp add: x86 s1_def s0_def pushfq_def)
    show ?thesis by (rule exI, rule exI, rule exI, rule conjI [OF eq]) (simp add: blk_diff_def sint_cbw Some xy)
  qed
qed

section \<open>The C functions\<close>

text \<open>What every routine leaves to its caller as the calling convention asks: the callee-saved
  registers, the stack, the direction flag and whatever belongs to no routine.\<close>

definition saves :: "'a cpu_scheme \<Rightarrow> 'a cpu_scheme \<Rightarrow> bool" where
  "saves s s' \<longleftrightarrow> saved s s' \<and> df s' = df s \<and> more s' = more s"

lemma compares_saves: "compares s s' \<Longrightarrow> saves s s' \<and> ram s' = ram s"
  by (cases s; cases s') (simp add: compares_def saves_def saved_def)

lemma compares_call:
  assumes "routine (push ra s) = Some s'" "compares (push ra s) s'"
  shows "\<exists>s''. call ra routine s = Some s'' \<and> compares s s'' \<and> rax s'' = rax s'"
proof -
  have "stack s' = ra # stack s" using compares_saves [OF assms(2)] by (simp add: saves_def saved_def push_def)
  from call_returns [of routine ra s s', OF assms(1) this] assms(2) show ?thesis
    by (cases s; cases s') (auto simp: compares_def push_def)
qed

lemma uint_pos: "x \<noteq> 0 \<Longrightarrow> 0 < uint (x :: u8)"
  by (simp add: word_neq_0_conv word_less_def)

lemma str_diff_0: "0 \<notin> set xs \<Longrightarrow> 0 \<notin> set ys \<Longrightarrow> str_diff xs ys = 0 \<longleftrightarrow> xs = ys"
  by (induction xs ys rule: str_diff.induct) (auto simp: uint_0_iff simp flip: word_uint_eq_iff)

lemma str_diff_neg: "0 \<notin> set xs \<Longrightarrow> 0 \<notin> set ys \<Longrightarrow> str_diff xs ys < 0 \<longleftrightarrow> ord_class.lexordp xs ys"
  by (induction xs ys rule: str_diff.induct)
    (auto simp: word_less_def uint_pos not_less_iff_gr_or_eq simp flip: word_uint_eq_iff)

lemma strcmp_ok:
  assumes "cstr (ram s) p xs" "cstr (ram s) q ys"
  shows "\<exists>s'. c_strcmp ra p q s = Some (str_diff xs ys, s') \<and> saves s s' \<and> ram s' = ram s"
proof -
  let ?s = "s\<lparr>rdi := p, rsi := q\<rparr>"
  obtain s1 where s1: "arch_strcmp (push ra ?s) = Some s1" "compares (push ra ?s) s1" "int_result s1 = str_diff xs ys"
    using strcmp_eq [of "push ra ?s" xs ys] assms by (auto simp: push_def)
  from compares_call [where routine = arch_strcmp, OF s1(1,2)] obtain s2 where s2: "call ra arch_strcmp ?s = Some s2" "compares ?s s2" "rax s2 = rax s1"
    by blast
  then show ?thesis using s1(3) compares_saves [OF s2(2)]
    by (simp add: c_strcmp_def int_result_def saves_def saved_def)
qed

lemma strncmp_ok:
  assumes "cstr (ram s) p xs" "cstr (ram s) q ys"
  shows "\<exists>s'. c_strncmp ra p q n s = Some (str_diff (take (unat n) xs) (take (unat n) ys), s') \<and> saves s s' \<and> ram s' = ram s"
proof -
  let ?s = "s\<lparr>rdi := p, rsi := q, rdx := n\<rparr>"
  have "\<exists>s1. arch_strncmp (push ra ?s) = Some s1 \<and> compares (push ra ?s) s1
    \<and> int_result s1 = str_diff (take (unat n) xs) (take (unat n) ys)"
  proof (cases "n = 0")
    case True
    then show ?thesis by (simp add: arch_strncmp_def x86 compares_def int_result_def)
  next
    case False
    then obtain k where k: "unat n = Suc k" by (cases "unat n") (auto simp: unat_eq_0)
    let ?t = "(push ra ?s)\<lparr>rcx := n, zf := False\<rparr>"
    have "arch_strncmp (push ra ?s) = strncmp_loop ?t" using False by (simp add: arch_strncmp_def x86)
    moreover obtain s1 where "strncmp_loop ?t = Some s1" "compares ?t s1"
      "int_result s1 = str_diff (take (Suc k) xs) (take (Suc k) ys)"
      using strncmp_loop_eq [of ?t xs ys k] assms k by (auto simp: push_def)
    moreover have "compares (push ra ?s) ?t" by (simp add: compares_def)
    ultimately show ?thesis using compares_trans k by auto
  qed
  then obtain s1 where s1: "arch_strncmp (push ra ?s) = Some s1" "compares (push ra ?s) s1"
    "int_result s1 = str_diff (take (unat n) xs) (take (unat n) ys)" by blast
  from compares_call [where routine = arch_strncmp, OF s1(1,2)] obtain s2 where s2: "call ra arch_strncmp ?s = Some s2" "compares ?s s2" "rax s2 = rax s1"
    by blast
  then show ?thesis using s1(3) compares_saves [OF s2(2)]
    by (simp add: c_strncmp_def int_result_def saves_def saved_def)
qed

text \<open>Memory as a list of bytes after a routine has stored.\<close>

lemma peek_map: "peek M p n = map (\<lambda>i. M (p + of_nat i)) [0..<n]"
  by (rule nth_equalityI) (simp_all add: peek_nth)

text \<open>\<open>strcpy\<close>, \<open>strncpy\<close> and \<open>strcat\<close>: what they store and the pointer they return.\<close>

lemma strcpy_ok:
  assumes "cstr (ram s) p xs" "apart d (Suc (length xs)) p (Suc (length xs))" "\<not> df s"
  shows "\<exists>s'. c_strcpy ra d p s = Some (set_lo8 0 d, s') \<and> saves s s' \<and> ram s' = poke d (xs @ [0]) (ram s)"
proof -
  let ?s = "(push ra (s\<lparr>rdi := d, rsi := p\<rparr>))\<lparr>df := False, rax := d\<rparr>"
  have "arch_strcpy (push ra (s\<lparr>rdi := d, rsi := p\<rparr>)) = strcpy_loop ?s" by (simp add: arch_strcpy_def x86)
  then show ?thesis using strcpy_loop_eq [of ?s xs] assms
    by (simp add: c_strcpy_def call_def x86 saves_def saved_def)
qed

lemma strncpy_ok:
  assumes "cstr (ram s) p xs" "apart d (unat n) p (Suc (length xs))" "\<not> df s" "n \<noteq> 0"
  shows "\<exists>b s'. c_strncpy ra d p n s = Some (set_lo8 b d, s') \<and> saves s s' \<and> ram s' = poke d (pad (unat n) xs) (ram s)"
proof -
  obtain k where k: "unat n = Suc k" using assms(4) by (cases "unat n") (auto simp: unat_eq_0)
  let ?s = "(push ra (s\<lparr>rdi := d, rsi := p, rdx := n\<rparr>))\<lparr>df := False, rax := d, rcx := n, zf := False\<rparr>"
  have "arch_strncpy (push ra (s\<lparr>rdi := d, rsi := p, rdx := n\<rparr>)) = strncpy_loop ?s"
    using assms(4) by (simp add: arch_strncpy_def x86)
  moreover obtain b p' c where "strncpy_loop ?s = Some (?s\<lparr>rax := set_lo8 b (rax ?s), rsi := p', rdi := rdi ?s + of_nat (Suc k),
       ram := poke (rdi ?s) (pad (Suc k) xs) (ram ?s), rcx := 0, zf := c\<rparr>)"
    using strncpy_loop_eq [of ?s xs k] assms k by (auto simp: push_def)
  ultimately show ?thesis using assms(3) k
    by (intro exI [of _ b]) (simp add: c_strncpy_def call_def x86 saves_def saved_def)
qed

lemma strcat_ok:
  assumes ds: "cstr (ram s) d ds" "length ds < 2 ^ 64 - 1" and xs: "cstr (ram s) p xs"
    and "apart (d + of_nat (length ds)) (Suc (length xs)) p (Suc (length xs))" "\<not> df s"
  shows "\<exists>s'. c_strcat ra d p s = Some (d, s') \<and> saves s s' \<and> ram s' = poke (d + of_nat (length ds)) (xs @ [0]) (ram s)"
proof -
  let ?e = "d + of_nat (length ds)"
  define s0 where "s0 = (push (rbx s) (push ra (s\<lparr>rdi := d, rsi := p\<rparr>)))\<lparr>df := False, rbx := d, rax := 0, zf := True, rcx := - 1\<rparr>"
  have s0: "cstr (ram s0) (rdi s0) ds" "\<not> df s0" "lo8 (rax s0) = 0" "rcx s0 = - 1"
    using ds(1) by (simp_all add: s0_def x86)
  have "unat (- 1 :: u64) = 2 ^ 64 - 1" by (simp add: unsigned_minus_1_eq_mask mask_eq_exp_minus_1)
  with scasb_loop [OF s0(1-3), of "2 ^ 64 - 1"] s0(4) ds(2) obtain c where
    sc: "repnz scasb s0 = s0\<lparr>rcx := c, rdi := rdi s0 + of_nat (length ds) + 1, zf := True\<rparr>" by (auto simp: repnz_def)
  let ?s1 = "dec_rdi (repnz scasb s0)"
  have "arch_strcat (push ra (s\<lparr>rdi := d, rsi := p\<rparr>)) = do {
     s \<leftarrow> strcpy_loop ?s1;
     let s = s\<lparr>rax := rbx s\<rparr>;
     let (b, s) = pop s;
     Some (s\<lparr>rbx := b\<rparr>) }"
    by (simp add: arch_strcat_def s0_def x86 Let_def)
  moreover have "rdi ?s1 = ?e" "rsi ?s1 = p" "ram ?s1 = ram s" "\<not> df ?s1"
    unfolding sc by (simp_all add: s0_def x86)
  ultimately show ?thesis using strcpy_loop_eq [of ?s1 xs] xs assms(4,5) unfolding sc
    by (simp add: c_strcat_def call_def x86 saves_def saved_def s0_def)
qed

lemma strlen_ok:
  assumes "cstr (ram s) p xs" "\<not> df s"
  shows "\<exists>s'. c_strlen ra p s = Some (of_nat (length xs), s') \<and> saves s s' \<and> ram s' = ram s"
proof -
  let ?s = "(push ra (s\<lparr>rdi := p\<rparr>))\<lparr>df := False, rcx := 0, zf := True, rsi := p\<rparr>"
  have "arch_strlen (push ra (s\<lparr>rdi := p\<rparr>)) = do { s \<leftarrow> strlen_loop ?s; let s = dec_rcx s; Some (s\<lparr>rax := rcx s\<rparr>) }"
    by (simp add: arch_strlen_def x86)
  then show ?thesis using strlen_loop_eq [of ?s xs] assms
    by (simp add: c_strlen_def call_def x86 saves_def saved_def)
qed

lemma region_apart: "n + m \<le> 2 ^ 64 \<Longrightarrow> apart p n (p + of_nat n) m"
proof -
  assume n: "n + m \<le> 2 ^ 64"
  have "of_nat i \<noteq> (of_nat (n + j) :: u64)" if "i < n" "j < m" for i j
    using of_nat_inj_u64 [of i "n + j"] that n by simp
  then show ?thesis by (auto simp: apart_def region_def add.assoc)
qed

lemma cstr_extend:
  assumes ds: "cstr M d ds" and xs: "0 \<notin> set xs" and n: "length ds + length xs < 2 ^ 64 - 1"
  shows "cstr (poke (d + of_nat (length ds)) (xs @ [0]) M) d (ds @ xs)"
proof -
  let ?M = "poke (d + of_nat (length ds)) (xs @ [0]) M"
  have "a \<in> region d (length ds) \<Longrightarrow> ?M a = M a" for a
    using region_apart [of "length ds" "Suc (length xs)" d] n by (intro poke_outside) (auto simp: apart_def)
  then have "peek ?M d (length ds) = peek M d (length ds)" by (auto simp: peek_map region_def)
  moreover have "peek M d (length ds) = ds" "0 \<notin> set ds" using cstr_append [of M d ds "[]"] ds by auto
  ultimately show ?thesis using cstr_poke [OF xs] n by (simp add: cstr_append)
qed

lemma c_memmove_eq:
  "c_memmove here ra d p n s = Some (d, s\<lparr>rax := d, rsi := p + n, rdi := d + n, rdx := n, ram := move_up d p (unat n) (ram s)\<rparr>)"
  by (simp add: c_memmove_def arch_memmove_def call_def arch_memcpy_eq x86)

lemma c_memcpy_eq:
  "c_memcpy ra d p n s = Some (d, s\<lparr>rax := d, rsi := p + n, rdi := d + n, rdx := n, ram := move_up d p (unat n) (ram s)\<rparr>)"
  by (simp add: c_memcpy_def call_def arch_memcpy_eq x86)

lemma c_memcmp_ok:
  "\<exists>s'. c_memcmp ra p q n s = Some (blk_diff (peek (ram s) p (unat n)) (peek (ram s) q (unat n)), s') \<and> saves s s' \<and> ram s' = ram s"
  using arch_memcmp_eq [of "push ra (s\<lparr>rdi := p, rsi := q, rdx := n\<rparr>)"]
  by (auto simp: c_memcmp_def call_def x86 saves_def saved_def int_result_def)

text \<open>The difference of the first bytes in which two blocks differ.\<close>

definition blk_order :: "u8 list \<Rightarrow> u8 list \<Rightarrow> int" where
  "blk_order xs ys = (case first_diff xs ys of None \<Rightarrow> 0 | Some (x, y) \<Rightarrow> uint x - uint y)"

lemma sint_u8_diff:
  "sint (x - y :: u8) = (let d = uint x - uint y in if d < - 128 then d + 256 else if d < 128 then d else d - 256)"
proof -
  have "sint (x - y) = signed_take_bit 7 (uint x - uint y)"
    by transfer (simp add: signed_take_bit_eq_iff_take_bit_eq take_bit_diff)
  moreover have "signed_take_bit 7 d = (if d < - 128 then d + 256 else if d < 128 then d else d - 256)"
    if "- 256 < d" "d < 256" for d :: int
  proof -
    have "signed_take_bit 7 d = signed_take_bit 7 (d + 256)" "signed_take_bit 7 d = signed_take_bit 7 (d - 256)"
      by (simp_all add: signed_take_bit_eq_iff_take_bit_eq take_bit_eq_mod)
    then show ?thesis using that by (auto simp: signed_take_bit_int_eq_self)
  qed
  moreover have "- 256 < uint x - uint y" "uint x - uint y < 256"
    using uint_u8_less [of x] uint_u8_less [of y] uint_ge_0 [of x] uint_ge_0 [of y] by linarith+
  ultimately show ?thesis by (simp only: Let_def)
qed

lemma blk_diff_order:
  "blk_diff xs ys = (let d = blk_order xs ys in if d < - 128 then d + 256 else if d < 128 then d else d - 256)"
  by (auto simp: blk_diff_def blk_order_def sint_u8_diff Let_def split: option.splits)

lemma first_diff_None: "length xs = length ys \<Longrightarrow> first_diff xs ys = None \<longleftrightarrow> xs = ys"
  by (induction xs ys rule: list_induct2) auto

lemma first_diff_ne: "first_diff xs ys = Some (x, y) \<Longrightarrow> x \<noteq> y"
  by (induction xs ys rule: first_diff.induct) (auto split: if_splits)

lemma blk_diff_0: "length xs = length ys \<Longrightarrow> blk_diff xs ys = 0 \<longleftrightarrow> xs = ys"
  using first_diff_None [of xs ys] first_diff_ne [of xs ys]
  by (auto simp: blk_diff_def signed_eq_0_iff split: option.splits)

section \<open>Properties\<close>

text \<open>
  C30: on terminated strings the comparison routines return and agree with the lexicographic order of
  the strings as unsigned bytes, \<open>strncmp\<close> on their first \<open>n\<close> bytes. They store nothing and
  keep the registers their caller relies on.
\<close>

theorem strcmp_lexicographic:
  assumes "cstr (ram s) p xs" "cstr (ram s) q ys"
  shows "(\<exists>r s'. c_strcmp ra p q s = Some (r, s') \<and> (r = 0 \<longleftrightarrow> xs = ys) \<and> (r < 0 \<longleftrightarrow> ord_class.lexordp xs ys)
      \<and> saves s s' \<and> ram s' = ram s)
    \<and> (let us = take (unat n) xs; vs = take (unat n) ys in
       \<exists>r s'. c_strncmp ra p q n s = Some (r, s') \<and> (r = 0 \<longleftrightarrow> us = vs) \<and> (r < 0 \<longleftrightarrow> ord_class.lexordp us vs)
      \<and> saves s s' \<and> ram s' = ram s)"
proof -
  have nz: "0 \<notin> set xs" "0 \<notin> set ys" using assms by (auto dest: cstr_nonzero)
  then have "0 \<notin> set (take (unat n) xs)" "0 \<notin> set (take (unat n) ys)" by (auto dest: in_set_takeD)
  note order = str_diff_0 [OF this] str_diff_neg [OF this] str_diff_0 [OF nz] str_diff_neg [OF nz]
  obtain s1 s2 where "c_strcmp ra p q s = Some (str_diff xs ys, s1)" "saves s s1 \<and> ram s1 = ram s"
    "c_strncmp ra p q n s = Some (str_diff (take (unat n) xs) (take (unat n) ys), s2)" "saves s s2 \<and> ram s2 = ram s"
    using strcmp_ok [OF assms] strncmp_ok [OF assms] by blast
  with order show ?thesis by (auto simp: Let_def)
qed

definition cpu_boot :: cpu where
  "cpu_boot = \<lparr>rax = 0, rbx = 7, rcx = 0, rdx = 0, rsi = 0, rdi = 0, r8 = 0, r12 = 9, zf = False, df = False,
     stack = [], ram = poke 0x1000 [0x64, 0x69, 0x72, 0] (poke 0x2000 [0x64, 0x75, 0] (\<lambda>_. 0))\<rparr>"

lemma boot_strings: "cstr (ram cpu_boot) 0x1000 [0x64, 0x69, 0x72]" "cstr (ram cpu_boot) 0x2000 [0x64, 0x75]"
  by (simp_all add: cpu_boot_def)

theorem strcmp_lexicographic_witness:
  "\<exists>r s'. c_strcmp 0x400 0x1000 0x2000 cpu_boot = Some (r, s') \<and> r < 0 \<and> rbx s' = 7"
  using strcmp_lexicographic [OF boot_strings, where ra = "0x400" and n = 1] by (auto simp: saves_def saved_def cpu_boot_def word_less_def)

text \<open>
  C31: \<open>strcat\<close> returns its destination, which then holds both strings, and \<open>strlen\<close> finds the sum of their
  lengths there; nothing outside is stored.
\<close>

theorem strcat_appends:
  assumes "cstr (ram s) d ds" "cstr (ram s) p xs" "\<not> df s"
    and "apart (d + of_nat (length ds)) (Suc (length xs)) p (Suc (length xs))" "length ds + length xs < 2 ^ 64 - 1"
  shows "\<exists>s' s''. c_strcat ra d p s = Some (d, s') \<and> saves s s' \<and> cstr (ram s') d (ds @ xs)
    \<and> (\<forall>a. a \<in> region (d + of_nat (length ds)) (Suc (length xs)) \<or> ram s' a = ram s a)
    \<and> c_strlen ra d s' = Some (of_nat (length ds + length xs), s'')"
proof -
  have "length ds < 2 ^ 64 - 1" using assms(5) by simp
  from strcat_ok [OF assms(1) this assms(2,4,3)] obtain s' where s': "c_strcat ra d p s = Some (d, s')" "saves s s'"
    "ram s' = poke (d + of_nat (length ds)) (xs @ [0]) (ram s)" by blast
  have c: "cstr (ram s') d (ds @ xs)"
    unfolding s'(3) by (rule cstr_extend [OF assms(1) cstr_nonzero [OF assms(2)] assms(5)])
  have "\<not> df s'" using s'(2) assms(3) by (simp add: saves_def saved_def)
  from strlen_ok [OF c this, of ra] obtain s'' where "c_strlen ra d s' = Some (of_nat (length ds + length xs), s'')" by auto
  moreover have "a \<in> region (d + of_nat (length ds)) (Suc (length xs)) \<or> ram s' a = ram s a" for a
    unfolding s'(3) using poke_outside [of a _ "xs @ [0]"] by auto
  ultimately show ?thesis using s'(1,2) c by blast
qed

theorem strcat_appends_witness:
  "\<exists>s' s''. c_strcat 0x400 0x1000 0x2000 cpu_boot = Some (0x1000, s') \<and> cstr (ram s') 0x1000 [0x64, 0x69, 0x72, 0x64, 0x75]
     \<and> c_strlen 0x400 0x1000 s' = Some (5, s'')"
proof -
  have "\<not> df cpu_boot" by (simp add: cpu_boot_def)
  from strcat_appends [OF boot_strings this, where ra = "0x400"] show ?thesis by (auto simp: apart_def)
qed

text \<open>
  C32: \<open>strcpy\<close> and \<open>strncpy\<close> copy the string, cut or filled with zeros to \<open>n\<close> bytes, but the pointer they
  return is not the destination: its low byte is that of the last character loaded, so for \<open>strcpy\<close> it is
  the destination rounded down to a multiple of 256.
\<close>

theorem strcpy_copies:
  assumes "cstr (ram s) p xs" "\<not> df s" "n \<noteq> 0"
    and "apart d (Suc (length xs)) p (Suc (length xs))" "apart d (unat n) p (Suc (length xs))"
  shows "(\<exists>s'. c_strcpy ra d p s = Some (d AND NOT (mask 8), s') \<and> saves s s' \<and> ram s' = poke d (xs @ [0]) (ram s))
    \<and> (\<exists>b s'. c_strncpy ra d p n s = Some (set_lo8 b d, s') \<and> saves s s' \<and> ram s' = poke d (pad (unat n) xs) (ram s))"
  using strcpy_ok [OF assms(1,4,2)] strncpy_ok [OF assms(1,5,2,3)] by (simp add: set_lo8_def)

theorem strcpy_copies_witness:
  "\<exists>s'. c_strcpy 0x400 0x3008 0x2000 cpu_boot = Some (0x3000, s') \<and> cstr (ram s') 0x3008 [0x64, 0x75]"
proof -
  have "\<not> df cpu_boot" "apart 0x3008 (Suc (length [0x64, 0x75 :: u8])) 0x2000 (Suc (length [0x64, 0x75 :: u8]))"
    "apart 0x3008 (unat (1 :: u64)) 0x2000 (Suc (length [0x64, 0x75 :: u8]))"
    by (simp_all add: cpu_boot_def apart_def)
  moreover have "0x3008 AND NOT (mask 8) = (0x3000 :: u64)" by (simp add: mask_eq_exp_minus_1)
  ultimately show ?thesis using strcpy_copies [OF boot_strings(2), where n = 1 and d = "0x3008" and ra = "0x400"] by auto
qed


text \<open>
  \<open>memcmp\<close> returns zero exactly for equal blocks, and the difference of the first bytes that
  differ when it lies between -128 and 127. Outside this range the result is off by 256, so
  its sign is the opposite of the order of the blocks.
\<close>

theorem memcmp_sign:
  "\<exists>r s'. c_memcmp ra p q n s = Some (r, s') \<and> saves s s' \<and> ram s' = ram s
    \<and> (let xs = peek (ram s) p (unat n); ys = peek (ram s) q (unat n); d = blk_order xs ys in
         (r = 0 \<longleftrightarrow> xs = ys) \<and> r = (if d < - 128 then d + 256 else if d < 128 then d else d - 256))"
  using c_memcmp_ok [of ra p q n s] blk_diff_0 [of "peek (ram s) p (unat n)" "peek (ram s) q (unat n)"]
  by (auto simp: blk_diff_order Let_def)

end
