(* ===== verification/Print.thy ===== *)
theory Print
  imports Prelude
begin

text \<open>
  The text screen of the x86-64 build (\<open>arch/x86_64/print.c\<close>) and the console above it
  (\<open>arch/x86_64/console.c\<close>). The driver writes the colour text buffer at \<open>0xb8000\<close>, one cell of
  two bytes per character, row by row, and keeps the cursor in two static variables. It is
  related to an abstract terminal of 25 lines of 80 cells: printing is simulated by the
  terminal, a full screen scrolls by one line, and no cell outside the screen is written.
\<close>

section \<open>The driver\<close>

definition CGA_NUM_COLS :: nat where "CGA_NUM_COLS = 80"
definition CGA_NUM_ROWS :: nat where "CGA_NUM_ROWS = 25"

definition CGA_COLOR :: "u8 \<Rightarrow> u8 \<Rightarrow> u8" where
  "CGA_COLOR fore_c back_c = fore_c OR push_bit 4 back_c"

definition PRINT_COLOR_BLACK :: u8 where "PRINT_COLOR_BLACK = 0"
definition PRINT_COLOR_YELLOW :: u8 where "PRINT_COLOR_YELLOW = 14"
definition PRINT_COLOR_WHITE :: u8 where "PRINT_COLOR_WHITE = 15"

record cga_char =
  code :: u8
  color :: u8

text \<open>
  The static variables, and the cells from \<open>CGA_BUFFER_ADDR\<close> on, by index. The index is not
  bounded by the model: a store beyond the screen is a store to whatever lies there. The
  coordinates are of type \<open>size_t\<close>; they stay below 81, so they are natural numbers here.
  The console calls two assembly routines, which are recorded in the order of the calls.
\<close>

datatype arch_call = Arch_set_cursor_pos nat nat | Arch_show_cursor

record cga =
  cur_x :: nat
  cur_y :: nat
  char_color :: u8
  cga_buffer :: "nat \<Rightarrow> cga_char"
  arch :: "arch_call list"

definition cga_start :: "(nat \<Rightarrow> cga_char) \<Rightarrow> cga" where
  "cga_start b = \<lparr>cur_x = 0, cur_y = 0,
     char_color = CGA_COLOR PRINT_COLOR_WHITE PRINT_COLOR_BLACK, cga_buffer = b, arch = []\<rparr>"

definition put_cell :: "nat \<Rightarrow> cga_char \<Rightarrow> cga \<Rightarrow> cga" where
  "put_cell i c s = s\<lparr>cga_buffer := (cga_buffer s)(i := c)\<rparr>"

definition print_getxy :: "cga \<Rightarrow> nat \<times> nat" where
  "print_getxy s = (cur_x s, cur_y s)"

definition print_setxy :: "nat \<Rightarrow> nat \<Rightarrow> cga \<Rightarrow> cga" where
  "print_setxy x y s =
     (if x \<ge> CGA_NUM_COLS \<or> y \<ge> CGA_NUM_ROWS then s else s\<lparr>cur_x := x, cur_y := y\<rparr>)"

definition empty_cell :: "cga \<Rightarrow> cga_char" where
  "empty_cell s = \<lparr>code = 0, color = char_color s\<rparr>"

definition clear_row :: "nat \<Rightarrow> cga \<Rightarrow> cga" where
  "clear_row row s =
     (let empty = empty_cell s
      in fold (\<lambda>i. put_cell (i + row * CGA_NUM_COLS) empty) [0..<CGA_NUM_COLS] s)"

definition print_clear :: "cga \<Rightarrow> cga" where
  "print_clear s = fold clear_row [0..<CGA_NUM_ROWS] (s\<lparr>cur_y := 0, cur_x := 0\<rparr>)"

definition print_color :: "u8 \<Rightarrow> u8 \<Rightarrow> cga \<Rightarrow> cga" where
  "print_color fore_color back_color s = s\<lparr>char_color := CGA_COLOR fore_color back_color\<rparr>"

definition print_del :: "cga \<Rightarrow> cga" where
  "print_del s =
     (if cur_x s = 0 \<and> cur_y s = 0 then s
      else
        let s = (if cur_x s > 0 then s\<lparr>cur_x := cur_x s - 1\<rparr>
                 else if cur_y s > 0 then s\<lparr>cur_y := cur_y s - 1, cur_x := CGA_NUM_COLS - 1\<rparr>
                 else s)
        in put_cell (cur_x s + cur_y s * CGA_NUM_COLS) (empty_cell s) s)"

text \<open>The scroll loop copies row \<open>row\<close> to row \<open>row - 1\<close>, cell by cell, reading each cell from
  the buffer as it is at that moment.\<close>

definition copy_row :: "nat \<Rightarrow> cga \<Rightarrow> cga" where
  "copy_row row s =
     fold (\<lambda>col s. put_cell (col + (row - 1) * CGA_NUM_COLS)
             (cga_buffer s (col + row * CGA_NUM_COLS)) s) [0..<CGA_NUM_COLS] s"

definition print_newLine :: "cga \<Rightarrow> cga" where
  "print_newLine s =
     (let s = s\<lparr>cur_x := 0\<rparr>
      in if cur_y s < CGA_NUM_ROWS - 1 then s\<lparr>cur_y := cur_y s + 1\<rparr>
         else clear_row (CGA_NUM_ROWS - 1) (fold copy_row [1..<CGA_NUM_ROWS] s))"

text \<open>\<open>print_char\<close> and \<open>print_tab\<close> call each other; a TAB prints four spaces.\<close>

function print_char :: "u8 \<Rightarrow> cga \<Rightarrow> cga" where
  "print_char c s =
     (if c = 0x09 then
        print_char 0x20 (print_char 0x20 (print_char 0x20 (print_char 0x20 s)))
      else if c = 0x0D then s\<lparr>cur_x := 0\<rparr>
      else if c = 0x0A then print_newLine s
      else if c = 0x08 \<or> c = 0x7F then print_del s
      else
        let s = (if cur_x s \<ge> CGA_NUM_COLS then print_newLine s else s);
            s = put_cell (cur_x s + cur_y s * CGA_NUM_COLS)
                  \<lparr>code = c, color = char_color s\<rparr> s
        in s\<lparr>cur_x := cur_x s + 1\<rparr>)"
  by pat_completeness auto
termination by (relation "measure (\<lambda>(c, s). if c = 0x09 then 1 else 0)") auto

declare print_char.simps [simp del]

text \<open>The loop over a C string, given as its bytes before the terminating NUL.\<close>

definition print_string :: "u8 list \<Rightarrow> cga \<Rightarrow> cga" where
  "print_string str s = fold print_char str s"

section \<open>The console\<close>

definition move_cursor :: "cga \<Rightarrow> cga" where
  "move_cursor s =
     (let (x, y) = print_getxy s in s\<lparr>arch := arch s @ [Arch_set_cursor_pos y x]\<rparr>)"

definition con_ln :: "cga \<Rightarrow> cga" where
  "con_ln s = move_cursor (print_char 0x0A (print_char 0x0D s))"

definition con_tab :: "cga \<Rightarrow> cga" where
  "con_tab s = move_cursor (print_char 0x09 s)"

definition con_char :: "u8 \<Rightarrow> cga \<Rightarrow> cga" where
  "con_char c s = move_cursor (print_char c s)"

definition con_string :: "u8 list \<Rightarrow> cga \<Rightarrow> cga" where
  "con_string str s = move_cursor (print_string str s)"

definition con_xy :: "nat \<Rightarrow> nat \<Rightarrow> cga \<Rightarrow> cga" where
  "con_xy cx cy s =
     (let s = print_setxy cx cy s; (x, y) = print_getxy s
      in s\<lparr>arch := arch s @ [Arch_set_cursor_pos y x]\<rparr>)"

definition con_getx :: "cga \<Rightarrow> nat" where
  "con_getx s = fst (print_getxy s)"

definition con_gety :: "cga \<Rightarrow> nat" where
  "con_gety s = snd (print_getxy s)"

definition con_clear :: "cga \<Rightarrow> cga" where
  "con_clear s = move_cursor (print_clear s)"

definition set_con :: "cga \<Rightarrow> cga" where
  "set_con s =
     (let s = print_clear s;
          s = print_color PRINT_COLOR_YELLOW PRINT_COLOR_BLACK s;
          s = move_cursor s
      in s\<lparr>arch := arch s @ [Arch_show_cursor]\<rparr>)"

section \<open>The abstract terminal\<close>

text \<open>
  The specification: a terminal is its lines, each a list of cells, the cursor and the current
  colour. A line feed on the last line drops the first line and appends an empty one.
\<close>

record terminal =
  lns :: "cga_char list list"
  tx :: nat
  ty :: nat
  tcol :: u8

definition blank :: "u8 \<Rightarrow> cga_char list" where
  "blank c = replicate CGA_NUM_COLS \<lparr>code = 0, color = c\<rparr>"

definition t_put :: "u8 \<Rightarrow> terminal \<Rightarrow> terminal" where
  "t_put c t = t\<lparr>lns := (lns t)[ty t := (lns t ! ty t)[tx t := \<lparr>code = c, color = tcol t\<rparr>]]\<rparr>"

definition t_newline :: "terminal \<Rightarrow> terminal" where
  "t_newline t =
     (if ty t + 1 < CGA_NUM_ROWS then t\<lparr>tx := 0, ty := ty t + 1\<rparr>
      else t\<lparr>tx := 0, lns := tl (lns t) @ [blank (tcol t)]\<rparr>)"

definition t_back :: "terminal \<Rightarrow> terminal" where
  "t_back t =
     (if tx t > 0 then t_put 0 (t\<lparr>tx := tx t - 1\<rparr>)
      else if ty t > 0 then t_put 0 (t\<lparr>ty := ty t - 1, tx := CGA_NUM_COLS - 1\<rparr>)
      else t)"

definition t_visible :: "u8 \<Rightarrow> terminal \<Rightarrow> terminal" where
  "t_visible c t =
     (let t = (if tx t = CGA_NUM_COLS then t_newline t else t)
      in (t_put c t)\<lparr>tx := tx t + 1\<rparr>)"

definition t_char :: "u8 \<Rightarrow> terminal \<Rightarrow> terminal" where
  "t_char c t =
     (if c = 0x09 then (t_visible 0x20 ^^ 4) t
      else if c = 0x0D then t\<lparr>tx := 0\<rparr>
      else if c = 0x0A then t_newline t
      else if c = 0x08 \<or> c = 0x7F then t_back t
      else t_visible c t)"

datatype con_op =
    Con_ln | Con_tab | Con_char u8 | Con_string "u8 list" | Con_xy nat nat | Con_clear | Set_con

fun con_step :: "con_op \<Rightarrow> cga \<Rightarrow> cga" where
  "con_step Con_ln s = con_ln s"
| "con_step Con_tab s = con_tab s"
| "con_step (Con_char c) s = con_char c s"
| "con_step (Con_string str) s = con_string str s"
| "con_step (Con_xy x y) s = con_xy x y s"
| "con_step Con_clear s = con_clear s"
| "con_step Set_con s = set_con s"

definition t_clear :: "terminal \<Rightarrow> terminal" where
  "t_clear t = t\<lparr>lns := replicate CGA_NUM_ROWS (blank (tcol t)), tx := 0, ty := 0\<rparr>"

fun t_step :: "con_op \<Rightarrow> terminal \<Rightarrow> terminal" where
  "t_step Con_ln t = t_newline t"
| "t_step Con_tab t = t_char 0x09 t"
| "t_step (Con_char c) t = t_char c t"
| "t_step (Con_string str) t = fold t_char str t"
| "t_step (Con_xy x y) t =
     (if x < CGA_NUM_COLS \<and> y < CGA_NUM_ROWS then t\<lparr>tx := x, ty := y\<rparr> else t)"
| "t_step Con_clear t = t_clear t"
| "t_step Set_con t = (t_clear t)\<lparr>tcol := 0x0E\<rparr>"

text \<open>What is on the screen, and the states in which the cursor is on it. The column may be 80:
  the next character then starts a new line.\<close>

definition line_at :: "cga \<Rightarrow> nat \<Rightarrow> cga_char list" where
  "line_at s r = map (\<lambda>c. cga_buffer s (c + r * CGA_NUM_COLS)) [0..<CGA_NUM_COLS]"

definition screen :: "cga \<Rightarrow> terminal" where
  "screen s = \<lparr>lns = map (line_at s) [0..<CGA_NUM_ROWS], tx = cur_x s, ty = cur_y s, tcol = char_color s\<rparr>"

definition cga_wf :: "cga \<Rightarrow> bool" where
  "cga_wf s \<longleftrightarrow> cur_x s \<le> CGA_NUM_COLS \<and> cur_y s < CGA_NUM_ROWS"

definition off_screen :: "cga \<Rightarrow> nat \<Rightarrow> cga_char" where
  "off_screen s i = cga_buffer s (CGA_NUM_ROWS * CGA_NUM_COLS + i)"

section \<open>Rows of the buffer\<close>

lemmas cga_size = CGA_NUM_COLS_def CGA_NUM_ROWS_def

lemma cga_buffer_same: "(\<And>j. f j = cga_buffer s j) \<Longrightarrow> s = s\<lparr>cga_buffer := f\<rparr>"
  by (rule cga.equality) (auto simp: fun_eq_iff)

lemma cga_buffer_cong: "(\<And>j. f j = g j) \<Longrightarrow> s\<lparr>cga_buffer := f\<rparr> = s\<lparr>cga_buffer := g\<rparr>"
  by (rule cga.equality) (auto simp: fun_eq_iff)

lemma fill_cells:
  "fold (\<lambda>i. put_cell (i + k) e) [0..<n] s =
     s\<lparr>cga_buffer := \<lambda>j. if k \<le> j \<and> j < k + n then e else cga_buffer s j\<rparr>"
  by (induction n) (auto simp: put_cell_def intro!: cga_buffer_same cga_buffer_cong)

lemma clear_row_eq:
  "clear_row row s = s\<lparr>cga_buffer := \<lambda>j. if row * 80 \<le> j \<and> j < row * 80 + 80 then empty_cell s
     else cga_buffer s j\<rparr>"
  by (simp add: clear_row_def fill_cells cga_size)

lemma copy_cells:
  "n \<le> 80 \<Longrightarrow>
   fold (\<lambda>col s. put_cell (col + r * 80) (cga_buffer s (col + Suc r * 80)) s) [0..<n] s =
     s\<lparr>cga_buffer := \<lambda>j. if r * 80 \<le> j \<and> j < r * 80 + n then cga_buffer s (j + 80)
        else cga_buffer s j\<rparr>"
  by (induction n)
    (auto simp: put_cell_def algebra_simps intro!: cga_buffer_same cga_buffer_cong)

lemma copy_row_eq:
  "copy_row (Suc r) s = s\<lparr>cga_buffer := \<lambda>j. if r * 80 \<le> j \<and> j < r * 80 + 80
     then cga_buffer s (j + 80) else cga_buffer s j\<rparr>"
  using copy_cells [of 80 r s] by (simp add: copy_row_def cga_size)

lemma copy_rows_eq:
  "fold copy_row [1..<Suc m] s =
     s\<lparr>cga_buffer := \<lambda>j. if j < m * 80 then cga_buffer s (j + 80) else cga_buffer s j\<rparr>"
  by (induction m) (auto simp: copy_row_eq intro!: cga_buffer_same cga_buffer_cong)

lemma clear_rows_eq:
  "fold clear_row [0..<m] s =
     s\<lparr>cga_buffer := \<lambda>j. if j < m * 80 then empty_cell s else cga_buffer s j\<rparr>"
  by (induction m)
    (auto simp: clear_row_eq empty_cell_def intro!: cga_buffer_same cga_buffer_cong)

lemma scroll_eq:
  "clear_row 24 (fold copy_row [Suc 0..<25] s) =
     s\<lparr>cga_buffer := \<lambda>j. if j < 1920 then cga_buffer s (j + 80)
        else if j < 2000 then empty_cell s else cga_buffer s j\<rparr>"
  using copy_rows_eq [of 24 s]
  by (auto simp: clear_row_eq empty_cell_def intro!: cga_buffer_cong)

section \<open>The driver simulates the terminal\<close>

lemma cell_index_inj:
  assumes "c < 80" "c' < (80 :: nat)"
  shows "c + r * 80 = c' + r' * 80 \<longleftrightarrow> c = c' \<and> r = r'"
proof
  assume e: "c + r * 80 = c' + r' * 80"
  then have "(c + r * 80) mod 80 = (c' + r' * 80) mod 80" by (rule arg_cong)
  with assms have "c = c'" by simp
  with e show "c = c' \<and> r = r'" by simp
qed simp

lemma line_at_put_cell:
  assumes "x < 80"
  shows "line_at (put_cell (x + y * 80) e s) r =
    (if r = y then (line_at s r)[x := e] else line_at s r)"
  using assms
  by (auto simp: line_at_def put_cell_def cga_size nth_list_update cell_index_inj
      intro!: nth_equalityI)

lemma lines_put_cell:
  assumes "x < 80" "y < 25"
  shows "map (line_at (put_cell (x + y * 80) e s)) [0..<25] =
    (map (line_at s) [0..<25])[y := (line_at s y)[x := e]]"
  using assms by (intro nth_equalityI) (simp_all add: line_at_put_cell nth_list_update)

lemma screen_sel [simp]:
  "tx (screen s) = cur_x s" "ty (screen s) = cur_y s" "tcol (screen s) = char_color s"
  "lns (screen s) = map (line_at s) [0..<25]"
  by (simp_all add: screen_def cga_size)

lemma line_at_cong:
  "(\<And>c. c < 80 \<Longrightarrow> cga_buffer s (c + r * 80) = cga_buffer s' (c + r' * 80)) \<Longrightarrow>
    line_at s r = line_at s' r'"
  by (simp add: line_at_def cga_size)

lemma line_at_blank:
  "(\<And>c. c < 80 \<Longrightarrow> cga_buffer s (c + r * 80) = \<lparr>code = 0, color = k\<rparr>) \<Longrightarrow> line_at s r = blank k"
  by (rule nth_equalityI) (simp_all add: line_at_def blank_def cga_size)

text \<open>One call is simulated: the screen afterwards is the terminal's, the cursor is still on
  the screen, and nothing outside it was written.\<close>

definition simulates :: "(cga \<Rightarrow> cga) \<Rightarrow> (terminal \<Rightarrow> terminal) \<Rightarrow> bool" where
  "simulates f g \<longleftrightarrow> (\<forall>s. cga_wf s \<longrightarrow>
     screen (f s) = g (screen s) \<and> cga_wf (f s) \<and> off_screen (f s) = off_screen s)"

lemma simulatesI:
  assumes "\<And>s. cga_wf s \<Longrightarrow> screen (f s) = g (screen s)"
    and "\<And>s. cga_wf s \<Longrightarrow> cga_wf (f s)"
    and "\<And>s. cga_wf s \<Longrightarrow> off_screen (f s) = off_screen s"
  shows "simulates f g"
  using assms by (simp add: simulates_def)

lemma simulates_comp:
  "simulates f g \<Longrightarrow> simulates f' g' \<Longrightarrow> simulates (\<lambda>s. f' (f s)) (\<lambda>t. g' (g t))"
  by (simp add: simulates_def)

lemma simulates_fold:
  "(\<And>x. simulates (f x) (g x)) \<Longrightarrow> simulates (fold f xs) (fold g xs)"
proof (induction xs)
  case (Cons x xs)
  from simulates_comp [OF Cons.prems Cons.IH [OF Cons.prems]] show ?case
    by (simp add: comp_def)
qed (simp add: simulates_def)

lemma screen_eqI:
  assumes "cur_x s = tx t" "cur_y s = ty t" "char_color s = tcol t"
    and "map (line_at s) [0..<25] = lns t" and "terminal.more t = ()"
  shows "screen s = t"
  using assms by (intro terminal.equality) simp_all

lemma print_newLine_simulates: "simulates print_newLine t_newline"
proof (rule simulatesI)
  fix s assume wf: "cga_wf s"
  show "screen (print_newLine s) = t_newline (screen s)"
  proof (cases "cur_y s < 24")
    case True
    then show ?thesis
      by (simp add: print_newLine_def t_newline_def screen_def cga_size line_at_def)
  next
    case False
    have "map (line_at (print_newLine s)) [0..<25] =
        tl (map (line_at s) [0..<25]) @ [blank (char_color s)]"
    proof (rule nth_equalityI)
      fix i assume "i < length (map (line_at (print_newLine s)) [0..<25])"
      then consider "i < 24" | "i = 24" by force
      then show "map (line_at (print_newLine s)) [0..<25] ! i =
          (tl (map (line_at s) [0..<25]) @ [blank (char_color s)]) ! i"
      proof cases
        case 1
        then have "line_at (print_newLine s) i = line_at s (Suc i)"
          using False
          by (intro line_at_cong) (auto simp: print_newLine_def cga_size scroll_eq Let_def
              algebra_simps)
        with 1 show ?thesis by (simp add: nth_append nth_tl)
      next
        case 2
        have "line_at (print_newLine s) 24 = blank (char_color s)"
          using False
          by (intro line_at_blank) (auto simp: print_newLine_def cga_size scroll_eq Let_def
              empty_cell_def)
        with 2 show ?thesis by (simp add: nth_append)
      qed
    qed simp
    with False wf show ?thesis
      by (intro screen_eqI)
        (simp_all add: print_newLine_def t_newline_def cga_size scroll_eq cga_wf_def Let_def)
  qed
  from wf show "cga_wf (print_newLine s)"
    by (auto simp: print_newLine_def cga_wf_def cga_size scroll_eq Let_def)
  show "off_screen (print_newLine s) = off_screen s"
    by (auto simp: print_newLine_def off_screen_def cga_size scroll_eq Let_def)
qed


lemma put_cell_sel [simp]:
  "cur_x (put_cell i e s) = cur_x s" "cur_y (put_cell i e s) = cur_y s"
  "char_color (put_cell i e s) = char_color s"
  by (simp_all add: put_cell_def)

lemma off_screen_put_cell:
  "x < 80 \<Longrightarrow> y < 25 \<Longrightarrow> off_screen (put_cell (x + y * 80) e s) = off_screen s"
  by (auto simp: off_screen_def put_cell_def cga_size fun_eq_iff)

lemma screen_put:
  assumes "cur_x s < 80" "cur_y s < 25"
  shows "screen (put_cell (cur_x s + cur_y s * 80) \<lparr>code = c, color = char_color s\<rparr> s) =
    t_put c (screen s)"
  using assms by (intro screen_eqI) (simp_all add: t_put_def lines_put_cell)

lemma line_at_cursor [simp]:
  "line_at (s\<lparr>cur_x := x\<rparr>) r = line_at s r" "line_at (s\<lparr>cur_y := y\<rparr>) r = line_at s r"
  "line_at (s\<lparr>arch := l\<rparr>) r = line_at s r" "line_at (s\<lparr>char_color := k\<rparr>) r = line_at s r"
  by (simp_all add: line_at_def)

lemma screen_cursor [simp]:
  "screen (s\<lparr>cur_x := x\<rparr>) = (screen s)\<lparr>tx := x\<rparr>"
  "screen (s\<lparr>cur_y := y\<rparr>) = (screen s)\<lparr>ty := y\<rparr>"
  "screen (s\<lparr>arch := l\<rparr>) = screen s"
  "screen (s\<lparr>char_color := k\<rparr>) = (screen s)\<lparr>tcol := k\<rparr>"
  by (simp_all add: screen_def line_at_def)

lemma off_screen_cursor [simp]:
  "off_screen (s\<lparr>cur_x := x\<rparr>) = off_screen s" "off_screen (s\<lparr>cur_y := y\<rparr>) = off_screen s"
  "off_screen (s\<lparr>arch := l\<rparr>) = off_screen s" "off_screen (s\<lparr>char_color := k\<rparr>) = off_screen s"
  by (simp_all add: off_screen_def fun_eq_iff)

lemma print_del_simulates: "simulates print_del t_back"
proof (rule simulatesI)
  fix s assume wf: "cga_wf s"
  define s1 where "s1 = (if cur_x s > 0 then s\<lparr>cur_x := cur_x s - 1\<rparr>
    else s\<lparr>cur_y := cur_y s - 1, cur_x := 79\<rparr>)"
  show "screen (print_del s) = t_back (screen s)" "cga_wf (print_del s)"
    "off_screen (print_del s) = off_screen s"
  proof (atomize (full), cases "cur_x s = 0 \<and> cur_y s = 0")
    case True
    with wf show "screen (print_del s) = t_back (screen s) \<and> cga_wf (print_del s)
        \<and> off_screen (print_del s) = off_screen s"
      by (simp add: print_del_def t_back_def)
  next
    case False
    then have d: "print_del s = put_cell (cur_x s1 + cur_y s1 * 80) \<lparr>code = 0, color = char_color s1\<rparr> s1"
      by (auto simp: print_del_def s1_def cga_size empty_cell_def)
    from wf False have b: "cur_x s1 < 80" "cur_y s1 < 25"
      by (auto simp: s1_def cga_wf_def cga_size)
    have "t_back (screen s) = t_put 0 (screen s1)"
      using False by (auto simp: t_back_def s1_def cga_size)
    with d b screen_put [OF b] show "screen (print_del s) = t_back (screen s) \<and> cga_wf (print_del s)
        \<and> off_screen (print_del s) = off_screen s"
      by (simp add: off_screen_put_cell cga_wf_def cga_size) (simp add: s1_def)
  qed
qed

definition print_visible :: "u8 \<Rightarrow> cga \<Rightarrow> cga" where
  "print_visible c s =
     (let s = (if cur_x s \<ge> CGA_NUM_COLS then print_newLine s else s);
          s = put_cell (cur_x s + cur_y s * CGA_NUM_COLS) \<lparr>code = c, color = char_color s\<rparr> s
      in s\<lparr>cur_x := cur_x s + 1\<rparr>)"

lemma print_char_visible:
  "c \<notin> {0x09, 0x0D, 0x0A, 0x08, 0x7F} \<Longrightarrow> print_char c = print_visible c"
  by (rule ext) (simp add: print_char.simps [of c] print_visible_def)

lemma print_char_tab:
  "print_char 0x09 = print_visible 0x20 ^^ 4"
proof -
  have "print_char 0x20 = print_visible 0x20" by (rule print_char_visible) simp
  then show ?thesis
    by (intro ext) (simp add: print_char.simps [of "0x09"] numeral_eq_Suc)
qed

lemma print_visible_simulates: "simulates (print_visible c) (t_visible c)"
proof (rule simulatesI)
  fix s assume wf: "cga_wf s"
  define s1 where "s1 = (if cur_x s \<ge> 80 then print_newLine s else s)"
  have s1: "screen s1 = (if tx (screen s) = 80 then t_newline (screen s) else screen s)"
      "cga_wf s1" "off_screen s1 = off_screen s"
    using wf print_newLine_simulates
    by (auto simp: s1_def simulates_def cga_wf_def cga_size)
  have "cur_x s1 < 80"
    by (auto simp: s1_def print_newLine_def cga_size scroll_eq Let_def)
  moreover from s1(2) have "cur_y s1 < 25" by (simp add: cga_wf_def cga_size)
  moreover have "print_visible c s = (put_cell (cur_x s1 + cur_y s1 * 80)
      \<lparr>code = c, color = char_color s1\<rparr> s1)\<lparr>cur_x := cur_x s1 + 1\<rparr>"
    by (simp add: print_visible_def s1_def cga_size Let_def)
  moreover have "t_visible c (screen s) = (t_put c (screen s1))\<lparr>tx := cur_x s1 + 1\<rparr>"
    using s1(1) by (simp add: t_visible_def cga_size Let_def flip: screen_sel(1))
  ultimately show "screen (print_visible c s) = t_visible c (screen s)"
      "cga_wf (print_visible c s)" "off_screen (print_visible c s) = off_screen s"
    using s1(3) by (simp_all add: screen_put off_screen_put_cell cga_wf_def cga_size)
qed

lemma simulates_funpow: "simulates f g \<Longrightarrow> simulates (f ^^ n) (g ^^ n)"
  by (induction n) (auto simp: simulates_def)

lemma print_char_simulates: "simulates (print_char c) (t_char c)"
proof -
  have cr: "simulates (print_char 0x0D) (t_char 0x0D)"
    by (rule simulatesI) (simp_all add: print_char.simps [of "0x0D"] t_char_def cga_wf_def)
  have nl: "print_char 0x0A = print_newLine" "t_char 0x0A = t_newline"
    by (simp_all add: fun_eq_iff print_char.simps [of "0x0A"] t_char_def)
  have del: "print_char 0x08 = print_del" "t_char 0x08 = t_back"
    "print_char 0x7F = print_del" "t_char 0x7F = t_back"
    by (simp_all add: fun_eq_iff print_char.simps [of "0x08"] print_char.simps [of "0x7F"] t_char_def)
  have tab: "t_char 0x09 = t_visible 0x20 ^^ 4" by (simp add: fun_eq_iff t_char_def)
  consider "c = 0x09" | "c = 0x0D" | "c = 0x0A" | "c = 0x08 \<or> c = 0x7F"
    | "c \<notin> {0x09, 0x0D, 0x0A, 0x08, 0x7F}" by blast
  then show ?thesis
  proof cases
    case 1
    with simulates_funpow [OF print_visible_simulates] tab show ?thesis
      by (simp add: print_char_tab)
  next
    case 5
    then have "t_char c = t_visible c" by (simp add: fun_eq_iff t_char_def)
    with print_char_visible [OF 5] print_visible_simulates show ?thesis by simp
  qed (use cr nl del print_newLine_simulates print_del_simulates in auto)
qed


lemma print_clear_simulates: "simulates print_clear t_clear"
proof (rule simulatesI)
  fix s
  have "line_at (print_clear s) r = blank (char_color s)" if "r < 25" for r
    using that by (intro line_at_blank) (simp add: print_clear_def cga_size clear_rows_eq empty_cell_def)
  then have "map (line_at (print_clear s)) [0..<25] = replicate 25 (blank (char_color s))"
    by (intro nth_equalityI) simp_all
  then show "screen (print_clear s) = t_clear (screen s)"
    by (intro screen_eqI) (simp_all add: print_clear_def t_clear_def cga_size clear_rows_eq)
  show "cga_wf (print_clear s)" "off_screen (print_clear s) = off_screen s"
    by (simp_all add: print_clear_def cga_size clear_rows_eq cga_wf_def off_screen_def fun_eq_iff)
qed

lemma print_string_simulates: "simulates (print_string str) (fold t_char str)"
  using simulates_fold [OF print_char_simulates, where xs = str]
  by (simp add: print_string_def [abs_def])

section \<open>The console calls\<close>

text \<open>The position the hardware cursor was last set to.\<close>

fun last_pos :: "arch_call list \<Rightarrow> (nat \<times> nat) option" where
  "last_pos [] = None"
| "last_pos (Arch_set_cursor_pos r c # l) = Some (r, c)"
| "last_pos (Arch_show_cursor # l) = last_pos l"

definition hw_cursor :: "arch_call list \<Rightarrow> (nat \<times> nat) option" where
  "hw_cursor l = last_pos (rev l)"

lemma move_cursor_simulates: "simulates f g \<Longrightarrow> simulates (\<lambda>s. move_cursor (f s)) g"
  by (simp add: simulates_def move_cursor_def print_getxy_def cga_wf_def)

lemma move_cursor_hw: "hw_cursor (arch (move_cursor s)) = Some (cur_y (move_cursor s), cur_x (move_cursor s))"
  by (simp add: move_cursor_def print_getxy_def hw_cursor_def)

lemma con_ln_simulates: "simulates con_ln t_newline"
proof -
  have "(\<lambda>t. t_char 0x0A (t_char 0x0D t)) = t_newline"
    by (simp add: fun_eq_iff t_char_def t_newline_def)
  with simulates_comp [OF print_char_simulates [of "0x0D"] print_char_simulates [of "0x0A"]]
  have "simulates (\<lambda>s. print_char 0x0A (print_char 0x0D s)) t_newline" by simp
  from move_cursor_simulates [OF this] show ?thesis by (simp add: con_ln_def [abs_def])
qed

lemma con_xy_simulates: "simulates (con_xy x y) (t_step (Con_xy x y))"
  by (rule simulatesI)
    (auto simp: con_xy_def print_setxy_def print_getxy_def cga_wf_def cga_size Let_def)

lemma set_con_simulates: "simulates set_con (t_step Set_con)"
  using move_cursor_simulates [OF print_clear_simulates]
  by (simp add: simulates_def set_con_def print_color_def move_cursor_def print_getxy_def
      CGA_COLOR_def PRINT_COLOR_YELLOW_def PRINT_COLOR_BLACK_def cga_wf_def Let_def)

lemma con_step_simulates: "simulates (con_step p) (t_step p)"
proof (cases p)
  case Con_ln
  with con_ln_simulates show ?thesis by (simp add: simulates_def)
next
  case Con_tab
  with move_cursor_simulates [OF print_char_simulates] show ?thesis
    by (simp add: simulates_def con_tab_def)
next
  case (Con_char c)
  with move_cursor_simulates [OF print_char_simulates] show ?thesis
    by (simp add: simulates_def con_char_def)
next
  case (Con_string str)
  with move_cursor_simulates [OF print_string_simulates] show ?thesis
    by (simp add: simulates_def con_string_def)
next
  case (Con_xy x y)
  with con_xy_simulates show ?thesis by (simp add: simulates_def)
next
  case Con_clear
  with move_cursor_simulates [OF print_clear_simulates] show ?thesis
    by (simp add: simulates_def con_clear_def)
next
  case Set_con
  with set_con_simulates show ?thesis by (simp add: simulates_def)
qed

lemma con_step_hw: "hw_cursor (arch (con_step p s)) = Some (cur_y (con_step p s), cur_x (con_step p s))"
  by (cases p)
    (simp_all add: con_ln_def con_tab_def con_char_def con_string_def con_clear_def move_cursor_hw
      con_xy_def set_con_def print_color_def move_cursor_def print_getxy_def Let_def hw_cursor_def)

lemma con_steps_hw:
  "ops \<noteq> [] \<Longrightarrow> hw_cursor (arch (fold con_step ops s)) =
     Some (cur_y (fold con_step ops s), cur_x (fold con_step ops s))"
  by (induction ops rule: rev_induct) (simp_all add: con_step_hw)

section \<open>Text\<close>

text \<open>The number of cells before the cursor; at the end of a line the cursor has two
  representations with the same number.\<close>

definition cur_pos :: "cga \<Rightarrow> nat" where
  "cur_pos s = cur_x s + cur_y s * CGA_NUM_COLS"

definition printable :: "u8 \<Rightarrow> bool" where
  "printable c \<longleftrightarrow> 0x20 \<le> c \<and> c \<noteq> 0x7F"

lemma printable_visible: "printable c \<Longrightarrow> print_char c = print_visible c"
  by (rule print_char_visible) (auto simp: printable_def)

lemma print_visible_at:
  assumes "cga_wf s" "cur_pos s < 2000"
  shows "cga_buffer (print_visible c s) = (cga_buffer s)(cur_pos s := \<lparr>code = c, color = char_color s\<rparr>)"
    and "cur_pos (print_visible c s) = cur_pos s + 1"
    and "char_color (print_visible c s) = char_color s"
    and "cga_wf (print_visible c s)"
  using assms
  by (auto simp: print_visible_def put_cell_def print_newLine_def cur_pos_def cga_wf_def cga_size Let_def)

lemma print_text:
  "\<lbrakk>cga_wf s; cur_pos s + length str \<le> 2000; list_all printable str\<rbrakk> \<Longrightarrow>
    cga_buffer (print_string str s) =
      (\<lambda>j. if cur_pos s \<le> j \<and> j < cur_pos s + length str
           then \<lparr>code = str ! (j - cur_pos s), color = char_color s\<rparr> else cga_buffer s j)
    \<and> cur_pos (print_string str s) = cur_pos s + length str"
proof (induction str arbitrary: s)
  case (Cons c str)
  then have "cur_pos s < 2000" by simp
  note v = print_visible_at [OF Cons.prems(1) this, of c]
  have "print_string (c # str) s = print_string str (print_visible c s)"
    using Cons.prems(3) by (simp add: print_string_def printable_visible)
  with Cons.IH [of "print_visible c s"] Cons.prems v show ?case
    by (auto simp: fun_eq_iff nth_Cons' Suc_diff_le)
qed (auto simp: print_string_def fun_eq_iff)

section \<open>Properties\<close>

text \<open>
  C14: any sequence of console calls leaves on the screen what the abstract terminal shows
  after it, lines, cursor and colour; the cursor stays on the screen, no cell outside the
  screen is written, and after the last call the hardware cursor is where the driver's is.
\<close>

theorem console_refines_terminal:
  assumes "cga_wf s"
  shows "let s' = fold con_step ops s
    in screen s' = fold t_step ops (screen s) \<and> cga_wf s' \<and> off_screen s' = off_screen s
      \<and> (ops = [] \<or> hw_cursor (arch s') = Some (cur_y s', cur_x s'))"
  using assms simulates_fold [of con_step t_step ops, OF con_step_simulates]
    con_steps_hw [of ops s]
  by (auto simp: simulates_def Let_def)

theorem console_refines_terminal_witness:
  "let s' = fold con_step [Set_con, Con_xy 79 24, Con_string [0x48, 0x69], Con_char 0x08]
              (cga_start (\<lambda>_. \<lparr>code = 0x3F, color = 7\<rparr>))
   in cur_x s' = 0 \<and> cur_y s' = 24 \<and> hw_cursor (arch s') = Some (24, 0)
     \<and> lns (screen s') ! 23 ! 79 = \<lparr>code = 0x48, color = 0x0E\<rparr>
     \<and> off_screen s' 0 = \<lparr>code = 0x3F, color = 7\<rparr>"
proof -
  define s where "s = cga_start (\<lambda>_. \<lparr>code = 0x3F, color = 7\<rparr>)"
  define ops where "ops = [Set_con, Con_xy 79 24, Con_string [0x48, 0x69], Con_char 0x08]"
  define t where "t = fold t_step ops (screen s)"
  have wf: "cga_wf s" by (simp add: s_def cga_start_def cga_wf_def cga_size)
  have t: "tx t = 0 \<and> ty t = 24 \<and> lns t ! 23 ! 79 = \<lparr>code = 0x48, color = 0x0E\<rparr>"
    by (simp add: t_def ops_def t_clear_def t_char_def t_visible_def t_newline_def t_put_def t_back_def
        cga_size blank_def Let_def nth_append nth_tl nth_list_update)
  from console_refines_terminal [OF wf, of ops] have "screen (fold con_step ops s) = t"
    "off_screen (fold con_step ops s) = off_screen s"
    "hw_cursor (arch (fold con_step ops s)) =
       Some (cur_y (fold con_step ops s), cur_x (fold con_step ops s))"
    by (simp_all add: Let_def t_def ops_def)
  then show ?thesis using t
    by (auto simp: Let_def s_def [symmetric] ops_def [symmetric])
      (simp add: s_def off_screen_def cga_start_def)
qed


text \<open>
  A string of printable characters that fits between the cursor and the end of the screen
  is stored in consecutive cells from the cursor on, wrapping at the end of each line,
  in the current colour; every other cell keeps its content and the cursor is behind the text.
\<close>

theorem console_shows_text:
  assumes "cga_wf s" "list_all printable str" "cur_pos s + length str \<le> CGA_NUM_ROWS * CGA_NUM_COLS"
  shows "cga_buffer (con_string str s) =
      (\<lambda>j. if cur_pos s \<le> j \<and> j < cur_pos s + length str
           then \<lparr>code = str ! (j - cur_pos s), color = char_color s\<rparr> else cga_buffer s j)
    \<and> cur_pos (con_string str s) = cur_pos s + length str"
  using print_text [of s str] assms
  by (simp add: con_string_def move_cursor_def print_getxy_def cga_size cur_pos_def)

theorem console_shows_text_witness:
  "let s = con_xy 79 3 (cga_start (\<lambda>_. \<lparr>code = 0, color = 7\<rparr>)); s' = con_string [0x4F, 0x4B] s
   in cga_buffer s' 319 = \<lparr>code = 0x4F, color = 0x0F\<rparr> \<and> cga_buffer s' 320 = \<lparr>code = 0x4B, color = 0x0F\<rparr>
     \<and> cga_buffer s' 321 = \<lparr>code = 0, color = 7\<rparr> \<and> cur_pos s' = 321"
  using console_shows_text
    [of "con_xy 79 3 (cga_start (\<lambda>_. \<lparr>code = 0, color = 7\<rparr>))" "[0x4F, 0x4B]"]
  by (simp add: Let_def con_xy_def print_setxy_def print_getxy_def cga_start_def cga_wf_def cur_pos_def
      cga_size printable_def CGA_COLOR_def PRINT_COLOR_WHITE_def PRINT_COLOR_BLACK_def)

end
