(* ===== verification/X86_Cursor.thy ===== *)
theory X86_Cursor
  imports Print X86_Io
begin

text \<open>
  The hardware cursor of the PC target, \<open>arch/x86_64/sys/text_hwcursor.asm\<close>, one line of the assembly
  per line here, against the index and data ports of a VGA controller, and its use by the console: the
  cursor registers follow the cursor of \<open>print.c\<close>.
\<close>

section \<open>The routines\<close>

abbreviation VGA_TEXT_COLUMNS :: u64 where "VGA_TEXT_COLUMNS \<equiv> 80"
abbreviation VGA_REG_DATA_PORT :: u16 where "VGA_REG_DATA_PORT \<equiv> 0x3D5"
abbreviation VGA_REG_ADDRESS_PORT :: u16 where "VGA_REG_ADDRESS_PORT \<equiv> 0x3D4"
abbreviation VGA_CURSOR_START_REG :: u64 where "VGA_CURSOR_START_REG \<equiv> 0x0A"
abbreviation VGA_CURSOR_VISIBLE_MASK :: u8 where "VGA_CURSOR_VISIBLE_MASK \<equiv> 0x20"
abbreviation VGA_CURSOR_END_REG :: u64 where "VGA_CURSOR_END_REG \<equiv> 0x0B"
abbreviation VGA_CURSOR_END_SCANLINE_MASK :: u8 where "VGA_CURSOR_END_SCANLINE_MASK \<equiv> 0x1F"
abbreviation VGA_CURSOR_DATA_HI_REG :: u64 where "VGA_CURSOR_DATA_HI_REG \<equiv> 0x0E"
abbreviation VGA_CURSOR_DATA_LOW_REG :: u64 where "VGA_CURSOR_DATA_LOW_REG \<equiv> 0x0F"

definition select_vga_reg :: "pdev \<Rightarrow> 'a ide_cpu_scheme \<Rightarrow> 'a ide_cpu_scheme" where
  "select_vga_reg P s =
     (let s = xor_rax s;
          s = mov_al (lo8 (rdi s)) s;
          s = mov_dx VGA_REG_ADDRESS_PORT s;
          s = out_al s;
          s = mov_dx VGA_REG_DATA_PORT s
      in in_al P s)"

definition arch_show_cursor :: "pdev \<Rightarrow> 'a ide_cpu_scheme \<Rightarrow> 'a ide_cpu_scheme" where
  "arch_show_cursor P s =
     (let s = s\<lparr>rdi := VGA_CURSOR_START_REG\<rparr>;
          s = select_vga_reg P s;
          s = and_al (NOT VGA_CURSOR_VISIBLE_MASK) s;
          s = out_al s;
          s = s\<lparr>rdi := VGA_CURSOR_END_REG\<rparr>;
          s = select_vga_reg P s;
          s = or_al_imm VGA_CURSOR_END_SCANLINE_MASK s
      in out_al s)"

definition arch_hide_cursor :: "pdev \<Rightarrow> 'a ide_cpu_scheme \<Rightarrow> 'a ide_cpu_scheme" where
  "arch_hide_cursor P s =
     (let s = s\<lparr>rdi := VGA_CURSOR_START_REG\<rparr>;
          s = select_vga_reg P s;
          s = or_al_imm VGA_CURSOR_VISIBLE_MASK s
      in out_al s)"

definition arch_set_cursor_pos :: "pdev \<Rightarrow> 'a ide_cpu_scheme \<Rightarrow> 'a ide_cpu_scheme" where
  "arch_set_cursor_pos P s =
     (let s = s\<lparr>rdi := rdi s * VGA_TEXT_COLUMNS\<rparr>;
          s = s\<lparr>rdi := rdi s + rsi s, zf := (rdi s + rsi s = 0)\<rparr>;
          s = s\<lparr>rcx := rdi s\<rparr>;
          s = s\<lparr>rdi := VGA_CURSOR_DATA_HI_REG\<rparr>;
          s = select_vga_reg P s;
          s = s\<lparr>rax := rcx s\<rparr>;
          s = xchg_ah_al s;
          s = out_al s;
          s = s\<lparr>rdi := VGA_CURSOR_DATA_LOW_REG\<rparr>;
          s = select_vga_reg P s;
          s = s\<lparr>rax := rcx s\<rparr>
      in out_al s)"

section \<open>The controller\<close>

text \<open>The documented behaviour of the index and data ports; other ports leave the controller alone.\<close>

record vga =
  index :: u8
  regs :: "u8 \<Rightarrow> u8"

fun vga_of :: "vga \<Rightarrow> port_event list \<Rightarrow> vga" where
  "vga_of ini [] = ini"
| "vga_of ini (OutB p v # t) =
     (let g = vga_of ini t
      in if p = VGA_REG_ADDRESS_PORT then g\<lparr>index := v\<rparr>
         else if p = VGA_REG_DATA_PORT then g\<lparr>regs := (regs g)(index g := v)\<rparr> else g)"
| "vga_of ini (e # t) = vga_of ini t"

definition vga_bus :: "vga \<Rightarrow> pdev \<Rightarrow> bool" where
  "vga_bus ini P \<longleftrightarrow> (\<forall>t. ucast (P t VGA_REG_DATA_PORT) = (regs (vga_of ini t)) (index (vga_of ini t)))"

text \<open>The position in the location registers, and whether the cursor is shown.\<close>

definition vga_pos :: "vga \<Rightarrow> nat" where
  "vga_pos g = unat (regs g 0x0E) * 256 + unat (regs g 0x0F)"

definition vga_shown :: "vga \<Rightarrow> bool" where
  "vga_shown g \<longleftrightarrow> \<not> bit (regs g 0x0A) 5"

lemma select_vga_reg_eq:
  "vga_bus ini P \<Longrightarrow> \<exists>d. select_vga_reg P s = s\<lparr>rax := set_lo8 (regs (vga_of ini (pio s)) (lo8 (rdi s))) 0, rdx := d, zf := True,
     pio := InB 0x3D5 (regs (vga_of ini (pio s)) (lo8 (rdi s))) # OutB 0x3D4 (lo8 (rdi s)) # pio s\<rparr> \<and> lo16 d = 0x3D5"
proof -
  assume "vga_bus ini P"
  then have "(ucast (P (OutB 0x3D4 (lo8 (rdi s)) # pio s) 0x3D5) :: u8) = regs (vga_of ini (pio s)) (lo8 (rdi s))"
    by (simp add: vga_bus_def Let_def)
  then show ?thesis
    by (intro exI [of _ "set_lo16 0x3D5 (set_lo16 0x3D4 (rdx s))"], cases s)
      (simp add: select_vga_reg_def mov_dx_def in_al_def out_al_def x86 Let_def)
qed

lemma show_cursor_ok:
  assumes "vga_bus ini P" "g = vga_of ini (pio s)"
  shows "\<exists>a d i z l. arch_show_cursor P s = s\<lparr>rax := a, rdx := d, rdi := i, zf := z, pio := l @ pio s\<rparr>
    \<and> regs (vga_of ini (l @ pio s)) = (regs g)(0x0A := regs g 0x0A AND NOT 0x20, 0x0B := regs g 0x0B OR 0x1F)"
proof -
  define s1 where "s1 = s\<lparr>rdi := 0x0A\<rparr>"
  obtain d1 where d1: "select_vga_reg P s1 = s1\<lparr>rax := set_lo8 (regs g 0x0A) 0, rdx := d1, zf := True,
      pio := InB 0x3D5 (regs g 0x0A) # OutB 0x3D4 0x0A # pio s\<rparr>" "lo16 d1 = 0x3D5"
    using select_vga_reg_eq [OF assms(1), of s1] by (auto simp: s1_def assms(2) lo8_def)
  let ?v = "regs g 0x0A AND NOT 0x20" and ?w = "regs g 0x0B OR 0x1F"
  define s2 where "s2 = (out_al (and_al (NOT 0x20) (select_vga_reg P s1)))\<lparr>rdi := 0x0B\<rparr>"
  have s2: "s2 = s\<lparr>rax := set_lo8 ?v 0, rdx := d1, rdi := 0x0B, zf := (?v = 0),
      pio := OutB 0x3D5 ?v # InB 0x3D5 (regs g 0x0A) # OutB 0x3D4 0x0A # pio s\<rparr>"
    using d1(2) unfolding s2_def d1(1) by (cases s) (simp add: s1_def and_al_def out_al_def)
  obtain d2 where d2: "select_vga_reg P s2 = s2\<lparr>rax := set_lo8 (regs g 0x0B) 0, rdx := d2, zf := True,
      pio := InB 0x3D5 (regs g 0x0B) # OutB 0x3D4 0x0B # pio s2\<rparr>" "lo16 d2 = 0x3D5"
    using select_vga_reg_eq [OF assms(1), of s2] by (auto simp: s2 assms(2) lo8_def Let_def)
  let ?l = "[OutB 0x3D5 ?w, InB 0x3D5 (regs g 0x0B), OutB 0x3D4 0x0B, OutB 0x3D5 ?v, InB 0x3D5 (regs g 0x0A), OutB 0x3D4 0x0A]"
  have "arch_show_cursor P s = out_al (or_al_imm 0x1F (select_vga_reg P s2))"
    by (simp add: arch_show_cursor_def s2_def s1_def Let_def)
  then have "arch_show_cursor P s = s\<lparr>rax := set_lo8 ?w 0, rdx := d2, rdi := 0x0B, zf := (?w = 0), pio := ?l @ pio s\<rparr>"
    using d2(2) unfolding d2(1) by (cases s) (simp add: s2 or_al_imm_def out_al_def)
  moreover have "regs (vga_of ini (?l @ pio s)) = (regs g)(0x0A := ?v, 0x0B := ?w)"
    by (simp add: Let_def assms(2))
  ultimately show ?thesis by blast
qed

lemma xchg_low: "lo8 (set_lo16 (push_bit 8 (lo16 r) OR drop_bit 8 (lo16 r)) r) = ucast (drop_bit 8 r)"
  by (rule bit_word_eqI) (auto simp: lo8_def lo16_def set_lo16_def bit_simps)

lemma set_cursor_ok:
  assumes "vga_bus ini P" "g = vga_of ini (pio s)" "p = rdi s * 80 + rsi s"
  shows "\<exists>c d i z l. arch_set_cursor_pos P s = s\<lparr>rax := p, rcx := c, rdx := d, rdi := i, zf := z, pio := l @ pio s\<rparr>
    \<and> regs (vga_of ini (l @ pio s)) = (regs g)(0x0E := ucast (drop_bit 8 p), 0x0F := ucast p)"
proof -
  define s1 where "s1 = s\<lparr>rcx := p, rdi := 0x0E, zf := (p = 0)\<rparr>"
  obtain d1 where d1: "select_vga_reg P s1 = s1\<lparr>rax := set_lo8 (regs g 0x0E) 0, rdx := d1, zf := True,
      pio := InB 0x3D5 (regs g 0x0E) # OutB 0x3D4 0x0E # pio s\<rparr>" "lo16 d1 = 0x3D5"
    using select_vga_reg_eq [OF assms(1), of s1] by (auto simp: s1_def assms(2) lo8_def)
  let ?v = "ucast (drop_bit 8 p) :: u8" and ?w = "ucast p :: u8"
  define s2 where "s2 = (out_al (xchg_ah_al ((select_vga_reg P s1)\<lparr>rax := p\<rparr>)))\<lparr>rdi := 0x0F\<rparr>"
  obtain ax where s2: "s2 = s\<lparr>rax := ax, rcx := p, rdx := d1, rdi := 0x0F, zf := True,
      pio := OutB 0x3D5 ?v # InB 0x3D5 (regs g 0x0E) # OutB 0x3D4 0x0E # pio s\<rparr>"
  proof
    show "s2 = s\<lparr>rax := rax s2, rcx := p, rdx := d1, rdi := 0x0F, zf := True,
      pio := OutB 0x3D5 ?v # InB 0x3D5 (regs g 0x0E) # OutB 0x3D4 0x0E # pio s\<rparr>"
      using d1(2) unfolding s2_def d1(1) by (cases s) (simp add: s1_def xchg_ah_al_def out_al_def xchg_low)
  qed
  obtain d2 where d2: "select_vga_reg P s2 = s2\<lparr>rax := set_lo8 (regs g 0x0F) 0, rdx := d2, zf := True,
      pio := InB 0x3D5 (regs g 0x0F) # OutB 0x3D4 0x0F # pio s2\<rparr>" "lo16 d2 = 0x3D5"
    using select_vga_reg_eq [OF assms(1), of s2] by (auto simp: s2 assms(2) lo8_def Let_def)
  let ?l = "[OutB 0x3D5 ?w, InB 0x3D5 (regs g 0x0F), OutB 0x3D4 0x0F, OutB 0x3D5 ?v, InB 0x3D5 (regs g 0x0E), OutB 0x3D4 0x0E]"
  have c: "rcx (select_vga_reg P s1) = p" unfolding d1(1) by (simp add: s1_def)
  have "arch_set_cursor_pos P s = (let s = select_vga_reg P
      ((out_al (xchg_ah_al ((select_vga_reg P s1)\<lparr>rax := rcx (select_vga_reg P s1)\<rparr>)))\<lparr>rdi := 0x0F\<rparr>) in out_al (s\<lparr>rax := rcx s\<rparr>))"
    by (cases s) (simp add: arch_set_cursor_pos_def s1_def assms(3) Let_def)
  then have "arch_set_cursor_pos P s = (let s = select_vga_reg P s2 in out_al (s\<lparr>rax := rcx s\<rparr>))"
    unfolding c s2_def .
  then have "arch_set_cursor_pos P s = s\<lparr>rax := p, rcx := p, rdx := d2, rdi := 0x0F, zf := True, pio := ?l @ pio s\<rparr>"
    using d2(2) unfolding d2(1) by (cases s) (simp add: s2 out_al_def lo8_def Let_def)
  moreover have "regs (vga_of ini (?l @ pio s)) = (regs g)(0x0E := ?v, 0x0F := ?w)"
    by (simp add: Let_def assms(2))
  ultimately show ?thesis by blast
qed

section \<open>The console on the machine\<close>

text \<open>A call of the console made on the processor, in the System V convention with return address \<open>ra\<close>,
  and a sequence of them.\<close>

definition run_arch :: "pdev \<Rightarrow> u64 \<Rightarrow> arch_call \<Rightarrow> ide_cpu \<Rightarrow> ide_cpu option" where
  "run_arch P ra c w =
     (case c of
        Arch_set_cursor_pos row col \<Rightarrow>
          call ra (\<lambda>s. Some (arch_set_cursor_pos P s)) (w\<lparr>rdi := of_nat row, rsi := of_nat col\<rparr>)
      | Arch_show_cursor \<Rightarrow> call ra (\<lambda>s. Some (arch_show_cursor P s)) w)"

primrec run_archs :: "pdev \<Rightarrow> u64 \<Rightarrow> arch_call list \<Rightarrow> ide_cpu \<Rightarrow> ide_cpu option" where
  "run_archs P ra [] w = Some w"
| "run_archs P ra (c # cs) w = do { w \<leftarrow> run_arch P ra c w; run_archs P ra cs w }"

lemma run_archs_append: "run_archs P ra (cs @ cs') w = do { w \<leftarrow> run_archs P ra cs w; run_archs P ra cs' w }"
  by (induction cs arbitrary: w) (simp_all add: bind_assoc)

definition cursor_frame :: "ide_cpu \<Rightarrow> ide_cpu \<Rightarrow> bool" where
  "cursor_frame w w' \<longleftrightarrow> saved w w' \<and> df w' = df w \<and> ram w' = ram w"

lemma run_show:
  assumes "vga_bus ini P"
  shows "\<exists>w'. run_arch P ra Arch_show_cursor w = Some w' \<and> cursor_frame w w'
    \<and> vga_shown (vga_of ini (pio w')) \<and> vga_pos (vga_of ini (pio w')) = vga_pos (vga_of ini (pio w))"
proof -
  have "pio (push ra w) = pio w" by (simp add: push_def)
  from show_cursor_ok [OF assms refl, of "push ra w", unfolded this] obtain a d i z l where
    c: "arch_show_cursor P (push ra w) = (push ra w)\<lparr>rax := a, rdx := d, rdi := i, zf := z, pio := l @ pio w\<rparr>"
    "regs (vga_of ini (l @ pio w)) = (regs (vga_of ini (pio w)))(0x0A := regs (vga_of ini (pio w)) 0x0A AND NOT 0x20,
       0x0B := regs (vga_of ini (pio w)) 0x0B OR 0x1F)" by blast
  have "bit (NOT 0x20 :: u8) 5 = False" by simp
  then have "\<not> bit (regs (vga_of ini (pio w)) 0x0A AND NOT 0x20) 5" by (simp only: bit_and_iff simp_thms not_False_eq_True)
  then show ?thesis using c(2)
    by (simp add: run_arch_def call_def c(1), simp add: cursor_frame_def saved_def push_def pop_def vga_shown_def vga_pos_def)
qed

lemma run_set:
  assumes "vga_bus ini P" "row * 80 + col < 2 ^ 16"
  shows "\<exists>w'. run_arch P ra (Arch_set_cursor_pos row col) w = Some w' \<and> cursor_frame w w'
    \<and> vga_shown (vga_of ini (pio w')) = vga_shown (vga_of ini (pio w)) \<and> vga_pos (vga_of ini (pio w')) = row * 80 + col"
proof -
  let ?w = "w\<lparr>rdi := of_nat row, rsi := of_nat col\<rparr>" and ?p = "of_nat row * 80 + of_nat col :: u64"
  have w: "pio (push ra ?w) = pio w" "rdi (push ra ?w) = of_nat row" "rsi (push ra ?w) = of_nat col" by (simp_all add: push_def)
  from set_cursor_ok [OF assms(1) refl refl, of "push ra ?w", unfolded w] obtain c d i z l where
    c: "arch_set_cursor_pos P (push ra ?w) = (push ra ?w)\<lparr>rax := ?p, rcx := c, rdx := d, rdi := i, zf := z, pio := l @ pio w\<rparr>"
    "regs (vga_of ini (l @ pio w)) = (regs (vga_of ini (pio w)))(0x0E := ucast (drop_bit 8 ?p), 0x0F := ucast ?p)" by blast
  have "?p = of_nat (row * 80 + col)" by simp
  then have p: "unat ?p = row * 80 + col" using assms(2) by (simp only: unat_of_nat) simp
  have "unat (ucast (drop_bit 8 ?p) :: u8) = (row * 80 + col) div 256"
    using assms(2) by (simp add: unsigned_ucast_eq unsigned_take_bit_eq unat_div p take_bit_eq_mod drop_bit_eq_div less_mult_imp_div_less)
  moreover have "unat (ucast ?p :: u8) = (row * 80 + col) mod 256"
    by (simp add: unsigned_ucast_eq unsigned_take_bit_eq p take_bit_eq_mod)
  ultimately show ?thesis using c(2)
    by (simp add: run_arch_def call_def c(1), simp add: cursor_frame_def saved_def push_def pop_def vga_shown_def vga_pos_def)
qed

text \<open>All positions the console sets are on the screen or just behind its last column.\<close>

definition on_screen :: "arch_call \<Rightarrow> bool" where
  "on_screen c \<longleftrightarrow> (case c of Arch_set_cursor_pos row col \<Rightarrow> row < 25 \<and> col \<le> 80 | Arch_show_cursor \<Rightarrow> True)"

lemma run_archs_ok:
  assumes "vga_bus ini P"
  shows "list_all on_screen cs \<Longrightarrow> \<exists>w'. run_archs P ra cs w = Some w' \<and> cursor_frame w w'
    \<and> (vga_shown (vga_of ini (pio w')) \<longleftrightarrow> vga_shown (vga_of ini (pio w)) \<or> Arch_show_cursor \<in> set cs)
    \<and> vga_pos (vga_of ini (pio w')) = (case hw_cursor cs of None \<Rightarrow> vga_pos (vga_of ini (pio w)) | Some (r, c) \<Rightarrow> r * 80 + c)"
proof (induction cs rule: rev_induct)
  case Nil
  show ?case by (simp add: hw_cursor_def cursor_frame_def saved_def)
next
  case (snoc c cs)
  then obtain w1 where w1: "run_archs P ra cs w = Some w1" "cursor_frame w w1"
    "vga_shown (vga_of ini (pio w1)) \<longleftrightarrow> vga_shown (vga_of ini (pio w)) \<or> Arch_show_cursor \<in> set cs"
    "vga_pos (vga_of ini (pio w1)) = (case hw_cursor cs of None \<Rightarrow> vga_pos (vga_of ini (pio w)) | Some (r, c) \<Rightarrow> r * 80 + c)"
    by auto
  show ?case
  proof (cases c)
    case (Arch_set_cursor_pos row col)
    then have "row * 80 + col < 2 ^ 16" using snoc.prems by (simp add: on_screen_def)
    from run_set [OF assms this, of ra w1] w1 show ?thesis
      by (auto simp: run_archs_append Arch_set_cursor_pos hw_cursor_def cursor_frame_def saved_def)
  next
    case Arch_show_cursor
    from run_show [OF assms, of ra w1] w1 show ?thesis
      by (auto simp: run_archs_append Arch_show_cursor hw_cursor_def cursor_frame_def saved_def)
  qed
qed

lemma fold_arch: "(\<And>x s. x \<in> set xs \<Longrightarrow> arch (f x s) = arch s) \<Longrightarrow> arch (fold f xs s) = arch s"
  by (induction xs arbitrary: s) simp_all

lemma print_arch [simp]:
  "arch (put_cell i c s) = arch s" "arch (clear_row r s) = arch s" "arch (copy_row r s) = arch s"
  "arch (print_clear s) = arch s" "arch (print_newLine s) = arch s" "arch (print_del s) = arch s"
proof -
  show p: "arch (put_cell i c s) = arch s" for i c s by (simp add: put_cell_def)
  show c: "arch (clear_row r s) = arch s" for r s by (simp add: clear_row_def fold_arch p)
  show r: "arch (copy_row r s) = arch s" for r s by (simp add: copy_row_def fold_arch p)
  show "arch (print_clear s) = arch s" by (simp add: print_clear_def fold_arch c)
  show "arch (print_newLine s) = arch s" by (simp add: print_newLine_def fold_arch r c Let_def)
  show "arch (print_del s) = arch s" by (simp add: print_del_def p Let_def)
qed

lemma print_char_arch [simp]: "arch (print_char c s) = arch s"
proof -
  have v: "arch (print_char c s) = arch s" if "c \<noteq> 0x09" for c s
    using that by (subst print_char.simps) (simp add: Let_def)
  show ?thesis
  proof (cases "c = 0x09")
    case True
    then show ?thesis by (subst print_char.simps) (simp add: v)
  qed (rule v)
qed

lemma move_cursor_arch: "arch (move_cursor s) = arch s @ [Arch_set_cursor_pos (cur_y s) (cur_x s)]"
  "cur_y (move_cursor s) = cur_y s" "cur_x (move_cursor s) = cur_x s"
  by (simp_all add: move_cursor_def print_getxy_def)

lemma con_step_arch:
  "arch (con_step p s) = arch s @ [Arch_set_cursor_pos (cur_y (con_step p s)) (cur_x (con_step p s))]
     @ (if p = Set_con then [Arch_show_cursor] else [])"
proof (cases p)
  case (Con_string str)
  then show ?thesis by (simp add: con_string_def move_cursor_arch print_string_def fold_arch)
qed (simp_all add: con_ln_def con_tab_def con_char_def con_clear_def con_xy_def set_con_def print_color_def print_setxy_def
    print_getxy_def move_cursor_arch Let_def)

lemma con_steps_calls:
  "cga_wf s \<Longrightarrow> \<exists>cs. arch (fold con_step ops s) = arch s @ cs \<and> list_all on_screen cs
     \<and> (Arch_show_cursor \<in> set cs \<longleftrightarrow> Set_con \<in> set ops)"
proof (induction ops rule: rev_induct)
  case (snoc p ops)
  then obtain cs where cs: "arch (fold con_step ops s) = arch s @ cs" "list_all on_screen cs"
    "Arch_show_cursor \<in> set cs \<longleftrightarrow> Set_con \<in> set ops" by blast
  have "cga_wf (fold con_step (ops @ [p]) s)"
    using simulates_fold [of con_step t_step "ops @ [p]", OF con_step_simulates] snoc.prems
    unfolding simulates_def by blast
  then have "on_screen (Arch_set_cursor_pos (cur_y (con_step p (fold con_step ops s))) (cur_x (con_step p (fold con_step ops s))))"
    "on_screen Arch_show_cursor" by (simp_all add: on_screen_def cga_wf_def cga_size)
  then show ?case using cs by (simp add: con_step_arch)
qed simp

section \<open>Properties\<close>

text \<open>
  C33: the hardware cursor of the PC follows the console. Whatever the console does, the calls it makes, run on
  the processor against the ports of a VGA controller, all return with the registers and the stack of the caller, and
  afterwards the location registers hold 80 times the row plus the column of the cursor of \<open>print.c\<close>; the cursor is
  shown as soon as the console has been set up.
\<close>

theorem cursor_follows_console:
  assumes "vga_bus ini P" "cga_wf s" "arch s = []" "ops \<noteq> []" and "s' = fold con_step ops s"
  shows "\<exists>w'. run_archs P ra (arch s') w = Some w' \<and> cursor_frame w w'
    \<and> vga_pos (vga_of ini (pio w')) = cur_y s' * 80 + cur_x s'
    \<and> (vga_shown (vga_of ini (pio w')) \<longleftrightarrow> vga_shown (vga_of ini (pio w)) \<or> Set_con \<in> set ops)"
proof -
  obtain cs where cs: "arch s' = cs" "list_all on_screen cs" "Arch_show_cursor \<in> set cs \<longleftrightarrow> Set_con \<in> set ops"
    using con_steps_calls [OF assms(2), of ops] assms(3,5) by auto
  have "hw_cursor cs = Some (cur_y s', cur_x s')" using con_steps_hw [OF assms(4), of s] assms(5) cs(1) by simp
  with run_archs_ok [OF assms(1) cs(2), of ra w] cs(1,3) show ?thesis by auto
qed

text \<open>A controller with all registers zero but the cursor hidden.\<close>

definition vga_boot :: vga where
  "vga_boot = \<lparr>index = 0, regs = (\<lambda>_. 0)(0x0A := 0x2E)\<rparr>"

definition vga_dev :: pdev where
  "vga_dev t p = ucast (regs (vga_of vga_boot t) (index (vga_of vga_boot t)))"

theorem cursor_follows_console_witness:
  "\<exists>w'. run_archs vga_dev 0x1000 (arch (fold con_step [Set_con, Con_xy 7 3] (cga_start (\<lambda>_. \<lparr>code = 0, color = 7\<rparr>))))
      \<lparr>rax = 0, rbx = 5, rcx = 0, rdx = 0, rsi = 0, rdi = 0, r8 = 0, r12 = 6, zf = False, df = False, stack = [],
        ram = (\<lambda>_. 0), pio = []\<rparr> = Some w'
    \<and> vga_pos (vga_of vga_boot (pio w')) = 247 \<and> vga_shown (vga_of vga_boot (pio w')) \<and> rbx w' = 5"
proof -
  have "(ucast (ucast v :: u16) :: u8) = v" for v :: u8 by (rule bit_word_eqI) (simp add: bit_simps)
  then have b: "vga_bus vga_boot vga_dev" by (simp add: vga_bus_def vga_dev_def)
  have s: "cga_wf (cga_start b)" "arch (cga_start b) = []" for b by (simp_all add: cga_start_def cga_wf_def cga_size)
  have "con_step (Con_xy 7 3) s = con_xy 7 3 s" for s by simp
  then have "cur_x (fold con_step [Set_con, Con_xy 7 3] s) = 7 \<and> cur_y (fold con_step [Set_con, Con_xy 7 3] s) = 3" for s
    by (simp add: con_xy_def print_setxy_def print_getxy_def cga_size Let_def)
  with cursor_follows_console [OF b s _ refl, of "[Set_con, Con_xy 7 3]" "0x1000"] show ?thesis
    by (fastforce simp: cursor_frame_def saved_def)
qed

end
