(* ===== verification/X86_Ps2.thy ===== *)
theory X86_Ps2
  imports X86_Io
begin

text \<open>
  The set-up of the keyboard controller of the PC target, \<open>arch/x86_64/sys/ps2.asm\<close>, one instruction per
  line, against a controller and keyboard given as an automaton over the port accesses. With nothing
  pending the set-up returns with the keyboard ready for the decoder of \<open>keyb.c\<close>; a byte pending at
  the start makes it never return, because the flush reads the wrong port.
\<close>

section \<open>The routines\<close>

abbreviation PS2_ST_OE_FLAG :: u8 where "PS2_ST_OE_FLAG \<equiv> 1"
abbreviation PS2_ST_IE_FLAG :: u8 where "PS2_ST_IE_FLAG \<equiv> 2"
abbreviation PS2_CMD_DATA_FLAG :: u16 where "PS2_CMD_DATA_FLAG \<equiv> 8"
abbreviation PS2_READ_CFG_BYTE :: u8 where "PS2_READ_CFG_BYTE \<equiv> 0x20"
abbreviation PS2_WRITE_CFG_BYTE :: u8 where "PS2_WRITE_CFG_BYTE \<equiv> 0x60"
abbreviation PS2_DISABLE_1ST_PORT :: u8 where "PS2_DISABLE_1ST_PORT \<equiv> 0xAD"
abbreviation PS2_DISABLE_2ND_PORT :: u8 where "PS2_DISABLE_2ND_PORT \<equiv> 0xA7"
abbreviation PS2_ENABLE_1ST_PORT :: u8 where "PS2_ENABLE_1ST_PORT \<equiv> 0xAE"
abbreviation PS2_CFG_1ST_PORT_IRQ_ENABLE_FLAG :: u8 where "PS2_CFG_1ST_PORT_IRQ_ENABLE_FLAG \<equiv> 0x01"
abbreviation PS2_CFG_1ST_PORT_TRANSL_ENABLE_FLAG :: u8 where "PS2_CFG_1ST_PORT_TRANSL_ENABLE_FLAG \<equiv> 0x40"
abbreviation PS2_KEYB_RST_SELFTEST :: u8 where "PS2_KEYB_RST_SELFTEST \<equiv> 0xFF"
abbreviation PS2_KEYB_SCAN_CODESET :: u8 where "PS2_KEYB_SCAN_CODESET \<equiv> 0xF0"
abbreviation PS2_KEYB_SCAN_ENABLE :: u8 where "PS2_KEYB_SCAN_ENABLE \<equiv> 0xF4"
abbreviation PS2_KEYB_SCAN_DISABLE :: u8 where "PS2_KEYB_SCAN_DISABLE \<equiv> 0xF5"
abbreviation PS2_DATA_PORT :: u16 where "PS2_DATA_PORT \<equiv> 0x60"
abbreviation PS2_CMD_ST_PORT :: u16 where "PS2_CMD_ST_PORT \<equiv> 0x64"

text \<open>The second byte of \<open>rax\<close>.\<close>

definition get_ah :: "u64 \<Rightarrow> u8" where
  "get_ah r = ucast (drop_bit 8 r)"

definition set_ah :: "u8 \<Rightarrow> u64 \<Rightarrow> u64" where
  "set_ah b r = (r AND NOT (push_bit 8 (mask 8))) OR push_bit 8 (ucast b)"

definition mov_ah :: "u8 \<Rightarrow> 'a cpu_scheme \<Rightarrow> 'a cpu_scheme" where
  "mov_ah v s = s\<lparr>rax := set_ah v (rax s)\<rparr>"

definition or_ah :: "u8 \<Rightarrow> 'a cpu_scheme \<Rightarrow> 'a cpu_scheme" where
  "or_ah v s = s\<lparr>rax := set_ah (get_ah (rax s) OR v) (rax s), zf := (get_ah (rax s) OR v = 0)\<rparr>"

definition and_ah :: "u8 \<Rightarrow> 'a cpu_scheme \<Rightarrow> 'a cpu_scheme" where
  "and_ah v s = s\<lparr>rax := set_ah (get_ah (rax s) AND v) (rax s), zf := (get_ah (rax s) AND v = 0)\<rparr>"

partial_function (option) wait_ie_loop :: "pdev \<Rightarrow> 'a ide_cpu_scheme \<Rightarrow> 'a ide_cpu_scheme option" where
  "wait_ie_loop P s =
     (let s = in_al_imm P PS2_CMD_ST_PORT s;
          s = test_al PS2_ST_IE_FLAG s
      in if \<not> zf s then wait_ie_loop P s else Some s)"

definition wait_ps2_ie :: "pdev \<Rightarrow> 'a ide_cpu_scheme \<Rightarrow> 'a ide_cpu_scheme option" where
  "wait_ps2_ie P s = do {
     let s = push (rax s) s;
     s \<leftarrow> wait_ie_loop P s;
     let (a, s) = pop s;
     Some (s\<lparr>rax := a\<rparr>)
   }"

partial_function (option) wait_oe_loop :: "pdev \<Rightarrow> 'a ide_cpu_scheme \<Rightarrow> 'a ide_cpu_scheme option" where
  "wait_oe_loop P s =
     (let s = in_al_imm P PS2_CMD_ST_PORT s;
          s = test_al PS2_ST_OE_FLAG s
      in if zf s then wait_oe_loop P s else Some s)"

definition wait_ps2_noe :: "pdev \<Rightarrow> 'a ide_cpu_scheme \<Rightarrow> 'a ide_cpu_scheme option" where
  "wait_ps2_noe P s = do {
     let s = push (rax s) s;
     s \<leftarrow> wait_oe_loop P s;
     let (a, s) = pop s;
     Some (s\<lparr>rax := a\<rparr>)
   }"

definition send_ps2_command :: "pdev \<Rightarrow> 'a ide_cpu_scheme \<Rightarrow> 'a ide_cpu_scheme option" where
  "send_ps2_command P s = do {
     s \<leftarrow> wait_ps2_ie P s;
     Some (out_imm_al PS2_CMD_ST_PORT s)
   }"

definition send_ps2_data :: "pdev \<Rightarrow> 'a ide_cpu_scheme \<Rightarrow> 'a ide_cpu_scheme option" where
  "send_ps2_data P s = do {
     s \<leftarrow> wait_ps2_ie P s;
     Some (out_imm_al PS2_DATA_PORT s)
   }"

definition recv_ps2_data :: "pdev \<Rightarrow> 'a ide_cpu_scheme \<Rightarrow> 'a ide_cpu_scheme option" where
  "recv_ps2_data P s = do {
     s \<leftarrow> wait_ps2_noe P s;
     Some (in_al_imm P PS2_DATA_PORT s)
   }"

text \<open>The loop that is meant to empty the output buffer loads from the port whose number is the mask of a flag.\<close>

partial_function (option) flush_loop :: "pdev \<Rightarrow> 'a ide_cpu_scheme \<Rightarrow> 'a ide_cpu_scheme option" where
  "flush_loop D s =
     (let s = in_al_imm D PS2_CMD_ST_PORT s;
          s = test_al PS2_ST_OE_FLAG s
      in if zf s then Some s
         else
           let s = in_al_imm D PS2_CMD_DATA_FLAG s
           in flush_loop D s)"

definition flush_ps2_data :: "pdev \<Rightarrow> 'a ide_cpu_scheme \<Rightarrow> 'a ide_cpu_scheme option" where
  "flush_ps2_data P s = do {
     let s = push (rax s) s;
     s \<leftarrow> flush_loop P s;
     let (a, s) = pop s;
     Some (s\<lparr>rax := a\<rparr>)
   }"

definition ps2_present :: "pdev \<Rightarrow> 'a ide_cpu_scheme \<Rightarrow> 'a ide_cpu_scheme option" where
  "ps2_present P s = do {
     let s = xor_rax s;
     let s = mov_al PS2_READ_CFG_BYTE s;
     s \<leftarrow> send_ps2_command P s;
     s \<leftarrow> recv_ps2_data P s;
     Some (s\<lparr>rax := 1\<rparr>)
   }"

definition ps2_controller :: "pdev \<Rightarrow> 'a ide_cpu_scheme \<Rightarrow> 'a ide_cpu_scheme option" where
  "ps2_controller P s = do {
     let s = push (rax s) s;
     s \<leftarrow> ps2_present P s;
     s \<leftarrow> send_ps2_command P (mov_al PS2_DISABLE_1ST_PORT s);
     s \<leftarrow> send_ps2_command P (mov_al PS2_DISABLE_2ND_PORT s);
     s \<leftarrow> flush_ps2_data P s;
     s \<leftarrow> send_ps2_command P (mov_al PS2_READ_CFG_BYTE s);
     s \<leftarrow> recv_ps2_data P s;
     let s = mov_ah (lo8 (rax s)) s;
     let s = or_ah PS2_CFG_1ST_PORT_IRQ_ENABLE_FLAG s;
     let s = and_ah (NOT PS2_CFG_1ST_PORT_TRANSL_ENABLE_FLAG) s;
     s \<leftarrow> send_ps2_command P (mov_al PS2_WRITE_CFG_BYTE s);
     s \<leftarrow> send_ps2_data P (mov_al (get_ah (rax s)) s);
     s \<leftarrow> send_ps2_command P (mov_al PS2_ENABLE_1ST_PORT s);
     s \<leftarrow> send_ps2_data P (mov_al PS2_KEYB_RST_SELFTEST s);
     s \<leftarrow> recv_ps2_data P s;
     s \<leftarrow> recv_ps2_data P s;
     s \<leftarrow> send_ps2_data P (mov_al PS2_KEYB_SCAN_DISABLE s);
     s \<leftarrow> recv_ps2_data P s;
     s \<leftarrow> send_ps2_data P (mov_al PS2_KEYB_SCAN_CODESET s);
     s \<leftarrow> recv_ps2_data P s;
     s \<leftarrow> send_ps2_data P (mov_al 2 s);
     s \<leftarrow> recv_ps2_data P s;
     s \<leftarrow> send_ps2_data P (mov_al PS2_KEYB_SCAN_ENABLE s);
     s \<leftarrow> recv_ps2_data P s;
     let (a, s) = pop s;
     Some (s\<lparr>rax := a\<rparr>)
   }"

section \<open>The controller and the keyboard\<close>

text \<open>The bytes waiting in the output buffer, the configuration byte, what the next byte sent to the data port is for, and the
  state of the keyboard. Bits 4 and 5 of the configuration disable the two ports.\<close>

datatype expects = NoArg | CfgArg | SetArg

record ps2 =
  outq :: "u8 list"
  cfg :: u8
  want :: expects
  kb_scan :: bool
  kb_set :: u8

definition ps2_command :: "u8 \<Rightarrow> ps2 \<Rightarrow> ps2" where
  "ps2_command c k =
     (if c = 0x20 then k\<lparr>outq := outq k @ [cfg k]\<rparr>
      else if c = 0x60 then k\<lparr>want := CfgArg\<rparr>
      else if c = 0xAD then k\<lparr>cfg := cfg k OR 0x10\<rparr>
      else if c = 0xAE then k\<lparr>cfg := cfg k AND NOT 0x10\<rparr>
      else if c = 0xA7 then k\<lparr>cfg := cfg k OR 0x20\<rparr>
      else if c = 0xA8 then k\<lparr>cfg := cfg k AND NOT 0x20\<rparr>
      else k)"

definition ps2_data :: "u8 \<Rightarrow> ps2 \<Rightarrow> ps2" where
  "ps2_data v k =
     (case want k of
        CfgArg \<Rightarrow> k\<lparr>cfg := v, want := NoArg\<rparr>
      | SetArg \<Rightarrow> if v = 0 then k\<lparr>outq := outq k @ [0xFA, kb_set k], want := NoArg\<rparr>
                  else k\<lparr>outq := outq k @ [0xFA], kb_set := v, want := NoArg\<rparr>
      | NoArg \<Rightarrow>
          if v = 0xFF then k\<lparr>outq := outq k @ [0xFA, 0xAA], kb_scan := True, kb_set := 2\<rparr>
          else if v = 0xF5 then k\<lparr>outq := outq k @ [0xFA], kb_scan := False\<rparr>
          else if v = 0xF4 then k\<lparr>outq := outq k @ [0xFA], kb_scan := True\<rparr>
          else if v = 0xF0 then k\<lparr>outq := outq k @ [0xFA], want := SetArg\<rparr>
          else k\<lparr>outq := outq k @ [0xFE]\<rparr>)"

fun ps2_of :: "ps2 \<Rightarrow> port_event list \<Rightarrow> ps2" where
  "ps2_of ini [] = ini"
| "ps2_of ini (OutB p v # t) =
     (let k = ps2_of ini t
      in if p = PS2_CMD_ST_PORT then ps2_command v k else if p = PS2_DATA_PORT then ps2_data v k else k)"
| "ps2_of ini (InB p v # t) =
     (let k = ps2_of ini t in if p = PS2_DATA_PORT then k\<lparr>outq := tl (outq k)\<rparr> else k)"
| "ps2_of ini (e # t) = ps2_of ini t"

definition ps2_status :: "pdev \<Rightarrow> port_event list \<Rightarrow> u8" where
  "ps2_status P t = ucast (P t PS2_CMD_ST_PORT)"

text \<open>A working controller: the status shows a byte only when there is one, and after finitely many looks when there is one;
  the input buffer becomes free; the data port yields the byte that is due.\<close>

definition ps2_bus :: "ps2 \<Rightarrow> pdev \<Rightarrow> bool" where
  "ps2_bus ini P \<longleftrightarrow>
     (\<forall>t. bit (ps2_status P t) 0 \<longrightarrow> outq (ps2_of ini t) \<noteq> [])
     \<and> (\<forall>t. outq (ps2_of ini t) \<noteq> [] \<longrightarrow> (\<exists>n. bit (ps2_status P (looks P PS2_CMD_ST_PORT n t)) 0))
     \<and> (\<forall>t. \<exists>n. \<not> bit (ps2_status P (looks P PS2_CMD_ST_PORT n t)) 1)
     \<and> (\<forall>t x xs. outq (ps2_of ini t) = x # xs \<longrightarrow> ucast (P t PS2_DATA_PORT) = x)"

lemma ps2_of_looks [simp]: "ps2_of ini (looks P 0x64 n t) = ps2_of ini t"
  by (induction n arbitrary: t) (simp_all add: Let_def)

section \<open>The primitives\<close>

lemma test_flags: "(v AND 1 = 0) \<longleftrightarrow> \<not> bit v 0" "(v AND 2 = 0) \<longleftrightarrow> \<not> bit v 1" for v :: u8
  by (simp_all add: word_bit_eq_iff bit_simps less_Suc_eq numeral_nat all_conj_distrib)

text \<open>A look at the status register, and a loop that looks until the status is as wanted.\<close>

definition peek_st :: "pdev \<Rightarrow> bool \<Rightarrow> 'a ide_cpu_scheme \<Rightarrow> 'a ide_cpu_scheme" where
  "peek_st P z s = s\<lparr>rax := set_lo8 (ps2_status P (pio s)) (rax s), pio := InB 0x64 (ps2_status P (pio s)) # pio s, zf := z\<rparr>"

lemma look_loop:
  fixes loop :: "'a ide_cpu_scheme \<Rightarrow> 'a ide_cpu_scheme option"
  assumes go: "\<And>s. \<not> wanted (ps2_status P (pio s)) \<Longrightarrow> loop s = loop (peek_st P zgo s)"
    and stop: "\<And>s. wanted (ps2_status P (pio s)) \<Longrightarrow> loop s = Some (peek_st P zstop s)"
  shows "wanted (ps2_status P (looks P 0x64 n (pio s))) \<Longrightarrow>
    \<exists>a z m. loop s = Some (s\<lparr>rax := a, zf := z, pio := looks P 0x64 m (pio s)\<rparr>)"
proof (induction n arbitrary: s)
  case 0
  then have "loop s = Some (s\<lparr>rax := set_lo8 (ps2_status P (pio s)) (rax s), zf := zstop, pio := looks P 0x64 1 (pio s)\<rparr>)"
    using stop [of s] by (simp add: peek_st_def ps2_status_def)
  then show ?case by blast
next
  case (Suc n)
  show ?case
  proof (cases "wanted (ps2_status P (pio s))")
    case True
    then have "loop s = Some (s\<lparr>rax := set_lo8 (ps2_status P (pio s)) (rax s), zf := zstop, pio := looks P 0x64 1 (pio s)\<rparr>)"
      using stop [of s] by (simp add: peek_st_def ps2_status_def)
    then show ?thesis by blast
  next
    case False
    let ?s = "peek_st P zgo s"
    have "wanted (ps2_status P (looks P 0x64 n (pio ?s)))" using Suc.prems by (simp add: peek_st_def ps2_status_def)
    from Suc.IH [OF this] obtain a z m where "loop ?s = Some (?s\<lparr>rax := a, zf := z, pio := looks P 0x64 m (pio ?s)\<rparr>)" by blast
    then have "loop s = Some (s\<lparr>rax := a, zf := z, pio := looks P 0x64 (Suc m) (pio s)\<rparr>)"
      unfolding go [OF False] by (simp add: peek_st_def ps2_status_def)
    then show ?thesis by blast
  qed
qed

lemma wait_ie_look:
  "\<not> \<not> bit (ps2_status P (pio s)) 1 \<Longrightarrow> wait_ie_loop P s = wait_ie_loop P (peek_st P False s)"
  "\<not> bit (ps2_status P (pio s)) 1 \<Longrightarrow> wait_ie_loop P s = Some (peek_st P True s)"
  by (subst wait_ie_loop.simps, simp add: peek_st_def in_al_imm_def test_al_def test_flags ps2_status_def Let_def)+

lemma wait_oe_look:
  "\<not> bit (ps2_status P (pio s)) 0 \<Longrightarrow> wait_oe_loop P s = wait_oe_loop P (peek_st P True s)"
  "bit (ps2_status P (pio s)) 0 \<Longrightarrow> wait_oe_loop P s = Some (peek_st P False s)"
  by (subst wait_oe_loop.simps, simp add: peek_st_def in_al_imm_def test_al_def test_flags ps2_status_def Let_def)+

lemma wait_ie_ok:
  assumes "ps2_bus ini P"
  shows "\<exists>z t. wait_ps2_ie P s = Some (s\<lparr>zf := z, pio := t\<rparr>) \<and> ps2_of ini t = ps2_of ini (pio s)"
proof -
  let ?s = "push (rax s) s"
  obtain n where "\<not> bit (ps2_status P (looks P 0x64 n (pio ?s))) 1" using assms unfolding ps2_bus_def by blast
  then obtain a z m where "wait_ie_loop P ?s = Some (?s\<lparr>rax := a, zf := z, pio := looks P 0x64 m (pio ?s)\<rparr>)"
    using look_loop [where wanted = "\<lambda>v. \<not> bit v 1", OF wait_ie_look] by blast
  then show ?thesis
    by (intro exI [of _ z] exI [of _ "looks P 0x64 m (pio s)"], cases s) (simp add: wait_ps2_ie_def x86)
qed

lemma wait_oe_ok:
  assumes "ps2_bus ini P" "outq (ps2_of ini (pio s)) \<noteq> []"
  shows "\<exists>z t. wait_ps2_noe P s = Some (s\<lparr>zf := z, pio := t\<rparr>) \<and> ps2_of ini t = ps2_of ini (pio s)"
proof -
  let ?s = "push (rax s) s"
  obtain n where "bit (ps2_status P (looks P 0x64 n (pio ?s))) 0"
    using assms(2) conjunct1 [OF conjunct2 [OF assms(1) [unfolded ps2_bus_def]]] by (auto simp: push_def)
  then obtain a z m where "wait_oe_loop P ?s = Some (?s\<lparr>rax := a, zf := z, pio := looks P 0x64 m (pio ?s)\<rparr>)"
    using look_loop [where wanted = "\<lambda>v. bit v 0", OF wait_oe_look] by blast
  then show ?thesis
    by (intro exI [of _ z] exI [of _ "looks P 0x64 m (pio s)"], cases s) (simp add: wait_ps2_noe_def x86)
qed

section \<open>Refinement\<close>

text \<open>A routine refines an operation on the controller and \<open>rax\<close>: where the operation has a value, the routine returns, with
  the controller and \<open>rax\<close> as the operation says, and changes only the flag and the history besides.\<close>

definition ps2_refines ::
    "ps2 \<Rightarrow> ('a ide_cpu_scheme \<Rightarrow> 'a ide_cpu_scheme option) \<Rightarrow> (u64 \<Rightarrow> ps2 \<Rightarrow> (u64 \<times> ps2) option) \<Rightarrow> bool" where
  "ps2_refines ini f g \<longleftrightarrow> (\<forall>s r k. g (rax s) (ps2_of ini (pio s)) = Some (r, k) \<longrightarrow>
     (\<exists>z t. f s = Some (s\<lparr>rax := r, zf := z, pio := t\<rparr>) \<and> ps2_of ini t = k))"

lemma refines_then:
  fixes f f' :: "'a ide_cpu_scheme \<Rightarrow> 'a ide_cpu_scheme option"
  assumes "ps2_refines ini f g" "ps2_refines ini f' g'"
  shows "ps2_refines ini (\<lambda>s. f s \<bind> f') (\<lambda>r k. g r k \<bind> (\<lambda>(r, k). g' r k))"
  unfolding ps2_refines_def
proof (intro allI impI)
  fix s :: "'a ide_cpu_scheme" and r k
  assume "(g (rax s) (ps2_of ini (pio s)) \<bind> (\<lambda>(r, k). g' r k)) = Some (r, k)"
  then obtain r1 k1 where g: "g (rax s) (ps2_of ini (pio s)) = Some (r1, k1)" "g' r1 k1 = Some (r, k)"
    by (auto simp: bind_eq_Some_conv)
  from assms(1) g(1) obtain z t where f: "f s = Some (s\<lparr>rax := r1, zf := z, pio := t\<rparr>)" "ps2_of ini t = k1"
    unfolding ps2_refines_def by blast
  let ?s = "s\<lparr>rax := r1, zf := z, pio := t\<rparr>"
  have "g' (rax ?s) (ps2_of ini (pio ?s)) = Some (r, k)" using g(2) f(2) by simp
  with assms(2) obtain z' t' where "f' ?s = Some (?s\<lparr>rax := r, zf := z', pio := t'\<rparr>)" "ps2_of ini t' = k"
    unfolding ps2_refines_def by blast
  then show "\<exists>z t. f s \<bind> f' = Some (s\<lparr>rax := r, zf := z, pio := t\<rparr>) \<and> ps2_of ini t = k"
    using f(1) by (intro exI [of _ z'] exI [of _ t']) simp
qed

text \<open>Instructions on \<open>rax\<close> before a routine.\<close>

lemma refines_after:
  fixes f :: "'a ide_cpu_scheme \<Rightarrow> 'a ide_cpu_scheme option"
  assumes "\<And>s. \<exists>z. h s = s\<lparr>rax := p (rax s), zf := z\<rparr>" "ps2_refines ini f g"
  shows "ps2_refines ini (\<lambda>s. f (h s)) (\<lambda>r k. g (p r) k)"
  unfolding ps2_refines_def
proof (intro allI impI)
  fix s :: "'a ide_cpu_scheme" and r k
  assume g: "g (p (rax s)) (ps2_of ini (pio s)) = Some (r, k)"
  obtain z where h: "h s = s\<lparr>rax := p (rax s), zf := z\<rparr>" using assms(1) by blast
  then have "g (rax (h s)) (ps2_of ini (pio (h s))) = Some (r, k)" using g by simp
  with assms(2) obtain z' t where "f (h s) = Some ((h s)\<lparr>rax := r, zf := z', pio := t\<rparr>)" "ps2_of ini t = k"
    unfolding ps2_refines_def by blast
  then show "\<exists>z t. f (h s) = Some (s\<lparr>rax := r, zf := z, pio := t\<rparr>) \<and> ps2_of ini t = k"
    unfolding h by (intro exI [of _ z'] exI [of _ t]) simp
qed

lemma get_ah_simps [simp]: "get_ah (set_lo8 v r) = get_ah r" "get_ah (set_ah b r) = b" "set_ah b (set_ah c r) = set_ah b r"
  "lo8 (set_ah b r) = lo8 r"
  by (rule bit_word_eqI, auto simp: get_ah_def set_ah_def set_lo8_def lo8_def bit_simps dest: bit_imp_le_length)+

lemma mov_al_eq: "\<exists>z. mov_al v s = s\<lparr>rax := set_lo8 v (rax s), zf := z\<rparr>"
  by (intro exI [of _ "zf s"]) (simp add: mov_al_def)

lemma refines_command:
  assumes "ps2_bus ini P"
  shows "ps2_refines ini (send_ps2_command P) (\<lambda>r k. Some (r, ps2_command (lo8 r) k))"
  unfolding ps2_refines_def
proof (intro allI impI)
  fix s :: "'a ide_cpu_scheme" and r k
  assume "Some (rax s, ps2_command (lo8 (rax s)) (ps2_of ini (pio s))) = Some (r, k)"
  moreover obtain z t where "wait_ps2_ie P s = Some (s\<lparr>zf := z, pio := t\<rparr>)" "ps2_of ini t = ps2_of ini (pio s)"
    using wait_ie_ok [OF assms] by blast
  ultimately show "\<exists>z t. send_ps2_command P s = Some (s\<lparr>rax := r, zf := z, pio := t\<rparr>) \<and> ps2_of ini t = k"
    by (intro exI [of _ z] exI [of _ "OutB 0x64 (lo8 r) # t"]) (auto simp: send_ps2_command_def out_imm_al_def)
qed

lemma refines_data:
  assumes "ps2_bus ini P"
  shows "ps2_refines ini (send_ps2_data P) (\<lambda>r k. Some (r, ps2_data (lo8 r) k))"
  unfolding ps2_refines_def
proof (intro allI impI)
  fix s :: "'a ide_cpu_scheme" and r k
  assume "Some (rax s, ps2_data (lo8 (rax s)) (ps2_of ini (pio s))) = Some (r, k)"
  moreover obtain z t where "wait_ps2_ie P s = Some (s\<lparr>zf := z, pio := t\<rparr>)" "ps2_of ini t = ps2_of ini (pio s)"
    using wait_ie_ok [OF assms] by blast
  ultimately show "\<exists>z t. send_ps2_data P s = Some (s\<lparr>rax := r, zf := z, pio := t\<rparr>) \<and> ps2_of ini t = k"
    by (intro exI [of _ z] exI [of _ "OutB 0x60 (lo8 r) # t"]) (auto simp: send_ps2_data_def out_imm_al_def)
qed

definition take_byte :: "u64 \<Rightarrow> ps2 \<Rightarrow> (u64 \<times> ps2) option" where
  "take_byte r k = (case outq k of [] \<Rightarrow> None | x # xs \<Rightarrow> Some (set_lo8 x r, k\<lparr>outq := xs\<rparr>))"

lemma refines_recv:
  assumes "ps2_bus ini P"
  shows "ps2_refines ini (recv_ps2_data P) take_byte"
  unfolding ps2_refines_def
proof (intro allI impI)
  fix s :: "'a ide_cpu_scheme" and r k
  assume "take_byte (rax s) (ps2_of ini (pio s)) = Some (r, k)"
  then obtain x xs where k: "outq (ps2_of ini (pio s)) = x # xs" "r = set_lo8 x (rax s)" "k = (ps2_of ini (pio s))\<lparr>outq := xs\<rparr>"
    by (auto simp: take_byte_def split: list.splits)
  obtain z t where w: "wait_ps2_noe P s = Some (s\<lparr>zf := z, pio := t\<rparr>)" "ps2_of ini t = ps2_of ini (pio s)"
    using wait_oe_ok [OF assms, of s] k(1) by auto
  have "ucast (P t 0x60) = x" using assms k(1) w(2) unfolding ps2_bus_def by simp
  then show "\<exists>z t. recv_ps2_data P s = Some (s\<lparr>rax := r, zf := z, pio := t\<rparr>) \<and> ps2_of ini t = k"
    using w k by (intro exI [of _ z] exI [of _ "InB 0x60 x # t"], cases s) (simp add: recv_ps2_data_def in_al_imm_def)
qed

lemma refines_flush:
  assumes "ps2_bus ini P"
  shows "ps2_refines ini (flush_ps2_data P) (\<lambda>r k. if outq k = [] then Some (r, k) else None)"
  unfolding ps2_refines_def
proof (intro allI impI)
  fix s :: "'a ide_cpu_scheme" and r k
  assume "(if outq (ps2_of ini (pio s)) = [] then Some (rax s, ps2_of ini (pio s)) else None) = Some (r, k)"
  then have k: "outq (ps2_of ini (pio s)) = []" "r = rax s" "k = ps2_of ini (pio s)" by (simp_all split: if_splits)
  then have "\<not> bit (ps2_status P (pio s)) 0" using assms unfolding ps2_bus_def by blast
  then have "flush_loop P (push (rax s) s) = Some (peek_st P True (push (rax s) s))"
    by (subst flush_loop.simps) (simp add: peek_st_def in_al_imm_def test_al_def test_flags ps2_status_def push_def Let_def)
  then show "\<exists>z t. flush_ps2_data P s = Some (s\<lparr>rax := r, zf := z, pio := t\<rparr>) \<and> ps2_of ini t = k"
    using k by (intro exI [of _ True] exI [of _ "InB 0x64 (ps2_status P (pio s)) # pio s"], cases s)
      (simp add: flush_ps2_data_def peek_st_def x86 Let_def)
qed

text \<open>The middle part of the routine, between saving and restoring \<open>rax\<close>.\<close>

definition ps2_setup :: "pdev \<Rightarrow> 'a ide_cpu_scheme \<Rightarrow> 'a ide_cpu_scheme option" where
  "ps2_setup P s = do {
     s \<leftarrow> ps2_present P s;
     s \<leftarrow> send_ps2_command P (mov_al 0xAD s);
     s \<leftarrow> send_ps2_command P (mov_al 0xA7 s);
     s \<leftarrow> flush_ps2_data P s;
     s \<leftarrow> send_ps2_command P (mov_al 0x20 s);
     s \<leftarrow> recv_ps2_data P s;
     s \<leftarrow> send_ps2_command P (mov_al 0x60 (and_ah (NOT 0x40) (or_ah 0x01 (mov_ah (lo8 (rax s)) s))));
     s \<leftarrow> send_ps2_data P (mov_al (get_ah (rax s)) s);
     s \<leftarrow> send_ps2_command P (mov_al 0xAE s);
     s \<leftarrow> send_ps2_data P (mov_al 0xFF s);
     s \<leftarrow> recv_ps2_data P s;
     s \<leftarrow> recv_ps2_data P s;
     s \<leftarrow> send_ps2_data P (mov_al 0xF5 s);
     s \<leftarrow> recv_ps2_data P s;
     s \<leftarrow> send_ps2_data P (mov_al 0xF0 s);
     s \<leftarrow> recv_ps2_data P s;
     s \<leftarrow> send_ps2_data P (mov_al 2 s);
     s \<leftarrow> recv_ps2_data P s;
     s \<leftarrow> send_ps2_data P (mov_al 0xF4 s);
     recv_ps2_data P s
   }"

lemma ps2_controller_setup:
  "ps2_controller P s = ps2_setup P (push (rax s) s) \<bind> (\<lambda>s. let (a, s) = pop s in Some (s\<lparr>rax := a\<rparr>))"
  by (simp add: ps2_controller_def ps2_setup_def Let_def)

lemmas refines_cmd = refines_after [OF mov_al_eq refines_command]
lemmas refines_dat = refines_after [OF mov_al_eq refines_data]

lemma refines_cfg:
  assumes "ps2_bus ini P"
  shows "ps2_refines ini (\<lambda>s. send_ps2_command P (mov_al 0x60 (and_ah (NOT 0x40) (or_ah 0x01 (mov_ah (lo8 (rax s)) s)))))
     (\<lambda>r k. Some (set_lo8 0x60 (set_ah ((lo8 r OR 1) AND NOT 0x40) r), ps2_command 0x60 k))"
proof -
  have "\<exists>z. mov_al 0x60 (and_ah (NOT 0x40) (or_ah 0x01 (mov_ah (lo8 (rax s)) s))) =
      s\<lparr>rax := set_lo8 0x60 (set_ah ((lo8 (rax s) OR 1) AND NOT 0x40) (rax s)), zf := z\<rparr>" for s :: "'a ide_cpu_scheme"
    by (intro exI [of _ "(lo8 (rax s) OR 1) AND NOT 0x40 = 0"], cases s) (simp add: mov_al_def and_ah_def or_ah_def mov_ah_def)
  from refines_after [OF this refines_command [OF assms]] show ?thesis by simp
qed

lemma refines_cfg_data:
  assumes "ps2_bus ini P"
  shows "ps2_refines ini (\<lambda>s. send_ps2_data P (mov_al (get_ah (rax s)) s))
     (\<lambda>r k. Some (set_lo8 (get_ah r) r, ps2_data (get_ah r) k))"
proof -
  have "\<exists>z. mov_al (get_ah (rax s)) s = s\<lparr>rax := set_lo8 (get_ah (rax s)) (rax s), zf := z\<rparr>" for s :: "'a ide_cpu_scheme"
    by (rule mov_al_eq)
  from refines_after [OF this refines_data [OF assms]] show ?thesis by simp
qed

lemma refines_present:
  assumes "ps2_bus ini P"
  shows "ps2_refines ini (ps2_present P) (\<lambda>r k. case outq k of [] \<Rightarrow> Some (1 :: u64, k) | x # xs \<Rightarrow> Some (1, k\<lparr>outq := xs @ [cfg k]\<rparr>))"
  unfolding ps2_refines_def
proof (intro allI impI)
  fix s :: "'a ide_cpu_scheme" and r k
  let ?k = "ps2_of ini (pio s)" and ?s = "mov_al 0x20 (xor_rax s)"
  assume a: "(case outq ?k of [] \<Rightarrow> Some (1 :: u64, ?k) | x # xs \<Rightarrow> Some (1, ?k\<lparr>outq := xs @ [cfg ?k]\<rparr>)) = Some (r, k)"
  have "ps2_refines ini (\<lambda>s. send_ps2_command P s \<bind> recv_ps2_data P)
      (\<lambda>r k. Some (r, ps2_command (lo8 r) k) \<bind> (\<lambda>(r, k). take_byte r k))"
    by (rule refines_then [OF refines_command [OF assms] refines_recv [OF assms]])
  moreover obtain x where "(Some (rax ?s, ps2_command (lo8 (rax ?s)) (ps2_of ini (pio ?s))) \<bind> (\<lambda>(r, k). take_byte r k)) = Some (set_lo8 x (rax ?s), k)"
    using a by (cases "outq ?k") (auto simp: take_byte_def ps2_command_def mov_al_def xor_rax_def)
  ultimately obtain z t where "(send_ps2_command P ?s \<bind> recv_ps2_data P) = Some (?s\<lparr>rax := set_lo8 x (rax ?s), zf := z, pio := t\<rparr>)"
    "ps2_of ini t = k" unfolding ps2_refines_def by blast
  moreover have "r = 1" using a by (auto split: list.splits)
  ultimately show "\<exists>z t. ps2_present P s = Some (s\<lparr>rax := r, zf := z, pio := t\<rparr>) \<and> ps2_of ini t = k"
    by (intro exI [of _ z] exI [of _ t], cases s) (auto simp: ps2_present_def bind_eq_Some_conv xor_rax_def mov_al_def)
qed

section \<open>Properties\<close>

text \<open>What the decoder relies on.\<close>

definition ready :: "ps2 \<Rightarrow> u8 \<Rightarrow> ps2 \<Rightarrow> bool" where
  "ready k c k' \<longleftrightarrow> outq k' = [] \<and> want k' = NoArg \<and> kb_scan k' \<and> kb_set k' = 2
     \<and> cfg k' = ((((c OR 0x10) OR 0x20) OR 0x01) AND NOT 0x40) AND NOT 0x10"

lemma ps2_setup_refines:
  assumes "ps2_bus ini P"
  shows "\<exists>g. ps2_refines ini (ps2_setup P :: 'a ide_cpu_scheme \<Rightarrow> _) g \<and> (\<forall>r k. outq k = [] \<and> want k = NoArg \<longrightarrow>
    (\<exists>r' k'. g r k = Some (r', k') \<and> ready k (cfg k) k'))"
proof -
  note rs = refines_cmd [OF assms] refines_dat [OF assms] refines_recv [OF assms] refines_flush [OF assms]
    refines_cfg [OF assms] refines_cfg_data [OF assms] refines_present [OF assms]
  show ?thesis
    unfolding ps2_setup_def [abs_def]
    by (intro exI conjI, (rule refines_then rs)+) (auto simp: ps2_command_def ps2_data_def take_byte_def ready_def)
qed

text \<open>A byte that waits in the output buffer is never loaded by the flush, so its loop does not end.\<close>

lemma flush_loop_hangs:
  assumes "flush_loop P s = Some s'"
  shows "(\<forall>t. outq (ps2_of ini t) \<noteq> [] \<longrightarrow> bit (ps2_status P t) 0) \<longrightarrow> outq (ps2_of ini (pio s)) = []"
proof (rule flush_loop.raw_induct [where P = "\<lambda>D s s'. (\<forall>t. outq (ps2_of ini t) \<noteq> [] \<longrightarrow> bit (ps2_status D t) 0) \<longrightarrow>
    outq (ps2_of ini (pio s)) = []", OF _ assms], intro impI)
  fix f :: "pdev \<Rightarrow> 'a ide_cpu_scheme \<Rightarrow> 'a ide_cpu_scheme option" and D s s'
  assume IH: "\<And>D s s'. f D s = Some s' \<Longrightarrow> (\<forall>t. outq (ps2_of ini t) \<noteq> [] \<longrightarrow> bit (ps2_status D t) 0) \<longrightarrow> outq (ps2_of ini (pio s)) = []"
    and eq: "(let s = in_al_imm D PS2_CMD_ST_PORT s; s = test_al PS2_ST_OE_FLAG s
      in if zf s then Some s else let s = in_al_imm D PS2_CMD_DATA_FLAG s in f D s) = Some s'"
    and st: "\<forall>t. outq (ps2_of ini t) \<noteq> [] \<longrightarrow> bit (ps2_status D t) 0"
  let ?s = "in_al_imm D 8 (peek_st D False s)"
  show "outq (ps2_of ini (pio s)) = []"
  proof (rule ccontr)
    assume ne: "outq (ps2_of ini (pio s)) \<noteq> []"
    then have "f D ?s = Some s'" using eq st
      by (simp add: peek_st_def in_al_imm_def test_al_def test_flags ps2_status_def Let_def)
    from IH [OF this] st have "outq (ps2_of ini (pio ?s)) = []" by simp
    with ne show False by (simp add: peek_st_def in_al_imm_def Let_def)
  qed
qed

text \<open>
  C19: the set-up of the keyboard controller. With no byte waiting in the output buffer it returns with every register but
  the flag as it was, and leaves the keyboard sending codes of set 2 untranslated, its port enabled
  and its interrupt on. With a byte waiting, as after a key press before the system starts, it never
  returns: the loop that should empty the buffer loads from port 8 instead of the data port.
\<close>

theorem ps2_setup_or_hang:
  assumes "ps2_bus ini P" and "k = ps2_of ini (pio s)" "want k = NoArg"
  shows "(outq k = [] \<longrightarrow> (\<exists>s' z t. ps2_controller P s = Some s' \<and> s' = s\<lparr>zf := z, pio := t\<rparr> \<and> ready k (cfg k) (ps2_of ini t)))
    \<and> (outq k \<noteq> [] \<and> (\<forall>t. outq (ps2_of ini t) \<noteq> [] \<longrightarrow> bit (ps2_status P t) 0) \<longrightarrow> ps2_controller P s = None)"
proof (intro conjI impI)
  assume e: "outq k = []"
  obtain g where g: "ps2_refines ini (ps2_setup P :: 'a ide_cpu_scheme \<Rightarrow> _) g"
    "\<forall>r k. outq k = [] \<and> want k = NoArg \<longrightarrow> (\<exists>r' k'. g r k = Some (r', k') \<and> ready k (cfg k) k')"
    using ps2_setup_refines [OF assms(1)] by blast
  let ?s = "push (rax s) s"
  have p: "pio ?s = pio s" by (simp add: push_def)
  from g(2) e assms(3) obtain r' k' where "g (rax ?s) (ps2_of ini (pio ?s)) = Some (r', k')" "ready k (cfg k) k'"
    unfolding p assms(2) [symmetric] by blast
  with g(1) obtain z t where t: "ps2_setup P ?s = Some (?s\<lparr>rax := r', zf := z, pio := t\<rparr>)" "ps2_of ini t = k'"
    unfolding ps2_refines_def by blast
  have "ps2_controller P s = Some (s\<lparr>zf := z, pio := t\<rparr>)"
    unfolding ps2_controller_setup t(1) by (cases s) (simp add: x86)
  with t(2) \<open>ready k (cfg k) k'\<close> show "\<exists>s' z t. ps2_controller P s = Some s' \<and> s' = s\<lparr>zf := z, pio := t\<rparr> \<and> ready k (cfg k) (ps2_of ini t)"
    by blast
next
  assume a: "outq k \<noteq> [] \<and> (\<forall>t. outq (ps2_of ini t) \<noteq> [] \<longrightarrow> bit (ps2_status P t) 0)"
  let ?f = "\<lambda>s :: 'a ide_cpu_scheme. ps2_present P s \<bind> (\<lambda>s. send_ps2_command P (mov_al 0xAD s) \<bind> (\<lambda>s. send_ps2_command P (mov_al 0xA7 s)))"
  note rs = refines_cmd [OF assms(1)] refines_present [OF assms(1)]
  have "\<exists>g. ps2_refines ini ?f g \<and> (\<forall>r k. outq k \<noteq> [] \<longrightarrow> (\<exists>r' k'. g r k = Some (r', k') \<and> outq k' \<noteq> []))"
    by (intro exI conjI, (rule refines_then rs)+) (auto simp: ps2_command_def split: list.splits)
  then obtain g where g: "ps2_refines ini ?f g" "\<forall>r k. outq k \<noteq> [] \<longrightarrow> (\<exists>r' k'. g r k = Some (r', k') \<and> outq k' \<noteq> [])" by blast
  let ?s = "push (rax s) s"
  have p: "pio ?s = pio s" by (simp add: push_def)
  from g(2) a obtain r' k' where "g (rax ?s) (ps2_of ini (pio ?s)) = Some (r', k')" "outq k' \<noteq> []"
    unfolding p assms(2) [symmetric] by blast
  with g(1) obtain z t where t: "?f ?s = Some (?s\<lparr>rax := r', zf := z, pio := t\<rparr>)" "outq (ps2_of ini t) \<noteq> []"
    unfolding ps2_refines_def by blast
  let ?t = "?s\<lparr>rax := r', zf := z, pio := t\<rparr>"
  have "flush_loop P (push (rax ?t) ?t) = None"
  proof (cases "flush_loop P (push (rax ?t) ?t)")
    case (Some u)
    from flush_loop_hangs [OF this, of ini] conjunct2 [OF a] have "outq (ps2_of ini (pio (push (rax ?t) ?t))) = []" by blast
    with t(2) show ?thesis by (simp add: push_def)
  qed
  then have "flush_ps2_data P ?t = None" by (simp add: flush_ps2_data_def)
  with t(1) have "ps2_setup P ?s = None" by (auto simp: ps2_setup_def bind_eq_Some_conv)
  then show "ps2_controller P s = None" by (simp add: ps2_controller_setup)
qed

text \<open>A controller that answers at once, with the usual configuration, and a processor after reset.\<close>

definition kbd_reset :: "u8 list \<Rightarrow> ps2" where
  "kbd_reset q = \<lparr>outq = q, cfg = 0x47, want = NoArg, kb_scan = True, kb_set = 2\<rparr>"

definition kbd_dev :: "ps2 \<Rightarrow> pdev" where
  "kbd_dev ini t p =
     (if p = 0x64 then if outq (ps2_of ini t) = [] then 0 else 1
      else if p = 0x60 then case outq (ps2_of ini t) of [] \<Rightarrow> 0 | x # xs \<Rightarrow> ucast x
      else 0)"

lemma kbd_dev_works: "ps2_bus ini (kbd_dev ini)" "bit (ps2_status (kbd_dev ini) t) 0 \<longleftrightarrow> outq (ps2_of ini t) \<noteq> []"
proof -
  have st: "ps2_status (kbd_dev ini) t = (if outq (ps2_of ini t) = [] then 0 else 1)" for t by (simp add: ps2_status_def kbd_dev_def)
  then show "bit (ps2_status (kbd_dev ini) t) 0 \<longleftrightarrow> outq (ps2_of ini t) \<noteq> []" by simp
  have "(ucast (ucast v :: u16) :: u8) = v" for v :: u8 by (rule bit_word_eqI) (simp add: bit_simps)
  then have "ucast (kbd_dev ini t 0x60) = x" if "outq (ps2_of ini t) = x # xs" for t x xs using that by (simp add: kbd_dev_def)
  moreover have "bit (ps2_status (kbd_dev ini) (looks (kbd_dev ini) 0x64 0 t)) 0" if "outq (ps2_of ini t) \<noteq> []" for t using that st by simp
  moreover have "\<not> bit (ps2_status (kbd_dev ini) (looks (kbd_dev ini) 0x64 0 t)) 1" for t by (simp add: st)
  moreover have "bit (ps2_status (kbd_dev ini) t) 0 \<longrightarrow> outq (ps2_of ini t) \<noteq> []" for t by (simp add: st)
  ultimately show "ps2_bus ini (kbd_dev ini)" unfolding ps2_bus_def by blast
qed

definition cpu_reset :: ide_cpu where
  "cpu_reset = \<lparr>rax = 1, rbx = 2, rcx = 3, rdx = 4, rsi = 5, rdi = 6, r8 = 7, r12 = 8, zf = False, df = False, stack = [],
     ram = (\<lambda>_. 0), pio = []\<rparr>"

theorem ps2_setup_or_hang_witness:
  "(\<exists>s' t. ps2_controller (kbd_dev (kbd_reset [])) cpu_reset = Some s' \<and> rax s' = 1 \<and> cfg (ps2_of (kbd_reset []) (pio s')) = 0x27
      \<and> kb_scan (ps2_of (kbd_reset []) (pio s')))
    \<and> ps2_controller (kbd_dev (kbd_reset [0x1C])) cpu_reset = None"
proof
  have k: "want (ps2_of (kbd_reset q) (pio cpu_reset)) = NoArg" "outq (ps2_of (kbd_reset q) (pio cpu_reset)) = q"
    "cfg (ps2_of (kbd_reset q) (pio cpu_reset)) = 0x47" for q by (simp_all add: kbd_reset_def cpu_reset_def)
  note T = ps2_setup_or_hang [OF kbd_dev_works(1) refl k(1)]
  have "rax cpu_reset = 1" by (simp add: cpu_reset_def)
  with conjunct1 [OF T [of "[]"]] k [of "[]"] show "\<exists>s' t. ps2_controller (kbd_dev (kbd_reset [])) cpu_reset = Some s' \<and> rax s' = 1
      \<and> cfg (ps2_of (kbd_reset []) (pio s')) = 0x27 \<and> kb_scan (ps2_of (kbd_reset []) (pio s'))"
    by (auto simp: ready_def)
  show "ps2_controller (kbd_dev (kbd_reset [0x1C])) cpu_reset = None"
    using conjunct2 [OF T [of "[0x1C]"]] k(2) [of "[0x1C]"] kbd_dev_works(2) [of "kbd_reset [0x1C]"] by simp
qed

end
