(* ===== verification/Keyb.thy ===== *)
theory Keyb
  imports Prelude
begin

text \<open>
  The keyboard decoder of the x86-64 build (\<open>arch/x86_64/keyb.c\<close>). The keyboard interrupt
  hands every byte of the scan code stream (set 2) to \<open>_kernel_onKeybScan\<close>, which tracks the
  held modifier keys in \<open>KeybState\<close> and publishes a key event for every other key pressed.
  The decoder is related to a specification on the level of key presses and releases.
\<close>

section \<open>The decoder\<close>

definition KB_LSHIFT_HOLDS :: u8 where "KB_LSHIFT_HOLDS = 0x01"
definition KB_RSHIFT_HOLDS :: u8 where "KB_RSHIFT_HOLDS = 0x02"
definition KB_CTRL_HOLDS :: u8 where "KB_CTRL_HOLDS = 0x04"
definition KB_KEY_BREAK :: u8 where "KB_KEY_BREAK = 0x08"

definition Make :: "u8 list" where
  "Make = [
     0xF0, 0x1C, 0x32, 0x21, 0x23, 0x24, 0x2B, 0x34, 0x33, 0x43, 0x3B, 0x42, 0x4B, 0x3A, 0x31,
     0x44, 0x4D, 0x15, 0x2D, 0x1B, 0x2C, 0x3C, 0x2A, 0x1D, 0x22, 0x35, 0x1A, 0x45, 0x16, 0x1E,
     0x26, 0x25, 0x2E, 0x36, 0x3D, 0x3E, 0x46, 0x0E, 0x4E, 0x55, 0x5D, 0x66, 0x29, 0x0D, 0x58,
     0x12, 0x14, 0x11, 0x59, 0x5A, 0x76, 0x05, 0x06, 0x04, 0x0C, 0x03, 0x0B, 0x83, 0x0A, 0x01,
     0x09, 0x78, 0x07, 0x7E, 0x54, 0x5B, 0x77, 0x7C, 0x71, 0x70, 0x69, 0x72, 0x7A, 0x6B, 0x73,
     0x74, 0x6C, 0x75, 0x7D, 0x7B, 0x79, 0x4C, 0x52, 0x41, 0x49, 0x4A]"

text \<open>The names of the letter and digit keys have one character each.\<close>

definition singles :: "string \<Rightarrow> string list" where
  "singles cs = map (\<lambda>c. [c]) cs"

definition Keys :: "string list" where
  "Keys = [''brk''] @ singles ''abcdefghijklmnopqrstuvwxyz0123456789'' @ [[CHR 0x60], ''-'',
     ''='', [CHR 0x5C], [CHR 0x08], '' '', [CHR 0x09], ''CAPS'', ''LSHFT'', ''LCTRL'',
     ''LALT'', ''RSHFT'', [CHR 0x0A], ''ESC'', ''F1'', ''F2'', ''F3'', ''F4'', ''F5'', ''F6'',
     ''F7'', ''F8'', ''F9'', ''F10'', ''F11'', ''F12'', ''SCROLL'', ''['', '']'', ''NUM'',
     ''KP*'', ''KP.'', ''KP0'', ''KP1'', ''KP2'', ''KP3'', ''KP4'', ''KP5'', ''KP6'', ''KP7'',
     ''KP8'', ''KP9'', ''KP-'', ''KP+'', '';'', [CHR 0x27], '','', ''.'', ''/'']
     @ singles ''ABCDEFGHIJKLMNOPQRSTUVWXYZ0123456789'' @ [''~'', ''_'', ''+'', ''|'',
     [CHR 0x08], '' '', [CHR 0x09], ''CAPS'', ''LSHFT'', ''LCTRL'', ''LALT'', ''RSHFT'',
     [CHR 0x0A], ''ESC'', ''F1'', ''F2'', ''F3'', ''F4'', ''F5'', ''F6'', ''F7'', ''F8'',
     ''F9'', ''F10'', ''F11'', ''F12'', ''SCROLL'', ''['', '']'', ''NUM'', ''KP*'', ''KP.'',
     ''KP0'', ''KP1'', ''KP2'', ''KP3'', ''KP4'', ''KP5'', ''KP6'', ''KP7'', ''KP8'', ''KP9'',
     ''KP-'', ''KP+'', '':'', [CHR 0x22], ''<'', ''>'', ''?'']"

record keyb =
  KeybState :: u8
  published :: "(u8 \<times> u8) list"

text \<open>The loop of \<open>keybScanCodeDecode\<close>; the index is a byte.\<close>

function keybScanCodeDecode_loop :: "u8 \<Rightarrow> u8 \<Rightarrow> u8" where
  "keybScanCodeDecode_loop scanCode index =
     (if unat index < length Make then
        if Make ! unat index = scanCode then index
        else keybScanCodeDecode_loop scanCode (index + 1)
      else 0xff)"
  by pat_completeness auto
termination
proof (relation "measure (\<lambda>(c, i). 256 - unat i)")
  fix c i :: u8
  assume "unat i < length Make"
  then have "unat (i + 1) = unat i + 1"
    by (simp add: Make_def unat_word_ariths)
  then show "((c, i + 1), c, i) \<in> measure (\<lambda>(c, i). 256 - unat i)"
    using unsigned_less [of i, where 'a = nat] by simp
qed simp

declare keybScanCodeDecode_loop.simps [simp del]

definition keybScanCodeDecode :: "u8 \<Rightarrow> u8" where
  "keybScanCodeDecode scanCode = keybScanCodeDecode_loop scanCode 0"

text \<open>The pointer read from \<open>Keys\<close>; a read beyond the table has no value.\<close>

definition key_str :: "u8 \<Rightarrow> u8 \<Rightarrow> string option" where
  "key_str index st =
     (let i = unat index + 85 * (if st AND (KB_LSHIFT_HOLDS OR KB_RSHIFT_HOLDS) \<noteq> 0 then 1 else 0)
      in if i < length Keys then Some (Keys ! i) else None)"

definition key_code :: "string \<Rightarrow> u8" where
  "key_code decoded =
     (if length decoded > 1 then 0 else case decoded of [] \<Rightarrow> 0 | c # _ \<Rightarrow> of_char c)"

definition pub_key :: "u8 \<Rightarrow> u8 \<Rightarrow> keyb \<Rightarrow> keyb" where
  "pub_key code scan_code s = s\<lparr>published := published s @ [(code, scan_code)]\<rparr>"

definition kernel_onKeybScan :: "u8 \<Rightarrow> keyb \<Rightarrow> keyb option" where
  "kernel_onKeybScan scan_code s =
     (if scan_code = 0xf0 then Some (s\<lparr>KeybState := KeybState s OR KB_KEY_BREAK\<rparr>)
      else if KeybState s AND KB_KEY_BREAK \<noteq> 0 then
        let s = s\<lparr>KeybState := KeybState s XOR KB_KEY_BREAK\<rparr>
        in Some (
          if scan_code = 0x12 then s\<lparr>KeybState := KeybState s XOR KB_LSHIFT_HOLDS\<rparr>
          else if scan_code = 0x59 then s\<lparr>KeybState := KeybState s XOR KB_RSHIFT_HOLDS\<rparr>
          else if scan_code = 0x14 then s\<lparr>KeybState := KeybState s XOR KB_CTRL_HOLDS\<rparr>
          else s)
      else if scan_code = 0x12 then Some (s\<lparr>KeybState := KeybState s OR KB_LSHIFT_HOLDS\<rparr>)
      else if scan_code = 0x59 then Some (s\<lparr>KeybState := KeybState s OR KB_RSHIFT_HOLDS\<rparr>)
      else if scan_code = 0x14 then Some (s\<lparr>KeybState := KeybState s OR KB_CTRL_HOLDS\<rparr>)
      else
        let index = keybScanCodeDecode scan_code
        in if index XOR 0xff = 0 then Some s
           else do {
             decoded \<leftarrow> key_str index (KeybState s);
             Some (pub_key (key_code decoded) scan_code s)
           })"

fun scans :: "u8 list \<Rightarrow> keyb \<Rightarrow> keyb option" where
  "scans [] s = Some s"
| "scans (c # cs) s = do { s \<leftarrow> kernel_onKeybScan c s; scans cs s }"

section \<open>The specification\<close>

text \<open>
  A user presses and releases keys; a release is sent as the break prefix and the code of
  the key. The specification keeps the held modifiers as three truth values, and reads the
  two halves of the key table independently: the first 86 names belong to the codes in
  \<open>Make\<close>, the other 85 to the same codes without the break code, with a shift key held.
\<close>

datatype key_evt = Press u8 | Release u8

fun evt_code :: "key_evt \<Rightarrow> u8" where
  "evt_code (Press c) = c"
| "evt_code (Release c) = c"

fun evt_bytes :: "key_evt \<Rightarrow> u8 list" where
  "evt_bytes (Press c) = [c]"
| "evt_bytes (Release c) = [0xf0, c]"

record held =
  lshift :: bool
  rshift :: bool
  ctrl :: bool

definition modifier :: "u8 \<Rightarrow> bool" where
  "modifier c \<longleftrightarrow> c = 0x12 \<or> c = 0x59 \<or> c = 0x14"

definition hold :: "u8 \<Rightarrow> bool \<Rightarrow> held \<Rightarrow> held" where
  "hold c b h =
     (if c = 0x12 then h\<lparr>lshift := b\<rparr> else if c = 0x59 then h\<lparr>rshift := b\<rparr>
      else if c = 0x14 then h\<lparr>ctrl := b\<rparr> else h)"

definition is_held :: "u8 \<Rightarrow> held \<Rightarrow> bool" where
  "is_held c h \<longleftrightarrow> (c = 0x12 \<and> lshift h) \<or> (c = 0x59 \<and> rshift h) \<or> (c = 0x14 \<and> ctrl h)"

definition key_name :: "bool \<Rightarrow> u8 \<Rightarrow> string option" where
  "key_name shift c =
     (if shift then map_of (zip (tl Make) (drop 86 Keys)) c else map_of (zip Make (take 86 Keys)) c)"

fun evt_held :: "key_evt \<Rightarrow> held \<Rightarrow> held" where
  "evt_held (Press c) h = hold c True h"
| "evt_held (Release c) h = hold c False h"

fun evt_out :: "key_evt \<Rightarrow> held \<Rightarrow> (u8 \<times> u8) list" where
  "evt_out (Press c) h =
     (if modifier c then []
      else case key_name (lshift h \<or> rshift h) c of None \<Rightarrow> [] | Some n \<Rightarrow> [(key_code n, c)])"
| "evt_out (Release c) h = []"

text \<open>No key has the code of the break prefix, and a modifier is released only when it is held.\<close>

fun evt_ok :: "key_evt \<Rightarrow> held \<Rightarrow> bool" where
  "evt_ok (Press c) h \<longleftrightarrow> c \<noteq> 0xf0"
| "evt_ok (Release c) h \<longleftrightarrow> c \<noteq> 0xf0 \<and> (\<not> modifier c \<or> is_held c h)"

fun typed :: "key_evt list \<Rightarrow> held \<Rightarrow> (u8 \<times> u8) list" where
  "typed [] h = []"
| "typed (e # es) h = evt_out e h @ typed es (evt_held e h)"

fun typing_ok :: "key_evt list \<Rightarrow> held \<Rightarrow> bool" where
  "typing_ok [] h \<longleftrightarrow> True"
| "typing_ok (e # es) h \<longleftrightarrow> evt_ok e h \<and> typing_ok es (evt_held e h)"

definition flags :: "held \<Rightarrow> u8" where
  "flags h = (if lshift h then KB_LSHIFT_HOLDS else 0) OR (if rshift h then KB_RSHIFT_HOLDS else 0)
     OR (if ctrl h then KB_CTRL_HOLDS else 0)"

lemmas kb_flags = KB_LSHIFT_HOLDS_def KB_RSHIFT_HOLDS_def KB_CTRL_HOLDS_def KB_KEY_BREAK_def


section \<open>The code table\<close>

lemma length_Make: "length Make = 86" by (simp add: Make_def)
lemma length_Keys: "length Keys = 171" by (simp add: Keys_def singles_def)
lemma distinct_Make: "distinct Make" by (simp add: Make_def)
lemma Make_0: "Make ! 0 = 0xf0" by (simp add: Make_def)

lemma decode_loop_cases:
  "unat i \<le> 86 \<Longrightarrow>
    (case keybScanCodeDecode_loop c i of r \<Rightarrow>
       (r = 0xff \<and> c \<notin> set (drop (unat i) Make)) \<or> (unat r < 86 \<and> Make ! unat r = c))"
proof (induction c i rule: keybScanCodeDecode_loop.induct)
  case (1 c i)
  show ?case
  proof (cases "unat i < 86")
    case True
    then have "unat (i + 1) = Suc (unat i)" by (simp add: unat_word_ariths)
    moreover have "drop (unat i) Make = Make ! unat i # drop (Suc (unat i)) Make"
      using True by (simp add: Cons_nth_drop_Suc length_Make)
    ultimately show ?thesis
      using 1 True by (auto simp: keybScanCodeDecode_loop.simps [of c i] length_Make)
  next
    case False
    then show ?thesis
      using 1(2) by (simp add: keybScanCodeDecode_loop.simps [of c i] length_Make)
  qed
qed

lemma decode_cases:
  obtains "keybScanCodeDecode c = 0xff" "c \<notin> set Make"
  | "unat (keybScanCodeDecode c) < 86" "Make ! unat (keybScanCodeDecode c) = c"
  using decode_loop_cases [of 0 c] by (auto simp: keybScanCodeDecode_def)

lemma key_name_nth:
  assumes "i < 86"
  shows "key_name False (Make ! i) = Some (Keys ! i)"
    and "0 < i \<Longrightarrow> key_name True (Make ! i) = Some (Keys ! (i + 85))"
proof -
  show "key_name False (Make ! i) = Some (Keys ! i)"
    using map_of_zip_nth [of Make "take 86 Keys" i] assms
    by (simp add: key_name_def length_Make length_Keys distinct_Make)
  assume "0 < i"
  then obtain j where j: "i = Suc j" by (cases i) auto
  with assms map_of_zip_nth [of "tl Make" "drop 86 Keys" j]
  show "key_name True (Make ! i) = Some (Keys ! (i + 85))"
    by (simp add: key_name_def length_Make length_Keys distinct_Make distinct_tl nth_tl add.commute)
qed

lemma key_name_unknown:
  assumes "c \<notin> set Make"
  shows "key_name b c = None"
proof -
  from assms have "c \<notin> set (tl Make)" using set_drop_subset [of 1 Make] by (auto simp: drop_Suc)
  with assms show ?thesis
    by (auto simp: key_name_def map_of_eq_None_iff dest: set_zip_leftD)
qed

section \<open>The decoder implements the specification\<close>

lemma flags_shift:
  "(flags h AND (KB_LSHIFT_HOLDS OR KB_RSHIFT_HOLDS) \<noteq> 0) = (lshift h \<or> rshift h)"
  by (simp add: flags_def kb_flags)

lemma flags_break: "flags h AND KB_KEY_BREAK = 0"
  by (simp add: flags_def kb_flags)

lemma xor_eq_0: "x XOR y = 0 \<longleftrightarrow> x = y" for x y :: "'a::len word"
  by (metis xor.assoc xor.right_neutral xor_self_eq)

lemma press_key:
  assumes "KeybState s = flags h" "c \<noteq> 0xf0" "\<not> modifier c"
  shows "kernel_onKeybScan c s = Some (s\<lparr>published := published s @ evt_out (Press c) h\<rparr>)"
proof (rule decode_cases [of c])
  assume "keybScanCodeDecode c = 0xff" "c \<notin> set Make"
  with assms show ?thesis
    by (simp add: kernel_onKeybScan_def flags_break modifier_def key_name_unknown xor_eq_0)
next
  let ?i = "unat (keybScanCodeDecode c)"
  assume i: "?i < 86" "Make ! ?i = c"
  with assms(2) Make_0 have pos: "0 < ?i" by (metis gr0I)
  from i have "keybScanCodeDecode c \<noteq> 0xff" by auto
  moreover from i(1) have "key_str (keybScanCodeDecode c) (flags h) =
      key_name (lshift h \<or> rshift h) (Make ! ?i)"
    using key_name_nth [OF i(1)] pos by (simp add: key_str_def flags_shift length_Keys Let_def)
  ultimately show ?thesis
    using assms key_name_nth [OF i(1)] pos i(2)
    by (cases "lshift h \<or> rshift h")
      (simp_all add: kernel_onKeybScan_def flags_break modifier_def pub_key_def xor_eq_0 Let_def)
qed

lemma press_modifier:
  assumes "KeybState s = flags h" "modifier c"
  shows "kernel_onKeybScan c s = Some (s\<lparr>KeybState := flags (hold c True h)\<rparr>)"
  using assms
  by (auto simp: kernel_onKeybScan_def modifier_def hold_def flags_def kb_flags)

lemma release_key:
  assumes "KeybState s = flags h" "c \<noteq> 0xf0" "\<not> modifier c \<or> is_held c h"
  shows "scans [0xf0, c] s = Some (s\<lparr>KeybState := flags (hold c False h)\<rparr>)"
  using assms
  by (auto simp: kernel_onKeybScan_def modifier_def is_held_def hold_def flags_def kb_flags)

lemma scans_append:
  "scans (as @ bs) s = scans as s \<bind> scans bs"
proof (induction as arbitrary: s)
  case (Cons a as)
  then show ?case by (cases "kernel_onKeybScan a s") simp_all
qed simp

lemma evt_step:
  assumes "KeybState s = flags h" "evt_ok e h"
  shows "scans (evt_bytes e) s =
    Some (s\<lparr>KeybState := flags (evt_held e h), published := published s @ evt_out e h\<rparr>)"
proof (cases e)
  case (Press c)
  then show ?thesis
    using assms press_key [of s h c] press_modifier [of s h c]
    by (cases "modifier c") (auto simp: hold_def modifier_def)
next
  case (Release c)
  then show ?thesis using assms release_key [of s h c] by auto
qed


section \<open>Typing\<close>

text \<open>
  For every sequence of key presses and releases in which no modifier is released that was
  not held, the decoder never reads beyond the key table, publishes for every press of a key of
  the table one event with the code of its name (of its shifted name while a shift key is
  held, zero for a name of several letters) and its scan code, in order, and its state is
  exactly the set of held modifiers.
\<close>

theorem keyb_decodes_typing:
  assumes "KeybState s = flags h" "typing_ok es h"
  shows "scans (concat (map evt_bytes es)) s =
    Some (s\<lparr>KeybState := flags (fold evt_held es h), published := published s @ typed es h\<rparr>)"
  using assms
proof (induction es arbitrary: s h)
  case (Cons e es)
  then have "scans (evt_bytes e) s =
      Some (s\<lparr>KeybState := flags (evt_held e h), published := published s @ evt_out e h\<rparr>)"
    by (intro evt_step) simp_all
  with Cons show ?case by (simp add: scans_append)
qed simp

theorem keyb_decodes_typing_witness:
  "\<exists>s'. scans [0x12, 0x1C, 0xf0, 0x12, 0x1C, 0x5A, 0x05] \<lparr>KeybState = 0, published = []\<rparr> = Some s'
     \<and> published s' = [(0x41, 0x1C), (0x61, 0x1C), (0x0A, 0x5A), (0, 0x05)] \<and> KeybState s' = 0"
proof -
  define h where "h = \<lparr>lshift = False, rshift = False, ctrl = False\<rparr>"
  define es where "es = [Press 0x12, Press 0x1C, Release 0x12, Press 0x1C, Press 0x5A, Press 0x05]"
  have ok: "typing_ok es h" "flags h = 0"
    by (simp_all add: es_def h_def hold_def is_held_def modifier_def flags_def)
  have out: "typed es h = [(0x41, 0x1C), (0x61, 0x1C), (0x0A, 0x5A), (0, 0x05)]"
    by (simp add: es_def h_def hold_def modifier_def key_name_def Make_def Keys_def singles_def key_code_def)
  have "flags (fold evt_held es h) = 0" by (simp add: es_def h_def hold_def flags_def)
  with keyb_decodes_typing [of "\<lparr>KeybState = 0, published = []\<rparr>" h es] ok out show ?thesis
    by (simp add: es_def)
qed

text \<open>
  A modifier released without having been pressed (the press was lost, or the two control keys,
  which share a code, are both released) counts as held from then on.
\<close>

lemma stray_release_holds:
  assumes "KeybState s = flags h" "modifier c" "\<not> is_held c h"
  shows "scans [0xf0, c] s = Some (s\<lparr>KeybState := flags (hold c True h)\<rparr>)"
  using assms
  by (auto simp: kernel_onKeybScan_def modifier_def is_held_def hold_def flags_def kb_flags)

end
