(* ===== verification/X86_Irq.thy ===== *)
theory X86_Irq
  imports X86_Io Keyb
begin

text \<open>
  The keyboard interrupt of the PC target, \<open>arch/x86_64/sys/isrs.asm\<close>, down to the decoder of \<open>keyb.c\<close>: it is
  invisible to the interrupted program, acknowledged once, and what is typed arrives decoded.
\<close>

section \<open>The interrupt routine\<close>

text \<open>The remaining caller-saved registers, and the stores to the registers of the local interrupt controller.\<close>

record irq_cpu = ide_cpu +
  r9 :: u64
  r10 :: u64
  r11 :: u64
  stores :: "(u64 \<times> u32) list"

abbreviation LAPIC_EOI_ADDR :: u64 where "LAPIC_EOI_ADDR \<equiv> 0x402000B0"

definition lapic_eoi :: "irq_cpu \<Rightarrow> irq_cpu" where
  "lapic_eoi s = s\<lparr>stores := (LAPIC_EOI_ADDR, 0) # stores s\<rparr>"

text \<open>The processor takes an interrupt before the instruction at \<open>pc\<close>: it pushes stack segment and pointer, flags, code segment and
  \<open>pc\<close>; \<open>iretq\<close> takes them back.\<close>

definition irq_entry :: "u64 \<Rightarrow> u64 \<Rightarrow> u64 \<Rightarrow> irq_cpu \<Rightarrow> irq_cpu" where
  "irq_entry pc sp ss s = push pc (push 0x08 (pushfq (push sp (push ss s))))"

definition iretq :: "irq_cpu \<Rightarrow> u64 \<times> irq_cpu" where
  "iretq s =
     (let (pc, s) = pop s;
          (_, s) = pop s;
          s = popfq s;
          (_, s) = pop s;
          (_, s) = pop s
      in (pc, s))"

text \<open>The registers a C function may change are saved around the call.\<close>

definition isr_prologue :: "irq_cpu \<Rightarrow> irq_cpu" where
  "isr_prologue s =
     (let s = push (rax s) s;
          s = push (rcx s) s;
          s = push (rdx s) s;
          s = push (rsi s) s;
          s = push (rdi s) s;
          s = push (r8 s) s;
          s = push (r9 s) s;
          s = push (r10 s) s
      in push (r11 s) s)"

text \<open>The label \<open>.keyb_eoisr\<close>.\<close>

definition keyb_eoisr :: "irq_cpu \<Rightarrow> u64 \<times> irq_cpu" where
  "keyb_eoisr s =
     (let s = lapic_eoi s;
          (r, s) = pop s; s = s\<lparr>r11 := r\<rparr>;
          (r, s) = pop s; s = s\<lparr>r10 := r\<rparr>;
          (r, s) = pop s; s = s\<lparr>r9 := r\<rparr>;
          (r, s) = pop s; s = s\<lparr>r8 := r\<rparr>;
          (r, s) = pop s; s = s\<lparr>rdi := r\<rparr>;
          (r, s) = pop s; s = s\<lparr>rsi := r\<rparr>;
          (r, s) = pop s; s = s\<lparr>rdx := r\<rparr>;
          (r, s) = pop s; s = s\<lparr>rcx := r\<rparr>;
          (r, s) = pop s; s = s\<lparr>rax := r\<rparr>
      in iretq s)"

text \<open>
  The C function works on the state of the decoder; what its code does to the registers is \<open>c_call\<close>. The word
  the routine skips to align the stack keeps the value \<open>junk\<close>.
\<close>

definition isr_keyboard ::
    "pdev \<Rightarrow> (irq_cpu \<Rightarrow> irq_cpu) \<Rightarrow> u64 \<Rightarrow> irq_cpu \<Rightarrow> keyb \<Rightarrow> ((u64 \<times> irq_cpu) \<times> keyb) option" where
  "isr_keyboard P c_call junk s k =
     (let s = isr_prologue s;
          s = in_al_imm P 0x60 s;
          s = cmp_al 0xAA s
      in if zf s then Some (keyb_eoisr s, k)
         else
           let s = cmp_al 0xFA s
           in if zf s then Some (keyb_eoisr s, k)
              else do {
                let s = push junk s;
                let s = s\<lparr>rdi := ucast (lo8 (rax s))\<rparr>;
                k \<leftarrow> kernel_onKeybScan (ucast (rdi s)) k;
                let s = c_call s;
                let (_, s) = pop s;
                Some (keyb_eoisr s, k)
              })"

section \<open>One interrupt\<close>

text \<open>What the calling convention promises of compiled code that touches neither ports nor the interrupt controller, nor
  the memory of the interrupted program.\<close>

definition c_abi :: "(irq_cpu \<Rightarrow> irq_cpu) \<Rightarrow> bool" where
  "c_abi c_call \<longleftrightarrow> (\<forall>s. saved s (c_call s) \<and> ram (c_call s) = ram s \<and> pio (c_call s) = pio s \<and> stores (c_call s) = stores s)"

text \<open>The interrupted program as it goes on: only the access to the keyboard and the acknowledgement have been added.\<close>

definition resumed :: "pdev \<Rightarrow> irq_cpu \<Rightarrow> irq_cpu" where
  "resumed P s = s\<lparr>pio := InB 0x60 (ucast (P (pio s) 0x60)) # pio s, stores := (LAPIC_EOI_ADDR, 0) # stores s\<rparr>"

definition scan_byte :: "pdev \<Rightarrow> irq_cpu \<Rightarrow> u8" where
  "scan_byte P s = ucast (P (pio s) 0x60)"

definition filtered :: "u8 \<Rightarrow> bool" where
  "filtered v \<longleftrightarrow> v = 0xAA \<or> v = 0xFA"

text \<open>The registers the prologue saves, the latest first, and what the epilogue makes of them.\<close>

definition frame :: "u64 \<Rightarrow> u64 \<Rightarrow> u64 \<Rightarrow> irq_cpu \<Rightarrow> u64 list" where
  "frame pc sp ss s =
     [r11 s, r10 s, r9 s, r8 s, rdi s, rsi s, rdx s, rcx s, rax s] @ stack (irq_entry pc sp ss s)"

lemma isr_prologue_stack:
  "isr_prologue (irq_entry pc sp ss s) = s\<lparr>stack := frame pc sp ss s\<rparr>"
  by (simp add: isr_prologue_def frame_def irq_entry_def pushfq_def push_def Let_def)

lemma iretq_irq_entry:
  "iretq (t\<lparr>stack := stack (irq_entry pc sp ss s)\<rparr>) = (pc, t\<lparr>stack := stack s, zf := zf s, df := df s\<rparr>)"
  by (simp add: iretq_def irq_entry_def pushfq_def popfq_def push_def pop_def Let_def)

lemma resumed_eq:
  assumes "rbx t = rbx s" "r12 t = r12 s" "ram t = ram s" "pio t = InB 0x60 (scan_byte P s) # pio s"
    "stores t = (LAPIC_EOI_ADDR, 0) # stores s"
  shows "t\<lparr>r11 := r11 s, r10 := r10 s, r9 := r9 s, r8 := r8 s, rdi := rdi s, rsi := rsi s, rdx := rdx s,
      rcx := rcx s, rax := rax s, stack := stack s, zf := zf s, df := df s\<rparr> = resumed P s"
  using assms by (cases s; cases t) (simp add: resumed_def scan_byte_def)

lemma keyb_eoisr_resumes:
  assumes "stack t = frame pc sp ss s" "rbx t = rbx s" "r12 t = r12 s" "ram t = ram s"
    "pio t = InB 0x60 (scan_byte P s) # pio s" "stores t = stores s"
  shows "keyb_eoisr t = (pc, resumed P s)"
proof -
  define u where "u = t\<lparr>stores := (LAPIC_EOI_ADDR, 0) # stores s, r11 := r11 s, r10 := r10 s, r9 := r9 s,
    r8 := r8 s, rdi := rdi s, rsi := rsi s, rdx := rdx s, rcx := rcx s, rax := rax s\<rparr>"
  have "keyb_eoisr t = iretq (u\<lparr>stack := stack (irq_entry pc sp ss s)\<rparr>)"
    using assms(1,6) by (cases t) (simp add: keyb_eoisr_def frame_def lapic_eoi_def pop_def u_def)
  also have "\<dots> = (pc, u\<lparr>stack := stack s, zf := zf s, df := df s\<rparr>)"
    by (rule iretq_irq_entry)
  also have "u\<lparr>stack := stack s, zf := zf s, df := df s\<rparr> = resumed P s"
    using resumed_eq [of u s P] assms by (simp add: u_def)
  finally show ?thesis .
qed

lemma isr_keyboard_eq:
  assumes "c_abi c_call"
  shows "isr_keyboard P c_call junk (irq_entry pc sp ss s) k =
    (if filtered (scan_byte P s) then Some ((pc, resumed P s), k)
     else map_option (\<lambda>k. ((pc, resumed P s), k)) (kernel_onKeybScan (scan_byte P s) k))"
proof -
  define t where "t = s\<lparr>stack := frame pc sp ss s, rax := set_lo8 (scan_byte P s) (rax s),
    pio := InB 0x60 (scan_byte P s) # pio s\<rparr>"
  define c where "c = c_call (t\<lparr>zf := False, stack := junk # stack t, rdi := ucast (scan_byte P s)\<rparr>)"
  have t: "in_al_imm P 0x60 (isr_prologue (irq_entry pc sp ss s)) = t"
    by (simp add: isr_prologue_stack in_al_imm_def t_def scan_byte_def Let_def)
  have al: "lo8 (rax t) = scan_byte P s" by (simp add: t_def)
  have narrow: "ucast (ucast v :: u64) = v" for v :: u8
    by (rule bit_word_eqI) (auto simp: bit_simps)
  have skip: "keyb_eoisr (t\<lparr>zf := z\<rparr>) = (pc, resumed P s)" for z
    by (rule keyb_eoisr_resumes) (simp_all add: t_def)
  have "keyb_eoisr (c\<lparr>stack := tl (stack c)\<rparr>) = (pc, resumed P s)"
    using assms by (intro keyb_eoisr_resumes) (simp_all add: c_abi_def c_def t_def saved_def)
  then show ?thesis
    by (cases "kernel_onKeybScan (scan_byte P s) k")
      (auto simp: isr_keyboard_def t al narrow cmp_al_def skip filtered_def push_def pop_def c_def Let_def)
qed

section \<open>A stream of interrupts\<close>

text \<open>Each interrupt finds the machine somewhere else: at \<open>pc\<close>, with stack \<open>sp\<close> in \<open>ss\<close>, in state \<open>s\<close>.\<close>

fun keyboard_irqs ::
    "pdev \<Rightarrow> (irq_cpu \<Rightarrow> irq_cpu) \<Rightarrow> u64 \<Rightarrow> (u64 \<times> u64 \<times> u64 \<times> irq_cpu) list \<Rightarrow> keyb
     \<Rightarrow> ((u64 \<times> irq_cpu) list \<times> keyb) option" where
  "keyboard_irqs P c_call junk [] k = Some ([], k)"
| "keyboard_irqs P c_call junk ((pc, sp, ss, s) # is) k = do {
     (r, k) \<leftarrow> isr_keyboard P c_call junk (irq_entry pc sp ss s) k;
     (rs, k) \<leftarrow> keyboard_irqs P c_call junk is k;
     Some (r # rs, k)
   }"

definition bytes_seen :: "pdev \<Rightarrow> (u64 \<times> u64 \<times> u64 \<times> irq_cpu) list \<Rightarrow> u8 list" where
  "bytes_seen P is = map (\<lambda>(pc, sp, ss, s). scan_byte P s) is"

definition goes_on :: "pdev \<Rightarrow> (u64 \<times> u64 \<times> u64 \<times> irq_cpu) list \<Rightarrow> (u64 \<times> irq_cpu) list" where
  "goes_on P is = map (\<lambda>(pc, sp, ss, s). (pc, resumed P s)) is"

lemma keyboard_irqs_eq:
  assumes "c_abi c_call"
  shows "keyboard_irqs P c_call junk is k =
    map_option (Pair (goes_on P is)) (scans (filter (\<lambda>v. \<not> filtered v) (bytes_seen P is)) k)"
proof (induction "is" arbitrary: k)
  case (Cons i "is")
  obtain pc sp ss s where i: "i = (pc, sp, ss, s)" by (cases i) auto
  show ?case
    by (cases "kernel_onKeybScan (scan_byte P s) k")
      (auto simp: i isr_keyboard_eq [OF assms] Cons.IH bytes_seen_def goes_on_def bind_eq_None_conv map_option_case
         split: option.splits)
qed (simp add: bytes_seen_def goes_on_def)

text \<open>
  C16: whatever the keyboard interrupts, it goes on at the instruction it was at with every register, both flags, its
  stack and its memory unchanged; each interrupt takes one byte and is acknowledged once; and if
  the bytes of a typing come among any number of self-test and acknowledge bytes, exactly the keys of
  the typing are published, in order.
\<close>

theorem keyboard_interrupts:
  assumes "c_abi c_call" "KeybState k = flags h" "typing_ok es h"
    and "filter (\<lambda>v. \<not> filtered v) (bytes_seen P is) = concat (map evt_bytes es)"
  shows "keyboard_irqs P c_call junk is k = Some
    (map (\<lambda>(pc, sp, ss, s). (pc, s\<lparr>pio := InB 0x60 (ucast (P (pio s) 0x60)) # pio s, stores := (0x402000B0, 0) # stores s\<rparr>)) is,
     k\<lparr>KeybState := flags (fold evt_held es h), published := published k @ typed es h\<rparr>)"
  using assms keyb_decodes_typing [of k h es] by (simp add: keyboard_irqs_eq goes_on_def resumed_def [abs_def])

theorem keyboard_interrupts_witness:
  "\<exists>P is rs k'. keyboard_irqs P (\<lambda>s. s\<lparr>rax := 7, r11 := 9, zf := True\<rparr>) 0 is \<lparr>KeybState = 0, published = []\<rparr> = Some (rs, k')
     \<and> bytes_seen P is = [0xFA, 0x12, 0x1C, 0xAA, 0xf0, 0x12, 0x1C]
     \<and> published k' = [(0x41, 0x1C), (0x61, 0x1C)] \<and> KeybState k' = 0"
proof -
  define h where "h = \<lparr>lshift = False, rshift = False, ctrl = False\<rparr>"
  define es where "es = [Press 0x12, Press 0x1C, Release 0x12, Press 0x1C]"
  define P :: pdev where "P t p = [0xFA, 0x12, 0x1C, 0xAA, 0xf0, 0x12, 0x1C] ! length t" for t p
  define st where "st n = \<lparr>rax = 1, rbx = 2, rcx = 3, rdx = 4, rsi = 5, rdi = 6, r8 = 7, r12 = 8, zf = False, df = True,
    stack = [n], ram = (\<lambda>a. ucast a), pio = replicate (unat n) (InB 0x60 0), r9 = 10, r10 = 11, r11 = 12, stores = []\<rparr>" for n
  define "is" where "is = map (\<lambda>n. (0x100 + n, 0x8000 :: u64, 0x10 :: u64, st n)) [0, 1, 2, 3, 4, 5, 6]"
  have ok: "typing_ok es h" "flags h = 0"
    by (simp_all add: es_def h_def hold_def is_held_def modifier_def flags_def)
  have out: "typed es h = [(0x41, 0x1C), (0x61, 0x1C)]"
    by (simp add: es_def h_def hold_def modifier_def key_name_def Make_def Keys_def singles_def key_code_def)
  have "flags (fold evt_held es h) = 0" by (simp add: es_def h_def hold_def flags_def)
  moreover have seen: "bytes_seen P is = [0xFA, 0x12, 0x1C, 0xAA, 0xf0, 0x12, 0x1C]"
    by (simp add: bytes_seen_def is_def st_def scan_byte_def P_def)
  moreover have "filter (\<lambda>v. \<not> filtered v) (bytes_seen P is) = concat (map evt_bytes es)"
    by (simp add: seen filtered_def es_def)
  moreover have "c_abi (\<lambda>s. s\<lparr>rax := 7, r11 := 9, zf := True\<rparr>)"
    by (simp add: c_abi_def saved_def)
  ultimately show ?thesis
    using keyboard_interrupts [of "\<lambda>s. s\<lparr>rax := 7, r11 := 9, zf := True\<rparr>" "\<lparr>KeybState = 0, published = []\<rparr>" h es P "is" 0]
      ok out by (intro exI [of _ P] exI [of _ "is"]) simp
qed

end
