(* ===== verification/Mb_Cache.thy ===== *)
theory Mb_Cache
  imports Xcache
begin

text \<open>
  The cache routines of the MicroBlaze target, \<open>arch/mb_le/sys.S\<close>, one instruction per line, on a processor
  with a write-through first level and a write-back second level. A flush puts what the processor sees of a range
  into memory, an invalidation lets the processor see what a device has put there; both reach exactly the cache
  lines the range touches, and both fail to return for a range in the last sixteen bytes of the
  address space.
\<close>

section \<open>Processor and caches\<close>

text \<open>The registers the routines use, and the two cache levels by byte: \<open>None\<close> where the line is not held.\<close>

record mb =
  R5 :: u32
  R6 :: u32
  R8 :: u32
  R18 :: u32
  RMSR :: u32
  l1 :: "u32 \<Rightarrow> u8 option"
  l2 :: "u32 \<Rightarrow> u8 option"
  dram :: "u32 \<Rightarrow> u8"

definition below :: "mb \<Rightarrow> u32 \<Rightarrow> u8" where
  "below s a = (case l2 s a of None \<Rightarrow> dram s a | Some v \<Rightarrow> v)"

definition cpu_sees :: "mb \<Rightarrow> u32 \<Rightarrow> u8" where
  "cpu_sees s a = (case l1 s a of None \<Rightarrow> below s a | Some v \<Rightarrow> v)"

text \<open>A write-through first level holds nothing that the level below does not hold as well.\<close>

definition written_through :: "mb \<Rightarrow> bool" where
  "written_through s \<longleftrightarrow> (\<forall>a v. l1 s a = Some v \<longrightarrow> v = below s a)"

text \<open>The lines of 16 and of 64 bytes, and the cache instructions.\<close>

definition wdc :: "u32 \<Rightarrow> mb \<Rightarrow> mb" where
  "wdc a s = s\<lparr>l1 := \<lambda>x. if drop_bit 4 x = drop_bit 4 a then None else l1 s x\<rparr>"

definition wdc_ext_clear :: "u32 \<Rightarrow> mb \<Rightarrow> mb" where
  "wdc_ext_clear a s = s\<lparr>l2 := \<lambda>x. if drop_bit 6 x = drop_bit 6 a then None else l2 s x\<rparr>"

definition wdc_ext_flush :: "u32 \<Rightarrow> mb \<Rightarrow> mb" where
  "wdc_ext_flush a s =
     s\<lparr>dram := \<lambda>x. if drop_bit 6 x = drop_bit 6 a then below s x else dram s x,
       l2 := \<lambda>x. if drop_bit 6 x = drop_bit 6 a then None else l2 s x\<rparr>"

text \<open>\<open>cmpu\<close>: the difference, with the top bit telling whether the first operand is the larger one.\<close>

definition cmpu :: "u32 \<Rightarrow> u32 \<Rightarrow> u32" where
  "cmpu a b = (if b < a then set_bit 31 (b - a) else unset_bit 31 (b - a))"

section \<open>The routines\<close>

definition mb_icache_enable :: "mb \<Rightarrow> mb" where
  "mb_icache_enable s =
     (let s = s\<lparr>R8 := RMSR s\<rparr>;
          s = s\<lparr>R8 := R8 s OR 0x20\<rparr>
      in s\<lparr>RMSR := R8 s\<rparr>)"

definition mb_dcache_enable :: "mb \<Rightarrow> mb" where
  "mb_dcache_enable s =
     (let s = s\<lparr>R8 := RMSR s\<rparr>;
          s = s\<lparr>R8 := R8 s OR 0x80\<rparr>
      in s\<lparr>RMSR := R8 s\<rparr>)"

definition mb_exceptions_enable :: "mb \<Rightarrow> mb" where
  "mb_exceptions_enable s =
     (let s = s\<lparr>R8 := RMSR s\<rparr>;
          s = s\<lparr>R8 := R8 s OR 0x100\<rparr>
      in s\<lparr>RMSR := R8 s\<rparr>)"

definition mb_interrupts_enable :: "mb \<Rightarrow> mb" where
  "mb_interrupts_enable s =
     (let s = s\<lparr>R8 := RMSR s\<rparr>;
          s = s\<lparr>R8 := R8 s OR 0x02\<rparr>
      in s\<lparr>RMSR := R8 s\<rparr>)"

text \<open>The two loops over the lines of the second level differ in the instruction only; the branch looks at the offset
  before the instruction in its delay slot lowers it.\<close>

partial_function (option) l2_loop :: "(u32 \<Rightarrow> mb \<Rightarrow> mb) \<Rightarrow> mb \<Rightarrow> mb option" where
  "l2_loop wdc_ext s =
     (let s = wdc_ext (R5 s + R6 s) s;
          taken = (R6 s \<noteq> 0);
          s = s\<lparr>R6 := R6 s - 64\<rparr>
      in if taken then l2_loop wdc_ext s else Some s)"

definition mb_l2_cache_invalidate_range :: "mb \<Rightarrow> mb option" where
  "mb_l2_cache_invalidate_range s =
     (if R6 s = 0 then Some s
      else
        let s = s\<lparr>R6 := R5 s + R6 s\<rparr>;
            s = s\<lparr>R6 := R6 s - 1\<rparr>;
            s = s\<lparr>R6 := R6 s AND - 64\<rparr>;
            s = s\<lparr>R5 := R5 s AND - 64\<rparr>;
            s = s\<lparr>R6 := R6 s - R5 s\<rparr>
        in l2_loop wdc_ext_clear s)"

partial_function (option) l1_inv_loop :: "mb \<Rightarrow> mb option" where
  "l1_inv_loop s =
     (let s = s\<lparr>R18 := cmpu (R5 s) (R6 s)\<rparr>
      in if bit (R18 s) 31 then Some s
         else
           let s = wdc (R5 s) s;
               s = s\<lparr>R5 := R5 s + 16\<rparr>
           in l1_inv_loop s)"

definition mb_l1_cache_invalidate_range :: "mb \<Rightarrow> mb option" where
  "mb_l1_cache_invalidate_range s =
     (if R6 s = 0 then Some s
      else
        let s = s\<lparr>R6 := R5 s + R6 s\<rparr>;
            s = s\<lparr>R6 := R6 s - 1\<rparr>;
            s = s\<lparr>R6 := R6 s AND - 16\<rparr>;
            s = s\<lparr>R5 := R5 s AND - 16\<rparr>
        in l1_inv_loop s)"

definition mb_l2_cache_flush_range :: "mb \<Rightarrow> mb option" where
  "mb_l2_cache_flush_range s =
     (if R6 s = 0 then Some s
      else
        let s = s\<lparr>R6 := R6 s - 1\<rparr>;
            s = s\<lparr>R6 := R5 s + R6 s\<rparr>;
            s = s\<lparr>R6 := R6 s AND - 64\<rparr>;
            s = s\<lparr>R5 := R5 s AND - 64\<rparr>;
            s = s\<lparr>R6 := R6 s - R5 s\<rparr>
        in l2_loop wdc_ext_flush s)"

text \<open>\<open>xcache.c\<close> down to the instructions: the arguments are passed in \<open>r5\<close> and \<open>r6\<close>.\<close>

definition cache_flush :: "u32 \<Rightarrow> u32 \<Rightarrow> mb \<Rightarrow> mb option" where
  "cache_flush p n s = do {
     s \<leftarrow> mb_l2_cache_flush_range (s\<lparr>R5 := p, R6 := n\<rparr>);
     mb_l1_cache_invalidate_range (s\<lparr>R5 := p, R6 := n\<rparr>)
   }"

definition cache_invalidate :: "u32 \<Rightarrow> u32 \<Rightarrow> mb \<Rightarrow> mb option" where
  "cache_invalidate p n s = do {
     s \<leftarrow> mb_l2_cache_invalidate_range (s\<lparr>R5 := p, R6 := n\<rparr>);
     mb_l1_cache_invalidate_range (s\<lparr>R5 := p, R6 := n\<rparr>)
   }"

section \<open>Lines\<close>

lemma unat_take32: "take_bit 32 (unat x) = unat (x :: u32)"
  using unsigned_less [of x, where 'a = nat] by (simp add: take_bit_nat_eq_self_iff)

lemma unat_drop_bit: "unat (drop_bit k (x :: u32)) = unat x div 2 ^ k"
  by (simp only: unsigned_drop_bit_eq) (simp add: drop_bit_eq_div unat_take32)

lemma drop_bit_line: "drop_bit k (x :: u32) = drop_bit k y \<longleftrightarrow> unat x div 2 ^ k = unat y div 2 ^ k"
  by (metis word_unat_eq_iff unat_drop_bit)

text \<open>The bytes in the lines that a range of \<open>n\<close> bytes touches.\<close>

definition touched :: "nat \<Rightarrow> u32 \<Rightarrow> u32 \<Rightarrow> u32 \<Rightarrow> bool" where
  "touched k p n a \<longleftrightarrow> unat p div 2 ^ k \<le> unat a div 2 ^ k \<and> unat a div 2 ^ k \<le> (unat p + unat n - 1) div 2 ^ k"

lemma touched_range: "unat p \<le> unat a \<Longrightarrow> unat a < unat p + unat n \<Longrightarrow> touched k p n a"
  by (auto simp: touched_def intro: div_le_mono)

lemma unat_line: "k < 32 \<Longrightarrow> unat (x AND - (2 ^ k) :: u32) = 2 ^ k * (unat x div 2 ^ k)"
proof -
  assume "k < 32"
  have "x AND - (2 ^ k) = push_bit k (drop_bit k x)"
    by (rule bit_word_eqI) (auto simp: bit_simps minus_exp_eq_not_mask)
  moreover have "unat (push_bit k (drop_bit k x)) = 2 ^ k * (unat x div 2 ^ k)"
  proof -
    have "unat (push_bit k (drop_bit k x)) = take_bit 32 (push_bit k (drop_bit k (unat x)))"
      by (simp add: unsigned_push_bit_eq unsigned_drop_bit_eq unat_take32)
    also have "push_bit k (drop_bit k (unat x)) = 2 ^ k * (unat x div 2 ^ k)" by (simp add: push_bit_eq_mult drop_bit_eq_div)
    also have "take_bit 32 (2 ^ k * (unat x div 2 ^ k)) = 2 ^ k * (unat x div 2 ^ k)"
    proof (rule take_bit_nat_eq_self)
      have "2 ^ k * (unat x div 2 ^ k) \<le> unat x" by (rule times_div_less_eq_dividend)
      also have "\<dots> < 2 ^ 32" using unsigned_less [of x, where 'a = nat] by simp
      finally show "2 ^ k * (unat x div 2 ^ k) < 2 ^ 32" .
    qed
    finally show ?thesis .
  qed
  ultimately show ?thesis by simp
qed

section \<open>The second level\<close>

lemma range_end:
  fixes p n :: u32
  assumes "n \<noteq> 0" "unat p + unat n \<le> 2 ^ 32"
  shows "unat (p + n - 1) = unat p + unat n - 1"
proof -
  have n: "0 < unat n" using assms(1) by (simp add: unat_gt_0)
  then have "p + n - 1 = (of_nat (unat p + unat n - 1) :: u32)" by simp
  also have "unat \<dots> = unat p + unat n - 1" using n assms(2) by (simp only: unat_of_nat) simp
  finally show ?thesis .
qed

text \<open>An instruction that acts on the bytes of a line, and its loop over consecutive lines.\<close>

locale line_op =
  fixes instr :: "u32 \<Rightarrow> mb \<Rightarrow> mb"
    and upd :: "u32 set \<Rightarrow> mb \<Rightarrow> mb"
  assumes instr_line: "instr a s = upd {x. drop_bit 6 x = drop_bit 6 a} s"
    and upd_upd: "upd A (upd B s) = upd (A \<union> B) s"
    and upd_R6: "upd A (s\<lparr>R6 := r\<rparr>) = (upd A s)\<lparr>R6 := r\<rparr>"
    and upd_R5: "upd A (s\<lparr>R5 := r\<rparr>) = (upd A s)\<lparr>R5 := r\<rparr>"
    and upd_regs: "R5 (upd A s) = R5 s" "R6 (upd A s) = R6 s"
begin

lemma l2_loop_lines:
  "unat (R5 s) = 64 * i \<Longrightarrow> unat (R6 s) = 64 * k \<Longrightarrow> i + k < 2 ^ 26 \<Longrightarrow>
     l2_loop instr s = Some ((upd {x. i \<le> unat x div 64 \<and> unat x div 64 \<le> i + k} s)\<lparr>R6 := - 64\<rparr>)"
proof (induction k arbitrary: s)
  case 0
  then have "R6 s = 0" by (simp add: unat_eq_0)
  moreover have "{x. drop_bit 6 x = drop_bit 6 (R5 s)} = {x. i \<le> unat x div 64 \<and> unat x div 64 \<le> i}"
    using 0(1) by (auto simp: drop_bit_line)
  ultimately show ?case by (subst l2_loop.simps) (simp add: instr_line upd_regs)
next
  case (Suc k)
  let ?A = "{x. drop_bit 6 x = drop_bit 6 (R5 s + R6 s)}"
  have "unat (R5 s + R6 s) = 64 * (i + Suc k)" using Suc.prems by (simp add: unat_word_ariths)
  then have A: "?A = {x. unat x div 64 = i + Suc k}" by (auto simp: drop_bit_line)
  have ne: "R6 s \<noteq> 0" using Suc.prems(2) by auto
  let ?s = "(upd ?A s)\<lparr>R6 := R6 s - 64\<rparr>"
  have "unat (R5 ?s) = 64 * i" "unat (R6 ?s) = 64 * k" using Suc.prems by (simp_all add: upd_regs unat_sub_if')
  from Suc.IH [OF this] Suc.prems(3) have
    "l2_loop instr ?s = Some ((upd {x. i \<le> unat x div 64 \<and> unat x div 64 \<le> i + k} ?s)\<lparr>R6 := - 64\<rparr>)" by simp
  moreover have "{x. i \<le> unat x div 64 \<and> unat x div 64 \<le> i + k} \<union> ?A = {x. i \<le> unat x div 64 \<and> unat x div 64 \<le> i + Suc k}"
    unfolding A by auto
  moreover have "l2_loop instr s = l2_loop instr ?s" using ne by (subst l2_loop.simps) (simp add: instr_line upd_regs)
  ultimately show ?case by (simp add: upd_R6 upd_upd)
qed

lemma l2_range:
  assumes "n \<noteq> 0" "unat p + unat n \<le> 2 ^ 32" and "e = p + n - 1"
  shows "l2_loop instr (s\<lparr>R5 := p AND - 64, R6 := (e AND - 64) - (p AND - 64)\<rparr>) =
    Some ((upd {a. touched 6 p n a} s)\<lparr>R5 := p AND - 64, R6 := - 64\<rparr>)"
proof -
  let ?i = "unat p div 64" and ?j = "(unat p + unat n - 1) div 64"
  have n: "0 < unat n" using assms(1) by (simp add: unat_gt_0)
  have e: "unat e = unat p + unat n - 1" using range_end [OF assms(1,2)] assms(3) by simp
  have l: "unat (p AND - 64) = 64 * ?i" "unat (e AND - 64) = 64 * ?j" using unat_line [of 6 p] unat_line [of 6 e] e by simp_all
  have ij: "?i \<le> ?j" using n by (intro div_le_mono) simp
  let ?s = "s\<lparr>R5 := p AND - 64, R6 := (e AND - 64) - (p AND - 64)\<rparr>"
  have "unat (R5 ?s) = 64 * ?i" "unat (R6 ?s) = 64 * (?j - ?i)" using l ij by (simp_all add: unat_sub_if' diff_mult_distrib2)
  moreover have "?i + (?j - ?i) < 2 ^ 26" using ij assms(2) n by (simp add: less_mult_imp_div_less)
  ultimately have "l2_loop instr ?s = Some ((upd {x. ?i \<le> unat x div 64 \<and> unat x div 64 \<le> ?i + (?j - ?i)} ?s)\<lparr>R6 := - 64\<rparr>)"
    by (rule l2_loop_lines)
  moreover have "{x. ?i \<le> unat x div 64 \<and> unat x div 64 \<le> ?i + (?j - ?i)} = {a. touched 6 p n a}"
    using ij by (simp add: touched_def)
  ultimately show ?thesis by (simp add: upd_R6 upd_R5)
qed

end

definition clear_lines :: "u32 set \<Rightarrow> mb \<Rightarrow> mb" where
  "clear_lines A s = s\<lparr>l2 := \<lambda>x. if x \<in> A then None else l2 s x\<rparr>"

definition flush_lines :: "u32 set \<Rightarrow> mb \<Rightarrow> mb" where
  "flush_lines A s = s\<lparr>dram := \<lambda>x. if x \<in> A then below s x else dram s x, l2 := \<lambda>x. if x \<in> A then None else l2 s x\<rparr>"

interpretation inval: line_op wdc_ext_clear clear_lines
  by unfold_locales (auto simp: wdc_ext_clear_def clear_lines_def fun_eq_iff intro!: mb.equality)

interpretation flush: line_op wdc_ext_flush flush_lines
  by unfold_locales (auto simp: wdc_ext_flush_def flush_lines_def below_def fun_eq_iff intro!: mb.equality split: option.splits)

lemma l2_invalidate_range:
  assumes "n \<noteq> 0" "unat p + unat n \<le> 2 ^ 32"
  obtains s' where "mb_l2_cache_invalidate_range (s\<lparr>R5 := p, R6 := n\<rparr>) = Some s'" "l1 s' = l1 s" "dram s' = dram s"
    "\<And>x. l2 s' x = (if touched 6 p n x then None else l2 s x)"
proof
  show "mb_l2_cache_invalidate_range (s\<lparr>R5 := p, R6 := n\<rparr>) = Some ((clear_lines {a. touched 6 p n a} s)\<lparr>R5 := p AND - 64, R6 := - 64\<rparr>)"
    using inval.l2_range [of n p _ s, OF assms refl] assms(1) by (simp add: mb_l2_cache_invalidate_range_def)
qed (simp_all add: clear_lines_def)

lemma l2_flush_range:
  assumes "n \<noteq> 0" "unat p + unat n \<le> 2 ^ 32"
  obtains s' where "mb_l2_cache_flush_range (s\<lparr>R5 := p, R6 := n\<rparr>) = Some s'" "l1 s' = l1 s"
    "\<And>x. dram s' x = (if touched 6 p n x then below s x else dram s x)"
    "\<And>x. l2 s' x = (if touched 6 p n x then None else l2 s x)"
proof
  show "mb_l2_cache_flush_range (s\<lparr>R5 := p, R6 := n\<rparr>) = Some ((flush_lines {a. touched 6 p n a} s)\<lparr>R5 := p AND - 64, R6 := - 64\<rparr>)"
    using flush.l2_range [of n p _ s, OF assms refl] assms(1) by (simp add: mb_l2_cache_flush_range_def algebra_simps)
qed (simp_all add: flush_lines_def)

section \<open>The first level\<close>

lemma cmpu_top: "bit (cmpu a b) 31 \<longleftrightarrow> b < a"
  by (simp add: cmpu_def bit_set_bit_iff bit_unset_bit_iff)

lemma wdc_regs [simp]: "R5 (wdc a s) = R5 s" "R6 (wdc a s) = R6 s"
  by (simp_all add: wdc_def)

lemma l1_inv_loop_lines:
  "unat (R5 s) = 16 * i \<Longrightarrow> unat (R6 s) = 16 * j \<Longrightarrow> i \<le> j + 1 \<Longrightarrow> j + 1 < 2 ^ 28 \<Longrightarrow>
     \<exists>s'. l1_inv_loop s = Some s' \<and> l2 s' = l2 s \<and> dram s' = dram s
       \<and> (\<forall>x. l1 s' x = (if i \<le> unat x div 16 \<and> unat x div 16 \<le> j then None else l1 s x))"
proof (induction "j + 1 - i" arbitrary: s i)
  case 0
  then have i: "i = j + 1" by simp
  then have "R6 s < R5 s" using 0 by (simp add: word_less_nat_alt)
  then show ?case using i by (subst l1_inv_loop.simps) (auto simp: cmpu_top)
next
  case (Suc d)
  then have i: "i \<le> j" by simp
  then have ge: "\<not> R6 s < R5 s" using Suc.prems by (simp add: word_less_nat_alt)
  define s' where "s' = (wdc (R5 s) (s\<lparr>R18 := cmpu (R5 s) (R6 s)\<rparr>))\<lparr>R5 := R5 s + 16\<rparr>"
  have f: "l2 s' = l2 s" "dram s' = dram s" by (simp_all add: s'_def wdc_def)
  have l1: "l1 s' x = (if unat x div 16 = i then None else l1 s x)" for x using Suc.prems(1) by (simp add: s'_def wdc_def drop_bit_line)
  have "unat (R5 s') = 16 * Suc i" "unat (R6 s') = 16 * j" using Suc.prems i by (simp_all add: s'_def wdc_def unat_word_ariths)
  moreover have "d = j + 1 - Suc i" "Suc i \<le> j + 1" using Suc.hyps(2) i by simp_all
  ultimately obtain t where
    "l1_inv_loop s' = Some t" "l2 t = l2 s'" "dram t = dram s'"
    "\<And>x. l1 t x = (if Suc i \<le> unat x div 16 \<and> unat x div 16 \<le> j then None else l1 s' x)"
    using Suc.hyps(1) Suc.prems(4) by blast
  moreover have "l1_inv_loop s = l1_inv_loop s'" using ge by (subst l1_inv_loop.simps) (simp add: cmpu_top s'_def Let_def)
  ultimately show ?case using f l1 i by (intro exI [of _ t]) auto
qed

lemma l1_invalidate_range:
  assumes "n \<noteq> 0" "unat p + unat n \<le> 2 ^ 32 - 16"
  obtains s' where "mb_l1_cache_invalidate_range (s\<lparr>R5 := p, R6 := n\<rparr>) = Some s'" "l2 s' = l2 s" "dram s' = dram s"
    "\<And>x. l1 s' x = (if touched 4 p n x then None else l1 s x)"
proof -
  let ?i = "unat p div 16" and ?e = "p + n - 1" and ?j = "(unat p + unat n - 1) div 16"
  have e: "unat ?e = unat p + unat n - 1" using assms by (intro range_end) simp_all
  let ?s = "s\<lparr>R6 := ?e AND - 16, R5 := p AND - 16\<rparr>"
  have "unat (R5 ?s) = 16 * ?i" "unat (R6 ?s) = 16 * ?j" using unat_line [of 4 p] unat_line [of 4 ?e] e by simp_all
  moreover have "?i \<le> ?j" using assms(1) by (intro div_le_mono) (use unat_gt_0 [of n] in linarith)
  then have "?i \<le> ?j + 1" by simp
  moreover have "?j + 1 < 2 ^ 28" using assms by simp
  ultimately obtain t where "l1_inv_loop ?s = Some t" "l2 t = l2 ?s" "dram t = dram ?s"
    "\<forall>x. l1 t x = (if ?i \<le> unat x div 16 \<and> unat x div 16 \<le> ?j then None else l1 ?s x)"
    using l1_inv_loop_lines by blast
  then show thesis using assms(1)
    by (intro that [of t]) (simp_all add: mb_l1_cache_invalidate_range_def touched_def)
qed

text \<open>A range that reaches into the last line of the address space is never left: the address wraps to 0 before it
  exceeds the end.\<close>

lemma l1_inv_loop_top:
  assumes "l1_inv_loop s = Some s'"
  shows "unat (R5 s) mod 16 = 0 \<longrightarrow> R6 s \<noteq> - 16"
proof (rule l1_inv_loop.raw_induct [where P = "\<lambda>s s'. unat (R5 s) mod 16 = 0 \<longrightarrow> R6 s \<noteq> - 16", OF _ assms], intro impI notI)
  fix loop :: "mb \<Rightarrow> mb option" and s s' :: mb
  assume IH: "\<And>s s'. loop s = Some s' \<Longrightarrow> unat (R5 s) mod 16 = 0 \<longrightarrow> R6 s \<noteq> - 16"
    and eq: "(let s = s\<lparr>R18 := cmpu (R5 s) (R6 s)\<rparr> in if bit (R18 s) 31 then Some s
      else let s = wdc (R5 s) s; s = s\<lparr>R5 := R5 s + 16\<rparr> in loop s) = Some s'"
    and t: "unat (R5 s) mod 16 = 0" and top: "R6 s = - 16"
  have "unat (R5 s) \<le> 2 ^ 32 - 16" using unsigned_less [of "R5 s", where 'a = nat] t by (simp, presburger)
  then have le: "\<not> R6 s < R5 s" unfolding top by (simp add: word_less_nat_alt)
  let ?s = "(wdc (R5 s) (s\<lparr>R18 := cmpu (R5 s) (R6 s)\<rparr>))\<lparr>R5 := R5 s + 16\<rparr>"
  have run: "loop ?s = Some s'" using eq le by (simp add: cmpu_top Let_def)
  have "unat (R5 s + 16) mod 16 = (unat (R5 s) + 16) mod 2 ^ 32 mod 16" by (simp add: unat_word_ariths)
  also have "\<dots> = (unat (R5 s) + 16) mod 16" by (rule mod_mod_cancel) simp
  finally have "unat (R5 ?s) mod 16 = 0" using t by simp
  with IH [OF run] top show False by (simp add: wdc_def)
qed

lemma top_line: "4294967280 < N \<Longrightarrow> N \<le> 4294967296 \<Longrightarrow> (N - Suc 0) div 16 = (268435455 :: nat)"
  by linarith

section \<open>Properties\<close>

text \<open>
  C17: a flush of \<open>xcache.c\<close>, down to the cache instructions, returns; afterwards memory holds every byte of the
  range as the processor sees it, so that a device reads what was written, the processor sees the same as before
  everywhere, and lines the range does not touch are left as they are. A range that reaches
  into the last sixteen bytes of the address space makes the call never return.
\<close>

theorem cache_flush_publishes:
  assumes "written_through s" "n \<noteq> 0"
  shows "(unat p + unat n \<le> 2 ^ 32 - 16 \<longrightarrow> (\<exists>s'. cache_flush p n s = Some s'
      \<and> (\<forall>a. unat p \<le> unat a \<and> unat a < unat p + unat n \<longrightarrow> dram s' a = cpu_sees s a)
      \<and> (\<forall>a. cpu_sees s' a = cpu_sees s a)
      \<and> (\<forall>a. \<not> touched 6 p n a \<longrightarrow> dram s' a = dram s a \<and> l2 s' a = l2 s a)
      \<and> written_through s'))
    \<and> (2 ^ 32 - 16 < unat p + unat n \<and> unat p + unat n \<le> 2 ^ 32 \<longrightarrow> cache_flush p n s = None)"
proof (intro conjI impI)
  assume b: "unat p + unat n \<le> 2 ^ 32 - 16"
  have b': "unat p + unat n \<le> 2 ^ 32" using b by simp
  obtain s1 where s1: "mb_l2_cache_flush_range (s\<lparr>R5 := p, R6 := n\<rparr>) = Some s1" "l1 s1 = l1 s"
    "\<And>x. dram s1 x = (if touched 6 p n x then below s x else dram s x)" "\<And>x. l2 s1 x = (if touched 6 p n x then None else l2 s x)"
    using l2_flush_range [OF assms(2) b', of s] by blast
  obtain s' where s': "mb_l1_cache_invalidate_range (s1\<lparr>R5 := p, R6 := n\<rparr>) = Some s'" "l2 s' = l2 s1" "dram s' = dram s1"
    "\<And>x. l1 s' x = (if touched 4 p n x then None else l1 s1 x)"
    using l1_invalidate_range [OF assms(2) b, of s1] by blast
  have see: "cpu_sees s a = below s a" for a
    using assms(1) by (auto simp: cpu_sees_def written_through_def split: option.splits)
  have below: "below s' a = below s a" for a by (simp add: below_def s1(3,4) s'(2,3) split: option.splits)
  have wt: "written_through s'" using assms(1) by (simp add: written_through_def below s'(4) s1(2))
  have see': "cpu_sees s' a = cpu_sees s a" for a
    using below [of a] see [of a] wt by (auto simp: cpu_sees_def written_through_def split: option.splits)
  have pub: "dram s' a = cpu_sees s a" if "unat p \<le> unat a" "unat a < unat p + unat n" for a
    using touched_range [OF that, of 6] by (simp add: s'(3) s1(3) see)
  have out: "dram s' a = dram s a \<and> l2 s' a = l2 s a" if "\<not> touched 6 p n a" for a
    using that by (simp add: s'(2,3) s1(3,4))
  have "cache_flush p n s = Some s'" by (simp add: cache_flush_def s1(1) s'(1))
  then show "\<exists>s'. cache_flush p n s = Some s'
      \<and> (\<forall>a. unat p \<le> unat a \<and> unat a < unat p + unat n \<longrightarrow> dram s' a = cpu_sees s a)
      \<and> (\<forall>a. cpu_sees s' a = cpu_sees s a)
      \<and> (\<forall>a. \<not> touched 6 p n a \<longrightarrow> dram s' a = dram s a \<and> l2 s' a = l2 s a)
      \<and> written_through s'"
    using see' pub out wt by blast
next
  assume b: "2 ^ 32 - 16 < unat p + unat n \<and> unat p + unat n \<le> 2 ^ 32"
  obtain t where t: "mb_l2_cache_flush_range (s\<lparr>R5 := p, R6 := n\<rparr>) = Some t"
    using l2_flush_range [OF assms(2) conjunct2 [OF b], of s] by blast
  have e: "unat (p + n - 1) = unat p + unat n - 1" using range_end [OF assms(2)] b by blast
  have "unat ((p + n - 1) AND - 16) = 16 * ((unat p + unat n - 1) div 16)" using unat_line [of 4 "p + n - 1"] e by simp
  also have "(unat p + unat n - 1) div 16 = 2 ^ 28 - 1" using top_line [of "unat p + unat n"] b by simp
  finally have top: "(p + n - 1) AND - 16 = - 16" by (simp add: word_unat_eq_iff)
  have "unat (p AND - 16) mod 16 = 0" using unat_line [of 4 p] by simp
  then have "l1_inv_loop (t\<lparr>R6 := - 16, R5 := p AND - 16\<rparr>) = None"
    using l1_inv_loop_top [of "t\<lparr>R6 := - 16, R5 := p AND - 16\<rparr>"] by (cases "l1_inv_loop (t\<lparr>R6 := - 16, R5 := p AND - 16\<rparr>)") auto
  then show "cache_flush p n s = None"
    using t assms(2) top by (simp add: cache_flush_def mb_l1_cache_invalidate_range_def)
qed

text \<open>
  C18: an invalidation returns and afterwards the processor sees, for every byte of the range, what is in memory, which the call
  has not changed; it sees the same as before in the lines the range does not touch.
\<close>

theorem cache_invalidate_fetches:
  assumes "n \<noteq> 0" "unat p + unat n \<le> 2 ^ 32 - 16"
  shows "\<exists>s'. cache_invalidate p n s = Some s' \<and> dram s' = dram s
    \<and> (\<forall>a. unat p \<le> unat a \<and> unat a < unat p + unat n \<longrightarrow> cpu_sees s' a = dram s a)
    \<and> (\<forall>a. \<not> touched 6 p n a \<longrightarrow> cpu_sees s' a = cpu_sees s a)"
proof -
  have b: "unat p + unat n \<le> 2 ^ 32" using assms(2) by simp
  obtain s1 where s1: "mb_l2_cache_invalidate_range (s\<lparr>R5 := p, R6 := n\<rparr>) = Some s1" "l1 s1 = l1 s" "dram s1 = dram s"
    "\<And>x. l2 s1 x = (if touched 6 p n x then None else l2 s x)"
    using l2_invalidate_range [OF assms(1) b, of s] by blast
  obtain s' where s': "mb_l1_cache_invalidate_range (s1\<lparr>R5 := p, R6 := n\<rparr>) = Some s'" "l2 s' = l2 s1" "dram s' = dram s1"
    "\<And>x. l1 s' x = (if touched 4 p n x then None else l1 s1 x)"
    using l1_invalidate_range [OF assms, of s1] by blast
  have "touched 6 p n a" if "touched 4 p n a" for a
  proof -
    have d: "m div 64 = m div 16 div 4" for m :: nat by (simp add: div_mult2_eq [symmetric])
    show ?thesis using that by (auto simp: touched_def d intro: div_le_mono)
  qed
  then have "l1 s' a = l1 s a" "below s' a = below s a" if "\<not> touched 6 p n a" for a
    using that by (auto simp: below_def s' s1 split: option.splits)
  then have "cpu_sees s' a = cpu_sees s a" if "\<not> touched 6 p n a" for a
    using that by (simp add: cpu_sees_def split: option.split)
  moreover have "cpu_sees s' a = dram s a" if "unat p \<le> unat a" "unat a < unat p + unat n" for a
    using touched_range [OF that, of 4] touched_range [OF that, of 6] by (simp add: cpu_sees_def below_def s' s1)
  ultimately show ?thesis using s1 s' by (intro exI [of _ s'] conjI) (simp_all add: cache_invalidate_def)
qed

definition mb_boot :: mb where
  "mb_boot = \<lparr>R5 = 0, R6 = 0, R8 = 0, R18 = 0, RMSR = 0, l1 = (\<lambda>_. None), l2 = (\<lambda>a. if a < 0x2000 then Some 7 else None),
     dram = (\<lambda>_. 9)\<rparr>"

theorem cache_flush_publishes_witness:
  "\<exists>s'. cache_flush 0x1030 0x20 mb_boot = Some s' \<and> dram s' 0x1030 = 7 \<and> dram s' 0x104F = 7 \<and> dram s' 0x1080 = 9"
proof -
  have wf: "written_through mb_boot" by (simp add: written_through_def mb_boot_def)
  obtain s' where s': "cache_flush 0x1030 0x20 mb_boot = Some s'"
    "\<forall>a. unat (0x1030 :: u32) \<le> unat a \<and> unat a < unat (0x1030 :: u32) + unat (0x20 :: u32) \<longrightarrow> dram s' a = cpu_sees mb_boot a"
    "\<forall>a. \<not> touched 6 0x1030 0x20 a \<longrightarrow> dram s' a = dram mb_boot a \<and> l2 s' a = l2 mb_boot a"
    using cache_flush_publishes [OF wf, of "0x20" "0x1030"] by auto
  have "cpu_sees mb_boot 0x1030 = 7" "cpu_sees mb_boot 0x104F = 7" "dram mb_boot 0x1080 = 9"
    by (simp_all add: cpu_sees_def below_def mb_boot_def word_less_nat_alt)
  moreover have "\<not> touched 6 0x1030 0x20 0x1080" by (simp add: touched_def)
  ultimately show ?thesis using s' by auto
qed

theorem cache_invalidate_fetches_witness:
  "\<exists>s'. cache_invalidate 0x1030 0x20 mb_boot = Some s' \<and> cpu_sees s' 0x1030 = 9 \<and> cpu_sees s' 0x1080 = 7"
proof -
  obtain s' where s': "cache_invalidate 0x1030 0x20 mb_boot = Some s'"
    "\<forall>a. unat (0x1030 :: u32) \<le> unat a \<and> unat a < unat (0x1030 :: u32) + unat (0x20 :: u32) \<longrightarrow> cpu_sees s' a = dram mb_boot a"
    "\<forall>a. \<not> touched 6 0x1030 0x20 a \<longrightarrow> cpu_sees s' a = cpu_sees mb_boot a"
    using cache_invalidate_fetches [of "0x20" "0x1030" mb_boot] by auto
  have "cpu_sees mb_boot 0x1080 = 7" "dram mb_boot 0x1030 = 9"
    by (simp_all add: cpu_sees_def below_def mb_boot_def word_less_nat_alt)
  moreover have "\<not> touched 6 0x1030 0x20 0x1080" by (simp add: touched_def)
  ultimately show ?thesis using s' by auto
qed

end
