(* ===== verification/Std.thy ===== *)
theory Std
  imports Prelude
begin

text \<open>
  The number parsers of the freestanding x86-64 build (\<open>arch/x86_64/std.c\<close>). A C string is
  given as its bytes before the terminating NUL, a pointer into it as the bytes that remain,
  and a null pointer as \<open>None\<close>.
\<close>

section \<open>strtoul\<close>

text \<open>The digit of a character, by the three comparisons of the loop.\<close>

definition hex_digit :: "u8 \<Rightarrow> nat option" where
  "hex_digit c =
     (if 0x30 \<le> c \<and> c \<le> 0x39 then Some (unat c - 0x30)
      else if 0x61 \<le> c \<and> c \<le> 0x66 then Some (unat c - 0x61 + 10)
      else if 0x41 \<le> c \<and> c \<le> 0x46 then Some (unat c - 0x41 + 10)
      else None)"

fun strtoul_loop :: "u8 list \<Rightarrow> u64 \<Rightarrow> u64 \<times> u8 list" where
  "strtoul_loop [] d = (d, [])"
| "strtoul_loop (c # s) d =
     (case hex_digit c of
        None \<Rightarrow> (d, c # s)
      | Some digit \<Rightarrow> strtoul_loop s (push_bit 4 d + of_nat digit))"

definition skip_prefix :: "u8 list \<Rightarrow> u8 list" where
  "skip_prefix s =
     (case s of
        c # s' \<Rightarrow>
          if c = 0x30 then
            (case s' of x # s'' \<Rightarrow> if x = 0x78 \<or> x = 0x58 then s'' else s' | [] \<Rightarrow> s')
          else s
      | [] \<Rightarrow> s)"

text \<open>The value, and what is stored through \<open>__endptr\<close> (nothing when that is null).\<close>

definition strtoul :: "u8 list option \<Rightarrow> bool \<Rightarrow> int \<Rightarrow> u64 \<times> u8 list option option" where
  "strtoul nptr has_end base =
     (case nptr of
        None \<Rightarrow> (0, if has_end then Some None else None)
      | Some s \<Rightarrow>
          if base \<noteq> 16 then (0, if has_end then Some (Some s) else None)
          else
            let (d, s) = strtoul_loop (skip_prefix s) 0
            in (d, if has_end then Some (Some s) else None))"

section \<open>atol\<close>

text \<open>
  The accumulator is a \<open>long int\<close> of 64 bits; a signed overflow is undefined in C, and the
  model has no value for it.
\<close>

definition in_long :: "int \<Rightarrow> bool" where
  "in_long d \<longleftrightarrow> - (2 ^ 63) \<le> d \<and> d < 2 ^ 63"

fun atol_loop :: "u8 list \<Rightarrow> int \<Rightarrow> int option" where
  "atol_loop [] d = Some d"
| "atol_loop (c # s) d =
     (if c < 0x30 \<or> c > 0x39 then Some d
      else if \<not> in_long (d * 10) then None
      else let d = d * 10 + (uint c - 0x30) in if \<not> in_long d then None else atol_loop s d)"

definition is_blank :: "u8 \<Rightarrow> bool" where
  "is_blank c \<longleftrightarrow> c = 0x20 \<or> c = 0x09 \<or> c = 0x0A"

definition atol :: "u8 list option \<Rightarrow> int option" where
  "atol nptr =
     (case nptr of
        None \<Rightarrow> Some 0
      | Some s \<Rightarrow>
          let s = dropWhile is_blank s;
              (is_neg, s) =
                (case s of
                   c # s' \<Rightarrow> if c = 0x2B \<or> c = 0x2D then (c = 0x2D, s') else (False, s)
                 | [] \<Rightarrow> (False, s))
          in map_option (\<lambda>d. if is_neg then - d else d) (atol_loop s 0))"

section \<open>Printed numbers\<close>

text \<open>A number as the digits a caller would type, most significant first.\<close>

definition digit_chr :: "nat \<Rightarrow> u8" where
  "digit_chr d = (if d < 10 then 0x30 + of_nat d else 0x61 + of_nat (d - 10))"

fun digits :: "nat \<Rightarrow> nat \<Rightarrow> u8 list" where
  "digits b n = (if b < 2 \<or> n < b then [digit_chr n] else digits b (n div b) @ [digit_chr (n mod b)])"

declare digits.simps [simp del]

definition starts_hex :: "u8 list \<Rightarrow> bool" where
  "starts_hex s \<longleftrightarrow> (case s of [] \<Rightarrow> False | c # _ \<Rightarrow> hex_digit c \<noteq> None)"

definition starts_dec :: "u8 list \<Rightarrow> bool" where
  "starts_dec s \<longleftrightarrow> (case s of [] \<Rightarrow> False | c # _ \<Rightarrow> 0x30 \<le> c \<and> c \<le> 0x39)"

section \<open>The loops on printed numbers\<close>

lemma hex_digit_chr: "d < 16 \<Longrightarrow> hex_digit (digit_chr d) = Some d"
proof -
  have "list_all (\<lambda>d. hex_digit (digit_chr d) = Some d) [0..<16]" by code_simp
  then show "d < 16 \<Longrightarrow> hex_digit (digit_chr d) = Some d" by (simp add: list_all_iff)
qed

lemma dec_digit_chr:
  "d < 10 \<Longrightarrow> uint (digit_chr d) = 0x30 + int d \<and> 0x30 \<le> digit_chr d \<and> digit_chr d \<le> 0x39"
proof -
  have "list_all (\<lambda>d. uint (digit_chr d) = 0x30 + int d \<and> 0x30 \<le> digit_chr d \<and> digit_chr d \<le> 0x39) [0..<10]"
    by code_simp
  then show "d < 10 \<Longrightarrow> uint (digit_chr d) = 0x30 + int d \<and> 0x30 \<le> digit_chr d \<and> digit_chr d \<le> 0x39"
    by (simp add: list_all_iff)
qed

lemma digits_small: "n < b \<Longrightarrow> digits b n = [digit_chr n]"
  by (simp add: digits.simps)

lemma digits_big: "2 \<le> b \<Longrightarrow> b \<le> n \<Longrightarrow> digits b n = digits b (n div b) @ [digit_chr (n mod b)]"
  by (subst digits.simps) simp

lemma strtoul_loop_digits:
  "strtoul_loop (digits 16 n @ r) d =
     strtoul_loop r (d * 16 ^ length (digits 16 n) + of_nat n)"
proof (induction n arbitrary: r rule: less_induct)
  case (less n)
  show ?case
  proof (cases "n < 16")
    case True
    then show ?thesis by (simp add: digits_small hex_digit_chr push_bit_eq_mult algebra_simps)
  next
    case False
    then have "n div 16 < n" by simp
    from less.IH [OF this, of "digit_chr (n mod 16) # r"] False show ?thesis
      by (simp add: digits_big hex_digit_chr push_bit_eq_mult algebra_simps flip: of_nat_mult of_nat_add)
        (metis (no_types, lifting) add.assoc mod_mult_div_eq mult.commute of_nat_add of_nat_mult of_nat_numeral)
  qed
qed

lemma strtoul_loop_stop: "\<not> starts_hex r \<Longrightarrow> strtoul_loop r d = (d, r)"
  by (cases r) (auto simp: starts_hex_def)

lemma digits_hd:
  assumes "2 \<le> b" "b \<le> 16"
  shows "\<exists>c cs. digits b n = c # cs \<and> c \<noteq> 0x78 \<and> c \<noteq> 0x58 \<and> (0 < n \<longrightarrow> c \<noteq> 0x30)"
proof (induction n rule: less_induct)
  case (less n)
  show ?case
  proof (cases "n < b")
    case True
    have "list_all (\<lambda>d. digit_chr d \<noteq> 0x78 \<and> digit_chr d \<noteq> 0x58 \<and> (0 < d \<longrightarrow> digit_chr d \<noteq> 0x30)) [0..<16]"
      by code_simp
    with True assms show ?thesis by (simp add: digits_small list_all_iff)
  next
    case False
    then have "n div b < n" "0 < n div b" using assms by (auto simp: div_greater_zero_iff)
    with less.IH [of "n div b"] False assms show ?thesis by (auto simp: digits_big)
  qed
qed

lemma digits_dec_hd: "\<exists>c cs. digits 10 n = c # cs \<and> 0x30 \<le> c \<and> c \<le> 0x39"
proof (induction n rule: less_induct)
  case (less n)
  show ?case
  proof (cases "n < 10")
    case True
    with dec_digit_chr [OF this] show ?thesis by (simp add: digits_small)
  next
    case False
    with less.IH [of "n div 10"] show ?thesis by (auto simp: digits_big)
  qed
qed

text \<open>The prefixes a number may have.\<close>

definition hex_prefixes :: "u8 list set" where
  "hex_prefixes = {[], [0x30], [0x30, 0x78], [0x30, 0x58]}"

lemma skip_prefix_digits:
  assumes "p \<in> hex_prefixes" "r = [] \<or> hd r \<noteq> 0x78 \<and> hd r \<noteq> 0x58"
  shows "skip_prefix (p @ digits 16 n @ r) = digits 16 n @ r
    \<or> n = 0 \<and> skip_prefix (p @ digits 16 n @ r) = r"
proof -
  obtain c cs where c: "digits 16 n = c # cs" "c \<noteq> 0x78" "c \<noteq> 0x58" "0 < n \<longrightarrow> c \<noteq> 0x30"
    using digits_hd [of 16 n] by auto
  show ?thesis
  proof (cases "n = 0")
    case True
    then have "digits 16 n = [0x30]" by (simp add: digits_small digit_chr_def)
    with assms True show ?thesis
      by (cases r) (auto simp: hex_prefixes_def skip_prefix_def)
  next
    case False
    with c assms show ?thesis by (auto simp: hex_prefixes_def skip_prefix_def)
  qed
qed

lemma atol_loop_digits:
  assumes "0 \<le> d" "d * 10 ^ length (digits 10 n) + int n < 2 ^ 63"
  shows "atol_loop (digits 10 n @ r) d =
     atol_loop r (d * 10 ^ length (digits 10 n) + int n)"
  using assms
proof (induction n arbitrary: r rule: less_induct)
  case (less n)
  have step: "atol_loop (digit_chr k # r) e = atol_loop r (e * 10 + int k)"
    if "k < 10" "0 \<le> e" "e * 10 + int k < 2 ^ 63" for k e
    using that dec_digit_chr [OF that(1)]
    by (auto simp: in_long_def Let_def not_less not_le)
  show ?case
  proof (cases "n < 10")
    case True
    with less.prems step [of n d] show ?thesis by (simp add: digits_small)
  next
    case False
    define e where "e = d * 10 ^ length (digits 10 (n div 10)) + int (n div 10)"
    have e: "d * 10 ^ length (digits 10 n) + int n = e * 10 + int (n mod 10)"
      using False by (simp add: e_def digits_big algebra_simps) presburger
    from less.prems(1) have "0 \<le> e" by (simp add: e_def)
    from less.prems(2) e have "e * 10 + int (n mod 10) < 2 ^ 63" by simp
    moreover from this \<open>0 \<le> e\<close> have "e < 2 ^ 63" by simp
    ultimately have "atol_loop (digits 10 (n div 10) @ digit_chr (n mod 10) # r) d =
        atol_loop r (e * 10 + int (n mod 10))"
      using less.IH [of "n div 10" "digit_chr (n mod 10) # r"] less.prems(1) False \<open>0 \<le> e\<close>
        step [of "n mod 10" e] by (simp add: e_def)
    with e False show ?thesis by (simp only: digits_big) simp
  qed
qed


section \<open>Properties\<close>

text \<open>
  C38: a 64-bit number written in hexadecimal digits, with one of the prefixes \<open>0\<close>, \<open>0x\<close>,
  \<open>0X\<close> or none, is read back exactly, and the end pointer is left on the first character
  behind the digits.
\<close>

theorem strtoul_reads_hex:
  assumes "p \<in> hex_prefixes" "\<not> starts_hex r" "r = [] \<or> hd r \<noteq> 0x78 \<and> hd r \<noteq> 0x58"
  shows "strtoul (Some (p @ digits 16 (unat w) @ r)) True 16 = (w, Some (Some r))"
  using skip_prefix_digits [OF assms(1,3), of "unat w"] strtoul_loop_digits [of "unat w" r 0]
    strtoul_loop_stop [OF assms(2)]
  by (auto simp: strtoul_def unat_eq_zero)

theorem strtoul_reads_hex_witness:
  "strtoul (Some [0x30, 0x78, 0x34, 0x31, 0x63, 0x2C]) True 16 = (0x41c, Some (Some [0x2C]))"
proof -
  have "digits 16 (unat (0x41c :: u64)) = [0x34, 0x31, 0x63]"
    by (simp add: digits_big digits_small digit_chr_def)
  with strtoul_reads_hex [of "[0x30, 0x78]" "[0x2C]" "0x41c"] show ?thesis
    by (simp add: hex_prefixes_def starts_hex_def hex_digit_def)
qed

text \<open>A signed decimal number below \<open>2 ^ 63\<close> in magnitude is read back by \<open>atol\<close>, behind any
  blanks and with or without a plus sign.\<close>

theorem atol_reads_decimal:
  assumes "\<bar>n\<bar> < 2 ^ 63" "list_all is_blank b" "\<not> starts_dec r"
    and "sign = (if n < 0 then [0x2D] else []) \<or> 0 \<le> n \<and> sign = [0x2B]"
  shows "atol (Some (b @ sign @ digits 10 (nat \<bar>n\<bar>) @ r)) = Some n"
proof -
  obtain c cs where c: "digits 10 (nat \<bar>n\<bar>) = c # cs" "0x30 \<le> c" "c \<le> 0x39"
    using digits_dec_hd by blast
  have blanks: "dropWhile is_blank (b @ s) = dropWhile is_blank s" for s
    using assms(2) by (simp add: list_all_iff)
  have "atol_loop r (int (nat \<bar>n\<bar>)) = Some \<bar>n\<bar>"
    using assms(3) by (cases r) (auto simp: starts_dec_def)
  then have loop: "atol_loop (c # cs @ r) 0 = Some \<bar>n\<bar>"
    using atol_loop_digits [of 0 "nat \<bar>n\<bar>" r] assms(1) c(1) by simp
  show ?thesis
    using assms(4) c loop
    by (auto simp: atol_def blanks is_blank_def Let_def simp del: atol_loop.simps)
qed

end
