(* ===== verification/X86_Prompt.thy ===== *)
theory X86_Prompt
  imports Fat
begin

text \<open>
  The shell prompt and the entry point of the PC build (\<open>arch/x86_64/prompt.c\<close>, \<open>entry.c\<close>); the prompt is the current directory of the
  current drive, copied into the buffer of the shell. The drive letter, \<open>_kernel_cdrive\<close>, comes
  from the kernel and is an argument.
\<close>

section \<open>Definitions\<close>

text \<open>The text put together in the array on the stack. The first character of the empty string is
  its terminator.\<close>

definition prompt_text :: "'v ff \<Rightarrow> char \<Rightarrow> 'v fat \<Rightarrow> string \<times> 'v fat" where
  "prompt_text ff cdrive s =
     (if cdrive \<noteq> CHR 0x00 then
        let (s_prompt, s) = fat_getcwd ff s;
            first = (case s_prompt of [] \<Rightarrow> CHR 0x00 | c # _ \<Rightarrow> c)
        in (if first = cdrive then s_prompt @ ''>'' else s_prompt, s)
      else (''> '', s))"

text \<open>\<open>strcpy\<close> stores the characters and the terminator over the start of the buffer; a result longer
  than the buffer has been stored past its end.\<close>

definition strcpy :: "string \<Rightarrow> string \<Rightarrow> string" where
  "strcpy buf str = (str @ [CHR 0x00]) @ drop (length str + 1) buf"

definition shell_prompt :: "'v ff \<Rightarrow> char \<Rightarrow> string option \<Rightarrow> nat \<Rightarrow> 'v fat \<Rightarrow> string option \<times> 'v fat" where
  "shell_prompt ff cdrive prompt p_len s =
     (case prompt of
        None \<Rightarrow> (None, s)
      | Some buf \<Rightarrow>
          if p_len = 0 then (Some buf, s)
          else
            let (s_prompt, s) = prompt_text ff cdrive s
            in (Some (if length s_prompt \<le> p_len then strcpy buf s_prompt else buf), s))"

text \<open>The entry point (\<open>arch/x86_64/entry.c\<close>): the calls into the kernel and the shell are arguments.\<close>

definition cstart_entry ::
    "('s \<Rightarrow> 's) \<Rightarrow> ('s \<Rightarrow> 's) \<Rightarrow> (string \<Rightarrow> 's \<Rightarrow> 's) \<Rightarrow> ('s \<Rightarrow> 's) \<Rightarrow> 's \<Rightarrow> 's" where
  "cstart_entry kernel_fio kernel_stdio kernel_outString shell_start s =
     (let s = kernel_fio s;
          s = kernel_stdio s;
          s = kernel_outString ''Starting RPV (Co) Event Driven OS (x86_64 build)...\<newline>'' s
      in shell_start s)"

section \<open>Lemmas\<close>

text \<open>The buffer keeps its length unless the text has exactly its length: then the terminator is
  stored one byte past the end.\<close>

lemma shell_prompt_buffer:
  assumes "length buf = p_len" "0 < p_len" "prompt_text ff cdrive s = (str, s')"
  shows "\<exists>buf'. shell_prompt ff cdrive (Some buf) p_len s = (Some buf', s')
    \<and> length buf' = (if length str = p_len then p_len + 1 else p_len)
    \<and> (length str \<le> p_len \<longrightarrow> take (length str + 1) buf' = str @ [CHR 0x00])
    \<and> (length str > p_len \<longrightarrow> buf' = buf)"
  using assms by (auto simp: shell_prompt_def strcpy_def)

text \<open>On the current drive the prompt is the current directory; without a drive it is fixed.\<close>

lemma prompt_text_cwd:
  assumes "f_getcwd ff 255 (vol s) = (FR_OK, cdrive # path, v)" "cdrive \<noteq> CHR 0x00"
  shows "fst (prompt_text ff cdrive s) = cdrive # path @ ''>''"
  using assms by (simp add: prompt_text_def fat_getcwd_def set_fatErrCode_def Let_def)

lemma prompt_text_nodrive: "prompt_text ff (CHR 0x00) s = (''> '', s)"
  by (simp add: prompt_text_def)

end
