(* ===== verification/Avr_Uart.thy ===== *)
theory Avr_Uart
  imports Ring
begin

text \<open>
  The console of the AVR build: the interrupt-driven UART driver (\<open>arch/mc_avr/sys/uart.c\<close>), the
  console on it (\<open>arch/mc_avr/sys/tty.c\<close>), the prompt (\<open>arch/mc_avr/sys/prompt.c\<close>) and the
  service that publishes received keys (\<open>arch/mc_avr/services/uart_service.c\<close>). The receive ring
  is the third provider of the contract \<open>drop_oldest\<close>; it reads inside an atomic block, so an
  interrupt runs before or after a read and never inside it.
\<close>

section \<open>I/O registers\<close>

text \<open>
  The registers of the microcontroller are bytes in its data space (addresses and bit positions
  of the ATmega family, from the device header of the C library). The bus of the prelude carries
  them in its low eight bits.
\<close>

definition UCSR0A :: u32 where "UCSR0A = 0xC0"
definition UCSR0B :: u32 where "UCSR0B = 0xC1"
definition UCSR0C :: u32 where "UCSR0C = 0xC2"
definition UBRR0L :: u32 where "UBRR0L = 0xC4"
definition UBRR0H :: u32 where "UBRR0H = 0xC5"
definition UDR0 :: u32 where "UDR0 = 0xC6"

abbreviation DOR0 :: nat where "DOR0 \<equiv> 3"
abbreviation FE0 :: nat where "FE0 \<equiv> 4"
abbreviation UDRE0 :: nat where "UDRE0 \<equiv> 5"
abbreviation U2X0 :: nat where "U2X0 \<equiv> 1"
abbreviation TXEN0 :: nat where "TXEN0 \<equiv> 3"
abbreviation RXEN0 :: nat where "RXEN0 \<equiv> 4"
abbreviation RXCIE0 :: nat where "RXCIE0 \<equiv> 7"
abbreviation UCSZ00 :: nat where "UCSZ00 \<equiv> 1"
abbreviation UCSZ01 :: nat where "UCSZ01 \<equiv> 2"

definition ld8 :: "hw \<Rightarrow> u32 \<Rightarrow> 'a machine_scheme \<Rightarrow> u8 \<times> 'a machine_scheme" where
  "ld8 hw a s = (let (v, s) = ld32 hw a s in (ucast v, s))"

definition st8 :: "u32 \<Rightarrow> u8 \<Rightarrow> 'a machine_scheme \<Rightarrow> 'a machine_scheme" where
  "st8 a v s = st32 a (ucast v) s"

definition or8 :: "hw \<Rightarrow> u32 \<Rightarrow> u8 \<Rightarrow> 'a machine_scheme \<Rightarrow> 'a machine_scheme" where
  "or8 hw a b s = (let (v, s) = ld8 hw a s in st8 a (v OR b) s)"

section \<open>The driver\<close>

abbreviation UART_RX_RING_SIZE :: nat where "UART_RX_RING_SIZE \<equiv> 8"

definition UBRR_VALUE :: nat where "UBRR_VALUE = 16000000 div (115200 * 8) - 1"

record avr_uart = machine +
  rx_tail :: u8
  rx_head :: u8
  rx_ring :: "u8 list"

definition uart_start :: "hw \<Rightarrow> 'a avr_uart_scheme \<Rightarrow> 'a avr_uart_scheme" where
  "uart_start hw s =
     (let s = s\<lparr>rx_tail := 0, rx_head := 0\<rparr>;
          s = or8 hw UCSR0A (push_bit U2X0 1) s;
          s = st8 UBRR0H (of_nat (UBRR_VALUE div 256)) s;
          s = st8 UBRR0L (of_nat UBRR_VALUE) s;
          s = or8 hw UCSR0C (push_bit UCSZ00 1 OR push_bit UCSZ01 1) s
      in or8 hw UCSR0B (push_bit TXEN0 1 OR push_bit RXEN0 1 OR push_bit RXCIE0 1) s)"

definition uart_read :: "'a avr_uart_scheme \<Rightarrow> u8 \<times> 'a avr_uart_scheme" where
  "uart_read s =
     (if rx_head s = rx_tail s then (0, s)
      else
        let c = rx_ring s ! unat (rx_head s);
            s = s\<lparr>rx_head := rx_head s + 1\<rparr>;
            s = (if rx_head s = of_nat UART_RX_RING_SIZE then s\<lparr>rx_head := 0\<rparr> else s)
        in (c, s))"

definition uart_write :: "hw \<Rightarrow> u8 \<Rightarrow> 'a machine_scheme \<Rightarrow> 'a machine_scheme option" where
  "uart_write hw b s = do {
     s \<leftarrow> await hw UCSR0A (\<lambda>v. v AND push_bit UDRE0 1 \<noteq> 0) s;
     Some (st8 UDR0 b s)
   }"

text \<open>The part of the interrupt handler after the error check.\<close>

definition rx_push :: "u8 \<Rightarrow> 'a avr_uart_scheme \<Rightarrow> 'a avr_uart_scheme" where
  "rx_push c s =
     (let next_tail = rx_tail s + 1;
          next_tail = (if next_tail = of_nat UART_RX_RING_SIZE then 0 else next_tail);
          s = (if next_tail = rx_head s
               then let s = s\<lparr>rx_head := rx_head s + 1\<rparr>
                    in if rx_head s = of_nat UART_RX_RING_SIZE then s\<lparr>rx_head := 0\<rparr> else s
               else s);
          s = s\<lparr>rx_ring := (rx_ring s)[unat (rx_tail s) := c]\<rparr>
      in s\<lparr>rx_tail := next_tail\<rparr>)"

definition rx_error :: "u8 \<Rightarrow> bool" where
  "rx_error status \<longleftrightarrow> status AND (push_bit FE0 1 OR push_bit DOR0 1) \<noteq> 0"

definition uart_onRxCompleteISR :: "hw \<Rightarrow> 'a avr_uart_scheme \<Rightarrow> 'a avr_uart_scheme" where
  "uart_onRxCompleteISR hw s =
     (let (status, s) = ld8 hw UCSR0A s;
          (c, s) = ld8 hw UDR0 s
      in if rx_error status then s else rx_push c s)"

section \<open>The service\<close>

definition is_charValid :: "u8 \<Rightarrow> bool" where
  "is_charValid c \<longleftrightarrow>
     (0x30 \<le> c \<and> c \<le> 0x39) \<or> (0x61 \<le> c \<and> c \<le> 0x7a) \<or> (0x41 \<le> c \<and> c \<le> 0x5a)
     \<or> c = 0x3a \<or> c = 0x2c \<or> c = 0x2e
     \<or> c = 0x20 \<or> c = 0x0a \<or> c = 0x09 \<or> c = 0x08 \<or> c = 0x7f"

partial_function (option) uart_service :: "'a avr_uart_scheme \<Rightarrow> 'a avr_uart_scheme option" where
  "uart_service s =
     (let r = uart_read s
      in if fst r = 0 then Some (snd r)
         else uart_service (if is_charValid (fst r) then emit (PubKey (fst r) 0) (snd r) else snd r))"

section \<open>The console and the prompt\<close>

definition con_clear :: "'a machine_scheme \<Rightarrow> 'a machine_scheme" where
  "con_clear s = s"

definition set_con :: "hw \<Rightarrow> 'a avr_uart_scheme \<Rightarrow> 'a avr_uart_scheme" where
  "set_con hw s = uart_start hw s"

text \<open>The recursive calls of \<open>con_char\<close> are on characters other than DEL.\<close>

definition con_char :: "hw \<Rightarrow> u8 \<Rightarrow> 'a machine_scheme \<Rightarrow> 'a machine_scheme option" where
  "con_char hw code s =
     (if code = 0x7f then do {
        s \<leftarrow> uart_write hw 0x08 s;
        s \<leftarrow> uart_write hw 0x20 s;
        uart_write hw 0x08 s
      } else uart_write hw code s)"

definition con_ln :: "hw \<Rightarrow> 'a machine_scheme \<Rightarrow> 'a machine_scheme option" where
  "con_ln hw s = con_char hw 0x0a s"

definition con_tab :: "hw \<Rightarrow> 'a machine_scheme \<Rightarrow> 'a machine_scheme option" where
  "con_tab hw s = con_char hw 0x09 s"

fun con_string :: "hw \<Rightarrow> u8 list \<Rightarrow> 'a machine_scheme \<Rightarrow> 'a machine_scheme option" where
  "con_string hw [] s = Some s"
| "con_string hw (c # str) s = do { s \<leftarrow> con_char hw c s; con_string hw str s }"

definition con_xy :: "nat \<Rightarrow> nat \<Rightarrow> 'a machine_scheme \<Rightarrow> 'a machine_scheme" where
  "con_xy cx cy s = s"

definition con_getx :: "'a machine_scheme \<Rightarrow> nat" where
  "con_getx s = 0"

definition con_gety :: "'a machine_scheme \<Rightarrow> nat" where
  "con_gety s = 0"

text \<open>The prompt is stored into a buffer given by its bytes, when that has room for three.\<close>

definition shell_prompt :: "u8 list option \<Rightarrow> nat \<Rightarrow> u8 list option" where
  "shell_prompt prompt p_len =
     (case prompt of None \<Rightarrow> None
      | Some b \<Rightarrow> if p_len < 3 then Some b else Some (b[0 := 0x3e, 1 := 0x20, 2 := 0]))"

section \<open>The ring is a bounded queue\<close>

definition uart_inv :: "'a avr_uart_scheme \<Rightarrow> bool" where
  "uart_inv s \<longleftrightarrow> length (rx_ring s) = 8 \<and> unat (rx_head s) < 8 \<and> unat (rx_tail s) < 8"

definition uart_content :: "'a avr_uart_scheme \<Rightarrow> u8 list" where
  "uart_content s = ring_content (rx_ring s) (unat (rx_head s)) (unat (rx_tail s))"

definition uart_empty :: "'a avr_uart_scheme \<Rightarrow> bool" where
  "uart_empty s \<longleftrightarrow> rx_head s = rx_tail s"

lemma rx_push_unfold:
  "uart_inv s \<Longrightarrow> unat (rx_tail (rx_push c s)) = inc 8 (unat (rx_tail s))
     \<and> unat (rx_head (rx_push c s)) =
         (if inc 8 (unat (rx_tail s)) = unat (rx_head s) then inc 8 (unat (rx_head s))
          else unat (rx_head s))
     \<and> rx_ring (rx_push c s) = (rx_ring s)[unat (rx_tail s) := c]"
  using unat_inc_u8 [of "rx_tail s" 8] unat_inc_u8 [of "rx_head s" 8]
  by (auto simp: rx_push_def uart_inv_def Let_def word_unat_eq_iff)

lemma rx_push_inv: "uart_inv s \<Longrightarrow> uart_inv (rx_push c s)"
  using rx_push_unfold [of s c] by (auto simp: uart_inv_def inc_less)

lemma rx_push_content:
  assumes "uart_inv s"
  shows "uart_content (rx_push c s) = push_drop 7 (uart_content s) c"
  using ring_content_push [of "unat (rx_head s)" "rx_ring s" "unat (rx_tail s)" c]
    rx_push_unfold [OF assms, of c] assms
  by (auto simp: uart_content_def uart_inv_def split: if_splits)

lemma uart_empty_content: "uart_inv s \<Longrightarrow> uart_empty s \<longleftrightarrow> uart_content s = []"
  by (simp add: uart_content_def uart_inv_def uart_empty_def ring_content_Nil word_unat_eq_iff)

lemma uart_read_pop:
  assumes "uart_inv s" and "uart_content s \<noteq> []"
  shows "fst (uart_read s) = hd (uart_content s)
    \<and> uart_content (snd (uart_read s)) = tl (uart_content s) \<and> uart_inv (snd (uart_read s))"
proof -
  let ?h = "unat (rx_head s)" and ?t = "unat (rx_tail s)"
  from assms have ne: "rx_head s \<noteq> rx_tail s"
    using uart_empty_content [of s] by (simp add: uart_empty_def)
  with assms(1) have "ring_content (rx_ring s) ?h ?t
      = rx_ring s ! ?h # ring_content (rx_ring s) (inc 8 ?h) ?t"
    using ring_content_pop [of ?h "rx_ring s" ?t] by (auto simp: uart_inv_def word_unat_eq_iff)
  with ne assms(1) unat_inc_u8 [of "rx_head s" 8] show ?thesis
    by (auto simp: uart_read_def uart_content_def uart_inv_def Let_def inc_less)
qed

lemma uart_content_length: "uart_inv s \<Longrightarrow> length (uart_content s) \<le> 7"
  using ring_content_length [of "unat (rx_head s)" "rx_ring s" "unat (rx_tail s)"]
  by (simp add: uart_content_def uart_inv_def)

interpretation avr_rx: drop_oldest 7 uart_inv uart_content uart_empty rx_push
  "\<lambda>s. fst (uart_read s)" "\<lambda>s. snd (uart_read s)"
  using uart_read_pop
  by unfold_locales
     (auto simp: uart_content_length uart_empty_content rx_push_content rx_push_inv)


section \<open>The service drains the ring\<close>

lemma uart_read_empty: "uart_inv s \<Longrightarrow> uart_content s = [] \<Longrightarrow> uart_read s = (0, s)"
  using uart_empty_content [of s] by (simp add: uart_read_def uart_empty_def)

lemma uart_read_bus [simp]: "bus (snd (uart_read s)) = bus s"
  by (simp add: uart_read_def Let_def)

lemma rx_push_bus [simp]: "bus (rx_push c s) = bus s"
  by (simp add: rx_push_def Let_def)

lemma emit_uart [simp]:
  "uart_inv (emit e s) = uart_inv s" "uart_content (emit e s) = uart_content s"
  by (simp_all add: emit_def uart_inv_def uart_content_def)

lemma avr_service_step:
  "uart_service s = (let (c, r) = uart_read s in
     if c = 0 then Some r else uart_service (if is_charValid c then emit (PubKey c 0) r else r))"
  by (subst uart_service.simps) (simp add: Let_def case_prod_beta)

lemma uart_service_drains:
  "uart_inv s \<Longrightarrow> \<exists>s'. uart_service s = Some s' \<and> uart_inv s'
    \<and> pub_keys (bus s') = pub_keys (bus s)
        @ map (\<lambda>c. (c, 0)) (filter is_charValid (takeWhile (\<lambda>c. c \<noteq> 0) (uart_content s)))
    \<and> uart_content s' = tl (dropWhile (\<lambda>c. c \<noteq> 0) (uart_content s))"
proof (induction "uart_content s" arbitrary: s)
  case Nil
  then show ?case by (subst avr_service_step) (simp add: uart_read_empty)
next
  case (Cons x q)
  obtain c r where rd: "uart_read s = (c, r)" by fastforce
  from Cons.hyps(2) have ne: "uart_content s \<noteq> []" by auto
  from uart_read_pop [OF Cons.prems ne] rd Cons.hyps(2) [symmetric]
  have r: "c = x" "uart_content r = q" "uart_inv r" by simp_all
  from uart_read_bus [of s] rd have bus: "bus r = bus s" by simp
  define r' where "r' = (if is_charValid x then emit (PubKey x 0) r else r)"
  have r': "uart_content r' = q" "uart_inv r'"
    "pub_keys (bus r') = pub_keys (bus s) @ (if is_charValid x then [(x, 0)] else [])"
    using r bus by (simp_all add: r'_def bus_emit)
  have step: "uart_service s = (if x = 0 then Some r else uart_service r')"
    by (subst avr_service_step) (simp add: rd r(1) r'_def)
  show ?case
  proof (cases "x = 0")
    case True
    with step r bus show ?thesis by (simp add: Cons.hyps(2) [symmetric])
  next
    case False
    with Cons.hyps(1) [of r'] r' step show ?thesis
      by (cases "is_charValid x") (simp_all add: Cons.hyps(2) [symmetric])
  qed
qed

section \<open>Properties\<close>

text \<open>
  The driver and the service run over a sequence of events: a receive interrupt with the status
  and data the hardware then holds, or one run of the service. The specification is a queue of
  seven bytes.
\<close>

datatype uart_evt = Rx u8 u8 | Serve

definition rx_hw :: "u8 \<Rightarrow> u8 \<Rightarrow> hw" where
  "rx_hw status c t a = (if a = UCSR0A then ucast status else ucast c)"

fun uart_evts :: "uart_evt list \<Rightarrow> 'a avr_uart_scheme \<Rightarrow> 'a avr_uart_scheme option" where
  "uart_evts [] s = Some s"
| "uart_evts (Rx st c # es) s = uart_evts es (uart_onRxCompleteISR (rx_hw st c) s)"
| "uart_evts (Serve # es) s = do { s \<leftarrow> uart_service s; uart_evts es s }"

fun queue_evts :: "uart_evt list \<Rightarrow> u8 list \<times> u8 list \<Rightarrow> u8 list \<times> u8 list" where
  "queue_evts [] z = z"
| "queue_evts (Rx st c # es) (q, keys) =
     queue_evts es (if bit st 4 \<or> bit st 3 then q else push_drop 7 q c, keys)"
| "queue_evts (Serve # es) (q, keys) =
     queue_evts es (tl (dropWhile (\<lambda>c. c \<noteq> 0) q),
       keys @ filter is_charValid (takeWhile (\<lambda>c. c \<noteq> 0) q))"

lemma rx_error_bits: "rx_error st \<longleftrightarrow> bit st 4 \<or> bit st 3"
proof -
  have "st AND 0x18 = 0 \<longleftrightarrow> \<not> bit st 4 \<and> \<not> bit st 3"
    by (simp add: word_bit_eq_iff bit_simps numeral_eq_Suc All_less_Suc)
  then show ?thesis by (simp add: rx_error_def)
qed

lemma ucast_u8_byte: "ucast (ucast c :: u32) = (c :: u8)"
  by (rule bit_word_eqI) (simp add: bit_simps)

lemma isr_eq:
  "\<exists>t. uart_onRxCompleteISR (rx_hw st c) s = (if rx_error st then id else rx_push c) (s\<lparr>bus := t\<rparr>)
    \<and> pub_keys t = pub_keys (bus s)"
proof -
  have ld: "ld8 (rx_hw st c) UCSR0A s = (st, emit (Rd UCSR0A (ucast st)) s)" for s :: "'a avr_uart_scheme"
    by (simp add: ld8_def ld32_def rx_hw_def ucast_u8_byte)
  have ld': "ld8 (rx_hw st c) UDR0 s = (c, emit (Rd UDR0 (ucast c)) s)" for s :: "'a avr_uart_scheme"
    by (simp add: ld8_def ld32_def rx_hw_def UDR0_def UCSR0A_def ucast_u8_byte)
  show ?thesis
    by (rule exI [of _ "Rd UDR0 (ucast c) # Rd UCSR0A (ucast st) # bus s"])
      (simp add: uart_onRxCompleteISR_def ld ld' emit_def)
qed


lemma uart_evts_simulates:
  "uart_inv s \<Longrightarrow> \<exists>s' keys'. uart_evts es s = Some s' \<and> uart_inv s'
    \<and> queue_evts es (uart_content s, keys) = (uart_content s', keys @ keys')
    \<and> pub_keys (bus s') = pub_keys (bus s) @ map (\<lambda>c. (c, 0)) keys'"
proof (induction es arbitrary: s keys)
  case (Cons e es)
  show ?case
  proof (cases e)
    case (Rx st c)
    from isr_eq [of st c s] obtain t where t: "pub_keys t = pub_keys (bus s)"
      "uart_onRxCompleteISR (rx_hw st c) s = (if rx_error st then id else rx_push c) (s\<lparr>bus := t\<rparr>)"
      by blast
    have same: "uart_inv (s\<lparr>bus := t\<rparr>)" "uart_content (s\<lparr>bus := t\<rparr>) = uart_content s"
      using Cons.prems by (simp_all add: uart_inv_def uart_content_def)
    with Cons.IH [OF rx_push_inv [OF same(1), of c], of keys] Cons.IH [OF same(1), of keys]
    show ?thesis by (simp add: Rx t rx_error_bits rx_push_content [OF same(1)])
  next
    case Serve
    define new where "new = filter is_charValid (takeWhile (\<lambda>c. c \<noteq> 0) (uart_content s))"
    from uart_service_drains [OF Cons.prems] obtain s1 where s1: "uart_service s = Some s1" "uart_inv s1"
      "pub_keys (bus s1) = pub_keys (bus s) @ map (\<lambda>c. (c, 0)) new"
      "uart_content s1 = tl (dropWhile (\<lambda>c. c \<noteq> 0) (uart_content s))"
      by (auto simp: new_def)
    from Cons.IH [OF s1(2), of "keys @ new"] obtain s' keys' where s': "uart_evts es s1 = Some s'"
      "uart_inv s'" "queue_evts es (uart_content s1, keys @ new) = (uart_content s', keys @ new @ keys')"
      "pub_keys (bus s') = pub_keys (bus s1) @ map (\<lambda>c. (c, 0)) keys'" by auto
    with s1 show ?thesis
      by (intro exI [of _ s'] exI [of _ "new @ keys'"]) (simp add: Serve flip: new_def)
  qed
qed simp

text \<open>
  C20: whatever the order of receive interrupts and runs of the service, every run of the
  service returns, bytes received with a framing or overrun error are ignored, the ring holds
  what a queue of seven bytes that drops its oldest byte holds, and the keys published are
  the valid characters the service took from that queue, in order.
\<close>

theorem avr_uart_refines_queue:
  assumes "uart_inv s"
  shows "\<exists>s' keys. uart_evts es s = Some s' \<and> uart_inv s'
    \<and> queue_evts es (uart_content s, []) = (uart_content s', keys)
    \<and> pub_keys (bus s') = pub_keys (bus s) @ map (\<lambda>c. (c, 0)) keys"
  using uart_evts_simulates [OF assms, of es "[]"] by simp

definition avr_boot :: avr_uart where
  "avr_boot = \<lparr>bus = [], mem = (\<lambda>_. 0), rx_tail = 0, rx_head = 0, rx_ring = replicate 8 0\<rparr>"

theorem avr_uart_refines_queue_witness:
  "\<exists>s'. uart_evts [Rx 0x80 0x6c, Rx 0x90 0x3f, Rx 0x80 0x0d, Rx 0x80 0x73, Serve] avr_boot = Some s'
     \<and> pub_keys (bus s') = [(0x6c, 0), (0x73, 0)] \<and> uart_content s' = []"
proof -
  let ?es = "[Rx 0x80 0x6c, Rx 0x90 0x3f, Rx 0x80 0x0d, Rx 0x80 0x73, Serve]"
  have boot: "uart_inv avr_boot" "uart_content avr_boot = []" "bus avr_boot = []"
    by (simp_all add: avr_boot_def uart_inv_def uart_content_def ring_content_def span_def)
  have q: "queue_evts ?es ([], []) = ([], [0x6c, 0x73])"
    by (simp add: push_drop_def is_charValid_def)
  from avr_uart_refines_queue [OF boot(1), of ?es] boot q show ?thesis by auto
qed

end
