(* ===== verification/Avr_Wheels.thy ===== *)
theory Avr_Wheels
  imports Avr_Uart
begin

text \<open>
  The wheel counter of the AVR build: the port pins (\<open>arch/mc_avr/sys/gpio.c\<close>), the SPI master
  (\<open>arch/mc_avr/sys/spi.c\<close>, started by \<open>arch/mc_avr/sys.c\<close>) and the shell command that
  selects and reads the counter (\<open>arch/mc_avr/services/wheels_service.c\<close>).
\<close>

section \<open>Ports\<close>

definition PINB :: u32 where "PINB = 0x23"
definition DDRB :: u32 where "DDRB = 0x24"
definition PORTB :: u32 where "PORTB = 0x25"
definition PINC :: u32 where "PINC = 0x26"
definition PORTC :: u32 where "PORTC = 0x28"
definition PIND :: u32 where "PIND = 0x29"
definition PORTD :: u32 where "PORTD = 0x2B"
definition SPCR :: u32 where "SPCR = 0x4C"
definition SPSR :: u32 where "SPSR = 0x4D"
definition SPDR :: u32 where "SPDR = 0x4E"

abbreviation SPI_DDR :: u32 where "SPI_DDR \<equiv> DDRB"
abbreviation SPI_PORT :: u32 where "SPI_PORT \<equiv> PORTB"
abbreviation SPI_CS_PIN :: u8 where "SPI_CS_PIN \<equiv> 2"
abbreviation SPI_MOSI_PIN :: u8 where "SPI_MOSI_PIN \<equiv> 3"
abbreviation SPI_MISO_PIN :: u8 where "SPI_MISO_PIN \<equiv> 4"
abbreviation SPI_SCK_PIN :: u8 where "SPI_SCK_PIN \<equiv> 5"
abbreviation SPE :: nat where "SPE \<equiv> 6"
abbreviation MSTR :: nat where "MSTR \<equiv> 4"
abbreviation SPIF :: nat where "SPIF \<equiv> 7"

text \<open>The two macros, on the 16-bit integers of the target: the port byte is promoted, and a
  store converts back to a byte.\<close>

definition GET_BIT :: "hw \<Rightarrow> u32 \<Rightarrow> u8 \<Rightarrow> 'a machine_scheme \<Rightarrow> bool \<times> 'a machine_scheme" where
  "GET_BIT hw port pin s =
     (let (v, s) = ld8 hw port s
      in (drop_bit (unat pin) ((ucast v :: u16) AND push_bit (unat pin) 1) \<noteq> 0, s))"

definition SET_BIT :: "hw \<Rightarrow> u32 \<Rightarrow> u8 \<Rightarrow> bool \<Rightarrow> 'a machine_scheme \<Rightarrow> 'a machine_scheme" where
  "SET_BIT hw port pin val s =
     (let (v, s) = ld8 hw port s;
          m = push_bit (unat pin) (1 :: u16)
      in st8 port (ucast (if val then ucast v OR m else ucast v AND NOT m)) s)"

definition gpiob_read :: "hw \<Rightarrow> u8 \<Rightarrow> 'a machine_scheme \<Rightarrow> bool \<times> 'a machine_scheme" where
  "gpiob_read hw = GET_BIT hw PINB"

definition gpioc_read :: "hw \<Rightarrow> u8 \<Rightarrow> 'a machine_scheme \<Rightarrow> bool \<times> 'a machine_scheme" where
  "gpioc_read hw = GET_BIT hw PINC"

definition gpiod_read :: "hw \<Rightarrow> u8 \<Rightarrow> 'a machine_scheme \<Rightarrow> bool \<times> 'a machine_scheme" where
  "gpiod_read hw = GET_BIT hw PIND"

definition gpiob_write :: "hw \<Rightarrow> u8 \<Rightarrow> bool \<Rightarrow> 'a machine_scheme \<Rightarrow> 'a machine_scheme" where
  "gpiob_write hw = SET_BIT hw PORTB"

definition gpioc_write :: "hw \<Rightarrow> u8 \<Rightarrow> bool \<Rightarrow> 'a machine_scheme \<Rightarrow> 'a machine_scheme" where
  "gpioc_write hw = SET_BIT hw PORTC"

definition gpiod_write :: "hw \<Rightarrow> u8 \<Rightarrow> bool \<Rightarrow> 'a machine_scheme \<Rightarrow> 'a machine_scheme" where
  "gpiod_write hw = SET_BIT hw PORTD"

section \<open>SPI\<close>

definition pin_mask :: "u8 \<Rightarrow> u8" where
  "pin_mask pin = push_bit (unat pin) 1"

definition spi_start :: "hw \<Rightarrow> 'a machine_scheme \<Rightarrow> 'a machine_scheme" where
  "spi_start hw s =
     (let pins = pin_mask SPI_SCK_PIN OR pin_mask SPI_CS_PIN OR pin_mask SPI_MOSI_PIN;
          s = st8 SPI_DDR pins s;
          (v, s) = ld8 hw SPI_DDR s;
          s = st8 SPI_DDR (v AND NOT (pin_mask SPI_MISO_PIN)) s;
          s = st8 SPI_PORT pins s
      in or8 hw SPCR (push_bit SPE 1 OR push_bit MSTR 1) s)"

definition spi_write :: "hw \<Rightarrow> u8 \<Rightarrow> 'a machine_scheme \<Rightarrow> (u8 \<times> 'a machine_scheme) option" where
  "spi_write hw val s = do {
     let s = st8 SPDR val s;
     s \<leftarrow> await hw SPSR (\<lambda>v. v AND push_bit SPIF 1 \<noteq> 0) s;
     Some (ld8 hw SPDR s)
   }"

text \<open>Enabling interrupts is one instruction without a bus access.\<close>

definition sys_init :: "hw \<Rightarrow> 'a machine_scheme \<Rightarrow> 'a machine_scheme" where
  "sys_init hw s = spi_start hw s"

text \<open>The entry point (\<open>arch/mc_avr/entry.c\<close>); the kernel and the shell are arguments.\<close>

definition avr_main ::
    "hw \<Rightarrow> ('a machine_scheme \<Rightarrow> 'a machine_scheme) \<Rightarrow> ('a machine_scheme \<Rightarrow> 'a machine_scheme) \<Rightarrow>
       'a machine_scheme \<Rightarrow> int \<times> 'a machine_scheme" where
  "avr_main hw kernel_stdio shell_start s =
     (let s = sys_init hw s;
          s = kernel_stdio s;
          s = emit (Out ''Starting RPV (Co) Event Driven OS (avr5 build)...\<newline>'' []) s;
          s = shell_start s
      in (0, s))"

section \<open>The wheel command\<close>

text \<open>
  \<open>whl_command\<close> copies the command name up to a colon into the caller's buffer and returns the
  rest of the argument. The buffer has \<open>room\<close> bytes; a store beyond it overwrites the caller's
  stack, for which the model has no value.
\<close>

fun whl_command_loop :: "nat \<Rightarrow> u8 list \<Rightarrow> u8 list \<Rightarrow> (u8 list \<times> u8 list) option" where
  "whl_command_loop room cmd [] = (if length cmd < room then Some (cmd, []) else None)"
| "whl_command_loop room cmd (c # arg) =
     (if c = 0x3a then (if length cmd < room then Some (cmd, arg) else None)
      else if length cmd < room then whl_command_loop room (cmd @ [c]) arg
      else None)"

definition whl_command :: "nat \<Rightarrow> u8 list \<Rightarrow> (u8 list \<times> u8 list) option" where
  "whl_command room argv = whl_command_loop room [] argv"

definition bytes_of :: "string \<Rightarrow> u8 list" where
  "bytes_of str = map of_char str"

definition whls_m :: "hw \<Rightarrow> u8 list list \<Rightarrow> 'a machine_scheme \<Rightarrow> (int \<times> 'a machine_scheme) option" where
  "whls_m hw argv s =
     (if length argv < 2 then Some (- 1, emit (Out ''no wheel command given\<newline>'' []) s)
      else do {
        (cmd, arg) \<leftarrow> whl_command 4 (argv ! 1);
        let c = (case arg of [] \<Rightarrow> 0 | c # _ \<Rightarrow> c);
        if cmd = bytes_of ''cs'' \<and> c = 0x30 then
          Some (0, gpiob_write hw SPI_CS_PIN False (emit (Out ''whlcnt sel\<newline>'' []) s))
        else if cmd = bytes_of ''cs'' \<and> c = 0x31 then
          Some (0, gpiob_write hw SPI_CS_PIN True (emit (Out ''whlcnt unsel\<newline>'' []) s))
        else do {
          let s = (if cmd = bytes_of ''cs'' then emit (Out ''unknown action\<newline>'' []) s else s);
          if cmd = bytes_of ''cnt'' then do {
            (c, s) \<leftarrow> spi_write hw 0 s;
            Some (0, emit (Out ''whlcnt %d\<newline>'' [ucast c]) s)
          } else Some (- 1, emit (Out ''unknown command\<newline>'' []) s)
        }
      })"

section \<open>Pins\<close>

lemma ld8_eq: "ld8 hw a s = (ucast (hw (bus s) a), emit (Rd a (hw (bus s) a)) s)"
  by (simp add: ld8_def ld32_def)

lemma get_bit_eq:
  assumes "unat pin < 8"
  shows "fst (GET_BIT hw port pin s) = bit (ucast (hw (bus s) port) :: u8) (unat pin)"
  using assms
  by (auto simp: GET_BIT_def ld8_eq word_bit_eq_iff bit_simps Let_def)

text \<open>The byte stored to a port differs from the byte loaded in the one pin at most.\<close>

lemma set_bit_eq:
  assumes "unat pin < 8"
  shows "\<exists>v. bus (SET_BIT hw port pin val s) =
      Wr port (ucast (v :: u8)) # Rd port (hw (bus s) port) # bus s
    \<and> (\<forall>i < 8. bit v i = (if i = unat pin then val else bit (hw (bus s) port) i))"
  using assms
  by (cases val; intro exI conjI)
    (auto simp: SET_BIT_def ld8_eq st8_def st32_def emit_def Let_def bit_simps)

section \<open>Command names\<close>

lemma whl_command_loop_eq:
  "length cmd + length (takeWhile (\<lambda>c. c \<noteq> 0x3a) arg) < room \<Longrightarrow>
    whl_command_loop room cmd arg =
      Some (cmd @ takeWhile (\<lambda>c. c \<noteq> 0x3a) arg, tl (dropWhile (\<lambda>c. c \<noteq> 0x3a) arg))"
  by (induction room cmd arg rule: whl_command_loop.induct) auto

lemma whl_command_loop_overflow:
  "room \<le> length cmd + length (takeWhile (\<lambda>c. c \<noteq> 0x3a) arg) \<Longrightarrow>
    whl_command_loop room cmd arg = None"
  by (induction room cmd arg rule: whl_command_loop.induct) auto

text \<open>The counter is selected and released by the one pin, and read by one byte transfer.\<close>

lemma whls_cs:
  assumes "length argv = 2" "argv ! 1 = bytes_of ''cs:'' @ [if val then 0x31 else 0x30]"
  shows "\<exists>s1. whls_m hw argv s = Some (0, gpiob_write hw SPI_CS_PIN val s1)
    \<and> s1 = emit (Out (if val then ''whlcnt unsel\<newline>'' else ''whlcnt sel\<newline>'') []) s"
  using assms
  by (cases val) (simp_all add: whls_m_def whl_command_def bytes_of_def)

lemma whls_cnt:
  assumes "length argv = 2" "argv ! 1 = bytes_of ''cnt''"
    and "responds hw SPSR (\<lambda>v. v AND push_bit SPIF 1 \<noteq> 0)"
  shows "\<exists>c s1 s2. spi_write hw 0 s = Some (c, s1) \<and> whls_m hw argv s = Some (0, s2)
    \<and> bus s2 = Out ''whlcnt %d\<newline>'' [ucast c] # bus s1"
proof -
  from responds_await [OF assms(3), of "st8 SPDR 0 s"] obtain s' where
    "await hw SPSR (\<lambda>v. v AND push_bit SPIF 1 \<noteq> 0) (st8 SPDR 0 s) = Some s'" by blast
  with assms(1,2) show ?thesis
    by (simp add: whls_m_def whl_command_def bytes_of_def spi_write_def ld8_eq bus_emit)
qed

text \<open>A command name of four or more characters overflows the four-byte buffer of the command.\<close>

theorem whls_m_overflows:
  "2 \<le> length argv \<Longrightarrow> 4 \<le> length (takeWhile (\<lambda>c. c \<noteq> 0x3a) (argv ! 1)) \<Longrightarrow> whls_m hw argv s = None"
  by (simp add: whls_m_def whl_command_def whl_command_loop_overflow)

end
