(* ===== verification/Sysmon.thy ===== *)
theory Sysmon
  imports Prelude
begin

text \<open>
  The small monitors of the MicroBlaze build: the temperature sensor and its service
  (\<open>arch/mb_le/sys/tsensor.c\<close>, \<open>arch/mb_le/services/temp_service.c\<close>), the memory monitor command
  (\<open>arch/mb_le/sys/rwmon32.c\<close>) and the exception reports (\<open>arch/mb_le/sys/xexcept.c\<close>).
\<close>

section \<open>The temperature sensor\<close>

definition adt7420s_status :: layout where
  "adt7420s_status = [(''tvalid'', 1), (''reserved'', 31)]"

definition ADT7420S_sr :: u32 where "ADT7420S_sr = 0x44A10000"
definition ADT7420S_dt :: u32 where "ADT7420S_dt = 0x44A10004"

text \<open>The result stored through the pointer, when the sensor has one. (The only caller does not
  pass a null pointer.)\<close>

definition tsensor_read :: "hw \<Rightarrow> 'a machine_scheme \<Rightarrow> u16 option \<times> 'a machine_scheme" where
  "tsensor_read hw s =
     (let (valid, s) = ld_fld hw adt7420s_status ''tvalid'' ADT7420S_sr s
      in if valid = 0 then (None, s)
         else let (dt, s) = ld32 hw ADT7420S_dt s in (Some (ucast (dt AND 0xFFFF)), s))"

record temp = machine +
  ts_temp :: u8

text \<open>
  The product \<open>ts * 0.0625f\<close> is exact in single precision, a reading having 16 bits, so its
  conversion to an integer is the division by 16. The conversion of a value of 256 or more to
  \<open>uint8_t\<close> is undefined in C; the model has no value for it.
\<close>

definition temp_service :: "hw \<Rightarrow> 'a temp_scheme \<Rightarrow> 'a temp_scheme option" where
  "temp_service hw s =
     (let (r, s) = tsensor_read hw s
      in case r of
           None \<Rightarrow> Some (s\<lparr>ts_temp := 0\<rparr>)
         | Some ts \<Rightarrow> if unat ts div 16 < 256 then Some (s\<lparr>ts_temp := of_nat (unat ts div 16)\<rparr>) else None)"

definition temp_m :: "'a temp_scheme \<Rightarrow> int \<times> 'a temp_scheme" where
  "temp_m s =
     (if ts_temp s = 0 then (- 1, emit (Out ''No temperature data\<newline>'' []) s)
      else (0, emit (Out ''Temperature %d deg C\<newline>'' [ucast (ts_temp s)]) s))"

section \<open>The memory monitor\<close>

text \<open>\<open>strtoul\<close> is the one of the C library: it yields the number and the rest of the string. An
  address may be that of memory or of a device; both are loads and stores on the bus.\<close>

definition readm32 ::
    "(string \<Rightarrow> u32 \<times> string) \<Rightarrow> hw \<Rightarrow> string \<Rightarrow> 'a machine_scheme \<Rightarrow> int \<times> 'a machine_scheme" where
  "readm32 strtoul hw addr_s s =
     (let (addr, c) = strtoul addr_s
      in if c \<noteq> [] then (- 1, emit (Out ''mem addr invalid\<newline>'' []) s)
         else let (v, s) = ld32 hw addr s in (0, emit (Out ''0x%04x: %04x\<newline>'' [addr, v]) s))"

definition writem32 ::
    "(string \<Rightarrow> u32 \<times> string) \<Rightarrow> string \<Rightarrow> string \<Rightarrow> 'a machine_scheme \<Rightarrow> int \<times> 'a machine_scheme" where
  "writem32 strtoul addr_s val_s s =
     (let (addr, c) = strtoul addr_s
      in if c \<noteq> [] then (- 1, emit (Out ''write mem addr invalid\<newline>'' []) s)
         else
           let (addr_val, c) = strtoul val_s
           in if c \<noteq> [] then (- 1, emit (Out ''write value invalid\<newline>'' []) s)
              else (0, emit (Out ''memory write\<newline>'' []) (st32 addr addr_val s)))"

definition rwmon32_m ::
    "(string \<Rightarrow> u32 \<times> string) \<Rightarrow> hw \<Rightarrow> string list \<Rightarrow> 'a machine_scheme \<Rightarrow> int \<times> 'a machine_scheme" where
  "rwmon32_m strtoul hw argv s =
     (if length argv < 2 then (- 1, emit (Out ''mem addr or size required'' []) s)
      else if length argv = 2 then readm32 strtoul hw (argv ! 1) s
      else writem32 strtoul (argv ! 1) (argv ! 2) s)"

section \<open>Exceptions\<close>

definition xsoft_except :: "u32 \<Rightarrow> u32 \<Rightarrow> 'a machine_scheme \<Rightarrow> 'a machine_scheme" where
  "xsoft_except ear esr s = emit (Out ''software exception occured: ear=%04x, esr=%04x\<newline>'' [ear, esr]) s"

definition xhard_except :: "u32 \<Rightarrow> u32 \<Rightarrow> 'a machine_scheme \<Rightarrow> 'a machine_scheme" where
  "xhard_except ear esr s = emit (Out ''hardware exception occured: ear=%04x, esr=%04x\<newline>'' [ear, esr]) s"

section \<open>Lemmas\<close>

interpretation adt_status: reg_layout 32 adt7420s_status
  by unfold_locales (simp add: layout_wf_def adt7420s_status_def)

lemma temp_service_valid:
  assumes "fld_on adt7420s_status ''tvalid'' (hw (bus s) ADT7420S_sr)"
  defines "dt \<equiv> hw (Rd ADT7420S_sr (hw (bus s) ADT7420S_sr) # bus s) ADT7420S_dt"
  shows "temp_service hw s =
    (if take_bit 16 (unat dt) < 4096
     then Some (s\<lparr>bus := [Rd ADT7420S_dt dt, Rd ADT7420S_sr (hw (bus s) ADT7420S_sr)] @ bus s,
                  ts_temp := of_nat (take_bit 16 (unat dt) div 16)\<rparr>)
     else None)"
proof -
  have "unat (ucast (dt AND 0xFFFF) :: u16) = take_bit 16 (unat dt)"
  proof -
    have "dt AND 0xFFFF = take_bit 16 dt" by (simp add: take_bit_eq_mask mask_numeral)
    then show ?thesis by (simp add: unsigned_ucast_eq unsigned_take_bit_eq)
  qed
  moreover have "x div 16 < 256 \<longleftrightarrow> x < 4096" for x :: nat
    by (simp add: div_less_iff_less_mult)
  ultimately show ?thesis
    using assms(1)
    by (simp add: temp_service_def tsensor_read_def ld_fld_def ld32_def fld_on_def emit_def Let_def
        flip: dt_def)
qed

text \<open>A reading of zero degrees is reported as missing.\<close>

lemma zero_degrees_reported_missing:
  assumes "fld_on adt7420s_status ''tvalid'' (hw (bus s) ADT7420S_sr)"
    and "hw (Rd ADT7420S_sr (hw (bus s) ADT7420S_sr) # bus s) ADT7420S_dt = 0"
  shows "\<exists>s'. temp_service hw s = Some s' \<and> fst (temp_m s') = - 1"
  using temp_service_valid [of hw s] assms by (simp add: temp_m_def)

text \<open>What the monitor writes is what it stores, and an invalid number stores nothing.\<close>

lemma writem32_stores:
  "snd (strtoul a) = [] \<Longrightarrow> snd (strtoul v) = [] \<Longrightarrow>
    bus (snd (writem32 strtoul a v s)) =
      Out ''memory write\<newline>'' [] # Wr (fst (strtoul a)) (fst (strtoul v)) # bus s"
  by (simp add: writem32_def case_prod_beta emit_def st32_def Let_def)

lemma writem32_rejects:
  "snd (strtoul a) \<noteq> [] \<or> snd (strtoul v) \<noteq> [] \<Longrightarrow>
    fst (writem32 strtoul a v s) = - 1 \<and> (\<exists>m. bus (snd (writem32 strtoul a v s)) = Out m [] # bus s)"
  by (auto simp: writem32_def case_prod_beta emit_def Let_def)

end
