(* ===== verification/Sec.thy ===== *)
theory Sec
  imports Prelude
begin

text \<open>
  The glue of the security service (\<open>arch/mb_le/services/sec_service.c\<close>): the state machine that
  binds the security runtime to the protected region, the secure store, the verification
  callback and the hash over the region. The runtime itself is a package outside this
  repository. It is a parameter \<open>rt\<close> of the service, as is the size of a hash.
\<close>

section \<open>State\<close>

datatype secsvc_state = SEC_SVC_RUN | SEC_SVC_BIND | SEC_SVC_OTHER

datatype sec_call = Sec_prngseed u32 | Sec_context nat | Sec_out string

record secsvc =
  secsvc_reg :: secsvc_state
  secure_store :: "u8 list list"
  protected_code :: "u8 list"
  calls :: "sec_call list"

abbreviation PROTECTED_SIZE :: nat where "PROTECTED_SIZE \<equiv> 1024"

definition sec_call :: "sec_call \<Rightarrow> 'a secsvc_scheme \<Rightarrow> 'a secsvc_scheme" where
  "sec_call c s = s\<lparr>calls := calls s @ [c]\<rparr>"

section \<open>The service\<close>

text \<open>The seed mixes two timer readings and the address of a stack variable.\<close>

definition sec_seed :: "u32 \<Rightarrow> u32 \<Rightarrow> u32 \<Rightarrow> u32" where
  "sec_seed ticks millis addr = push_bit 16 ticks XOR millis XOR addr"

definition sec_bind :: "u32 \<Rightarrow> 'a secsvc_scheme \<Rightarrow> 'a secsvc_scheme" where
  "sec_bind seed_r s =
     (let s = s\<lparr>protected_code := map (\<lambda>i. of_nat (i + 1)) [0..<PROTECTED_SIZE]\<rparr>;
          s = sec_call (Sec_prngseed seed_r) s;
          s = sec_call (Sec_context PROTECTED_SIZE) s
      in s\<lparr>secsvc_reg := SEC_SVC_RUN\<rparr>)"

text \<open>
  \<open>sec_service\<close> and \<open>_sec_recovery\<close> call each other: an unknown state recovers, recovery sets the
  bind state, and binding goes on to the run state, so the calls end there.
\<close>

definition sec_service :: "('a secsvc_scheme \<Rightarrow> 'a secsvc_scheme) \<Rightarrow> u32 \<Rightarrow> 'a secsvc_scheme \<Rightarrow> 'a secsvc_scheme" where
  "sec_service rt seed_r s =
     (case secsvc_reg s of
        SEC_SVC_BIND \<Rightarrow> rt (sec_bind seed_r s)
      | SEC_SVC_RUN \<Rightarrow> rt s
      | SEC_SVC_OTHER \<Rightarrow>
          let s = sec_call (Sec_out ''Security breach detected !\<newline>'') s;
              s = sec_call (Sec_out ''Recovery in progress...\<newline>'') s
          in rt (sec_bind seed_r (s\<lparr>secsvc_reg := SEC_SVC_BIND\<rparr>)))"

definition sec_recovery :: "('a secsvc_scheme \<Rightarrow> 'a secsvc_scheme) \<Rightarrow> u32 \<Rightarrow> 'a secsvc_scheme \<Rightarrow> 'a secsvc_scheme" where
  "sec_recovery rt seed_r s =
     (let s = sec_call (Sec_out ''Security breach detected !\<newline>'') s;
          s = sec_call (Sec_out ''Recovery in progress...\<newline>'') s
      in sec_service rt seed_r (s\<lparr>secsvc_reg := SEC_SVC_BIND\<rparr>))"

section \<open>The secure store\<close>

text \<open>A block is read into, and written from, the first \<open>blck_size\<close> bytes of the caller's buffer.\<close>

definition sec_storeread :: "u8 \<Rightarrow> nat \<Rightarrow> 'a secsvc_scheme \<Rightarrow> u8 list option" where
  "sec_storeread blck_uid blck_size s =
     (if blck_uid \<le> 1 \<and> blck_size \<le> length (secure_store s ! 0)
      then Some (take blck_size (secure_store s ! unat blck_uid)) else None)"

definition sec_storewrite :: "u8 \<Rightarrow> u8 list \<Rightarrow> 'a secsvc_scheme \<Rightarrow> bool \<times> 'a secsvc_scheme" where
  "sec_storewrite blck_uid blck s =
     (let is_blckvalid = (blck_uid \<le> 1 \<and> length blck \<le> length (secure_store s ! 0))
      in (is_blckvalid,
          if is_blckvalid
          then s\<lparr>secure_store := (secure_store s)[unat blck_uid :=
                  blck @ drop (length blck) (secure_store s ! unat blck_uid)]\<rparr>
          else s))"

section \<open>Verification and hash\<close>

text \<open>The nonce comes from the generator of the security runtime, \<open>_sec_genprngseq\<close>.\<close>

definition sec_nonce ::
    "(nat \<Rightarrow> 'a secsvc_scheme \<Rightarrow> u8 list \<times> 'a secsvc_scheme) \<Rightarrow> nat \<Rightarrow> 'a secsvc_scheme \<Rightarrow>
       bool \<times> u8 list \<times> 'a secsvc_scheme" where
  "sec_nonce genprngseq nonce_size s = (let (nonce, s) = genprngseq nonce_size s in (True, nonce, s))"

text \<open>
  The callback compares the protected code with the region it was given, after it has
  established that both are the same object. A proof longer than the code would be
  copied from behind it; the model has no value for that.
\<close>

datatype proof_result = Refused | Proof "u8 list"

definition sec_verify :: "bool \<Rightarrow> nat \<Rightarrow> 'a secsvc_scheme \<Rightarrow> proof_result option" where
  "sec_verify is_protected_code proof_size s =
     (if \<not> is_protected_code then Some Refused
      else if protected_code s \<noteq> protected_code s then Some Refused
      else if proof_size \<le> PROTECTED_SIZE then Some (Proof (take proof_size (protected_code s)))
      else None)"

definition hash_init :: "nat \<Rightarrow> u8 list" where
  "hash_init hash_size = map (\<lambda>i. of_nat (i * 31 + 17)) [0..<hash_size]"

definition rol :: "nat \<Rightarrow> u8 \<Rightarrow> u8" where
  "rol k x = push_bit k x OR drop_bit (8 - k) x"

definition hash_mix :: "nat \<Rightarrow> nat \<Rightarrow> u8 \<Rightarrow> u8 list \<Rightarrow> u8 list" where
  "hash_mix hash_size i b h =
     (let hash_i = i mod hash_size;
          h = h[hash_i := h ! hash_i XOR (b + of_nat i)];
          h = h[hash_i := rol 5 (h ! hash_i)];
          j = (hash_i + 1) mod hash_size
      in h[j := h ! j XOR b * 3])"

definition hash_final :: "nat \<Rightarrow> nat \<Rightarrow> u8 list \<Rightarrow> u8 list" where
  "hash_final hash_size i h =
     (let h = h[i := h ! i XOR h ! ((i + 7) mod hash_size)]
      in h[i := rol 3 (h ! i)])"

definition hash_mixes :: "nat \<Rightarrow> u8 list \<Rightarrow> u8 list \<Rightarrow> u8 list" where
  "hash_mixes hash_size region h =
     fold (\<lambda>i. hash_mix hash_size i (region ! i)) [0..<length region] h"

definition sec_hash :: "u8 list \<Rightarrow> nat \<Rightarrow> u8 list" where
  "sec_hash region hash_size =
     fold (hash_final hash_size) [0..<hash_size] (hash_mixes hash_size region (hash_init hash_size))"

section \<open>The store keeps what is written\<close>

definition store_wf :: "nat \<Rightarrow> 'a secsvc_scheme \<Rightarrow> bool" where
  "store_wf n s \<longleftrightarrow> length (secure_store s) = 2 \<and> (\<forall>b \<in> set (secure_store s). length b = n)"

lemma store_roundtrip:
  assumes "store_wf n s" "uid \<le> 1" "length blck \<le> n"
  shows "\<exists>s'. sec_storewrite uid blck s = (True, s') \<and> store_wf n s'
    \<and> sec_storeread uid (length blck) s' = Some blck
    \<and> (\<forall>uid' m. uid' \<noteq> uid \<longrightarrow> sec_storeread uid' m s' = sec_storeread uid' m s)"
proof -
  have u: "unat uid < 2" using assms(2) by (simp add: word_le_nat_alt)
  have len: "length (secure_store s ! i) = n" if "i < 2" for i
    using assms(1) that by (simp add: store_wf_def)
  show ?thesis using assms u len [of 0] len [OF u]
    by (auto simp: sec_storewrite_def sec_storeread_def store_wf_def Let_def nth_list_update
        word_unat_eq_iff dest!: in_set_conv_nth [THEN iffD1])
qed


section \<open>The hash loses no difference\<close>

abbreviation hashes :: "nat \<Rightarrow> u8 list set" where
  "hashes n \<equiv> {h. length h = n}"

lemma rol_inverse: "rol 3 (rol 5 x) = x" "rol 5 (rol 3 x) = x"
  by (auto simp: rol_def word_bit_eq_iff bit_simps dest: bit_imp_le_length)

lemma rol_inj: "rol 5 x = rol 5 y \<longleftrightarrow> x = y" "rol 3 x = rol 3 y \<longleftrightarrow> x = y"
  using rol_inverse by metis+

lemma xor_right_cancel: "x XOR z = y XOR z \<longleftrightarrow> x = y" for x y z :: u8
  by (metis xor.assoc xor.right_neutral xor_self_eq)

lemma length_hash_mix [simp]: "length (hash_mix n i b h) = length h"
  by (simp add: hash_mix_def Let_def)

lemma length_hash_final [simp]: "length (hash_final n i h) = length h"
  by (simp add: hash_final_def Let_def)

lemma next_index: "2 \<le> n \<Longrightarrow> i < n \<Longrightarrow> (i + 1) mod n \<noteq> i \<and> (i + 1) mod n < n" for i n :: nat
  by (auto simp: mod_if)

lemma hash_mix_nth:
  assumes "2 \<le> n" "length h = n" "k < n"
  shows "hash_mix n i b h ! k =
    (if k = i mod n then rol 5 (h ! k XOR (b + of_nat i))
     else if k = (i mod n + 1) mod n then h ! k XOR b * 3 else h ! k)"
  using assms next_index [of n "i mod n"]
  by (auto simp: hash_mix_def Let_def nth_list_update)

text \<open>A round of the mixing loop can be undone when the byte is known, and two bytes give different
  results on the same state.\<close>

lemma hash_mix_inj: "2 \<le> n \<Longrightarrow> inj_on (hash_mix n i b) (hashes n)"
proof (rule inj_onI)
  fix h h' assume n: "2 \<le> n" and "h \<in> hashes n" "h' \<in> hashes n" and eq: "hash_mix n i b h = hash_mix n i b h'"
  then have len: "length h = n" "length h' = n" by simp_all
  show "h = h'"
  proof (rule nth_equalityI)
    fix k assume "k < length h"
    with len hash_mix_nth [OF n len(1), of k i b] hash_mix_nth [OF n len(2), of k i b] eq
    show "h ! k = h' ! k" by (auto simp: rol_inj xor_right_cancel split: if_splits)
  qed (use len in simp)
qed

lemma hash_mix_byte:
  assumes "2 \<le> n" "length h = n" "hash_mix n i b h = hash_mix n i b' h"
  shows "b = b'"
proof -
  from assms(1) have "i mod n < n" by simp
  from hash_mix_nth [OF assms(1,2) this, of i b] hash_mix_nth [OF assms(1,2) this, of i b'] assms(3)
  have "(b + of_nat i) XOR h ! (i mod n) = (b' + of_nat i) XOR h ! (i mod n)"
    by (simp add: rol_inj xor.commute)
  then show ?thesis by (simp add: xor_right_cancel)
qed

lemma hash_final_inj:
  assumes "2 \<le> n" "n \<noteq> 7" "i < n"
  shows "inj_on (hash_final n i) (hashes n)"
proof (rule inj_onI)
  fix h h' assume "h \<in> hashes n" "h' \<in> hashes n" and eq: "hash_final n i h = hash_final n i h'"
  then have len: "length h = n" "length h' = n" by simp_all
  let ?j = "(i + 7) mod n"
  have j: "?j \<noteq> i" "?j < n"
  proof -
    show "?j \<noteq> i"
    proof
      assume "?j = i"
      with assms(3) have "n dvd 7" by (metis mod_less mod_eq_dvd_iff_nat le_add1 add_diff_cancel_left')
      moreover from this have "n \<le> 7" by (rule dvd_imp_le) simp
      with assms have "n = 2 \<or> n = 3 \<or> n = 4 \<or> n = 5 \<or> n = 6" by arith
      ultimately show False by auto
    qed
    show "?j < n" using assms by simp
  qed
  have other: "h ! k = h' ! k" if "k < n" "k \<noteq> i" for k
    using arg_cong [OF eq, of "\<lambda>l. l ! k"] that len by (simp add: hash_final_def Let_def)
  have "h ! i XOR h ! ?j = h' ! i XOR h' ! ?j"
    using arg_cong [OF eq, of "\<lambda>l. l ! i"] len assms(3) by (simp add: hash_final_def Let_def rol_inj)
  with other [OF j(2,1)] have "h ! i = h' ! i" by (simp add: xor_right_cancel)
  with other len show "h = h'" by (metis nth_equalityI)
qed

lemma fold_inj_on:
  assumes "\<And>x. x \<in> set xs \<Longrightarrow> inj_on (f x) A" "\<And>x. x \<in> set xs \<Longrightarrow> f x ` A \<subseteq> A"
  shows "inj_on (fold f xs) A"
  using assms
proof (induction xs)
  case (Cons x xs)
  have "inj_on (fold f xs) A" by (rule Cons.IH) (simp_all add: Cons.prems)
  then have "inj_on (fold f xs) (f x ` A)" by (rule inj_on_subset) (simp add: Cons.prems(2))
  with Cons.prems(1) [of x] comp_inj_on [of "f x" A "fold f xs"] show ?case by (simp add: comp_def)
qed simp


lemma hash_mixes_inj:
  assumes "2 \<le> n"
  shows "inj_on (fold (\<lambda>i. hash_mix n i (region i)) is) (hashes n)"
  using assms by (intro fold_inj_on) (auto intro: hash_mix_inj)

lemma length_hash_mixes: "length (fold (\<lambda>i. hash_mix n i (region i)) is h) = length h"
  by (induction "is" arbitrary: h) simp_all

section \<open>Properties\<close>

text \<open>
  C39: for every hash size of at least two bytes other than seven, changing any single byte of a
  region changes its hash.
\<close>

theorem sec_hash_detects_change:
  assumes "2 \<le> n" "n \<noteq> 7" "k < length region" "b \<noteq> region ! k"
  shows "sec_hash (region[k := b]) n \<noteq> sec_hash region n"
proof
  define A B where "A = [0..<k]" and "B = [Suc k..<length region]"
  have split: "[0..<length region] = A @ k # B"
    using assms(3) upt_add_eq_append [of 0 k "length region - k"] by (simp add: A_def B_def upt_conv_Cons)
  let ?f = "\<lambda>r i. hash_mix n i (r ! i)"
  define h where "h = fold (?f region) A (hash_init n)"
  have h: "length h = n" by (simp add: h_def length_hash_mixes hash_init_def)
  have nth: "region[k := b] ! i = region ! i" if "i \<noteq> k" for i
    using that by simp
  have same: "fold (?f (region[k := b])) is x = fold (?f region) is x" if "k \<notin> set is" for "is" x
    using that by (intro fold_cong refl) (metis nth)
  have mixes: "hash_mixes n region (hash_init n) = fold (?f region) B (hash_mix n k (region ! k) h)"
    "hash_mixes n (region[k := b]) (hash_init n) = fold (?f region) B (hash_mix n k b h)"
    using assms(3) same [of A] same [of B] by (simp_all add: hash_mixes_def split h_def A_def B_def)
  have fin: "inj_on (fold (hash_final n) [0..<n]) (hashes n)"
    using assms(1,2) by (intro fold_inj_on) (auto intro: hash_final_inj)
  assume "sec_hash (region[k := b]) n = sec_hash region n"
  then have "fold (?f region) B (hash_mix n k b h) = fold (?f region) B (hash_mix n k (region ! k) h)"
    using inj_onD [OF fin] h by (simp add: sec_hash_def mixes length_hash_mixes)
  then have "hash_mix n k b h = hash_mix n k (region ! k) h"
    using inj_onD [OF hash_mixes_inj [OF assms(1)]] h by fastforce
  from hash_mix_byte [OF assms(1) h this] assms(4) show False by simp
qed


theorem sec_hash_detects_change_witness:
  "sec_hash [0x10, 0x20, 0x31] 4 \<noteq> sec_hash [0x10, 0x20, 0x30] 4"
  using sec_hash_detects_change [of 4 2 "[0x10, 0x20, 0x30]" "0x31"] by simp

text \<open>With a hash of seven bytes the last pass combines every byte with itself: the hash of every
  region is zero.\<close>

lemma hash_final_zeroes:
  "m \<le> 7 \<Longrightarrow> length h = 7 \<Longrightarrow> k < 7 \<Longrightarrow>
    fold (hash_final 7) [0..<m] h ! k = (if k < m then 0 else h ! k)
    \<and> length (fold (hash_final 7) [0..<m] h) = 7"
proof (induction m)
  case (Suc m)
  then show ?case
    by (simp add: hash_final_def Let_def nth_list_update rol_def)
qed simp

theorem sec_hash_seven: "sec_hash region 7 = replicate 7 0"
proof -
  have "length (hash_mixes 7 region (hash_init 7)) = 7"
    by (simp add: hash_mixes_def length_hash_mixes hash_init_def)
  note zero = hash_final_zeroes [of 7, OF _ this]
  have "length (sec_hash region 7) = 7" using zero [of 0] by (simp add: sec_hash_def)
  moreover have "sec_hash region 7 ! k = 0" if "k < 7" for k
    using zero [OF _ that] that by (simp add: sec_hash_def)
  ultimately show ?thesis by (intro nth_equalityI) simp_all
qed

end
