(* ===== verification/Sb.thy ===== *)
theory Sb
  imports Xdma_Rx Fat
begin

text \<open>
  The sound playback service and the \<open>play\<close> command (\<open>arch/mb_le/services/sb_service.c\<close>). The
  service is a state machine polled by the kernel: it starts the cyclic DMA of two chunks,
  refills the chunk whose transfer has completed from the open file, and closes the file and
  stops the DMA at the end. It composes the sound blaster part of the DMA driver (\<open>Xdma\<close>), the
  file layer (\<open>Fat\<close>) and the kernel signals.
\<close>

section \<open>State\<close>

abbreviation SB_S_SAMPLE :: u8 where "SB_S_SAMPLE \<equiv> 0x80"
abbreviation SB_MAX_BUFFER :: u32 where "SB_MAX_BUFFER \<equiv> 16384"
abbreviation SB_BUFF_CHUNK :: u32 where "SB_BUFF_CHUNK \<equiv> 8192"

datatype sb_state = SB_INIT | SB_IDLE | SB_WAIT | SB_WRITE | SB_CLOSE | SB_OTHER

record 'v sb = xdma +
  fat :: "'v fat"
  fd :: int
  sb_reg :: sb_state
  sb_playsize :: u32
  sb_playcount :: u32

section \<open>The service\<close>

text \<open>
  \<open>sb_service\<close> calls itself after it has changed \<open>sb_reg\<close>, and the calls only lead from waiting to
  writing, from there or from idle to closing, and from closing to the initial state. Each
  case is a definition that uses the ones it continues with.
\<close>

definition sb_init :: "('v, 'a) sb_scheme \<Rightarrow> ('v, 'a) sb_scheme" where
  "sb_init s = s\<lparr>fd := - 1, sb_playsize := 0, sb_playcount := 0, sb_reg := SB_IDLE\<rparr>"

definition sb_close :: "hw \<Rightarrow> 'v ff \<Rightarrow> ('v, 'a) sb_scheme \<Rightarrow> ('v, 'a) sb_scheme option" where
  "sb_close hw ff s = do {
     let s = s\<lparr>sb_reg := SB_INIT\<rparr>;
     let s = s\<lparr>fat := fat_fclose ff (fd s) (fat s)\<rparr>;
     s \<leftarrow> sbdma_sgstop hw s;
     let s = emit (Jentry ''sb_svc: play file closed and DMA stopped'') s;
     Some (sb_init s)
   }"

definition sb_idle :: "hw \<Rightarrow> 'v ff \<Rightarrow> ('v, 'a) sb_scheme \<Rightarrow> ('v, 'a) sb_scheme option" where
  "sb_idle hw ff s = do {
     let s = s\<lparr>sb_reg := SB_IDLE\<rparr>;
     if fd s < 0 then Some s
     else do {
       let s = s\<lparr>sb_playcount := sb_playcount s + 1\<rparr>;
       let s = s\<lparr>sb_reg := SB_WAIT\<rparr>;
       (buffer, s) \<leftarrow> sbdma_sgcyclic hw SB_S_SAMPLE SB_MAX_BUFFER SB_BUFF_CHUNK s;
       if buffer = 0 then sb_close hw ff (s\<lparr>sb_reg := SB_CLOSE\<rparr>) else Some s
     }
   }"

definition sb_readsize :: "u32 \<Rightarrow> u32" where
  "sb_readsize playsize = (if playsize > SB_BUFF_CHUNK then SB_BUFF_CHUNK else playsize)"

definition sb_write :: "hw \<Rightarrow> 'v ff \<Rightarrow> ('v, 'a) sb_scheme \<Rightarrow> ('v, 'a) sb_scheme option" where
  "sb_write hw ff s =
     (let s = s\<lparr>sb_reg := SB_WAIT\<rparr>;
          (buffer, s) = sbdma_sgcmplt SB_BUFF_CHUNK s
      in if buffer = 0 then do {
           s \<leftarrow> sb_close hw ff (s\<lparr>sb_reg := SB_CLOSE\<rparr>);
           Some (emit (Jentry ''sb_svc: cannot write. DMA gave NULL buffer'') s)
         }
         else
           let readsize = sb_readsize (sb_playsize s);
               (n_read, bytes, f) = fat_fread ff (fd s) readsize (fat s);
               s = s\<lparr>fat := f, mem := lay_bytes buffer bytes (mem s)\<rparr>;
               s = s\<lparr>sb_playsize := sb_playsize s - n_read\<rparr>
           in if n_read = 0 \<and> sb_playcount s = 0 then do {
                s \<leftarrow> sb_close hw ff (s\<lparr>sb_reg := SB_CLOSE\<rparr>);
                Some (emit (Jentry ''sb_svc: playback OK'') s)
              }
              else
                let s = (if n_read = 0 then s\<lparr>mem := memset buffer SB_S_SAMPLE SB_BUFF_CHUNK (mem s)\<rparr>
                         else if n_read < SB_BUFF_CHUNK
                         then s\<lparr>mem := memset (buffer + n_read) SB_S_SAMPLE (SB_BUFF_CHUNK - n_read) (mem s)\<rparr>
                         else s)
                in Some (if n_read < SB_BUFF_CHUNK then xdcache_flush buffer SB_BUFF_CHUNK s else s))"

definition sb_wait :: "hw \<Rightarrow> kern \<Rightarrow> 'v ff \<Rightarrow> ('v, 'a) sb_scheme \<Rightarrow> ('v, 'a) sb_scheme option" where
  "sb_wait hw kern ff s = do {
     let s = s\<lparr>sb_reg := SB_WAIT\<rparr>;
     let s = emit (SigMask True {SIGINT, SIGBUS}) s;
     let sgls = kern (bus s);
     let s = emit (SigPending sgls) s;
     if SIGINT \<notin> sgls \<and> SIGBUS \<notin> sgls then Some s
     else do {
       let sb_sgl = (sbdma_sgbuserrSignal s \<or> sbdma_sgcmpltSignal s);
       s \<leftarrow> (if sb_sgl \<and> sbdma_sgbuserrSignal s
             then Some (emit (Jentry ''sb_svc: DMA bus error occured'') (s\<lparr>sb_reg := SB_CLOSE\<rparr>))
             else if sb_sgl \<and> sbdma_sgcmpltSignal s
             then sb_write hw ff (s\<lparr>sb_reg := SB_WRITE, sb_playcount := sb_playcount s - 1\<rparr>)
             else Some s);
       Some (if sb_sgl then emit (SigMask False sgls) s else s)
     }
   }"

definition sb_service :: "hw \<Rightarrow> kern \<Rightarrow> 'v ff \<Rightarrow> ('v, 'a) sb_scheme \<Rightarrow> ('v, 'a) sb_scheme option" where
  "sb_service hw kern ff s =
     (case sb_reg s of
        SB_INIT \<Rightarrow> Some (sb_init s)
      | SB_IDLE \<Rightarrow> sb_idle hw ff s
      | SB_WAIT \<Rightarrow> sb_wait hw kern ff s
      | SB_WRITE \<Rightarrow> sb_write hw ff s
      | SB_CLOSE \<Rightarrow> sb_close hw ff s
      | SB_OTHER \<Rightarrow> Some (sb_init (s\<lparr>sb_reg := SB_INIT\<rparr>)))"

section \<open>The play command\<close>

text \<open>The header of a WAV file is a packed struct of 44 bytes; its integers are little endian.\<close>

definition le_at :: "u8 list \<Rightarrow> nat \<Rightarrow> nat \<Rightarrow> nat" where
  "le_at w off n = (\<Sum>i<n. unat (w ! (off + i)) * 256 ^ i)"

abbreviation WAV_HEADER :: nat where "WAV_HEADER \<equiv> 44"

definition wNumChannels :: "u8 list \<Rightarrow> nat" where "wNumChannels w = le_at w 22 2"
definition dwSampleRate :: "u8 list \<Rightarrow> nat" where "dwSampleRate w = le_at w 24 4"
definition wBitsPerSample :: "u8 list \<Rightarrow> nat" where "wBitsPerSample w = le_at w 34 2"
definition data_dwSize :: "u8 list \<Rightarrow> nat" where "data_dwSize w = le_at w 40 4"

definition wav_supported :: "u8 list \<Rightarrow> bool" where
  "wav_supported w \<longleftrightarrow> dwSampleRate w = 22050 \<and> wBitsPerSample w = 8 \<and> wNumChannels w = 1"

text \<open>\<open>FILE_READ\<close> is a constant of the kernel's file interface. The header struct is on the stack: what the read does not store keeps the bytes \<open>junk\<close> that
  were there. After a failed read the command reports the failure and goes on.\<close>

definition sb_m ::
    "'v ff \<Rightarrow> u8 \<Rightarrow> u8 list \<Rightarrow> string list \<Rightarrow> ('v, 'a) sb_scheme \<Rightarrow> (int \<times> ('v, 'a) sb_scheme) option" where
  "sb_m ff FILE_READ junk argv s =
     (if length argv < 2 then Some (- 1, emit (Out ''no file given\<newline>'' []) s)
      else do {
        (ifd, f) \<leftarrow> fat_fopen ff (argv ! 1) FILE_READ (fat s);
        let s = s\<lparr>fat := f\<rparr>;
        if ifd < 0 then Some (- 1, emit (Out ''unable open an input file\<newline>'' []) s)
        else do {
          let (n_read, bytes, f) = fat_fread ff ifd (of_nat WAV_HEADER) (fat s);
          let s = s\<lparr>fat := f\<rparr>;
          let w = bytes @ drop (length bytes) junk;
          let s = (if n_read = 0
                   then emit (Out ''failed read input file\<newline>'' []) (s\<lparr>fat := fat_fclose ff ifd (fat s)\<rparr>)
                   else s);
          if \<not> wav_supported w then
            Some (- 1, emit (Out ''input file is not a wav file or has unsupported format\<newline>supported format: 22 kHz, 8bit, mono\<newline>'' [])
                         (s\<lparr>fat := fat_fclose ff ifd (fat s)\<rparr>))
          else do {
            let samples_size = (of_nat (data_dwSize w) :: u32);
            let playcount = samples_size div SB_BUFF_CHUNK;
            let playcount = (if samples_size mod SB_BUFF_CHUNK > 0 then playcount + 1 else playcount);
            let playcount = playcount + 1;
            let s = emit (Out ''audio samples size: %d\<newline>'' [samples_size]) s;
            let s = emit (Out ''audio format: %d Hz, %dbit, mono\<newline>''
                           [of_nat (dwSampleRate w), of_nat (wBitsPerSample w)]) s;
            let s = emit (Out ''playing...\<newline>'' []) s;
            Some (0, s\<lparr>fd := ifd, sb_playcount := playcount, sb_playsize := samples_size\<rparr>)
          }
        }
      })"

end
