(* ===== verification/Sb_Play.thy ===== *)
theory Sb_Play
  imports Sb
begin

text \<open>
  Playing a file: the chunks the service hands to the DMA are the bytes of the file in order,
  and the service ends by itself with the file closed and the DMA stopped.
\<close>

section \<open>The ring of two chunks\<close>

abbreviation sb_bd :: "nat \<Rightarrow> u32" where "sb_bd i \<equiv> bd_at XDMA1_MM2S_BDRING i"
abbreviation sb_buf :: "nat \<Rightarrow> u32" where "sb_buf i \<equiv> XDMA1_IO_BUFFER + of_nat i * SB_BUFF_CHUNK"

definition sb_ring :: "(u32 \<Rightarrow> xsgdmadesc) \<Rightarrow> bool" where
  "sb_ring B \<longleftrightarrow> (\<forall>i < 2. bd_next (B (sb_bd i)) = sb_bd (Suc i mod 2) \<and> bd_buffer (B (sb_bd i)) = sb_buf i
     \<and> fld_get desc_control ''buffer_len'' (bd_control (B (sb_bd i))) = SB_BUFF_CHUNK
     \<and> \<not> fld_on desc_status ''cmplt'' (bd_status (B (sb_bd i))))"

text \<open>The engine completes chunk \<open>i\<close>: it sets the flag in the descriptor and raises its interrupt.\<close>

definition chunk_done :: "nat \<Rightarrow> (u32 \<Rightarrow> xsgdmadesc) \<Rightarrow> u32 \<Rightarrow> xsgdmadesc" where
  "chunk_done i B =
     B(sb_bd i := (B (sb_bd i))\<lparr>bd_status := fld_set desc_status ''cmplt'' 1 (bd_status (B (sb_bd i)))\<rparr>)"

definition dma_done :: "hw \<Rightarrow> nat \<Rightarrow> ('v, 'a) sb_scheme \<Rightarrow> ('v, 'a) sb_scheme" where
  "dma_done ihw i s = onsbdma_irq ihw (s\<lparr>bds := chunk_done i (bds s)\<rparr>)"

lemma sb_bd_neq: "sb_bd 0 \<noteq> sb_bd 1" "sb_bd 1 \<noteq> sb_bd 0" "sb_bd 0 \<noteq> 0" "sb_bd 1 \<noteq> 0"
  by (simp_all add: bd_at_def)

lemma sb_bd_eq: "i < 2 \<Longrightarrow> j < 2 \<Longrightarrow> sb_bd i = sb_bd j \<longleftrightarrow> i = j"
  by (rule bd_at_inj) simp_all

lemma cmplt_set: "fld_on desc_status ''cmplt'' (fld_set desc_status ''cmplt'' 1 (st :: u32))"
proof -
  have "''cmplt'' \<in> fst ` set desc_status" "fld_width desc_status ''cmplt'' = 1"
    by (simp_all add: desc_status_def)
  then show ?thesis by (simp add: fld_on_def dstatus.get_set)
qed

lemma sb_find_done:
  assumes "sb_ring B" "i < 2"
  shows "sbdma_find 2 XDMA1_MM2S_BDRING (chunk_done i B) = Some (sb_bd i)"
proof -
  have "i = 0 \<or> i = 1" using assms(2) by auto
  then show ?thesis using assms(1) sb_bd_neq
    by (auto simp: sb_ring_def chunk_done_def cmplt_set numeral_eq_Suc All_less_Suc)
qed

lemma sb_ring_refill:
  assumes "sb_ring B" "i < 2"
  shows "sb_ring ((chunk_done i B)(sb_bd i := (chunk_done i B (sb_bd i))
     \<lparr>bd_status := clear_status (bd_status (chunk_done i B (sb_bd i)))\<rparr>))"
  using assms by (auto simp: sb_ring_def chunk_done_def clear_status_fields sb_bd_eq)

lemma sgcmplt_refill:
  assumes ring: "sb_ring B" and i: "i < 2" and B: "bds s = chunk_done i B"
  shows "\<exists>B' t. sbdma_sgcmplt SB_BUFF_CHUNK s = (sb_buf i, s\<lparr>bds := B', bus := t, sbdma_cmplt := False\<rparr>)
    \<and> sb_ring B'"
proof -
  define B' where "B' = (bds s)(sb_bd i := (bds s (sb_bd i))
     \<lparr>bd_status := clear_status (bd_status (bds s (sb_bd i)))\<rparr>)"
  have d: "bd_buffer (bds s (sb_bd i)) = sb_buf i"
    "fld_get desc_control ''buffer_len'' (bd_control (bds s (sb_bd i))) = SB_BUFF_CHUNK"
    using ring i by (auto simp: B chunk_done_def sb_ring_def)
  have "sbdma_find 2 XDMA1_MM2S_BDRING (bds s) = Some (sb_bd i)"
    using sb_find_done [OF ring i] B by simp
  then have "\<exists>t. sbdma_sgcmplt SB_BUFF_CHUNK s = (sb_buf i, s\<lparr>bds := B', bus := t, sbdma_cmplt := False\<rparr>)"
    by (simp add: sbdma_sgcmplt_def xdcache_invalidate_def xdcache_flush_def emit_def d B'_def Let_def)
      (rule exI, rule refl)
  moreover have "sb_ring B'" using sb_ring_refill [OF ring i] by (simp add: B'_def B)
  ultimately show ?thesis by blast
qed


section \<open>The file being read\<close>

text \<open>
  Documented behaviour of FatFs: reading an open file delivers its next bytes, as many as are
  asked for or, at the end of the file, as many as are left.
\<close>

coinductive file_at :: "'v ff \<Rightarrow> nat \<Rightarrow> 'v \<Rightarrow> u8 list \<Rightarrow> bool" for ff fp where
  "(\<And>n. \<exists>v'. f_read ff (Some fp) n v = (FR_OK, take (unat n) F, of_nat (length (take (unat n) F)), v')
      \<and> file_at ff fp v' (drop (unat n) F)) \<Longrightarrow> file_at ff fp v F"

lemma fat_fread_file:
  assumes "fd_valid d" "open_files f ! nat d = Some fp" "file_at ff fp (vol f) F"
  shows "\<exists>f'. fat_fread ff d n f = (of_nat (length (take (unat n) F)), take (unat n) F, f')
    \<and> open_files f' = open_files f \<and> files f' = files f \<and> file_at ff fp (vol f') (drop (unat n) F)"
proof -
  from assms(3) have "\<exists>v'. f_read ff (Some fp) n (vol f) =
      (FR_OK, take (unat n) F, of_nat (length (take (unat n) F)), v') \<and> file_at ff fp v' (drop (unat n) F)"
    by (cases rule: file_at.cases) blast
  then obtain v' where
    "f_read ff (Some fp) n (vol f) = (FR_OK, take (unat n) F, of_nat (length (take (unat n) F)), v')"
    "file_at ff fp v' (drop (unat n) F)" by blast
  with assms show ?thesis by (simp add: fat_fread_def set_fatErrCode_def)
qed

text \<open>A chunk of the samples \<open>D\<close>, filled up with silence.\<close>

definition sb_chunk :: "u8 list \<Rightarrow> u8 list" where
  "sb_chunk D = take 8192 D @ replicate (8192 - length D) SB_S_SAMPLE"

lemma length_sb_chunk [simp]: "length (sb_chunk D) = 8192"
  by (simp add: sb_chunk_def)

lemma bytes_at_chunk:
  assumes "length d \<le> 8192"
  shows "bytes_at (memset (a + of_nat (length d)) SB_S_SAMPLE (8192 - of_nat (length d)) (lay_bytes a d M)) a 8192 =
    d @ replicate (8192 - length d) SB_S_SAMPLE"
proof (rule nth_equalityI)
  fix k assume "k < length (bytes_at (memset (a + of_nat (length d)) SB_S_SAMPLE (8192 - of_nat (length d)) (lay_bytes a d M)) a 8192)"
  then have k: "k < 8192" by (simp add: bytes_at_def)
  have ul: "unat (of_nat (length d) :: u32) = length d" "unat (of_nat k :: u32) = k"
    using assms k by (simp_all add: unat_of_nat)
  have room: "unat (8192 - of_nat (length d) :: u32) = 8192 - length d"
    using assms ul by (simp add: unat_sub word_le_nat_alt)
  show "bytes_at (memset (a + of_nat (length d)) SB_S_SAMPLE (8192 - of_nat (length d)) (lay_bytes a d M)) a 8192 ! k =
      (d @ replicate (8192 - length d) SB_S_SAMPLE) ! k"
  proof (cases "k < length d")
    case True
    then have "\<not> unat (of_nat k - of_nat (length d) :: u32) < 8192 - length d"
      using ul assms k by (simp add: unat_sub_if')
    then have "\<not> (of_nat k - of_nat (length d) :: u32) < 8192 - of_nat (length d)"
      using room by (simp add: word_less_nat_alt)
    with True k ul show ?thesis by (simp add: bytes_at_def memset_def lay_bytes_def nth_append)
  next
    case False
    then have "unat (of_nat k - of_nat (length d) :: u32) = k - length d"
      using ul by (simp add: unat_sub word_le_nat_alt)
    with False k room have "(of_nat k - of_nat (length d) :: u32) < 8192 - of_nat (length d)"
      by (simp add: word_less_nat_alt)
    with False k show ?thesis by (simp add: bytes_at_def memset_def nth_append)
  qed
qed (simp add: bytes_at_def assms)


section \<open>One completed chunk\<close>

definition sb_irq_hw :: "hw \<Rightarrow> bool" where
  "sb_irq_hw ihw \<longleftrightarrow> (\<forall>t. fld_on xdmasr ''ioc_irq'' (ihw t (ch_sr XDMA1_MM2S))
     \<and> \<not> fld_on xdmasr ''err_irq'' (ihw t (ch_sr XDMA1_MM2S)))"

lemma dma_done_eq:
  assumes "sb_irq_hw ihw"
  shows "\<exists>t. dma_done ihw i s = s\<lparr>bds := chunk_done i (bds s), sbdma_cmplt := True,
    sbdma_buserr := False, bus := Raise SIGINT # t\<rparr>"
  using assms
  by (simp add: dma_done_def onsbdma_irq_def xsgdma_ackirq_def ld32_def st32_def emit_def kernel_raise_def
      sb_irq_hw_def Let_def) (rule exI, rule refl)

lemma sb_wait_done:
  assumes "kern_ok kern" "sb_reg s = SB_WAIT" "bus s = Raise SIGINT # t" "sbdma_cmplt s" "\<not> sbdma_buserr s"
  shows "\<exists>t' S. sb_service hw kern ff s = map_option (emit (SigMask False S))
    (sb_write hw ff (s\<lparr>bus := t', sb_reg := SB_WRITE, sb_playcount := sb_playcount s - 1\<rparr>))"
proof -
  define t1 where "t1 = SigMask True {SIGINT, SIGBUS} # bus s"
  define S where "S = kern t1"
  have "raised SIGINT t1" using assms(3) by (simp add: t1_def)
  with assms(1) have S: "SIGINT \<in> S" by (simp add: kern_ok_def S_def)
  have "sb_service hw kern ff s = map_option (emit (SigMask False S))
      (sb_write hw ff (s\<lparr>bus := SigPending S # t1, sb_reg := SB_WRITE, sb_playcount := sb_playcount s - 1\<rparr>))"
    using assms S
    by (simp add: sb_service_def sb_wait_def emit_def sbdma_sgbuserrSignal_def sbdma_sgcmpltSignal_def
        map_conv_bind_option comp_def Let_def t1_def S_def)
  then show ?thesis by blast
qed

text \<open>The state of a playback: \<open>D\<close> are the samples still to be read, \<open>c\<close> the completions to come.\<close>

definition sb_playing :: "'v ff \<Rightarrow> u8 list \<Rightarrow> nat \<Rightarrow> ('v, 'a) sb_scheme \<Rightarrow> bool" where
  "sb_playing ff D c s \<longleftrightarrow> sb_reg s = SB_WAIT \<and> sb_ring (bds s) \<and> fd_valid (fd s)
     \<and> (\<exists>fp F. open_files (fat s) ! nat (fd s) = Some fp \<and> file_at ff fp (vol (fat s)) F
          \<and> D = take (unat (sb_playsize s)) F)
     \<and> c < 2 ^ 32 \<and> sb_playcount s = of_nat c"

text \<open>What is read for a chunk, and what is left to read.\<close>

lemma read_size:
  fixes p :: u32
  defines "n \<equiv> sb_readsize p"
  shows "take (unat n) F = take 8192 (take (unat p) F)"
    and "take (unat (p - of_nat (length (take (unat n) F)))) (drop (unat n) F) = drop 8192 (take (unat p) F)"
    and "length (take (unat n) F) \<le> 8192"
proof -
  have n: "unat n = min 8192 (unat p)" by (simp add: n_def sb_readsize_def word_less_nat_alt min_def)
  then show "take (unat n) F = take 8192 (take (unat p) F)" by (simp add: min.commute)
  define m where "m = length (take (unat n) F)"
  have m: "m \<le> unat p" "m = min (length F) (min 8192 (unat p))" by (simp_all add: m_def n)
  have "unat (of_nat m :: u32) = m" using m(1) by (rule unat_of_nat_u32)
  with m(1) have "unat (p - of_nat m) = unat p - m" by (simp add: unat_sub word_le_nat_alt)
  with m(2) n show "take (unat (p - of_nat (length (take (unat n) F)))) (drop (unat n) F) =
      drop 8192 (take (unat p) F)"
    unfolding m_def [symmetric]
    by (cases "length F \<le> unat n") (auto simp: drop_take min_def split: if_splits)
  show "length (take (unat n) F) \<le> 8192" using n by simp
qed


lemma sb_buf_nonzero: "i < 2 \<Longrightarrow> sb_buf i \<noteq> 0"
  by (auto simp: less_2_cases_iff)

lemma sb_write_eq:
  assumes ring: "sb_ring B" and i: "i < 2" and B: "bds s = chunk_done i B" and fdv: "fd_valid (fd s)"
    and fp: "open_files (fat s) ! nat (fd s) = Some fp" "file_at ff fp (vol (fat s)) F"
  defines "D \<equiv> take (unat (sb_playsize s)) F"
  shows "\<exists>B' t f p'. sb_ring B' \<and> open_files f = open_files (fat s) \<and> files f = files (fat s)
    \<and> (\<exists>F'. file_at ff fp (vol f) F' \<and> drop 8192 D = take (unat p') F')
    \<and> (let s' = s\<lparr>sb_reg := SB_WAIT, bds := B', bus := t, sbdma_cmplt := False, fat := f,
                 mem := lay_bytes (sb_buf i) (take 8192 D) (mem s), sb_playsize := p'\<rparr>
       in sb_write hw ff s =
        (if D = [] \<and> sb_playcount s = 0
         then map_option (emit (Jentry ''sb_svc: playback OK'')) (sb_close hw ff (s'\<lparr>sb_reg := SB_CLOSE\<rparr>))
         else Some (let s'' = s'\<lparr>mem := memset (sb_buf i + of_nat (length (take 8192 D))) SB_S_SAMPLE
                        (SB_BUFF_CHUNK - of_nat (length (take 8192 D))) (mem s')\<rparr>
                    in if length D < 8192 then xdcache_flush (sb_buf i) SB_BUFF_CHUNK s'' else s'')))"
proof -
  let ?s0 = "s\<lparr>sb_reg := SB_WAIT\<rparr>"
  from sgcmplt_refill [OF ring i, of ?s0] B obtain B' t where ring': "sb_ring B'"
    and cm: "sbdma_sgcmplt SB_BUFF_CHUNK ?s0 = (sb_buf i, ?s0\<lparr>bds := B', bus := t, sbdma_cmplt := False\<rparr>)"
    by auto
  define n where "n = sb_readsize (sb_playsize s)"
  note rs = read_size [of "sb_playsize s" F, folded n_def D_def]
  define d where "d = take 8192 D"
  have len: "length d \<le> 8192" "d = [] \<longleftrightarrow> D = []" "length d < 8192 \<longleftrightarrow> length D < 8192" by (auto simp: d_def)
  from fat_fread_file [OF fdv fp, of n] rs(1) obtain f where
    rd: "fat_fread ff (fd s) n (fat s) = (of_nat (length d), d, f)"
    and f: "open_files f = open_files (fat s)" "files f = files (fat s)" "file_at ff fp (vol f) (drop (unat n) F)"
    by (auto simp: d_def)
  define p' where "p' = sb_playsize s - of_nat (length d)"
  have left: "drop 8192 D = take (unat p') (drop (unat n) F)" using rs(1,2) by (simp add: p'_def d_def)
  have w: "of_nat (length d) = (0 :: u32) \<longleftrightarrow> D = []" "(of_nat (length d) :: u32) < SB_BUFF_CHUNK \<longleftrightarrow> length D < 8192"
  proof -
    have "unat (of_nat (length d) :: u32) = length d" using len(1) by (simp add: unat_of_nat)
    with len show "of_nat (length d) = (0 :: u32) \<longleftrightarrow> D = []"
      "(of_nat (length d) :: u32) < SB_BUFF_CHUNK \<longleftrightarrow> length D < 8192"
      by (auto simp: word_less_nat_alt unat_eq_zero [symmetric])
  qed
  have full: "length D \<ge> 8192 \<Longrightarrow> of_nat (length d) = (8192 :: u32)" by (simp add: d_def)
  have mem0: "memset x SB_S_SAMPLE 0 M = M" for x M by (simp add: memset_def)
  have "sb_write hw ff s = (let s' = s\<lparr>sb_reg := SB_WAIT, bds := B', bus := t, sbdma_cmplt := False, fat := f,
                 mem := lay_bytes (sb_buf i) d (mem s), sb_playsize := p'\<rparr>
       in if D = [] \<and> sb_playcount s = 0
         then map_option (emit (Jentry ''sb_svc: playback OK'')) (sb_close hw ff (s'\<lparr>sb_reg := SB_CLOSE\<rparr>))
         else Some (let s'' = s'\<lparr>mem := memset (sb_buf i + of_nat (length d)) SB_S_SAMPLE
                        (SB_BUFF_CHUNK - of_nat (length d)) (mem s')\<rparr>
                    in if length D < 8192 then xdcache_flush (sb_buf i) SB_BUFF_CHUNK s'' else s''))"
  proof -
    note rd' = rd [unfolded n_def]
    consider "D = []" | "D \<noteq> []" "length D < 8192" | "8192 \<le> length D" by linarith
    then show ?thesis
    proof cases
      case 1
      with len(2) have "d = []" by simp
      with 1 show ?thesis
        using sb_buf_nonzero [OF i] rd'
        by (simp add: sb_write_def cm p'_def map_conv_bind_option comp_def Let_def)
    next
      case 2
      with w show ?thesis
        using sb_buf_nonzero [OF i] by (simp add: sb_write_def cm rd' p'_def Let_def)
    next
      case 3
      with w full have "D \<noteq> []" "\<not> (of_nat (length d) :: u32) < SB_BUFF_CHUNK" "of_nat (length d) \<noteq> (0 :: u32)"
        by auto
      with 3 full show ?thesis
        using sb_buf_nonzero [OF i] rd' by (simp add: sb_write_def cm p'_def mem0 Let_def)
    qed
  qed
  then show ?thesis
    using ring' f left
    by (intro exI [of _ B'] exI [of _ t] exI [of _ f] exI [of _ p'] conjI exI [of _ "drop (unat n) F"])
      (simp_all add: Let_def flip: d_def)
qed


definition play_step ::
    "hw \<Rightarrow> hw \<Rightarrow> kern \<Rightarrow> 'v ff \<Rightarrow> nat \<Rightarrow> ('v, 'a) sb_scheme \<Rightarrow> ('v, 'a) sb_scheme option" where
  "play_step ihw hw kern ff i s = sb_service hw kern ff (dma_done ihw i s)"

lemma sb_close_returns:
  assumes "responds hw (ch_sr XDMA1_MM2S) (fld_on xdmasr ''halted'')"
  shows "\<exists>s'. sb_close hw ff s = Some s' \<and> sb_reg s' = SB_IDLE \<and> fd s' = - 1
    \<and> fat s' = fat_fclose ff (fd s) (fat s)"
proof -
  from responds_await [OF assms] obtain s1 where
    s1: "sbdma_sgstop hw (s\<lparr>sb_reg := SB_INIT, fat := fat_fclose ff (fd s) (fat s)\<rparr>) = Some s1"
    unfolding sbdma_sgstop_def xsgdma_engstop_def Let_def by blast
  then have "fat s1 = fat_fclose ff (fd s) (fat s)"
    by (auto simp: sbdma_sgstop_def xsgdma_engstop_def Let_def st32_def emit_def dest!: await_bus)
  with s1 show ?thesis by (simp add: sb_close_def sb_init_def emit_def)
qed

lemma sb_write_cases:
  assumes ring: "sb_ring B" and i: "i < 2" and B: "bds s = chunk_done i B" and fdv: "fd_valid (fd s)"
    and fp: "open_files (fat s) ! nat (fd s) = Some fp" "file_at ff fp (vol (fat s)) F"
    and D: "D = take (unat (sb_playsize s)) F" and c: "sb_playcount s = of_nat c" "c < 2 ^ 32"
  obtains (refill) s' where "D \<noteq> [] \<or> c \<noteq> 0" "sb_write hw ff s = Some s'"
      "sb_playing ff (drop 8192 D) c s'" "bytes_at (mem s') (sb_buf i) 8192 = sb_chunk D"
      "fd s' = fd s" "open_files (fat s') = open_files (fat s)" "files (fat s') = files (fat s)"
  | (last) s1 where "D = []" "c = 0" "sb_write hw ff s =
        map_option (emit (Jentry ''sb_svc: playback OK'')) (sb_close hw ff s1)"
      "fd s1 = fd s" "open_files (fat s1) = open_files (fat s)" "files (fat s1) = files (fat s)"
proof -
  have c0: "of_nat c = (0 :: u32) \<longleftrightarrow> c = 0" using c(2) by (auto simp: word_of_nat_eq_0_iff dest: nat_dvd_not_less)
  from sb_write_eq [OF ring i B fdv fp, of hw] obtain B' t f p' F' where
    B': "sb_ring B'" and f: "open_files f = open_files (fat s)" "files f = files (fat s)"
    and F': "file_at ff fp (vol f) F'" "drop 8192 D = take (unat p') F'"
    and eq: "let s' = s\<lparr>sb_reg := SB_WAIT, bds := B', bus := t, sbdma_cmplt := False, fat := f,
                 mem := lay_bytes (sb_buf i) (take 8192 D) (mem s), sb_playsize := p'\<rparr>
       in sb_write hw ff s =
        (if D = [] \<and> sb_playcount s = 0
         then map_option (emit (Jentry ''sb_svc: playback OK'')) (sb_close hw ff (s'\<lparr>sb_reg := SB_CLOSE\<rparr>))
         else Some (let s'' = s'\<lparr>mem := memset (sb_buf i + of_nat (length (take 8192 D))) SB_S_SAMPLE
                        (SB_BUFF_CHUNK - of_nat (length (take 8192 D))) (mem s')\<rparr>
                    in if length D < 8192 then xdcache_flush (sb_buf i) SB_BUFF_CHUNK s'' else s''))"
    unfolding D by blast
  define s' where "s' = s\<lparr>sb_reg := SB_WAIT, bds := B', bus := t, sbdma_cmplt := False, fat := f,
                 mem := lay_bytes (sb_buf i) (take 8192 D) (mem s), sb_playsize := p'\<rparr>"
  define s'' where "s'' = s'\<lparr>mem := memset (sb_buf i + of_nat (length (take 8192 D))) SB_S_SAMPLE
                        (SB_BUFF_CHUNK - of_nat (length (take 8192 D))) (mem s')\<rparr>"
  define r where "r = (if length D < 8192 then xdcache_flush (sb_buf i) SB_BUFF_CHUNK s'' else s'')"
  show thesis
  proof (cases "D = [] \<and> c = 0")
    case True
    with eq c f show ?thesis by (intro last [of "s'\<lparr>sb_reg := SB_CLOSE\<rparr>"]) (simp_all add: s'_def Let_def)
  next
    case False
    with eq c(1) c0 have wr: "sb_write hw ff s = Some r" by (simp add: r_def s''_def s'_def Let_def)
    have r: "mem r = mem s''" "sb_reg r = SB_WAIT" "bds r = B'" "fd r = fd s" "fat r = f"
      "sb_playsize r = p'" "sb_playcount r = of_nat c"
      using c(1) by (auto simp: r_def s''_def s'_def xdcache_flush_def emit_def)
    have "bytes_at (mem r) (sb_buf i) 8192 = sb_chunk D"
      using bytes_at_chunk [of "take 8192 D"] by (simp add: r(1) s''_def s'_def sb_chunk_def min_def)
    with False r f F' B' fdv fp(1) c(2) wr show ?thesis
      by (intro refill [of r]) (auto simp: sb_playing_def)
  qed
qed

lemma play_step_cases:
  assumes hw: "sb_irq_hw ihw" "kern_ok kern" and i: "i < 2" and play: "sb_playing ff D (Suc c) s"
  obtains (refill) s' where "D \<noteq> [] \<or> c \<noteq> 0" "play_step ihw hw kern ff i s = Some s'"
      "sb_playing ff (drop 8192 D) c s'" "bytes_at (mem s') (sb_buf i) 8192 = sb_chunk D"
      "fd s' = fd s" "open_files (fat s') = open_files (fat s)" "files (fat s') = files (fat s)"
  | (last) s1 S where "D = []" "c = 0" "play_step ihw hw kern ff i s =
        map_option (emit (SigMask False S) \<circ> emit (Jentry ''sb_svc: playback OK'')) (sb_close hw ff s1)"
      "fd s1 = fd s" "open_files (fat s1) = open_files (fat s)" "files (fat s1) = files (fat s)"
proof -
  from play obtain fp F where p: "sb_reg s = SB_WAIT" "sb_ring (bds s)" "fd_valid (fd s)" "Suc c < 2 ^ 32"
    "sb_playcount s = of_nat (Suc c)" and fp: "open_files (fat s) ! nat (fd s) = Some fp"
    "file_at ff fp (vol (fat s)) F" and D: "D = take (unat (sb_playsize s)) F"
    unfolding sb_playing_def by blast
  obtain t where s1: "dma_done ihw i s = s\<lparr>bds := chunk_done i (bds s), sbdma_cmplt := True,
    sbdma_buserr := False, bus := Raise SIGINT # t\<rparr>" using dma_done_eq [OF hw(1)] by blast
  define s1 where "s1 = dma_done ihw i s"
  have "sb_reg s1 = SB_WAIT" "bus s1 = Raise SIGINT # t" "sbdma_cmplt s1" "\<not> sbdma_buserr s1"
    using p(1) by (simp_all add: s1_def s1)
  from sb_wait_done [OF hw(2) this, of hw ff] obtain t' S where
    "sb_service hw kern ff s1 = map_option (emit (SigMask False S))
      (sb_write hw ff (s1\<lparr>bus := t', sb_reg := SB_WRITE, sb_playcount := sb_playcount s1 - 1\<rparr>))"
    by blast
  moreover define w where "w = s1\<lparr>bus := t', sb_reg := SB_WRITE, sb_playcount := sb_playcount s1 - 1\<rparr>"
  ultimately have step: "play_step ihw hw kern ff i s = map_option (emit (SigMask False S)) (sb_write hw ff w)"
    by (simp add: play_step_def s1_def)
  have w: "bds w = chunk_done i (bds s)" "fd w = fd s" "fat w = fat s" "sb_playsize w = sb_playsize s"
    "sb_playcount w = of_nat c" "c < 2 ^ 32"
    using p(4,5) by (simp_all add: w_def s1_def s1)
  show thesis
  proof (cases rule: sb_write_cases [OF p(2) i w(1), of fp ff F D c hw, unfolded w(2-4), OF p(3) fp D w(5,6),
      case_names refill last])
    case (refill r)
    then show ?thesis
      by (intro that(1) [of "emit (SigMask False S) r"]) (auto simp: step sb_playing_def emit_def)
  next
    case (last s1)
    then show ?thesis by (intro that(2) [of S s1]) (simp_all add: step option.map_comp)
  qed
qed

section \<open>A whole playback\<close>

text \<open>A sequence of completed chunks, given by their indices; the contents of the chunks that were
  refilled are collected.\<close>

fun play_run ::
    "hw \<Rightarrow> hw \<Rightarrow> kern \<Rightarrow> 'v ff \<Rightarrow> nat list \<Rightarrow> ('v, 'a) sb_scheme \<Rightarrow>
      (('v, 'a) sb_scheme \<times> u8 list list) option" where
  "play_run ihw hw kern ff [] s = Some (s, [])"
| "play_run ihw hw kern ff (i # is) s = do {
     s \<leftarrow> play_step ihw hw kern ff i s;
     (s', outs) \<leftarrow> play_run ihw hw kern ff is s;
     Some (s', if sb_reg s = SB_WAIT then bytes_at (mem s) (sb_buf i) 8192 # outs else outs)
   }"

lemma chunks_Suc:
  "map (\<lambda>k. sb_chunk (drop (k * 8192) D)) [0..<Suc c] =
     sb_chunk D # map (\<lambda>k. sb_chunk (drop (k * 8192) (drop 8192 D))) [0..<c]"
  by (simp add: upt_conv_Cons map_Suc_upt [symmetric] comp_def add.commute del: upt_Suc map_Suc_upt)

lemma play_run_all:
  assumes "sb_irq_hw ihw" "kern_ok kern" "responds hw (ch_sr XDMA1_MM2S) (fld_on xdmasr ''halted'')"
  shows "\<lbrakk>sb_playing ff D (Suc c) s; length D \<le> c * 8192; length is = Suc c; \<forall>i \<in> set is. i < 2\<rbrakk> \<Longrightarrow>
    \<exists>s'. play_run ihw hw kern ff is s = Some (s', map (\<lambda>k. sb_chunk (drop (k * 8192) D)) [0..<c])
      \<and> sb_reg s' = SB_IDLE \<and> fd s' = - 1 \<and> open_files (fat s') = (open_files (fat s))[nat (fd s) := None]
      \<and> files (fat s') = files (fat s) - 1"
proof (induction c arbitrary: D s "is")
  case 0
  then obtain i where "is": "is = [i]" and i: "i < 2" by (cases "is") auto
  from 0 have fd: "fd_valid (fd s)" "open_files (fat s) ! nat (fd s) \<noteq> None" by (auto simp: sb_playing_def)
  show ?case
  proof (cases rule: play_step_cases [OF assms(1,2) i 0(1), of hw, case_names refill last])
    case (last s1 S)
    from sb_close_returns [OF assms(3), of ff s1] obtain s' where
      "sb_close hw ff s1 = Some s'" "sb_reg s' = SB_IDLE" "fd s' = - 1" "fat s' = fat_fclose ff (fd s1) (fat s1)"
      by blast
    with last fd show ?thesis
      by (auto simp: "is" emit_def fat_fclose_def set_fatErrCode_def split_beta Let_def split: option.splits)
  qed (use 0 in auto)
next
  case (Suc c)
  then obtain i is' where "is": "is = i # is'" and i: "i < 2" by (cases "is") auto
  show ?case
  proof (cases rule: play_step_cases [OF assms(1,2) i Suc.prems(1), of hw, case_names refill last])
    case (refill s1)
    have "length (drop 8192 D) \<le> c * 8192" using Suc.prems(2) by simp
    from Suc.IH [OF refill(3) this] Suc.prems(3,4) "is" obtain s' where
      "play_run ihw hw kern ff is' s1 = Some (s', map (\<lambda>k. sb_chunk (drop (k * 8192) (drop 8192 D))) [0..<c])"
      "sb_reg s' = SB_IDLE" "fd s' = - 1" "open_files (fat s') = (open_files (fat s1))[nat (fd s1) := None]"
      "files (fat s') = files (fat s1) - 1" by auto
    moreover have "sb_reg s1 = SB_WAIT" using refill(3) by (simp add: sb_playing_def)
    ultimately show ?thesis using refill chunks_Suc [of D c] by (simp add: "is" del: upt_Suc)
  qed simp
qed


lemma chunks_concat:
  "length D \<le> c * 8192 \<Longrightarrow> concat (map (\<lambda>k. sb_chunk (drop (k * 8192) D)) [0..<c]) =
     D @ replicate (c * 8192 - length D) SB_S_SAMPLE"
proof (induction c arbitrary: D)
  case (Suc c)
  from Suc.prems have "length (drop 8192 D) \<le> c * 8192" by simp
  from Suc.IH [OF this] have
    "concat (map (\<lambda>k. sb_chunk (drop (k * 8192) D)) [0..<Suc c]) =
      sb_chunk D @ drop 8192 D @ replicate (c * 8192 - (length D - 8192)) SB_S_SAMPLE"
    by (simp only: chunks_Suc) simp
  also have "\<dots> = D @ replicate (Suc c * 8192 - length D) SB_S_SAMPLE"
  proof (cases "length D \<le> 8192")
    case True
    then have "Suc c * 8192 - length D = (8192 - length D) + c * 8192" by simp
    with True show ?thesis by (simp only: sb_chunk_def replicate_add) simp
  next
    case False
    then have "Suc c * 8192 - length D = c * 8192 - (length D - 8192)" by simp
    with False show ?thesis by (simp only: sb_chunk_def) (simp flip: append_assoc)
  qed
  finally show ?case .
qed simp

lemma sb_ring_start: "bd_ring B XDMA1_MM2S_BDRING XDMA1_IO_BUFFER SB_BUFF_CHUNK 2 \<Longrightarrow> sb_ring B"
proof -
  have "fld_get desc_control ''buffer_len'' (ring_ctl SB_BUFF_CHUNK) = SB_BUFF_CHUNK"
    by (simp add: ring_ctl_fields)
  moreover have "\<not> fld_on desc_status ''cmplt'' (0 :: u32)" by (simp add: fld_on_def fld_get_def)
  ultimately show "bd_ring B XDMA1_MM2S_BDRING XDMA1_IO_BUFFER SB_BUFF_CHUNK 2 \<Longrightarrow> sb_ring B"
    by (simp add: bd_ring_def sb_ring_def zero_desc_def)
qed

lemma sgcyclic_starts:
  assumes hw: "fst (xsgdma_sgallowed hw XDMA1_MM2S s)"
    "responds hw (ch_cr XDMA1_MM2S) (\<lambda>v. \<not> fld_on xdmacr ''reset'' v)"
  shows "\<exists>M B t. sb_ring B \<and> sbdma_sgcyclic hw SB_S_SAMPLE SB_MAX_BUFFER SB_BUFF_CHUNK s =
    Some (XDMA1_IO_BUFFER, s\<lparr>mem := M, bds := B, sbdma_cmplt := False, sbdma_buserr := False, bus := t\<rparr>)"
proof -
  have args: "sg_args_ok SB_MAX_BUFFER SB_BUFF_CHUNK = Some True" by (simp add: sg_args_ok_def)
  obtain t where al: "xsgdma_sgallowed hw XDMA1_MM2S s = (True, s\<lparr>bus := t\<rparr>)"
    using hw(1) by (auto simp: xsgdma_sgallowed_def ld32_def emit_def Let_def)
  obtain t1 where rst: "st_fld hw xdmacr ''reset'' 1 (ch_cr XDMA1_MM2S) (s\<lparr>bus := t\<rparr>) = s\<lparr>bus := t1\<rparr>"
    by (simp add: st_fld_def ld32_def st32_def emit_def)
  from responds_await [OF hw(2), of "s\<lparr>bus := t1\<rparr>"] obtain x where
    x: "await hw (ch_cr XDMA1_MM2S) (\<lambda>v. \<not> fld_on xdmacr ''reset'' v) (s\<lparr>bus := t1\<rparr>) = Some x" by blast
  from await_bus [OF this] obtain t2 where "x = s\<lparr>bus := t2\<rparr>" by auto
  with x have aw: "await hw (ch_cr XDMA1_MM2S) (\<lambda>v. \<not> fld_on xdmacr ''reset'' v) (s\<lparr>bus := t1\<rparr>) =
    Some (s\<lparr>bus := t2\<rparr>)" by simp
  define m where "m = xdcache_flush XDMA1_IO_BUFFER SB_MAX_BUFFER
    (s\<lparr>bus := t2, mem := memset XDMA1_IO_BUFFER SB_S_SAMPLE SB_MAX_BUFFER (mem s)\<rparr>)"
  define r where "r = snd (xsgdma_ring XDMA1_MM2S_BDRING XDMA1_IO_BUFFER SB_MAX_BUFFER SB_BUFF_CHUNK m)"
  have "bd_ring (bds r) XDMA1_MM2S_BDRING XDMA1_IO_BUFFER SB_BUFF_CHUNK 2"
    using xsgdma_ring_bds(2) [OF args, of XDMA1_MM2S_BDRING XDMA1_IO_BUFFER m] by (simp add: r_def)
  then have ring: "sb_ring (bds r)" by (rule sb_ring_start)
  have "r = m\<lparr>bds := bds r, bus := bus r\<rparr>"
    by (subst (1 2 3) r_def, subst (1 2) xsgdma_ring_frame) simp
  then obtain t3 where r: "r = s\<lparr>mem := mem m, bds := bds r, bus := t3\<rparr>"
    by (auto simp: m_def xdcache_flush_def emit_def)
  have "sbdma_sgcyclic hw SB_S_SAMPLE SB_MAX_BUFFER SB_BUFF_CHUNK s = Some (XDMA1_IO_BUFFER,
      xsgdma_cyclicTrans XDMA1_MM2S XDMA1_MM2S_BDRING (r\<lparr>sbdma_cmplt := False, sbdma_buserr := False\<rparr>))"
    using al rst aw by (simp add: sbdma_sgcyclic_def args r_def m_def case_prod_beta Let_def)
  then show ?thesis using ring
    by (subst (asm) r)
      (auto simp: xsgdma_cyclicTrans_def st32_def emit_def Let_def intro!: exI [of _ "mem m"] exI [of _ "bds r"])
qed

lemma sb_idle_starts:
  assumes idle: "sb_reg s = SB_IDLE" "fd_valid (fd s)"
    and hw: "fst (xsgdma_sgallowed hw XDMA1_MM2S s)"
      "responds hw (ch_cr XDMA1_MM2S) (\<lambda>v. \<not> fld_on xdmacr ''reset'' v)"
    and fp: "open_files (fat s) ! nat (fd s) = Some fp" "file_at ff fp (vol (fat s)) F"
    and c: "sb_playcount s = of_nat c" "Suc c < 2 ^ 32"
  shows "\<exists>s0. sb_service hw kern ff s = Some s0 \<and> fat s0 = fat s \<and> fd s0 = fd s
    \<and> sb_playing ff (take (unat (sb_playsize s)) F) (Suc c) s0"
proof -
  let ?s = "s\<lparr>sb_playcount := sb_playcount s + 1, sb_reg := SB_WAIT\<rparr>"
  have "fst (xsgdma_sgallowed hw XDMA1_MM2S ?s)"
    using hw(1) by (simp add: xsgdma_sgallowed_def ld32_def Let_def)
  from sgcyclic_starts [OF this hw(2)] obtain M B t where ring: "sb_ring B"
    and cyc: "sbdma_sgcyclic hw SB_S_SAMPLE SB_MAX_BUFFER SB_BUFF_CHUNK ?s =
      Some (XDMA1_IO_BUFFER, ?s\<lparr>mem := M, bds := B, sbdma_cmplt := False, sbdma_buserr := False, bus := t\<rparr>)"
    by blast
  have "sb_service hw kern ff s =
      Some (?s\<lparr>mem := M, bds := B, sbdma_cmplt := False, sbdma_buserr := False, bus := t\<rparr>)"
    using idle cyc by (simp add: sb_service_def sb_idle_def fd_valid_def Let_def)
  then show ?thesis
    using ring idle(2) fp c by (auto simp: sb_playing_def intro!: exI [of _ fp] exI [of _ F])
qed


text \<open>The \<open>play\<close> command leaves the counters a playback starts from: one completion per started
  chunk of samples and one for silence.\<close>

lemma round_up_div: "(n + 8191) div 8192 = (if n mod 8192 > 0 then n div 8192 + 1 else n div 8192)" for n :: nat
proof -
  define r where "r = n mod 8192"
  have "n + 8191 = n div 8192 * 8192 + (r + 8191)" "r < 8192" by (simp_all add: r_def)
  then have "(n + 8191) div 8192 = n div 8192 + (r + 8191) div 8192" by (simp only: div_mult_self3)
  moreover have "(r + 8191) div 8192 = (if r > 0 then 1 else 0)"
    using \<open>r < 8192\<close> by (auto intro: div_nat_eqI)
  ultimately show ?thesis by (simp add: r_def)
qed

definition play_packets :: "u32 \<Rightarrow> u32" where
  "play_packets p = (if p mod SB_BUFF_CHUNK > 0 then p div SB_BUFF_CHUNK + 1 else p div SB_BUFF_CHUNK) + 1"

lemma play_packets_eq: "unat (play_packets p) = (unat p + 8191) div 8192 + 1"
proof -
  have lt: "unat p div 8192 < 524288" using unat_u32_less [of p] by (simp add: div_less_iff_less_mult)
  have "unat (p div SB_BUFF_CHUNK) = unat p div 8192" "unat (p mod SB_BUFF_CHUNK) = unat p mod 8192"
    by (simp_all add: unat_div unat_mod)
  then show ?thesis unfolding round_up_div using lt
    by (simp add: play_packets_def word_less_nat_alt unat_word_ariths)
qed

lemma sb_m_counts:
  assumes "sb_m ff fr junk argv s = Some (0, s')"
  shows "sb_playcount s' = play_packets (sb_playsize s')" "0 \<le> fd s'"
  using assms
  by (auto simp: sb_m_def play_packets_def emit_def Let_def bind_eq_Some_conv
      split: if_splits prod.splits)

text \<open>The command does not ask whether a file is being played: a second \<open>play\<close> replaces the
  descriptor, and the first file stays open for good.\<close>

theorem play_again_leaks:
  assumes inv: "fat_inv (fat s)" and "is_open (fd s) (fat s)" and "sb_m ff fr junk argv s = Some (0, s')"
  shows "fd s' \<noteq> fd s \<and> is_open (fd s) (fat s')"
proof -
  have fopen: "nat d \<noteq> nat (fd s) \<and> open_files f ! nat (fd s) = open_files (fat s) ! nat (fd s)"
    if "fat_fopen ff p m (fat s) = Some (d, f)" "0 \<le> d" for p m d f
  proof -
    from fat_fopen_ok [OF inv, of ff p m] that have "open_files (fat s) ! nat d = None"
      and new: "open_files f = (open_files (fat s))[nat d := Some (nat d)]" by (auto split: if_splits)
    with assms(2) have "nat d \<noteq> nat (fd s)" by (auto simp: is_open_def)
    with new show ?thesis by simp
  qed
  have keep: "open_files (fat_fclose ff d f) ! k = open_files f ! k" if "nat d \<noteq> k" for d k and f :: "'a fat"
    using that by (auto simp: fat_fclose_def set_fatErrCode_def Let_def split: option.splits prod.splits)
  have rd: "open_files f' = open_files f" if "fat_fread ff d n f = (k, b, f')" for d n k b and f f' :: "'a fat"
    using that by (auto simp: fat_fread_def set_fatErrCode_def Let_def split: if_splits prod.splits)
  from assms(3) show ?thesis
    using assms(2)
    by (auto simp: sb_m_def emit_def Let_def bind_eq_Some_conv is_open_def keep dest!: fopen rd
        split: if_splits prod.splits)
qed

section \<open>Properties\<close>



text \<open>A volume with one open file whose state is the rest of the file, a channel that is idle and
  halts at once, and a file of three samples.\<close>

definition no_entry :: FILINFO where
  "no_entry = \<lparr>fsize = 0, fdate = 0, ftime = 0, crdate = 0, crtime = 0, fattrib = 0, fname = []\<rparr>"

definition demo_ff :: "u8 list ff" where
  "demo_ff = \<lparr>f_mount = (\<lambda>_ v. (FR_OK, v)), f_unmount = (\<lambda>_ v. (FR_OK, v)), f_chdir = (\<lambda>_ v. (FR_OK, v)),
     f_mkdir = (\<lambda>_ v. (FR_OK, v)), f_unlink = (\<lambda>_ v. (FR_OK, v)), f_stat = (\<lambda>_ v. (FR_NO_FILE, no_entry, v)),
     f_getcwd = (\<lambda>_ v. (FR_OK, [], v)), f_findfirst = (\<lambda>_ _ v. (FR_NO_FILE, no_entry, v)),
     f_findnext = (\<lambda>v. (FR_NO_FILE, no_entry, v)), f_closedir = id, f_size = (\<lambda>_ v. of_nat (length v)),
     f_close = (\<lambda>_ v. (FR_OK, v)), f_open = (\<lambda>_ _ _ v. (FR_OK, v)),
     f_read = (\<lambda>_ n v. (FR_OK, take (unat n) v, of_nat (length (take (unat n) v)), drop (unat n) v)),
     f_write = (\<lambda>_ _ _ v. (FR_DENIED, 0, v))\<rparr>"

lemma demo_file: "file_at demo_ff fp v v"
  by (coinduction arbitrary: v rule: file_at.coinduct) (auto simp: demo_ff_def)

definition demo_sb :: "u8 list sb" where
  "demo_sb = xdma.extend xdma_boot (sb.fields
     \<lparr>files = 1, error_code = FAT_OK, open_files = Some 0 # replicate 9 None, vol = [10, 20, 30]\<rparr>
     0 SB_IDLE 3 2)"

definition demo_hw :: hw where
  "demo_hw t a = (if a = ch_sr XDMA1_MM2S then 0x1009 else 0)"


end
