(* ===== verification/Spec2Isabelle.thy ===== *)
theory Spec2Isabelle
  imports Entry Fat Storage Ide_Detect X86_Blk X86_Cursor X86_Ps2 X86_Irq Mb_Cache Std X86_Prompt Avr_Wheels Sysmon Sec Sb_Play
begin

text \<open>
  \<^bold>\<open>Verification of the RPV platforms: drivers and services of an event-driven operating system.\<close>

  The repository holds the platform code of one operating system for three targets: a MicroBlaze
  board (\<open>src/arch/mb_le\<close>), a PC (\<open>src/arch/x86_64\<close>) and an AVR microcontroller (\<open>src/arch/mc_avr\<close>),
  and the adapter to the FatFs file system (\<open>src/fatfs\<close>). Interrupt handlers fill rings and set
  flags; services, polled by the kernel one after the other, take from the rings and react to the
  flags; shell commands run between them. The kernel, the shell, FatFs, lwIP and the security
  runtime are not part of the repository. Paths below are relative to \<open>src/\<close> of the repository.

  \<^bold>\<open>The model.\<close> A device is a function from the history of all bus accesses to the value a load
  returns (\<open>hw\<close>, theory \<open>Prelude\<close>); loads, stores, cache maintenance and calls into the kernel
  extend the history, so their order is part of every statement. Registers with bit-fields are
  layouts, lists of field names and widths, as the unions of the code. The static variables of a
  driver are the fields of a record that extends \<open>machine\<close> (history and memory); every function of
  the code is one definition on that record. Integers keep their width as words. A loop that
  polls a device is a \<open>partial_function\<close> with value \<open>None\<close> when it never ends, so every theorem
  that a call returns proves that value away from the documented behaviour of the device; no fuel is
  used anywhere. Memory an object leaves uninitialised is an argument (\<open>junk\<close>), as is every external function;
  what is relied on of it is a named hypothesis, shown to hold for a concrete instance by the
  witness of the theorem.

  \<^bold>\<open>Shared theories.\<close>
  \<^item> \<open>Prelude\<close>: history, memory, register layouts (locale \<open>reg_layout\<close>, interpreted for
    every register struct), busy-waits, signals of the kernel.
  \<^item> \<open>Ring\<close>: ring buffers with a free slot; the locale \<open>bounded_queue\<close> states what a drop-oldest queue
    promises and proves that any sequence of arrivals and reads behaves like it; it is interpreted for
    the UART rings of both targets and for the ethernet receive ring.

  \<^bold>\<open>MicroBlaze target.\<close>
  \<^item> \<open>Xintc\<close> (\<open>sys/xintc.c\<close>), \<open>Xcache\<close> (\<open>sys/xcache.c\<close>): interrupt controller and cache.
  \<^item> \<open>Mb_Cache\<close> (\<open>sys.S\<close>): the cache routines in assembly on a processor with two cache levels.
  \<^item> \<open>Xuart\<close> (\<open>sys/xuart.c\<close>, \<open>tty.c\<close>, \<open>console.c\<close>, \<open>prompt.c\<close>, \<open>services/uart_service.c\<close>): the receive ring
    refines a queue of seven bytes, the handler drains the FIFO, the service publishes, the
    console transmits; where a read races with the handler.
  \<^item> \<open>Xdma\<close> (\<open>sys/xdma.c\<close>) with \<open>Xdma_Ring\<close> (descriptor rings), \<open>Xdma_Rx\<close> (account of received frames),
    \<open>Xdma_Frames\<close> (the frames delivered), \<open>Xdma_Tx\<close> (transmit queue), \<open>Xdma_Io\<close> (start, SD card).
  \<^item> \<open>Xtemac_Phy\<close> (\<open>sys/xtemac_phy.c\<close>), \<open>Xtemac\<close> (\<open>sys/xtemac.c\<close>): PHY and MAC, start, link, recovery.
  \<^item> \<open>Eth_Service\<close> (\<open>services/eth_service.c\<close>, \<open>netdev.c\<close>): the glue to lwIP. lwIP may call back into the
    output hook at any time; the input handler still delivers every frame, and signals are handled.
  \<^item> \<open>Xtimer\<close> (\<open>sys/xtimer.c\<close>, \<open>services/timer_service.c\<close>): time with the overflow interrupt anywhere.
  \<^item> \<open>Rtmsure\<close> (\<open>sys/rtmsure.c\<close>, \<open>services/rtmsure_service.c\<close>), \<open>Sysmon\<close> (\<open>sys/tsensor.c\<close>,
    \<open>services/temp_service.c\<close>, \<open>sys/rwmon32.c\<close>, \<open>sys/xexcept.c\<close>): measurements and the memory monitor.
  \<^item> \<open>Rsdcard\<close> (\<open>sys/rsdcard.c\<close>), \<open>Storage\<close> (\<open>storage.c\<close>): the SD card as a disk.
  \<^item> \<open>Sb\<close>, \<open>Sb_Play\<close> (\<open>services/sb_service.c\<close>): the playback state machine plays a file to its end.
  \<^item> \<open>Sec\<close> (\<open>services/sec_service.c\<close>): service states, secure store and hash.
  \<^item> \<open>Entry\<close> (\<open>entry.c\<close>): the start of all drivers, on the state of the whole board.

  \<^bold>\<open>File system.\<close> \<open>Diskio\<close> (\<open>fatfs/diskio.c\<close>) over any block device (locale \<open>block_device\<close>, interpreted for the
  SD card and the IDE disks), \<open>Fat\<close> (\<open>fatfs/fat.c\<close>): the table of open files and its invariant,
  directory listing, dates.

  \<^bold>\<open>PC target.\<close> The C code rests on routines in assembly, which are modelled on an x86-64 processor, one
  instruction per line (\<open>X86_Cpu\<close>, \<open>X86_Io\<close> for the ports); a call returns only if the routine gives back the stack it was given.
  \<^item> \<open>X86_Mem\<close> (\<open>sys/memory.asm\<close>, \<open>memory.c\<close>), \<open>X86_Blk\<close>: the string and memory functions and what they compute.
  \<^item> \<open>Pata\<close> (\<open>pata.c\<close>): IDE disks over any port routines; \<open>Ide_Ports\<close> (\<open>sys/pata.asm\<close>): the port routines;
    \<open>Ide_Disk\<close>: they transfer sectors on a bus of drives given as an automaton over the port accesses;
    \<open>Ide_System\<close>, \<open>Ide_Detect\<close>: both together, reading back what was written, errors, large sector numbers, detection.
  \<^item> \<open>Print\<close> (\<open>print.c\<close>, \<open>console.c\<close>): the screen refines an abstract terminal; \<open>X86_Cursor\<close>
    (\<open>sys/text_hwcursor.asm\<close>): the cursor registers of the controller follow it.
  \<^item> \<open>Keyb\<close> (\<open>keyb.c\<close>): the decoder refines an abstract keyboard; \<open>X86_Irq\<close> (\<open>sys/isrs.asm\<close>): the interrupt
    that feeds it, taken anywhere in a program; \<open>X86_Ps2\<close> (\<open>sys/ps2.asm\<close>): the set-up of the controller.
  \<^item> \<open>Std\<close> (\<open>std.c\<close>): number parsing; \<open>X86_Prompt\<close>
    (\<open>prompt.c\<close>, \<open>entry.c\<close>).

  \<^bold>\<open>AVR target.\<close> \<open>Avr_Uart\<close> (\<open>sys/uart.c\<close>, \<open>sys/tty.c\<close>, \<open>sys/prompt.c\<close>, \<open>services/uart_service.c\<close>): receive path
  as a filtered queue; \<open>Avr_Wheels\<close> (\<open>sys/gpio.c\<close>, \<open>sys/spi.c\<close>, \<open>sys.c\<close>, \<open>services/wheels_service.c\<close>, \<open>entry.c\<close>).

  \<^bold>\<open>Composition.\<close> The start (\<open>Entry\<close>) establishes what the running system relies on: every line
  armed with its handler, both ethernet queues in the state their theorems begin with. From there the
  receive interrupt keeps \<open>rx_ready\<close> (\<open>Xdma_Frames\<close>), the ethernet service keeps \<open>eth_inv\<close> while lwIP
  transmits, and recovery re-establishes it after a bus error (\<open>Eth_Service\<close>). Put together
  (\<open>Entry\<close>): from the start of the board on, lwIP is handed what a nine-frame
  queue would hand it. Playback composes the
  sound DMA with the file layer (\<open>Sb_Play\<close>), storage the SD card with \<open>Diskio\<close> (\<open>Storage\<close>).

  \<^bold>\<open>Interleaving.\<close> Interrupts are interleaved as steps between calls (\<open>rx_step\<close>, \<open>tx_step\<close>, queue
  operations) and, where a call is not atomic and the code depends on it, inside the call: in the UART read
  (\<open>Xuart\<close>) and in the time reading (\<open>Xtimer\<close>).

  \<^bold>\<open>Not modelled.\<close> The remaining assembly (start-up code and page tables, exception entry, interrupt controllers and
  system timer of the PC), linker scripts and build
  files, the port header of lwIP, and the empty services. The kernel's event queue and scheduling
  are outside the repository: a published key, a raised signal and a line of output are events of the
  history. The registers' reserved words and the register structs' unused members have no definition.
\<close>

end
